(* ===== verification/Prelude.thy ===== *)
theory Prelude
  imports Main "HOL-Library.List_Lexorder" "HOL-Library.Char_ord" "HOL-Library.Sublist"
begin

text \<open>
  What every component of the model shares: Go's strings and the standard library functions
  the source calls on them, Go's error values, directories of a journal, and the generic
  interfaces (a keyed store, a transition system with an inductive invariant) that the
  components interpret on their own definitions.

  A Go \<open>string\<close> or \<open>[]byte\<close> is a sequence of bytes, so both are Isabelle's \<open>string\<close>,
  a list of 8-bit characters.
\<close>

named_theorems go_simps \<open>evaluation rules for the modelled Go library functions\<close>

subsection \<open>Go strings\<close>

text \<open>
  \<open>strings.TrimSpace\<close> removes white space runes at both ends. On the UTF-8 bytes those are
  six ASCII characters (one byte), U+0085 and U+00A0 (two bytes), and U+1680, U+2000 to
  U+200A, U+2028, U+2029, U+202F, U+205F and U+3000 (three bytes).
\<close>

definition ascii_space :: "char \<Rightarrow> bool" where
  "ascii_space c \<longleftrightarrow> c \<in> set [CHR 0x09, CHR 0x0A, CHR 0x0B, CHR 0x0C, CHR 0x0D, CHR 0x20]"

definition space2 :: "char \<Rightarrow> char \<Rightarrow> bool" where
  "space2 a b \<longleftrightarrow> a = CHR 0xC2 \<and> (b = CHR 0x85 \<or> b = CHR 0xA0)"

definition space3 :: "char \<Rightarrow> char \<Rightarrow> char \<Rightarrow> bool" where
  "space3 a b c \<longleftrightarrow>
     a = CHR 0xE1 \<and> b = CHR 0x9A \<and> c = CHR 0x80 \<or>
     a = CHR 0xE2 \<and> b = CHR 0x80 \<and>
       c \<in> set [CHR 0x80, CHR 0x81, CHR 0x82, CHR 0x83, CHR 0x84, CHR 0x85, CHR 0x86, CHR 0x87,
               CHR 0x88, CHR 0x89, CHR 0x8A, CHR 0xA8, CHR 0xA9, CHR 0xAF] \<or>
     a = CHR 0xE2 \<and> b = CHR 0x81 \<and> c = CHR 0x9F \<or>
     a = CHR 0xE3 \<and> b = CHR 0x80 \<and> c = CHR 0x80"

fun space_at_start :: "string \<Rightarrow> nat" where
  "space_at_start [] = 0"
| "space_at_start (a # s) =
     (if ascii_space a then 1
      else case s of
        [] \<Rightarrow> 0
      | b # s' \<Rightarrow> if space2 a b then 2
                 else (case s' of [] \<Rightarrow> 0 | c # _ \<Rightarrow> if space3 a b c then 3 else 0))"

text \<open>The same test on the reversed string, for the trailing end.\<close>

fun space_at_end :: "string \<Rightarrow> nat" where
  "space_at_end [] = 0"
| "space_at_end (a # s) =
     (if ascii_space a then 1
      else case s of
        [] \<Rightarrow> 0
      | b # s' \<Rightarrow> if space2 b a then 2
                 else (case s' of [] \<Rightarrow> 0 | c # _ \<Rightarrow> if space3 c b a then 3 else 0))"

lemma space_at_start_le: "space_at_start s \<le> length s"
  by (cases s) (auto split: list.splits)

lemma space_at_end_le: "space_at_end s \<le> length s"
  by (cases s) (auto split: list.splits)

function trim_by :: "(string \<Rightarrow> nat) \<Rightarrow> string \<Rightarrow> string" where
  "trim_by sp s = (if s = [] \<or> sp s = 0 then s else trim_by sp (drop (sp s) s))"
  by pat_completeness auto
termination
  by (relation "measure (\<lambda>(sp, s). length s)") auto

declare trim_by.simps [simp del]

definition TrimSpace :: "string \<Rightarrow> string" where
  "TrimSpace s = rev (trim_by space_at_end (rev (trim_by space_at_start s)))"

lemma trim_by_Nil [simp]: "trim_by sp [] = []"
  by (simp add: trim_by.simps)

lemma trim_by_keep: "sp s = 0 \<Longrightarrow> trim_by sp s = s"
  by (simp add: trim_by.simps)

lemma trim_by_fixed: "trim_by sp s = [] \<or> sp (trim_by sp s) = 0"
proof (induction sp s rule: trim_by.induct)
  case (1 sp s)
  then show ?case
    by (cases "s = [] \<or> sp s = 0") (auto simp: trim_by.simps [of sp s])
qed

lemma trim_by_idem: "trim_by sp (trim_by sp s) = trim_by sp s"
  using trim_by_fixed [of sp s] by (auto intro: trim_by_keep)

lemma trim_by_suffix: "\<exists>p. s = p @ trim_by sp s"
proof (induction sp s rule: trim_by.induct)
  case (1 sp s)
  show ?case
  proof (cases "s = [] \<or> sp s = 0")
    case True
    then show ?thesis by (simp add: trim_by.simps [of sp s])
  next
    case False
    from "1.IH" [OF False] obtain p where "drop (sp s) s = p @ trim_by sp (drop (sp s) s)" ..
    then have "s = (take (sp s) s @ p) @ trim_by sp s"
      using False by (simp add: trim_by.simps [of sp s] flip: \<open>drop (sp s) s = _\<close>)
    then show ?thesis by blast
  qed
qed

lemma TrimSpace_Nil [simp]: "TrimSpace [] = []"
  by (simp add: TrimSpace_def)

lemma TrimSpace_sublist: "\<exists>p q. s = p @ TrimSpace s @ q"
proof -
  obtain p where p: "s = p @ trim_by space_at_start s"
    using trim_by_suffix by blast
  obtain q where q: "rev (trim_by space_at_start s) =
      q @ trim_by space_at_end (rev (trim_by space_at_start s))"
    using trim_by_suffix by blast
  have "trim_by space_at_start s = TrimSpace s @ rev q"
    using arg_cong [OF q, of rev] by (simp add: TrimSpace_def)
  with p show ?thesis by metis
qed

lemma set_TrimSpace: "set (TrimSpace s) \<subseteq> set s"
  using TrimSpace_sublist [of s] by (metis Un_iff set_append subsetI)

lemma TrimSpace_keep:
  "space_at_start s = 0 \<Longrightarrow> space_at_end (rev s) = 0 \<Longrightarrow> TrimSpace s = s"
  by (simp add: TrimSpace_def trim_by_keep)

text \<open>\<open>strings.HasPrefix\<close>, \<open>strings.TrimPrefix\<close>, \<open>strings.Cut\<close> at a one-byte separator,
  \<open>strings.Split\<close> at a one-byte separator and \<open>strings.Contains\<close>.\<close>

definition HasPrefix :: "string \<Rightarrow> string \<Rightarrow> bool" where
  "HasPrefix s p \<longleftrightarrow> take (length p) s = p"

definition TrimPrefix :: "string \<Rightarrow> string \<Rightarrow> string" where
  "TrimPrefix s p = (if HasPrefix s p then drop (length p) s else s)"

fun Cut :: "char \<Rightarrow> string \<Rightarrow> (string \<times> string) option" where
  "Cut c [] = None"
| "Cut c (x # xs) = (if x = c then Some ([], xs)
     else map_option (\<lambda>(a, b). (x # a, b)) (Cut c xs))"

fun Split :: "char \<Rightarrow> string \<Rightarrow> string list" where
  "Split c [] = [[]]"
| "Split c (x # xs) =
     (if x = c then [] # Split c xs
      else case Split c xs of [] \<Rightarrow> [[x]] | y # ys \<Rightarrow> (x # y) # ys)"

fun Contains :: "string \<Rightarrow> string \<Rightarrow> bool" where
  "Contains [] p = (p = [])"
| "Contains (x # xs) p = (HasPrefix (x # xs) p \<or> Contains xs p)"

lemma Cut_append: "c \<notin> set a \<Longrightarrow> Cut c (a @ c # b) = Some (a, b)"
  by (induction a) auto

lemma Cut_Some: "Cut c s = Some (a, b) \<Longrightarrow> s = a @ c # b \<and> c \<notin> set a"
  by (induction s arbitrary: a) (auto split: if_splits)

lemma Contains_append: "Contains (a @ p @ b) p"
proof (induction a)
  case Nil
  have "HasPrefix (p @ b) p" by (simp add: HasPrefix_def)
  then show ?case by (cases "p @ b") auto
qed simp

text \<open>Decimal and hexadecimal printing, as \<open>%d\<close> and \<open>%x\<close> do.\<close>

definition digit_char :: "nat \<Rightarrow> char" where
  "digit_char n = ''0123456789abcdef'' ! (n mod 16)"

fun show_nat :: "nat \<Rightarrow> string" where
  "show_nat n = (if n < 10 then [digit_char n] else show_nat (n div 10) @ [digit_char (n mod 10)])"

declare show_nat.simps [simp del]

definition show_int :: "int \<Rightarrow> string" where
  "show_int i = (if i < 0 then CHR ''-'' # show_nat (nat (- i)) else show_nat (nat i))"

fun hex_bytes :: "string \<Rightarrow> string" where
  "hex_bytes [] = []"
| "hex_bytes (c # cs) =
     digit_char (of_char c div 16) # digit_char (of_char c mod 16) # hex_bytes cs"

lemma digit_char_inj: "m < 16 \<Longrightarrow> n < 16 \<Longrightarrow> digit_char m = digit_char n \<Longrightarrow> m = n"
proof -
  assume m: "m < 16" and n: "n < 16" and eq: "digit_char m = digit_char n"
  have d: "distinct ''0123456789abcdef''" by simp
  from m n eq show "m = n"
    unfolding digit_char_def by (simp add: nth_eq_iff_index_eq [OF d])
qed

lemma length_hex_bytes [simp]: "length (hex_bytes s) = 2 * length s"
  by (induction s) auto

lemma hex_bytes_inj: "hex_bytes s = hex_bytes t \<Longrightarrow> s = t"
proof (induction s arbitrary: t)
  case Nil
  then show ?case by (cases t) auto
next
  case (Cons c cs)
  then obtain d ds where t: "t = d # ds" by (cases t) auto
  have bounds: "(of_char x :: nat) div 16 < 16" "(of_char x :: nat) mod 16 < 16" for x :: char
    using nat_of_char_less_256 [of x] by linarith+
  have "(of_char c :: nat) div 16 = of_char d div 16" "(of_char c :: nat) mod 16 = of_char d mod 16"
    using Cons.prems t bounds by (auto intro: digit_char_inj)
  then have "(of_char c :: nat) = of_char d"
    by (metis div_mult_mod_eq)
  moreover have "cs = ds" using Cons t by simp
  ultimately show ?case using t by simp
qed

text \<open>\<open>%q\<close>: Go's quoted form of a string, with the escapes of \<open>strconv.Quote\<close> for ASCII;
  bytes above 0x7F are copied.\<close>

fun quote_char :: "char \<Rightarrow> string" where
  "quote_char c =
     (if c = CHR 0x22 \<or> c = CHR 0x5C then [CHR 0x5C, c]
      else if c = CHR 0x0A then [CHR 0x5C, CHR ''n'']
      else if c = CHR 0x0D then [CHR 0x5C, CHR ''r'']
      else if c = CHR 0x09 then [CHR 0x5C, CHR ''t'']
      else if c = CHR 0x07 then [CHR 0x5C, CHR ''a'']
      else if c = CHR 0x08 then [CHR 0x5C, CHR ''b'']
      else if c = CHR 0x0C then [CHR 0x5C, CHR ''f'']
      else if c = CHR 0x0B then [CHR 0x5C, CHR ''v'']
      else if of_char c < (32 :: nat) \<or> of_char c = (127 :: nat)
        then [CHR 0x5C, CHR ''x''] @ hex_bytes [c]
      else [c])"

definition go_quote :: "string \<Rightarrow> string" where
  "go_quote s = [CHR 0x22] @ concat (map quote_char s) @ [CHR 0x22]"

subsection \<open>Go error values\<close>

text \<open>
  An error is what the code can observe of it: its text (\<open>err.Error()\<close>), whether
  \<open>os.IsNotExist\<close> holds of it, and which sentinel it wraps (\<open>errors.Is\<close>). \<open>Wrapf pre e post\<close> is
  \<open>fmt.Errorf("pre%wpost", e)\<close>.
\<close>

datatype error =
    Errorf string
  | NotExist string
  | Canceled
  | DeadlineExceeded
  | Wrapf string error string

type_synonym 'a res = "error + 'a"

primrec error_text :: "error \<Rightarrow> string" where
  "error_text (Errorf m) = m"
| "error_text (NotExist m) = m @ '': no such file or directory''"
| "error_text Canceled = ''context canceled''"
| "error_text DeadlineExceeded = ''context deadline exceeded''"
| "error_text (Wrapf pre e post) = pre @ error_text e @ post"

text \<open>\<open>os.IsNotExist\<close> looks at the error itself and does not unwrap.\<close>

fun IsNotExist :: "error \<Rightarrow> bool" where
  "IsNotExist (NotExist _) = True"
| "IsNotExist _ = False"

fun errors_Is :: "error \<Rightarrow> error \<Rightarrow> bool" where
  "errors_Is (Wrapf pre e post) t = (Wrapf pre e post = t \<or> errors_Is e t)"
| "errors_Is e t = (e = t)"

subsection \<open>Transition systems\<close>

text \<open>
  A component with interleaved operations is a set of start states and a step relation. The
  contract of the locale is that an invariant holds at the start and is kept by every step;
  its client lemma is that it holds in every reachable state.
\<close>

locale transition_system =
  fixes init :: "'s \<Rightarrow> bool"
    and step :: "'s \<Rightarrow> 's \<Rightarrow> bool"
    and inv :: "'s \<Rightarrow> bool"
  assumes inv_init: "init s \<Longrightarrow> inv s"
    and inv_step: "inv s \<Longrightarrow> step s t \<Longrightarrow> inv t"
begin

lemma inv_steps: "step\<^sup>*\<^sup>* s t \<Longrightarrow> inv s \<Longrightarrow> inv t"
  by (induction rule: rtranclp_induct) (auto intro: inv_step)

lemma inv_reachable: "init s \<Longrightarrow> step\<^sup>*\<^sup>* s t \<Longrightarrow> inv t"
  by (blast intro: inv_init inv_steps)

end

subsection \<open>Refinement of operations\<close>

text \<open>
  A component whose operations may fail implements a specification on abstract states when every
  operation that succeeds keeps the invariant and does what the specification says. The client
  lemma is the same for sequences of operations.
\<close>

primrec run_ops :: "('o \<Rightarrow> 's \<Rightarrow> 's option) \<Rightarrow> 'o list \<Rightarrow> 's \<Rightarrow> 's option" where
  "run_ops f [] s = Some s"
| "run_ops f (x # xs) s = (case f x s of None \<Rightarrow> None | Some t \<Rightarrow> run_ops f xs t)"

locale refined_ops =
  fixes abs :: "'s \<Rightarrow> 'a"
    and inv :: "'s \<Rightarrow> bool"
    and legal :: "'o \<Rightarrow> bool"
    and cstep :: "'o \<Rightarrow> 's \<Rightarrow> 's option"
    and astep :: "'o \<Rightarrow> 'a \<Rightarrow> 'a option"
  assumes step_inv: "inv s \<Longrightarrow> legal x \<Longrightarrow> cstep x s = Some t \<Longrightarrow> inv t"
    and step_abs: "inv s \<Longrightarrow> legal x \<Longrightarrow> cstep x s = Some t \<Longrightarrow> astep x (abs s) = Some (abs t)"
begin

lemma run_refines:
  "inv s \<Longrightarrow> list_all legal xs \<Longrightarrow> run_ops cstep xs s = Some t \<Longrightarrow>
     inv t \<and> run_ops astep xs (abs s) = Some (abs t)"
proof (induction xs arbitrary: s)
  case (Cons x xs)
  then obtain u where u: "cstep x s = Some u" "run_ops cstep xs u = Some t"
    by (auto split: option.splits)
  with Cons step_inv [of s x u] step_abs [of s x u] show ?case by simp
qed simp

end

subsection \<open>Lists and maps\<close>

lemma filter_id_conv_ball: "\<forall>x \<in> set xs. P x \<Longrightarrow> filter P xs = xs"
  by (induction xs) auto

lemma map_of_filter_fst:
  "map_of (filter (\<lambda>p. P (fst p)) xs) k = (if P k then map_of xs k else None)"
  by (induction xs) auto

end
