(* ===== verification/Store.thy ===== *)
theory Store
  imports Prelude
begin

text \<open>
  A directory of a journal as \<open>os.ReadDir\<close>, \<open>os.ReadFile\<close>, \<open>os.Remove\<close> and
  \<open>capabilities.FileWrite\<close> (executor/capabilities/fileops.go: write to a temporary file, then
  rename over the target) see it: the files in the order of their names, each a subdirectory, a
  file whose contents decode to a value, or a file whose contents do not decode.

  The locale \<open>keyed_store\<close> is the interface the journals rely on (what a read returns after
  a write and after a removal); the directory operations are its instance.
\<close>

subsection \<open>The interface\<close>

locale keyed_store =
  fixes get :: "'d \<Rightarrow> string \<Rightarrow> 'n option"
    and put :: "string \<Rightarrow> 'n \<Rightarrow> 'd \<Rightarrow> 'd"
    and del :: "string \<Rightarrow> 'd \<Rightarrow> 'd"
    and listing :: "'d \<Rightarrow> (string \<times> 'n) list"
    and wf :: "'d \<Rightarrow> bool"
  assumes get_put: "get (put k v d) k' = (if k' = k then Some v else get d k')"
    and get_del: "get (del k d) k' = (if k' = k then None else get d k')"
    and listing_get: "wf d \<Longrightarrow> (k, v) \<in> set (listing d) \<longleftrightarrow> get d k = Some v"
    and wf_put: "wf d \<Longrightarrow> wf (put k v d)"
    and wf_del: "wf d \<Longrightarrow> wf (del k d)"
begin

lemmas store_simps = get_put get_del

lemma get_put_same: "get (put k v d) k = Some v"
  by (simp add: get_put)

lemma get_del_put: "get (del k (put k v d)) k' = get (del k d) k'"
  by (simp add: get_put get_del)

text \<open>Removing every key of a list, as the release of a lock set does.\<close>

lemma get_fold_del: "get (fold del ks d) k = (if k \<in> set ks then None else get d k)"
  by (induction ks arbitrary: d) (auto simp: get_del)

lemma wf_fold_del: "wf d \<Longrightarrow> wf (fold del ks d)"
  by (induction ks arbitrary: d) (auto simp: wf_del)

lemma wf_fold_put: "wf d \<Longrightarrow> wf (fold (\<lambda>x. put (f x) (g x)) xs d)"
  by (induction xs arbitrary: d) (auto simp: wf_put)

text \<open>Writing one value per element of a list whose keys are distinct.\<close>

lemma get_fold_put_other:
  "k \<notin> f ` set xs \<Longrightarrow> get (fold (\<lambda>x. put (f x) (g x)) xs d) k = get d k"
  by (induction xs arbitrary: d) (auto simp: get_put)

lemma get_fold_put:
  "inj_on f (set xs) \<Longrightarrow> x \<in> set xs \<Longrightarrow> get (fold (\<lambda>x. put (f x) (g x)) xs d) (f x) = Some (g x)"
proof (induction xs arbitrary: d)
  case Nil
  then show ?case by simp
next
  case (Cons y ys)
  show ?case
  proof (cases "x \<in> set ys")
    case True
    with Cons show ?thesis by simp
  next
    case False
    with Cons.prems have xy: "x = y" by simp
    with False Cons.prems(1) have "f x \<notin> f ` set ys" by (auto simp: inj_on_def)
    with xy show ?thesis by (simp add: get_fold_put_other get_put)
  qed
qed

end

subsection \<open>Directories\<close>

datatype 'a node = SubDir | Plain 'a | Junk

type_synonym 'a dir = "(string \<times> 'a node) list"

text \<open>A write keeps the listing in name order; it replaces a file of the same name.\<close>

fun dir_put :: "string \<Rightarrow> 'a node \<Rightarrow> 'a dir \<Rightarrow> 'a dir" where
  "dir_put k v [] = [(k, v)]"
| "dir_put k v ((k', v') # d) =
     (if k = k' then (k, v) # d
      else if k < k' then (k, v) # (k', v') # d
      else (k', v') # dir_put k v d)"

definition dir_del :: "string \<Rightarrow> 'a dir \<Rightarrow> 'a dir" where
  "dir_del k d = filter (\<lambda>p. fst p \<noteq> k) d"

definition dir_get :: "'a dir \<Rightarrow> string \<Rightarrow> 'a node option" where
  "dir_get d k = map_of d k"

definition dir_wf :: "'a dir \<Rightarrow> bool" where
  "dir_wf d \<longleftrightarrow> sorted_wrt (<) (map fst d)"

lemma dir_get_Nil [simp]: "dir_get [] k = None"
  by (simp add: dir_get_def)

lemma dir_wf_Nil [simp]: "dir_wf []"
  by (simp add: dir_wf_def)

lemma dir_get_put: "dir_get (dir_put k v d) k' = (if k' = k then Some v else dir_get d k')"
  unfolding dir_get_def by (induction k v d rule: dir_put.induct) auto

lemma dir_get_del: "dir_get (dir_del k d) k' = (if k' = k then None else dir_get d k')"
  using map_of_filter_fst [of "\<lambda>n. n \<noteq> k" d k'] by (simp add: dir_get_def dir_del_def)

lemma fst_dir_put: "fst ` set (dir_put k v d) = insert k (fst ` set d)"
  by (induction k v d rule: dir_put.induct) auto

lemma dir_wf_put: "dir_wf d \<Longrightarrow> dir_wf (dir_put k v d)"
proof (induction k v d rule: dir_put.induct)
  case (2 k v k' v' d)
  have "set (map fst (dir_put k v d)) = insert k (set (map fst d))"
    using fst_dir_put [of k v d] by simp
  with 2 show ?case by (auto simp: dir_wf_def)
qed (simp add: dir_wf_def)

lemma dir_wf_del: "dir_wf d \<Longrightarrow> dir_wf (dir_del k d)"
  unfolding dir_wf_def dir_del_def by (induction d) auto

lemma dir_wf_distinct: "dir_wf d \<Longrightarrow> distinct (map fst d)"
  unfolding dir_wf_def by (rule strict_sorted_iff [THEN iffD1, THEN conjunct2])

lemma dir_listing_get: "dir_wf d \<Longrightarrow> (k, v) \<in> set d \<longleftrightarrow> dir_get d k = Some v"
  unfolding dir_get_def by (simp add: dir_wf_distinct)

interpretation dir: keyed_store dir_get dir_put dir_del "\<lambda>d. d" dir_wf
  by unfold_locales (auto simp: dir_get_put dir_get_del dir_listing_get dir_wf_put dir_wf_del)

end
