(* ===== verification/Digest.thy ===== *)
theory Digest
  imports Prelude
begin

text \<open>
  guest/sdk/digest/digest.go: tagged digests \<open>algorithm:hex\<close>, their verification, and the path
  token made of one. The three hash functions come from third-party modules, so they are the
  fields of a record of parameters; the code relies on the sizes of their outputs
  (\<open>hash_sizes\<close>).
\<close>

record hashes =
  blake3_sum :: "string \<Rightarrow> string"
  shake256_sum :: "string \<Rightarrow> string"
  xxh3_sum :: "string \<Rightarrow> string"

definition hash_sizes :: "hashes \<Rightarrow> bool" where
  "hash_sizes H \<longleftrightarrow> (\<forall>m. length (blake3_sum H m) = 32) \<and> (\<forall>m. length (shake256_sum H m) = 64)
     \<and> (\<forall>m. length (xxh3_sum H m) = 16)"

definition AlgorithmBlake3 :: string where "AlgorithmBlake3 = ''blake3''"
definition AlgorithmShake256 :: string where "AlgorithmShake256 = ''shake256''"
definition AlgorithmXXH3_128 :: string where "AlgorithmXXH3_128 = ''xxh3_128''"

lemmas algorithm_defs = AlgorithmBlake3_def AlgorithmShake256_def AlgorithmXXH3_128_def

lemma algorithms_distinct [simp]:
  "AlgorithmBlake3 \<noteq> AlgorithmShake256" "AlgorithmShake256 \<noteq> AlgorithmBlake3"
  "AlgorithmBlake3 \<noteq> AlgorithmXXH3_128" "AlgorithmXXH3_128 \<noteq> AlgorithmBlake3"
  "AlgorithmShake256 \<noteq> AlgorithmXXH3_128" "AlgorithmXXH3_128 \<noteq> AlgorithmShake256"
  by (simp_all add: algorithm_defs)

definition supported_algorithm :: "string \<Rightarrow> bool" where
  "supported_algorithm a \<longleftrightarrow> a = AlgorithmBlake3 \<or> a = AlgorithmShake256 \<or> a = AlgorithmXXH3_128"

definition unsupported_digest :: "string \<Rightarrow> error" where
  "unsupported_digest a = Errorf (''unsupported digest algorithm '' @ go_quote a)"

definition DigestBytes :: "hashes \<Rightarrow> string \<Rightarrow> string \<Rightarrow> string res" where
  "DigestBytes H algorithm data =
     (if algorithm = AlgorithmBlake3 then
        Inr (algorithm @ '':'' @ hex_bytes (blake3_sum H data))
      else if algorithm = AlgorithmShake256 then
        Inr (algorithm @ '':'' @ hex_bytes (shake256_sum H data))
      else if algorithm = AlgorithmXXH3_128 then
        Inr (algorithm @ '':'' @ hex_bytes (xxh3_sum H data))
      else Inl (unsupported_digest algorithm))"

definition expectedDigestHexLength :: "string \<Rightarrow> nat res" where
  "expectedDigestHexLength algorithm =
     (if algorithm = AlgorithmBlake3 then Inr 64
      else if algorithm = AlgorithmShake256 then Inr (64 * 2)
      else if algorithm = AlgorithmXXH3_128 then Inr 32
      else Inl (unsupported_digest algorithm))"

text \<open>\<open>hex.DecodeString\<close> accepts an even number of hexadecimal digits of either case.\<close>

definition is_hex_char :: "char \<Rightarrow> bool" where
  "is_hex_char c \<longleftrightarrow> c \<in> set ''0123456789abcdefABCDEF''"

definition hex_decodes :: "string \<Rightarrow> bool" where
  "hex_decodes s \<longleftrightarrow> even (length s) \<and> list_all is_hex_char s"

definition invalid_digest :: "string \<Rightarrow> string \<Rightarrow> error" where
  "invalid_digest algorithm v = Errorf (''invalid '' @ algorithm @ '' digest '' @ go_quote v)"

definition Algorithm :: "string \<Rightarrow> string res" where
  "Algorithm v =
     (case Cut (CHR '':'') (TrimSpace v) of
        None \<Rightarrow> Inl (Errorf (''invalid digest '' @ go_quote v))
      | Some (algorithm, encoded) \<Rightarrow>
          if algorithm = [] \<or> encoded = [] then Inl (Errorf (''invalid digest '' @ go_quote v))
          else (case expectedDigestHexLength algorithm of
              Inl e \<Rightarrow> Inl e
            | Inr n \<Rightarrow>
                if length encoded \<noteq> n then Inl (invalid_digest algorithm v)
                else if \<not> hex_decodes encoded then Inl (invalid_digest algorithm v)
                else Inr algorithm))"

definition VerifyDigest :: "hashes \<Rightarrow> string \<Rightarrow> string \<Rightarrow> unit res" where
  "VerifyDigest H data want =
     (case Algorithm want of
        Inl e \<Rightarrow> Inl e
      | Inr algorithm \<Rightarrow>
          (case DigestBytes H algorithm data of
             Inl e \<Rightarrow> Inl e
           | Inr got \<Rightarrow>
               if got \<noteq> want
               then Inl (Errorf (algorithm @ '' digest mismatch: expected '' @ want @ '', got '' @ got))
               else Inr ()))"

text \<open>\<open>MustDigestBytes\<close> panics on an unsupported algorithm; \<open>None\<close> is the panic.\<close>

definition MustDigestBytes :: "hashes \<Rightarrow> string \<Rightarrow> string \<Rightarrow> string option" where
  "MustDigestBytes H algorithm data =
     (case DigestBytes H algorithm data of Inl _ \<Rightarrow> None | Inr d \<Rightarrow> Some d)"

definition Token :: "string \<Rightarrow> string" where
  "Token v = map (\<lambda>c. if c = CHR '':'' then CHR ''_'' else c) (TrimSpace v)"

subsection \<open>Lemmas\<close>

lemma digit_char_hex: "is_hex_char (digit_char n)"
proof -
  have "n mod 16 < length ''0123456789abcdef''" by simp
  then have "digit_char n \<in> set ''0123456789abcdef''"
    unfolding digit_char_def by (rule nth_mem)
  then show ?thesis unfolding is_hex_char_def by auto
qed

lemma hex_bytes_hex: "c \<in> set (hex_bytes s) \<Longrightarrow> is_hex_char c"
  by (induction s) (auto simp: digit_char_hex)

lemma hex_decodes_hex_bytes: "hex_decodes (hex_bytes s)"
  by (auto simp: hex_decodes_def list_all_iff hex_bytes_hex)

lemma hex_char_plain: "is_hex_char c \<Longrightarrow> \<not> ascii_space c \<and> c \<noteq> CHR '':'' \<and> \<not> space2 a c \<and> \<not> space3 a b c"
  by (auto simp: is_hex_char_def ascii_space_def space2_def space3_def)

text \<open>White space trimming leaves a tagged digest alone: it starts with the letter of an
  algorithm name and ends with a hexadecimal digit.\<close>

lemma space_at_end_hex:
  assumes "is_hex_char c"
  shows "space_at_end (c # s) = 0"
proof -
  have "\<not> ascii_space c" "\<And>a. \<not> space2 a c" "\<And>a b. \<not> space3 a b c"
    using hex_char_plain [OF assms] by auto
  then show ?thesis by (auto split: list.splits)
qed

lemma TrimSpace_digest:
  assumes "space_at_start (a @ s) = 0" and "s \<noteq> []" and "is_hex_char (last s)"
  shows "TrimSpace (a @ s) = a @ s"
proof (rule TrimSpace_keep)
  show "space_at_start (a @ s) = 0" by fact
  have "rev (a @ s) = last s # rev (a @ butlast s)"
    using assms(2) by (metis append_butlast_last_id append_assoc rev_eq_Cons_iff rev_rev_ident)
  then show "space_at_end (rev (a @ s)) = 0"
    using space_at_end_hex [OF assms(3)] by metis
qed

lemma hex_bytes_last: "s \<noteq> [] \<Longrightarrow> is_hex_char (last (hex_bytes s))"
  by (rule hex_bytes_hex [of _ s], rule last_in_set) (cases s; simp)

lemma TrimSpace_tagged:
  assumes "s \<noteq> []" and "supported_algorithm algorithm"
  shows "TrimSpace (algorithm @ '':'' @ hex_bytes s) = algorithm @ '':'' @ hex_bytes s"
proof -
  have ne: "hex_bytes s \<noteq> []" using assms(1) by (cases s) auto
  have "space_at_start ((algorithm @ '':'') @ hex_bytes s) = 0"
    using assms(2)
    by (auto simp: supported_algorithm_def algorithm_defs ascii_space_def space2_def space3_def)
  from TrimSpace_digest [OF this ne hex_bytes_last [OF assms(1)]] show ?thesis by simp
qed

text \<open>Reading the algorithm back from a digest the code has made.\<close>

definition digest_sum :: "hashes \<Rightarrow> string \<Rightarrow> string \<Rightarrow> string" where
  "digest_sum H algorithm =
     (if algorithm = AlgorithmBlake3 then blake3_sum H
      else if algorithm = AlgorithmShake256 then shake256_sum H else xxh3_sum H)"

lemma DigestBytes_form:
  "DigestBytes H algorithm data = Inr d \<Longrightarrow>
     d = algorithm @ '':'' @ hex_bytes (digest_sum H algorithm data) \<and>
     supported_algorithm algorithm"
  unfolding DigestBytes_def digest_sum_def supported_algorithm_def by (simp split: if_split_asm)

lemma digest_sum_length:
  "hash_sizes H \<Longrightarrow> supported_algorithm algorithm \<Longrightarrow>
     expectedDigestHexLength algorithm = Inr (length (hex_bytes (digest_sum H algorithm data)))"
  by (auto simp: hash_sizes_def digest_sum_def expectedDigestHexLength_def supported_algorithm_def)

lemma digest_sum_nonempty:
  "hash_sizes H \<Longrightarrow> digest_sum H algorithm data \<noteq> []"
  by (auto simp: hash_sizes_def digest_sum_def simp flip: length_greater_0_conv)

lemma Algorithm_tagged:
  assumes "s \<noteq> []" and "supported_algorithm algorithm"
    and "expectedDigestHexLength algorithm = Inr (length (hex_bytes s))"
  shows "Algorithm (algorithm @ '':'' @ hex_bytes s) = Inr algorithm"
proof -
  have "CHR '':'' \<notin> set algorithm"
    using assms(2) by (auto simp: supported_algorithm_def algorithm_defs)
  then have cut: "Cut (CHR '':'') (TrimSpace (algorithm @ '':'' @ hex_bytes s))
      = Some (algorithm, hex_bytes s)"
    using TrimSpace_tagged [OF assms(1,2)] by (simp add: Cut_append)
  have "algorithm \<noteq> []" "hex_bytes s \<noteq> []"
    using assms(1,2) by (auto simp: supported_algorithm_def algorithm_defs neq_Nil_conv)
  with cut assms(3) show ?thesis
    unfolding Algorithm_def by (simp add: hex_decodes_hex_bytes)
qed

lemma Token_tagged_inj:
  assumes "s \<noteq> []" "t \<noteq> []"
    and "Token (AlgorithmXXH3_128 @ '':'' @ hex_bytes s) = Token (AlgorithmXXH3_128 @ '':'' @ hex_bytes t)"
  shows "s = t"
proof -
  have plain: "map (\<lambda>c. if c = CHR '':'' then CHR ''_'' else c) (hex_bytes u) = hex_bytes u" for u
    using hex_char_plain hex_bytes_hex by (intro map_idI) fastforce
  have "Token (AlgorithmXXH3_128 @ '':'' @ hex_bytes u) = ''xxh3_128_'' @ hex_bytes u"
    if "u \<noteq> []" for u
    using TrimSpace_tagged [OF that, of AlgorithmXXH3_128] plain [of u]
    by (simp add: Token_def supported_algorithm_def AlgorithmXXH3_128_def)
  with assms show ?thesis by (auto intro: hex_bytes_inj)
qed

lemma Algorithm_DigestBytes:
  assumes "hash_sizes H" and "DigestBytes H algorithm data = Inr d"
  shows "Algorithm d = Inr algorithm"
proof -
  have d: "d = algorithm @ '':'' @ hex_bytes (digest_sum H algorithm data)"
    and sup: "supported_algorithm algorithm"
    using DigestBytes_form [OF assms(2)] by auto
  show ?thesis unfolding d
    by (rule Algorithm_tagged [OF digest_sum_nonempty [OF assms(1)] sup
          digest_sum_length [OF assms(1) sup]])
qed

lemma VerifyDigest_iff:
  assumes "hash_sizes H"
  shows "VerifyDigest H data want = Inr () \<longleftrightarrow> (\<exists>algorithm. DigestBytes H algorithm data = Inr want)"
proof
  assume "VerifyDigest H data want = Inr ()"
  then show "\<exists>algorithm. DigestBytes H algorithm data = Inr want"
    unfolding VerifyDigest_def by (auto split: sum.splits if_splits)
next
  assume "\<exists>algorithm. DigestBytes H algorithm data = Inr want"
  then obtain algorithm where d: "DigestBytes H algorithm data = Inr want" ..
  with Algorithm_DigestBytes [OF assms d] show "VerifyDigest H data want = Inr ()"
    by (simp add: VerifyDigest_def)
qed

text \<open>A digest accepted for two byte strings has the same sum for both: swapping the data under
  a recorded digest is a collision of the tagged hash function.\<close>

lemma VerifyDigest_collision:
  assumes "VerifyDigest H data want = Inr ()" and "VerifyDigest H data' want = Inr ()"
  shows "\<exists>algorithm. digest_sum H algorithm data = digest_sum H algorithm data'"
proof -
  from assms obtain a where a: "DigestBytes H a data = Inr want" "DigestBytes H a data' = Inr want"
    unfolding VerifyDigest_def by (auto split: sum.splits if_splits)
  have "hex_bytes (digest_sum H a data) = hex_bytes (digest_sum H a data')"
    using DigestBytes_form [OF a(1)] DigestBytes_form [OF a(2)] by simp
  then show ?thesis by (blast dest: hex_bytes_inj)
qed

text \<open>Digest verification. A tagged digest is accepted for some bytes exactly when it is the
  digest that \<open>DigestBytes\<close> gives for them under one of the supported algorithms, and two byte strings
  accepted under the same digest have the same hash sum.\<close>

lemma VerifyDigest_sound_complete:
  assumes "hash_sizes H"
  shows "(VerifyDigest H data want = Inr () \<longleftrightarrow> (\<exists>algorithm. DigestBytes H algorithm data = Inr want)) \<and>
    (VerifyDigest H data want = Inr () \<longrightarrow> VerifyDigest H data' want = Inr () \<longrightarrow>
       (\<exists>algorithm. digest_sum H algorithm data = digest_sum H algorithm data'))"
  using VerifyDigest_iff [OF assms] VerifyDigest_collision by blast

end
