(* ===== verification/HostRpc.thy ===== *)
theory HostRpc
  imports Prelude
begin

text \<open>
  shared/hostrpc: the parameter and result types of the executor's RPC methods (rpc.go) that
  the modelled components exchange, the action-to-method table, and the compressed record
  channel (channel.go). Gzip is a parameter: a pair of functions \<open>gzip\<close> and \<open>gunzip\<close> on
  byte strings, each of which may fail.
\<close>

subsection \<open>rpc.go: locks, operations, reboots\<close>

record LockDescriptor =
  lk_Key :: string
  lk_Mode :: string
  lk_Source :: string

definition LockModeShared :: string where "LockModeShared = ''shared''"
definition LockModeExclusive :: string where "LockModeExclusive = ''exclusive''"

lemma lock_modes_distinct [simp]:
  "LockModeShared \<noteq> LockModeExclusive" "LockModeExclusive \<noteq> LockModeShared"
  "LockModeShared \<noteq> []" "LockModeExclusive \<noteq> []"
  by (simp_all add: LockModeShared_def LockModeExclusive_def)

record OperationAcquireParams =
  aq_RequestID :: string
  aq_HostKey :: string
  aq_SessionKey :: string
  aq_ModuleName :: string
  aq_ResourceType :: string
  aq_Action :: string
  aq_Name :: string
  aq_LockSet :: "LockDescriptor list"
  aq_TimeoutMs :: int

record OperationAcquireResult =
  ar_OperationID :: string
  ar_Granted :: bool

record OperationReleaseParams =
  rl_HostKey :: string
  rl_OperationID :: string
  rl_Status :: string
  rl_LastError :: string

record ExecutionContext =
  ex_Become :: bool
  ex_BecomeUser :: string

record CommandResult =
  cr_Stdout :: string
  cr_Stderr :: string
  cr_ExitCode :: int

record HostCommandParams =
  hc_Name :: string
  hc_Args :: "string list"
  hc_Execution :: "ExecutionContext option"

record RestartProcessParams =
  rp_ModuleName :: string
  rp_OperationID :: string
  rp_Name :: string
  rp_Command :: string
  rp_Manager :: string
  rp_Execution :: "ExecutionContext option"

record HostProfile =
  hp_Hostname :: string
  hp_DistroID :: string
  hp_DistroName :: string
  hp_DistroVersion :: string
  hp_DistroFamily :: string
  hp_Kernel :: string
  hp_KernelVersion :: string
  hp_Arch :: string
  hp_InitSystem :: string
  hp_PackageMgr :: string
  hp_SELinux :: bool
  hp_AppArmor :: bool
  hp_AvailableCmds :: "string list"
  hp_Extra :: "(string \<times> string) list"

subsection \<open>rpc.go: methods\<close>

definition MethodForAction :: "string \<Rightarrow> string res" where
  "MethodForAction action =
     (if action = ''validate'' then Inr ''resource.validate''
      else if action = ''read'' then Inr ''resource.read''
      else if action = ''create'' then Inr ''resource.create''
      else if action = ''update'' then Inr ''resource.update''
      else if action = ''delete'' then Inr ''resource.delete''
      else if action = ''import'' then Inr ''resource.import''
      else if action = ''data_read'' then Inr ''datasource.read''
      else Inl (Errorf (''unsupported action '' @ go_quote action)))"

subsection \<open>channel.go: compressed records\<close>

definition DefaultCompressionThreshold :: int where
  "DefaultCompressionThreshold = 4 * 1024"

definition recordMagic :: string where "recordMagic = ''TFN1''"
definition recordEncodingRaw :: char where "recordEncodingRaw = CHR 0x00"
definition recordEncodingGzip :: char where "recordEncodingGzip = CHR 0x01"

text \<open>\<open>NewCompressedChannel\<close> replaces a threshold that is not positive.\<close>

definition compressionThreshold :: "int \<Rightarrow> int" where
  "compressionThreshold threshold =
     (if threshold \<le> 0 then DefaultCompressionThreshold else threshold)"

definition wrapRecord :: "char \<Rightarrow> string \<Rightarrow> string" where
  "wrapRecord encoding payload = recordMagic @ [encoding] @ payload"

definition encodeRecord :: "(string \<Rightarrow> string res) \<Rightarrow> string \<Rightarrow> int \<Rightarrow> string res" where
  "encodeRecord gzip msg threshold =
     (if int (length msg) \<ge> threshold then
        (case gzip msg of
           Inl e \<Rightarrow> Inl e
         | Inr compressed \<Rightarrow>
             if length compressed < length msg then Inr (wrapRecord recordEncodingGzip compressed)
             else Inr (wrapRecord recordEncodingRaw msg))
      else Inr (wrapRecord recordEncodingRaw msg))"

definition decodeRecord :: "(string \<Rightarrow> string res) \<Rightarrow> string \<Rightarrow> string res" where
  "decodeRecord gunzip rcd =
     (if length rcd < length recordMagic + 1 \<or> take (length recordMagic) rcd \<noteq> recordMagic
      then Inr rcd
      else
        let encoding = rcd ! length recordMagic; payload = drop (length recordMagic + 1) rcd in
        if encoding = recordEncodingRaw then Inr payload
        else if encoding = recordEncodingGzip then gunzip payload
        else Inl (Errorf (''unknown executor RPC record encoding '' @ show_nat (of_char encoding))))"

text \<open>\<open>compressedChannel.Send\<close> and \<open>Recv\<close> over a base channel that is a queue of records.\<close>

definition channel_Send ::
    "(string \<Rightarrow> string res) \<Rightarrow> int \<Rightarrow> string \<Rightarrow> string list \<Rightarrow> unit res \<times> string list" where
  "channel_Send gzip threshold msg q =
     (case encodeRecord gzip msg threshold of
        Inl e \<Rightarrow> (Inl e, q)
      | Inr rcd \<Rightarrow> (Inr (), q @ [rcd]))"

definition channel_Recv ::
    "(string \<Rightarrow> string res) \<Rightarrow> string list \<Rightarrow> string res \<times> string list" where
  "channel_Recv gunzip q =
     (case q of
        [] \<Rightarrow> (Inl (Errorf ''EOF''), [])
      | rcd # q' \<Rightarrow> (decodeRecord gunzip rcd, q'))"

text \<open>What the code relies on of gzip: decompressing what was compressed gives it back.\<close>

definition gzip_roundtrip :: "(string \<Rightarrow> string res) \<Rightarrow> (string \<Rightarrow> string res) \<Rightarrow> bool" where
  "gzip_roundtrip gzip gunzip \<longleftrightarrow> (\<forall>m c. gzip m = Inr c \<longrightarrow> gunzip c = Inr m)"

lemma recordMagic_length [simp]: "length recordMagic = 4"
  by (simp add: recordMagic_def)

lemma recordEncodings_distinct [simp]: "recordEncodingGzip \<noteq> recordEncodingRaw"
  by (simp add: recordEncodingGzip_def recordEncodingRaw_def)

lemma length_wrapRecord [simp]: "length (wrapRecord e p) = length p + 5"
  by (simp add: wrapRecord_def)

lemma decode_wrap:
  "decodeRecord gunzip (wrapRecord encoding payload) =
     (if encoding = recordEncodingRaw then Inr payload
      else if encoding = recordEncodingGzip then gunzip payload
      else Inl (Errorf (''unknown executor RPC record encoding '' @ show_nat (of_char encoding))))"
  by (simp add: decodeRecord_def wrapRecord_def nth_append Let_def)

lemma decode_encode:
  assumes "gzip_roundtrip gzip gunzip" and "encodeRecord gzip msg threshold = Inr rcd"
  shows "decodeRecord gunzip rcd = Inr msg"
  using assms
  by (auto simp: encodeRecord_def decode_wrap gzip_roundtrip_def split: if_splits sum.splits)

lemma encode_length:
  "encodeRecord gzip msg threshold = Inr rcd \<Longrightarrow> length rcd \<le> length msg + 5"
  by (auto simp: encodeRecord_def split: if_splits sum.splits)

lemma encodeRecord_total: "gzip m = Inr c \<Longrightarrow> \<exists>r. encodeRecord gzip m threshold = Inr r"
  by (simp add: encodeRecord_def)

text \<open>A sequence of messages sent is received in the same order.\<close>

fun send_all :: "(string \<Rightarrow> string res) \<Rightarrow> int \<Rightarrow> string list \<Rightarrow> string list \<Rightarrow> string list" where
  "send_all gzip threshold [] q = q"
| "send_all gzip threshold (m # ms) q = send_all gzip threshold ms (snd (channel_Send gzip threshold m q))"

fun recv_all :: "(string \<Rightarrow> string res) \<Rightarrow> nat \<Rightarrow> string list \<Rightarrow> string res list" where
  "recv_all gunzip 0 q = []"
| "recv_all gunzip (Suc n) q = (let (r, q') = channel_Recv gunzip q in r # recv_all gunzip n q')"

lemma send_all_append:
  "\<forall>m. \<exists>c. gzip m = Inr c \<Longrightarrow>
     \<exists>rs. send_all gzip threshold ms q = q @ rs \<and> list_all2 (\<lambda>m r. encodeRecord gzip m threshold = Inr r) ms rs"
proof (induction ms arbitrary: q)
  case Nil
  then show ?case by simp
next
  case (Cons m ms)
  from Cons.prems obtain c where "gzip m = Inr c" by blast
  then obtain r where r: "encodeRecord gzip m threshold = Inr r"
    using encodeRecord_total by blast
  from Cons.IH [OF Cons.prems, of "q @ [r]"] obtain rs where
    "send_all gzip threshold ms (q @ [r]) = (q @ [r]) @ rs"
    "list_all2 (\<lambda>m r. encodeRecord gzip m threshold = Inr r) ms rs" by blast
  with r show ?case
    by (intro exI [of _ "r # rs"]) (simp add: channel_Send_def)
qed

lemma recv_all_encoded:
  assumes "gzip_roundtrip gzip gunzip"
    and "list_all2 (\<lambda>m r. encodeRecord gzip m threshold = Inr r) ms rs"
  shows "recv_all gunzip (length ms) rs = map Inr ms"
  using assms(2)
proof (induction ms rs rule: list_all2_induct)
  case Nil
  then show ?case by simp
next
  case (Cons m ms r rs)
  with decode_encode [OF assms(1), of m threshold r] show ?case
    by (simp add: channel_Recv_def)
qed

text \<open>C24: the compressed channel delivers what was sent. Over a gzip that decompresses what it
  compressed, the messages sent through \<open>Send\<close> are received by as many calls of \<open>Recv\<close> without error,
  unchanged and in the order they were sent, whatever the compression threshold.\<close>

theorem channel_delivers_in_order:
  assumes "gzip_roundtrip gzip gunzip" and "\<forall>m. \<exists>c. gzip m = Inr c"
  shows "recv_all gunzip (length ms) (send_all gzip threshold ms []) = map Inr ms"
  using send_all_append [OF assms(2), of threshold ms "[]"] recv_all_encoded [OF assms(1)] by auto

definition demo_gzip :: "string \<Rightarrow> string res" where
  "demo_gzip m = Inr (rev m)"

lemma channel_delivers_in_order_witness:
  "recv_all demo_gzip 2 (send_all demo_gzip 0 [''hello'', []] []) = [Inr ''hello'', Inr []]"
  using channel_delivers_in_order [of demo_gzip demo_gzip "[''hello'', []]" 0]
  by (simp add: gzip_roundtrip_def demo_gzip_def numeral_2_eq_2)

end
