(* ===== verification/OperationJournal.thy ===== *)
theory OperationJournal
  imports Store Digest HostRpc
begin

text \<open>
  executor/runtime/operation_journal.go (and the key of journal_key.go): the host-wide journal
  through which the executors of concurrent provider runs admit operations. Every operation has
  an encrypted entry file \<open><id>.json\<close>; while it is queued or running it has an index file in its
  host's directory; while it runs it has one claim file per lock of its lock set.

  The journal directory is the record \<open>journal\<close>. The critical sections run under the host's
  admission lock (an exclusive \<open>flock\<close>), so each is one state transformer here; what happens
  between two of them is the interleaving of the step relation in theory Admission. Calls that may
  fail take their outcome from \<open>faults\<close>, the outcomes of the coming file system calls
  (\<open>True\<close> fails); when the list is used up every call succeeds.
\<close>

subsection \<open>The data\<close>

datatype operationStatus =
    Queued | Running | Recovering | Failed | Completed | Abandoned

primrec statusString :: "operationStatus \<Rightarrow> string" where
  "statusString Queued = ''queued''"
| "statusString Running = ''running''"
| "statusString Recovering = ''recovering''"
| "statusString Failed = ''failed''"
| "statusString Completed = ''completed''"
| "statusString Abandoned = ''abandoned''"

record operationJournalEntry =
  e_OperationID :: string
  e_RequestID :: string
  e_OwnerPID :: int
  e_OwnerBootID :: string
  e_HostKey :: string
  e_SessionKey :: string
  e_ModuleName :: string
  e_ResourceType :: string
  e_Action :: string
  e_Name :: string
  e_Status :: operationStatus
  e_LockSet :: "LockDescriptor list"
  e_Attempts :: int
  e_LastError :: string
  e_CreatedAt :: int
  e_UpdatedAt :: int

record lockClaim =
  c_OperationID :: string
  c_OwnerPID :: int
  c_OwnerBootID :: string
  c_HostKey :: string
  c_SessionKey :: string
  c_Lock :: LockDescriptor
  c_CreatedAt :: int
  c_UpdatedAt :: int

record hostOperationIndex =
  i_OperationID :: string
  i_RequestID :: string
  i_OwnerPID :: int
  i_OwnerBootID :: string
  i_Status :: operationStatus
  i_CreatedAt :: int
  i_UpdatedAt :: int

text \<open>An encrypted entry file is the entry sealed under a journal key.\<close>

datatype 'a sealed = Sealed (seal_key: string) (seal_value: 'a)

record journal =
  operations :: "operationJournalEntry sealed dir"
  hosts :: "string \<Rightarrow> hostOperationIndex dir option"
  claims :: "string \<Rightarrow> lockClaim dir option"
  admission :: "unit dir"
  faults :: "bool list"

text \<open>What an executor process reads of its surroundings: its own process id, the kernel's boot
  id (empty when it cannot be read), which processes exist, the clock, the next random bytes,
  the suffix of the next temporary
  file, its journal key (empty until \<open>journal.configure\<close>), and the digest functions.\<close>

record env =
  pid :: int
  boot_id :: string
  exists_pid :: "int \<Rightarrow> bool"
  now :: int
  random_bytes :: string
  temp_suffix :: string
  journal_key :: string
  hashfns :: hashes

subsection \<open>journal_key.go: sealing\<close>

definition setRuntimeJournalKey :: "string \<Rightarrow> env \<Rightarrow> env res" where
  "setRuntimeJournalKey key E =
     (if length key \<noteq> 32
      then Inl (Errorf (''journal key must be 32 bytes, got '' @ show_nat (length key)))
      else Inr (E\<lparr>journal_key := key\<rparr>))"

definition runtimeJournalKeyBytes :: "env \<Rightarrow> string res" where
  "runtimeJournalKeyBytes E =
     (if journal_key E = [] then Inl (Errorf ''journal key is not configured'')
      else Inr (journal_key E))"

definition marshalEncryptedJSON :: "env \<Rightarrow> 'a \<Rightarrow> 'a sealed res" where
  "marshalEncryptedJSON E v =
     (case runtimeJournalKeyBytes E of Inl e \<Rightarrow> Inl e | Inr k \<Rightarrow> Inr (Sealed k v))"

definition unmarshalEncryptedJSON :: "env \<Rightarrow> 'a sealed node \<Rightarrow> 'a res" where
  "unmarshalEncryptedJSON E n =
     (case runtimeJournalKeyBytes E of
        Inl e \<Rightarrow> Inl e
      | Inr k \<Rightarrow>
          (case n of
             Plain (Sealed k' v) \<Rightarrow>
               if k' = k then Inr v else Inl (Errorf ''cipher: message authentication failed'')
           | Junk \<Rightarrow> Inl (Errorf ''invalid journal envelope'')
           | SubDir \<Rightarrow> Inl (Errorf ''is a directory'')))"

subsection \<open>Processes and boots\<close>

definition processExists :: "env \<Rightarrow> int \<Rightarrow> bool" where
  "processExists E p \<longleftrightarrow> p > 0 \<and> exists_pid E p"

definition sameOperationJournalBoot :: "string \<Rightarrow> string \<Rightarrow> bool" where
  "sameOperationJournalBoot ownerBootID currentBootID \<longleftrightarrow>
     (if ownerBootID = [] \<or> currentBootID = [] then True else ownerBootID = currentBootID)"

definition operationJournalOwnerActive :: "env \<Rightarrow> int \<Rightarrow> string \<Rightarrow> string \<Rightarrow> bool" where
  "operationJournalOwnerActive E ownerPID ownerBootID currentBootID \<longleftrightarrow>
     (if ownerPID = 0 then False
      else if \<not> sameOperationJournalBoot ownerBootID currentBootID then False
      else processExists E ownerPID)"

subsection \<open>Locks\<close>

fun normalizeLocks :: "string set \<Rightarrow> LockDescriptor list \<Rightarrow> LockDescriptor list" where
  "normalizeLocks seen [] = []"
| "normalizeLocks seen (lock # locks) =
     (if lk_Key lock = [] then normalizeLocks seen locks
      else
        let lock' = (if lk_Mode lock = [] then lock\<lparr>lk_Mode := LockModeExclusive\<rparr> else lock);
            key = lk_Key lock' @ ''|'' @ lk_Mode lock'
        in if key \<in> seen then normalizeLocks seen locks
           else lock' # normalizeLocks (insert key seen) locks)"

definition normalizeLockSet :: "LockDescriptor list \<Rightarrow> LockDescriptor list" where
  "normalizeLockSet locks = normalizeLocks {} locks"

definition isDominatingLockKey :: "string \<Rightarrow> bool" where
  "isDominatingLockKey key \<longleftrightarrow> key = ''host'' \<or> key = ''reboot:host''"

definition locksConflict :: "LockDescriptor \<Rightarrow> LockDescriptor \<Rightarrow> bool" where
  "locksConflict active requested \<longleftrightarrow>
     (if lk_Key active = [] \<or> lk_Key requested = [] then False
      else if isDominatingLockKey (lk_Key active) \<or> isDominatingLockKey (lk_Key requested) then True
      else if lk_Key active \<noteq> lk_Key requested then False
      else \<not> (lk_Mode active = LockModeShared \<and> lk_Mode requested = LockModeShared))"

fun isActiveOperationStatus :: "operationStatus \<Rightarrow> bool" where
  "isActiveOperationStatus Queued = True"
| "isActiveOperationStatus Running = True"
| "isActiveOperationStatus Recovering = True"
| "isActiveOperationStatus _ = False"

subsection \<open>Paths\<close>

definition digestPathComponent :: "hashes \<Rightarrow> string \<Rightarrow> string" where
  "digestPathComponent H v =
     (case MustDigestBytes H AlgorithmXXH3_128 v of None \<Rightarrow> undefined | Some d \<Rightarrow> Token d)"

definition json_name :: "string \<Rightarrow> string" where
  "json_name n = n @ ''.json''"

definition lockClaimName :: "hashes \<Rightarrow> string \<Rightarrow> LockDescriptor \<Rightarrow> string" where
  "lockClaimName H operationID lock =
     json_name (digestPathComponent H (operationID @ ''|'' @ lk_Key lock @ ''|'' @ lk_Mode lock))"

definition hostDir :: "env \<Rightarrow> string \<Rightarrow> string" where
  "hostDir E hostKey = digestPathComponent (hashfns E) hostKey"

text \<open>\<open>crypto/rand.Read\<close> never fails on the supported platforms; the identifier is the hex of
  sixteen random bytes.\<close>

definition newJournalOperationID :: "env \<Rightarrow> string" where
  "newJournalOperationID E = ''rand:'' @ hex_bytes (random_bytes E)"

subsection \<open>File system calls\<close>

definition fault :: "journal \<Rightarrow> bool \<times> journal" where
  "fault j = (case faults j of [] \<Rightarrow> (False, j) | b # bs \<Rightarrow> (b, j\<lparr>faults := bs\<rparr>))"

definition io_error :: "string \<Rightarrow> error" where
  "io_error op = Errorf (op @ '': input/output error'')"

text \<open>The four directories \<open>ensureDirs\<close> makes; \<open>HostsDir\<close> and \<open>LocksDir\<close> carry the host's
  path component.\<close>

datatype journalDir = OperationsDir | HostsDir string | LocksDir string | AdmissionDir

fun mkdirAll :: "journalDir \<Rightarrow> journal \<Rightarrow> journal" where
  "mkdirAll (HostsDir h) j =
     j\<lparr>hosts := (hosts j)(h := Some (case hosts j h of None \<Rightarrow> [] | Some d \<Rightarrow> d))\<rparr>"
| "mkdirAll (LocksDir h) j =
     j\<lparr>claims := (claims j)(h := Some (case claims j h of None \<Rightarrow> [] | Some d \<Rightarrow> d))\<rparr>"
| "mkdirAll _ j = j"

fun put_junk :: "journalDir \<Rightarrow> string \<Rightarrow> journal \<Rightarrow> journal" where
  "put_junk OperationsDir n j = j\<lparr>operations := dir_put n Junk (operations j)\<rparr>"
| "put_junk (HostsDir h) n j =
     j\<lparr>hosts := (hosts j)(h := map_option (dir_put n Junk) (hosts j h))\<rparr>"
| "put_junk (LocksDir h) n j =
     j\<lparr>claims := (claims j)(h := map_option (dir_put n Junk) (claims j h))\<rparr>"
| "put_junk AdmissionDir n j = j\<lparr>admission := dir_put n Junk (admission j)\<rparr>"

fun del_file :: "journalDir \<Rightarrow> string \<Rightarrow> journal \<Rightarrow> journal" where
  "del_file OperationsDir n j = j\<lparr>operations := dir_del n (operations j)\<rparr>"
| "del_file (HostsDir h) n j =
     j\<lparr>hosts := (hosts j)(h := map_option (dir_del n) (hosts j h))\<rparr>"
| "del_file (LocksDir h) n j =
     j\<lparr>claims := (claims j)(h := map_option (dir_del n) (claims j h))\<rparr>"
| "del_file AdmissionDir n j = j\<lparr>admission := dir_del n (admission j)\<rparr>"

fun has_file :: "journalDir \<Rightarrow> string \<Rightarrow> journal \<Rightarrow> bool" where
  "has_file OperationsDir n j = (dir_get (operations j) n \<noteq> None)"
| "has_file (HostsDir h) n j = (case hosts j h of None \<Rightarrow> False | Some d \<Rightarrow> dir_get d n \<noteq> None)"
| "has_file (LocksDir h) n j = (case claims j h of None \<Rightarrow> False | Some d \<Rightarrow> dir_get d n \<noteq> None)"
| "has_file AdmissionDir n j = (dir_get (admission j) n \<noteq> None)"

text \<open>\<open>os.Remove\<close> as most callers use it: the flag says that it failed with an error other than
  "does not exist"; removing a file that is not there does nothing.\<close>

definition os_Remove :: "journalDir \<Rightarrow> string \<Rightarrow> journal \<Rightarrow> bool \<times> journal" where
  "os_Remove jd n j = (let (bad, j') = fault j in if bad then (True, j') else (False, del_file jd n j'))"

definition remove_ignored :: "journalDir \<Rightarrow> string \<Rightarrow> journal \<Rightarrow> journal" where
  "remove_ignored jd n j = snd (os_Remove jd n j)"

subsection \<open>Directories of the journal\<close>

text \<open>\<open>verifyWritableJournalDir\<close> creates a temporary file, closes it and removes it, in two
  steps between which another process may list the directory.\<close>

definition permcheckName :: "env \<Rightarrow> string" where
  "permcheckName E = ''.permcheck.'' @ temp_suffix E"

definition verifyCreate :: "env \<Rightarrow> journalDir \<Rightarrow> journal \<Rightarrow> error option \<times> journal" where
  "verifyCreate E jd j =
     (let (bad, j1) = fault j in
      if bad then (Some (io_error ''verify journal dir writable''), j1)
      else (None, put_junk jd (permcheckName E) j1))"

definition verifyRemove :: "env \<Rightarrow> journalDir \<Rightarrow> journal \<Rightarrow> error option \<times> journal" where
  "verifyRemove E jd j =
     (let (bad, j1) = fault j in
      if bad then (Some (io_error ''close journal permcheck''), remove_ignored jd (permcheckName E) j1)
      else if \<not> has_file jd (permcheckName E) j1 then
        (Some (Wrapf ''remove journal permcheck: '' (NotExist ''remove'') []), j1)
      else
        let (bad', j2) = os_Remove jd (permcheckName E) j1 in
        if bad' then (Some (io_error ''remove journal permcheck''), j2) else (None, j2))"

definition verifyWritableJournalDir :: "env \<Rightarrow> journalDir \<Rightarrow> journal \<Rightarrow> error option \<times> journal" where
  "verifyWritableJournalDir E jd j =
     (case verifyCreate E jd j of
        (Some e, j1) \<Rightarrow> (Some e, j1)
      | (None, j1) \<Rightarrow> verifyRemove E jd j1)"

definition ensureWritableJournalDir :: "env \<Rightarrow> journalDir \<Rightarrow> journal \<Rightarrow> error option \<times> journal" where
  "ensureWritableJournalDir E jd j =
     (let (bad, j1) = fault j in
      if bad then (Some (io_error ''create journal dir''), j1)
      else
        let j2 = mkdirAll jd j1; (chmod_bad, j3) = fault j2 in
        if chmod_bad then
          (case verifyWritableJournalDir E jd j3 of
             (Some _, j4) \<Rightarrow> (Some (io_error ''chmod journal dir''), j4)
           | (None, j4) \<Rightarrow> verifyWritableJournalDir E jd j4)
        else verifyWritableJournalDir E jd j3)"

fun ensureEach :: "env \<Rightarrow> journalDir list \<Rightarrow> journal \<Rightarrow> error option \<times> journal" where
  "ensureEach E [] j = (None, j)"
| "ensureEach E (jd # jds) j =
     (case ensureWritableJournalDir E jd j of
        (Some e, j1) \<Rightarrow> (Some e, j1)
      | (None, j1) \<Rightarrow> ensureEach E jds j1)"

definition ensureDirs :: "env \<Rightarrow> string \<Rightarrow> journal \<Rightarrow> error option \<times> journal" where
  "ensureDirs E hostKey j =
     ensureEach E [OperationsDir, HostsDir (hostDir E hostKey), LocksDir (hostDir E hostKey), AdmissionDir] j"

text \<open>\<open>withAdmissionLock\<close>: the admission directory, then the exclusive lock of the host's lock
  file, then the critical section.\<close>

definition withAdmissionLock :: "env \<Rightarrow> (journal \<Rightarrow> 'a res \<times> journal) \<Rightarrow> journal \<Rightarrow> 'a res \<times> journal" where
  "withAdmissionLock E fn j =
     (case ensureWritableJournalDir E AdmissionDir j of
        (Some e, j1) \<Rightarrow> (Inl e, j1)
      | (None, j1) \<Rightarrow>
          let (bad, j2) = fault j1 in
          if bad then (Inl (io_error ''flock''), j2) else fn j2)"

subsection \<open>Reading and writing files\<close>

definition writeOperation :: "env \<Rightarrow> operationJournalEntry \<Rightarrow> journal \<Rightarrow> error option \<times> journal" where
  "writeOperation E entry j =
     (case marshalEncryptedJSON E entry of
        Inl e \<Rightarrow> (Some e, j)
      | Inr f \<Rightarrow>
          let (bad, j1) = fault j in
          if bad then (Some (io_error ''write operation''), j1)
          else (None, j1\<lparr>operations := dir_put (json_name (e_OperationID entry)) (Plain f) (operations j1)\<rparr>))"

definition readOperation :: "env \<Rightarrow> string \<Rightarrow> journal \<Rightarrow> operationJournalEntry res \<times> journal" where
  "readOperation E operationID j =
     (let (bad, j1) = fault j in
      if bad then (Inl (io_error ''read operation''), j1)
      else (case dir_get (operations j1) (json_name operationID) of
          None \<Rightarrow> (Inl (NotExist (''open '' @ json_name operationID)), j1)
        | Some n \<Rightarrow> (unmarshalEncryptedJSON E n, j1)))"

definition indexOf :: "operationJournalEntry \<Rightarrow> hostOperationIndex" where
  "indexOf entry = \<lparr>i_OperationID = e_OperationID entry, i_RequestID = e_RequestID entry,
     i_OwnerPID = e_OwnerPID entry, i_OwnerBootID = e_OwnerBootID entry, i_Status = e_Status entry,
     i_CreatedAt = e_CreatedAt entry, i_UpdatedAt = e_UpdatedAt entry\<rparr>"

definition writeHostIndex :: "env \<Rightarrow> operationJournalEntry \<Rightarrow> journal \<Rightarrow> error option \<times> journal" where
  "writeHostIndex E entry j =
     (let (bad, j1) = fault j; h = hostDir E (e_HostKey entry) in
      if bad then (Some (io_error ''write host index''), j1)
      else (case hosts j1 h of
          None \<Rightarrow> (Some (NotExist ''create temp''), j1)
        | Some d \<Rightarrow>
            (None, j1\<lparr>hosts := (hosts j1)(h \<mapsto>
               dir_put (json_name (e_OperationID entry)) (Plain (indexOf entry)) d)\<rparr>)))"

definition claimOf :: "operationJournalEntry \<Rightarrow> LockDescriptor \<Rightarrow> lockClaim" where
  "claimOf entry lock = \<lparr>c_OperationID = e_OperationID entry, c_OwnerPID = e_OwnerPID entry,
     c_OwnerBootID = e_OwnerBootID entry, c_HostKey = e_HostKey entry,
     c_SessionKey = e_SessionKey entry, c_Lock = lock, c_CreatedAt = e_CreatedAt entry,
     c_UpdatedAt = e_UpdatedAt entry\<rparr>"

definition writeClaim :: "env \<Rightarrow> operationJournalEntry \<Rightarrow> LockDescriptor \<Rightarrow> journal \<Rightarrow> error option \<times> journal" where
  "writeClaim E entry lock j =
     (let (bad, j1) = fault j; h = hostDir E (e_HostKey entry) in
      if bad then (Some (io_error ''write lock claim''), j1)
      else (case claims j1 h of
          None \<Rightarrow> (Some (NotExist ''create temp''), j1)
        | Some d \<Rightarrow>
            (None, j1\<lparr>claims := (claims j1)(h \<mapsto>
               dir_put (lockClaimName (hashfns E) (e_OperationID entry) lock)
                 (Plain (claimOf entry lock)) d)\<rparr>)))"

fun writeClaims :: "env \<Rightarrow> operationJournalEntry \<Rightarrow> LockDescriptor list \<Rightarrow> journal \<Rightarrow> error option \<times> journal" where
  "writeClaims E entry [] j = (None, j)"
| "writeClaims E entry (lock # locks) j =
     (case writeClaim E entry lock j of
        (Some e, j1) \<Rightarrow> (Some e, j1)
      | (None, j1) \<Rightarrow> writeClaims E entry locks j1)"

fun removeClaims :: "env \<Rightarrow> operationJournalEntry \<Rightarrow> LockDescriptor list \<Rightarrow> journal \<Rightarrow> error option \<times> journal" where
  "removeClaims E entry [] j = (None, j)"
| "removeClaims E entry (lock # locks) j =
     (let (bad, j1) = os_Remove (LocksDir (hostDir E (e_HostKey entry)))
                        (lockClaimName (hashfns E) (e_OperationID entry) lock) j in
      if bad then (Some (io_error ''remove lock claim''), j1) else removeClaims E entry locks j1)"

text \<open>The loop of \<open>readLockClaims\<close> over the directory listing: files that do not decode and
  claims whose owner is gone are removed and skipped.\<close>

fun collectClaims :: "env \<Rightarrow> string \<Rightarrow> lockClaim dir \<Rightarrow> journal \<Rightarrow> lockClaim list \<times> journal" where
  "collectClaims E h [] j = ([], j)"
| "collectClaims E h ((n, f) # fs) j =
     (case f of
        SubDir \<Rightarrow> collectClaims E h fs j
      | Junk \<Rightarrow> collectClaims E h fs (remove_ignored (LocksDir h) n j)
      | Plain claim \<Rightarrow>
          if \<not> operationJournalOwnerActive E (c_OwnerPID claim) (c_OwnerBootID claim) (boot_id E)
          then collectClaims E h fs (remove_ignored (LocksDir h) n j)
          else (let (cs, j1) = collectClaims E h fs j in (claim # cs, j1)))"

definition readLockClaims :: "env \<Rightarrow> string \<Rightarrow> journal \<Rightarrow> lockClaim list res \<times> journal" where
  "readLockClaims E hostKey j =
     (let (bad, j1) = fault j; h = hostDir E hostKey in
      if bad then (Inl (io_error ''read lock claims''), j1)
      else (case claims j1 h of
          None \<Rightarrow> (Inr [], j1)
        | Some d \<Rightarrow> (let (cs, j2) = collectClaims E h d j1 in (Inr cs, j2))))"

fun collectIndexes :: "string \<Rightarrow> hostOperationIndex dir \<Rightarrow> journal \<Rightarrow> hostOperationIndex list \<times> journal" where
  "collectIndexes h [] j = ([], j)"
| "collectIndexes h ((n, f) # fs) j =
     (case f of
        SubDir \<Rightarrow> collectIndexes h fs j
      | Junk \<Rightarrow> collectIndexes h fs (remove_ignored (HostsDir h) n j)
      | Plain idx \<Rightarrow> (let (is, j1) = collectIndexes h fs j in (idx # is, j1)))"

definition readHostOperationIndexes :: "env \<Rightarrow> string \<Rightarrow> journal \<Rightarrow> hostOperationIndex list res \<times> journal" where
  "readHostOperationIndexes E hostKey j =
     (let (bad, j1) = fault j; h = hostDir E hostKey in
      if bad then (Inl (io_error ''read host indexes''), j1)
      else (case hosts j1 h of
          None \<Rightarrow> (Inr [], j1)
        | Some d \<Rightarrow> (let (is, j2) = collectIndexes h d j1 in (Inr is, j2))))"

text \<open>The loop of \<open>removeClaimsForOperation\<close>.\<close>

fun purgeClaims :: "string \<Rightarrow> string \<Rightarrow> lockClaim dir \<Rightarrow> journal \<Rightarrow> error option \<times> journal" where
  "purgeClaims h operationID [] j = (None, j)"
| "purgeClaims h operationID ((n, f) # fs) j =
     (case f of
        SubDir \<Rightarrow> purgeClaims h operationID fs j
      | Junk \<Rightarrow> purgeClaims h operationID fs (remove_ignored (LocksDir h) n j)
      | Plain claim \<Rightarrow>
          if c_OperationID claim = operationID then
            (let (bad, j1) = os_Remove (LocksDir h) n j in
             if bad then (Some (io_error ''remove''), j1) else purgeClaims h operationID fs j1)
          else purgeClaims h operationID fs j)"

definition removeClaimsForOperation :: "env \<Rightarrow> string \<Rightarrow> string \<Rightarrow> journal \<Rightarrow> error option \<times> journal" where
  "removeClaimsForOperation E hostKey operationID j =
     (let (bad, j1) = fault j; h = hostDir E hostKey in
      if bad then (Some (io_error ''read lock claims''), j1)
      else (case claims j1 h of None \<Rightarrow> (None, j1) | Some d \<Rightarrow> purgeClaims h operationID d j1))"

subsection \<open>The critical sections\<close>

text \<open>\<open>abandonStaleHostEntriesLocked\<close>: the loop over the host's index files.\<close>

definition abandonedText :: "int \<Rightarrow> string" where
  "abandonedText p = ''abandoned stale operation from owner pid '' @ show_int p"

fun abandonLoop :: "env \<Rightarrow> string \<Rightarrow> int \<Rightarrow> hostOperationIndex list \<Rightarrow> journal \<Rightarrow> error option \<times> journal" where
  "abandonLoop E hostKey ownerPID [] j = (None, j)"
| "abandonLoop E hostKey ownerPID (idx # rest) j =
     (if i_OwnerPID idx = ownerPID \<and> sameOperationJournalBoot (i_OwnerBootID idx) (boot_id E)
      then abandonLoop E hostKey ownerPID rest j
      else if \<not> isActiveOperationStatus (i_Status idx) then abandonLoop E hostKey ownerPID rest j
      else if operationJournalOwnerActive E (i_OwnerPID idx) (i_OwnerBootID idx) (boot_id E)
      then abandonLoop E hostKey ownerPID rest j
      else
        (case readOperation E (i_OperationID idx) j of
           (Inl _, j1) \<Rightarrow>
             (case removeClaimsForOperation E hostKey (i_OperationID idx) j1 of
                (Some e, j2) \<Rightarrow> (Some e, j2)
              | (None, j2) \<Rightarrow>
                  abandonLoop E hostKey ownerPID rest
                    (remove_ignored OperationsDir (json_name (i_OperationID idx))
                       (remove_ignored (HostsDir (hostDir E hostKey)) (json_name (i_OperationID idx)) j2)))
         | (Inr entry0, j1) \<Rightarrow>
             (let entry = entry0\<lparr>e_Status := Abandoned, e_LastError := abandonedText (i_OwnerPID idx),
                            e_UpdatedAt := now E\<rparr> in
              case writeOperation E entry j1 of
                (Some e, j2) \<Rightarrow> (Some e, j2)
              | (None, j2) \<Rightarrow>
                  (case removeClaims E entry (e_LockSet entry) j2 of
                     (Some e, j3) \<Rightarrow> (Some e, j3)
                   | (None, j3) \<Rightarrow>
                       (let (bad, j4) = os_Remove (HostsDir (hostDir E (e_HostKey entry)))
                                          (json_name (e_OperationID entry)) j3 in
                        if bad then (Some (io_error ''remove''), j4)
                        else abandonLoop E hostKey ownerPID rest j4)))))"

definition abandonStaleHostEntriesLocked :: "env \<Rightarrow> string \<Rightarrow> int \<Rightarrow> journal \<Rightarrow> error option \<times> journal" where
  "abandonStaleHostEntriesLocked E hostKey ownerPID j =
     (case readHostOperationIndexes E hostKey j of
        (Inl e, j1) \<Rightarrow> (Some e, j1)
      | (Inr idxs, j1) \<Rightarrow> abandonLoop E hostKey ownerPID idxs j1)"

definition conflictsWith :: "string \<Rightarrow> LockDescriptor list \<Rightarrow> lockClaim list \<Rightarrow> bool" where
  "conflictsWith operationID locks cs \<longleftrightarrow>
     list_ex (\<lambda>claim. c_OperationID claim \<noteq> operationID \<and>
        list_ex (\<lambda>requested. locksConflict (c_Lock claim) requested) locks) cs"

definition conflictsLocked :: "env \<Rightarrow> string \<Rightarrow> string \<Rightarrow> LockDescriptor list \<Rightarrow> journal \<Rightarrow> bool res \<times> journal" where
  "conflictsLocked E hostKey operationID locks j =
     (case readLockClaims E hostKey j of
        (Inl e, j1) \<Rightarrow> (Inl e, j1)
      | (Inr cs, j1) \<Rightarrow> (Inr (conflictsWith operationID locks cs), j1))"

definition activateLocked :: "env \<Rightarrow> operationJournalEntry \<Rightarrow> journal \<Rightarrow> bool res \<times> journal" where
  "activateLocked E entry0 j =
     (case abandonStaleHostEntriesLocked E (e_HostKey entry0) (e_OwnerPID entry0) j of
        (Some e, j1) \<Rightarrow> (Inl e, j1)
      | (None, j1) \<Rightarrow>
          (case conflictsLocked E (e_HostKey entry0) (e_OperationID entry0) (e_LockSet entry0) j1 of
             (Inl e, j2) \<Rightarrow> (Inl e, j2)
           | (Inr True, j2) \<Rightarrow> (Inr False, j2)
           | (Inr False, j2) \<Rightarrow>
               (let entry = entry0\<lparr>e_Status := Running, e_Attempts := e_Attempts entry0 + 1,
                              e_LastError := [], e_UpdatedAt := now E\<rparr> in
                case writeOperation E entry j2 of
                  (Some e, j3) \<Rightarrow> (Inl e, j3)
                | (None, j3) \<Rightarrow>
                    (case writeHostIndex E entry j3 of
                       (Some e, j4) \<Rightarrow> (Inl e, j4)
                     | (None, j4) \<Rightarrow>
                         (case writeClaims E entry (e_LockSet entry) j4 of
                            (Some e, j5) \<Rightarrow> (Inl e, j5)
                          | (None, j5) \<Rightarrow> (Inr True, j5))))))"

definition tryActivate :: "env \<Rightarrow> operationJournalEntry \<Rightarrow> journal \<Rightarrow> bool res \<times> journal" where
  "tryActivate E entry j = withAdmissionLock E (activateLocked E entry) j"

definition finalizeLocked ::
    "env \<Rightarrow> operationJournalEntry \<Rightarrow> operationStatus \<Rightarrow> error option \<Rightarrow> journal \<Rightarrow> unit res \<times> journal" where
  "finalizeLocked E entry0 status lastErr j =
     (let entry = entry0\<lparr>e_Status := status, e_UpdatedAt := now E,
                    e_LastError := (case lastErr of None \<Rightarrow> [] | Some e \<Rightarrow> error_text e)\<rparr> in
      case writeOperation E entry j of
        (Some e, j1) \<Rightarrow> (Inl e, j1)
      | (None, j1) \<Rightarrow>
          (case removeClaims E entry (e_LockSet entry) j1 of
             (Some e, j2) \<Rightarrow> (Inl e, j2)
           | (None, j2) \<Rightarrow>
               (let (bad, j3) = os_Remove (HostsDir (hostDir E (e_HostKey entry)))
                                  (json_name (e_OperationID entry)) j2 in
                if bad then (Inl (io_error ''remove host operation index''), j3) else (Inr (), j3))))"

text \<open>\<open>finalize\<close> reads the entry before it takes the admission lock.\<close>

definition finalize ::
    "env \<Rightarrow> string \<Rightarrow> operationStatus \<Rightarrow> error option \<Rightarrow> journal \<Rightarrow> unit res \<times> journal" where
  "finalize E operationID status lastErr j =
     (case readOperation E operationID j of
        (Inl e, j1) \<Rightarrow> (Inl e, j1)
      | (Inr entry, j1) \<Rightarrow> withAdmissionLock E (finalizeLocked E entry status lastErr) j1)"

fun findLoop :: "env \<Rightarrow> string \<Rightarrow> string \<Rightarrow> hostOperationIndex list \<Rightarrow> journal
    \<Rightarrow> operationJournalEntry option \<times> journal" where
  "findLoop E hostKey requestID [] j = (None, j)"
| "findLoop E hostKey requestID (idx # rest) j =
     (if TrimSpace (i_RequestID idx) = [] \<or> i_RequestID idx \<noteq> requestID
      then findLoop E hostKey requestID rest j
      else
        (case readOperation E (i_OperationID idx) j of
           (Inl _, j1) \<Rightarrow>
             findLoop E hostKey requestID rest
               (remove_ignored (HostsDir (hostDir E hostKey)) (json_name (i_OperationID idx)) j1)
         | (Inr entry, j1) \<Rightarrow> (Some entry, j1)))"

definition findOperationByRequestIDLocked ::
    "env \<Rightarrow> string \<Rightarrow> string \<Rightarrow> journal \<Rightarrow> operationJournalEntry option res \<times> journal" where
  "findOperationByRequestIDLocked E hostKey requestID j =
     (case readHostOperationIndexes E hostKey j of
        (Inl e, j1) \<Rightarrow> (Inl e, j1)
      | (Inr idxs, j1) \<Rightarrow> (let (found, j2) = findLoop E hostKey requestID idxs j1 in (Inr found, j2)))"

definition newEntry :: "env \<Rightarrow> OperationAcquireParams \<Rightarrow> operationJournalEntry" where
  "newEntry E params = \<lparr>
     e_OperationID = newJournalOperationID E, e_RequestID = aq_RequestID params,
     e_OwnerPID = pid E, e_OwnerBootID = boot_id E, e_HostKey = aq_HostKey params,
     e_SessionKey = aq_SessionKey params, e_ModuleName = aq_ModuleName params,
     e_ResourceType = aq_ResourceType params, e_Action = aq_Action params,
     e_Name = aq_Name params, e_Status = Queued, e_LockSet = normalizeLockSet (aq_LockSet params),
     e_Attempts = 0, e_LastError = [], e_CreatedAt = now E, e_UpdatedAt = now E\<rparr>"

definition createLocked :: "env \<Rightarrow> OperationAcquireParams \<Rightarrow> journal \<Rightarrow> operationJournalEntry res \<times> journal" where
  "createLocked E params j =
     (let entry = newEntry E params in
      case writeOperation E entry j of
        (Some e, j1) \<Rightarrow> (Inl e, j1)
      | (None, j1) \<Rightarrow>
          (case writeHostIndex E entry j1 of
             (Some e, j2) \<Rightarrow> (Inl e, j2)
           | (None, j2) \<Rightarrow> (Inr entry, j2)))"

definition findOrCreateLocked ::
    "env \<Rightarrow> OperationAcquireParams \<Rightarrow> journal \<Rightarrow> operationJournalEntry res \<times> journal" where
  "findOrCreateLocked E params j =
     (case abandonStaleHostEntriesLocked E (aq_HostKey params) (pid E) j of
        (Some e, j1) \<Rightarrow> (Inl e, j1)
      | (None, j1) \<Rightarrow>
          if TrimSpace (aq_RequestID params) \<noteq> [] then
            (case findOperationByRequestIDLocked E (aq_HostKey params) (aq_RequestID params) j1 of
               (Inl e, j2) \<Rightarrow> (Inl e, j2)
             | (Inr (Some existing), j2) \<Rightarrow> (Inr existing, j2)
             | (Inr None, j2) \<Rightarrow> createLocked E params j2)
          else createLocked E params j1)"

definition findOrCreateOperation ::
    "env \<Rightarrow> OperationAcquireParams \<Rightarrow> journal \<Rightarrow> operationJournalEntry res \<times> journal" where
  "findOrCreateOperation E params j = withAdmissionLock E (findOrCreateLocked E params) j"

subsection \<open>Acquire and Release\<close>

text \<open>\<open>ctx\<close> is what \<open>ctx.Err()\<close> returns at the check between the two critical sections.\<close>

definition Acquire :: "env \<Rightarrow> error option \<Rightarrow> OperationAcquireParams \<Rightarrow> journal \<Rightarrow> (string \<times> bool) res \<times> journal" where
  "Acquire E ctx params j =
     (case ensureDirs E (aq_HostKey params) j of
        (Some e, j1) \<Rightarrow> (Inl e, j1)
      | (None, j1) \<Rightarrow>
          (case findOrCreateOperation E params j1 of
             (Inl e, j2) \<Rightarrow> (Inl e, j2)
           | (Inr entry, j2) \<Rightarrow>
               if e_Status entry = Running then (Inr (e_OperationID entry, True), j2)
               else
                 (case ctx of
                    Some err \<Rightarrow> (Inl err, snd (finalize E (e_OperationID entry) Failed (Some err) j2))
                  | None \<Rightarrow>
                      (case tryActivate E entry j2 of
                         (Inl err, j3) \<Rightarrow>
                           (Inl err, snd (finalize E (e_OperationID entry) Failed (Some err) j3))
                       | (Inr activated, j3) \<Rightarrow> (Inr (e_OperationID entry, activated), j3)))))"

definition Release :: "env \<Rightarrow> OperationReleaseParams \<Rightarrow> journal \<Rightarrow> unit res \<times> journal" where
  "Release E params j =
     (if rl_Status params \<noteq> statusString Completed
      then finalize E (rl_OperationID params) Failed
             (if rl_LastError params \<noteq> [] then Some (Errorf (rl_LastError params)) else None) j
      else finalize E (rl_OperationID params) Completed None j)"

end
