(* ===== verification/JournalFacts.thy ===== *)
theory JournalFacts
  imports OperationJournal
begin

text \<open>
  Facts about the journal's operations that the properties share: what a lock-set normalisation
  leaves, when two claim paths coincide, how each file system call changes the three kinds of
  files, and \<open>evolves\<close>: the only changes a clean-up may make are removals of claims whose
  owner is gone, of index files, and the abandonment of operations whose owner is gone.
\<close>

subsection \<open>Locks\<close>

definition lockToken :: "LockDescriptor \<Rightarrow> string" where
  "lockToken lock = lk_Key lock @ ''|'' @ lk_Mode lock"

lemma normalizeLocks_token_fresh:
  "l \<in> set (normalizeLocks seen ls) \<Longrightarrow> lockToken l \<notin> seen"
proof (induction seen ls rule: normalizeLocks.induct)
  case (2 seen lock locks)
  then show ?case by (auto simp: Let_def lockToken_def split: if_splits)
qed simp

lemma normalizeLocks_distinct: "distinct (map lockToken (normalizeLocks seen ls))"
proof (induction seen ls rule: normalizeLocks.induct)
  case (2 seen lock locks)
  define lock' where
    "lock' = (if lk_Mode lock = [] then lock\<lparr>lk_Mode := LockModeExclusive\<rparr> else lock)"
  show ?case
  proof (cases "lk_Key lock = []")
    case False
    have "lockToken lock' \<notin> set (map lockToken (normalizeLocks (insert (lockToken lock') seen) locks))"
      using normalizeLocks_token_fresh by fastforce
    with 2 False show ?thesis
      by (simp add: Let_def lockToken_def flip: lock'_def)
  qed (use 2 in simp)
qed simp

lemma normalizeLocks_elem:
  "l \<in> set (normalizeLocks seen ls) \<Longrightarrow> lk_Key l \<noteq> [] \<and> lk_Mode l \<noteq> []"
  by (induction seen ls rule: normalizeLocks.induct) (auto simp: Let_def split: if_splits)

lemma normalizeLocks_complete:
  "l \<in> set ls \<Longrightarrow> lk_Key l \<noteq> [] \<Longrightarrow>
     lockToken (if lk_Mode l = [] then l\<lparr>lk_Mode := LockModeExclusive\<rparr> else l)
       \<in> seen \<union> lockToken ` set (normalizeLocks seen ls)"
proof (induction seen ls rule: normalizeLocks.induct)
  case (2 seen lock locks)
  then show ?case
    by (cases "l = lock") (auto simp: Let_def lockToken_def split: if_splits)
qed simp

lemma locksConflict_sym: "locksConflict a b = locksConflict b a"
  by (auto simp: locksConflict_def)

subsection \<open>Paths\<close>

lemma MustDigestBytes_xxh3:
  "MustDigestBytes H AlgorithmXXH3_128 v = Some (AlgorithmXXH3_128 @ '':'' @ hex_bytes (xxh3_sum H v))"
  by (simp add: MustDigestBytes_def DigestBytes_def)

lemma digestPathComponent_inj:
  assumes "hash_sizes H" and "digestPathComponent H a = digestPathComponent H b"
  shows "xxh3_sum H a = xxh3_sum H b"
proof -
  have ne: "xxh3_sum H v \<noteq> []" for v
    using assms(1) by (auto simp: hash_sizes_def simp flip: length_greater_0_conv)
  show ?thesis
    using assms(2) Token_tagged_inj [OF ne ne]
    unfolding digestPathComponent_def MustDigestBytes_xxh3 option.case by blast
qed

lemma digestPathComponent_head:
  assumes "hash_sizes H" shows "\<exists>s. digestPathComponent H v = CHR ''x'' # s"
proof -
  have ne: "xxh3_sum H v \<noteq> []"
    using assms by (auto simp: hash_sizes_def simp flip: length_greater_0_conv)
  show ?thesis
    using TrimSpace_tagged [OF ne, of AlgorithmXXH3_128]
    unfolding digestPathComponent_def MustDigestBytes_xxh3
    by (simp add: Token_def supported_algorithm_def AlgorithmXXH3_128_def)
qed

lemma append_sep_inj:
  "c \<notin> set a \<Longrightarrow> c \<notin> set b \<Longrightarrow> a @ c # x = b @ c # y \<Longrightarrow> a = b \<and> x = y"
  by (induction a arbitrary: b) (auto simp: Cons_eq_append_conv append_eq_Cons_conv)

text \<open>The string whose digest names a claim file.\<close>

definition claim_key :: "string \<Rightarrow> LockDescriptor \<Rightarrow> string" where
  "claim_key i l = i @ ''|'' @ lockToken l"

lemma lockClaimName_sum:
  assumes "hash_sizes H" and "lockClaimName H a k = lockClaimName H b l"
  shows "xxh3_sum H (claim_key a k) = xxh3_sum H (claim_key b l)"
proof -
  have "digestPathComponent H (claim_key a k) = digestPathComponent H (claim_key b l)"
    using assms(2) unfolding lockClaimName_def json_name_def lockToken_def claim_key_def by simp
  from digestPathComponent_inj [OF assms(1) this] show ?thesis .
qed

lemma claim_key_inj:
  assumes "CHR ''|'' \<notin> set a" "CHR ''|'' \<notin> set b" and "claim_key a k = claim_key b l"
  shows "a = b \<and> lockToken k = lockToken l"
  using append_sep_inj [OF assms(1,2)] assms(3) by (simp add: claim_key_def)

lemma digit_char_not_bar: "digit_char n \<noteq> CHR ''|''"
  using digit_char_hex [of n] by (auto simp: is_hex_char_def)

lemma hex_bytes_bar: "CHR ''|'' \<notin> set (hex_bytes s)"
  by (induction s) (auto simp: digit_char_not_bar [symmetric])

lemma json_name_inj [simp]: "json_name a = json_name b \<longleftrightarrow> a = b"
  by (simp add: json_name_def)

subsection \<open>Views of the journal\<close>

definition claim_at :: "journal \<Rightarrow> string \<Rightarrow> string \<Rightarrow> lockClaim node option" where
  "claim_at j h n = (case claims j h of None \<Rightarrow> None | Some d \<Rightarrow> dir_get d n)"

definition index_at :: "journal \<Rightarrow> string \<Rightarrow> string \<Rightarrow> hostOperationIndex node option" where
  "index_at j h n = (case hosts j h of None \<Rightarrow> None | Some d \<Rightarrow> dir_get d n)"

definition op_at :: "journal \<Rightarrow> string \<Rightarrow> operationJournalEntry sealed node option" where
  "op_at j n = dir_get (operations j) n"

definition dirs_wf :: "journal \<Rightarrow> bool" where
  "dirs_wf j \<longleftrightarrow> (\<forall>h d. claims j h = Some d \<longrightarrow> dir_wf d) \<and> (\<forall>h d. hosts j h = Some d \<longrightarrow> dir_wf d)"

lemmas view_defs = claim_at_def index_at_def op_at_def

lemma fault_calm [simp]: "faults j = [] \<Longrightarrow> fault j = (False, j)"
  by (simp add: fault_def)

lemma os_Remove_calm [simp]: "faults j = [] \<Longrightarrow> os_Remove jd n j = (False, del_file jd n j)"
  by (simp add: os_Remove_def)

lemma remove_ignored_calm [simp]: "faults j = [] \<Longrightarrow> remove_ignored jd n j = del_file jd n j"
  by (simp add: remove_ignored_def)

lemma faults_del_file [simp]: "faults (del_file jd n j) = faults j"
  by (cases jd) auto

lemma faults_put_junk [simp]: "faults (put_junk jd n j) = faults j"
  by (cases jd) auto

lemma faults_mkdirAll [simp]: "faults (mkdirAll jd j) = faults j"
  by (cases jd) auto

lemma claim_at_del_file:
  "claim_at (del_file jd n j) h k = (if jd = LocksDir h \<and> k = n then None else claim_at j h k)"
  by (cases jd) (auto simp: claim_at_def dir.get_del split: option.splits)

lemma index_at_del_file:
  "index_at (del_file jd n j) h k = (if jd = HostsDir h \<and> k = n then None else index_at j h k)"
  by (cases jd) (auto simp: index_at_def dir.get_del split: option.splits)

lemma op_at_del_file:
  "op_at (del_file jd n j) k = (if jd = OperationsDir \<and> k = n then None else op_at j k)"
  by (cases jd) (auto simp: op_at_def dir.get_del)

lemmas del_file_views = claim_at_del_file index_at_del_file op_at_del_file

lemma dirs_exist_del_file [simp]:
  "(claims (del_file jd n j) h = None) = (claims j h = None)"
  "(hosts (del_file jd n j) h = None) = (hosts j h = None)"
  by (cases jd; auto)+

lemma dirs_wf_del_file: "dirs_wf j \<Longrightarrow> dirs_wf (del_file jd n j)"
  by (cases jd) (auto simp: dirs_wf_def dir.wf_del split: if_splits)

lemma dirs_wf_put_junk: "dirs_wf j \<Longrightarrow> dirs_wf (put_junk jd n j)"
  by (cases jd) (auto simp: dirs_wf_def dir.wf_put split: if_splits)

lemma dirs_wf_mkdirAll: "dirs_wf j \<Longrightarrow> dirs_wf (mkdirAll jd j)"
  by (cases jd) (auto simp: dirs_wf_def split: if_splits option.splits)

declare del_file.simps [simp del] put_junk.simps [simp del] mkdirAll.simps [simp del]

text \<open>The writes of a calm journal, each as one update of one view.\<close>

lemma writeOperation_calm:
  assumes "faults j = []" and "writeOperation E entry j = (r, j')"
  shows "(\<exists>e. r = Some e \<and> journal_key E = [] \<and> j' = j) \<or>
         (r = None \<and> j' = j\<lparr>operations := dir_put (json_name (e_OperationID entry))
                              (Plain (Sealed (journal_key E) entry)) (operations j)\<rparr>)"
  using assms
  by (auto simp: writeOperation_def marshalEncryptedJSON_def runtimeJournalKeyBytes_def
      split: sum.splits if_splits)

lemma writeHostIndex_calm:
  assumes "faults j = []" and "writeHostIndex E entry j = (r, j')"
    and "h = hostDir E (e_HostKey entry)"
  shows "(\<exists>e. r = Some e \<and> hosts j h = None \<and> j' = j) \<or>
         (\<exists>d. r = None \<and> hosts j h = Some d \<and>
            j' = j\<lparr>hosts := (hosts j)(h \<mapsto> dir_put (json_name (e_OperationID entry)) (Plain (indexOf entry)) d)\<rparr>)"
  using assms by (auto simp: writeHostIndex_def Let_def split: option.splits)

lemma readOperation_calm:
  assumes "faults j = []" and "readOperation E operationID j = (r, j')"
  shows "j' = j \<and> (\<forall>entry. r = Inr entry \<longrightarrow>
           op_at j (json_name operationID) = Some (Plain (Sealed (journal_key E) entry)))"
  using assms
  by (auto simp: readOperation_def op_at_def unmarshalEncryptedJSON_def runtimeJournalKeyBytes_def
      split: option.splits node.splits sealed.splits if_splits)

text \<open>The executor's lock set. The normalised set holds no lock twice (by key and mode), only
  locks with a key and a mode, and every requested lock that has a key, exclusive where no mode was
  given.\<close>

lemma normalizeLockSet_spec:
  "distinct (map lockToken (normalizeLockSet ls)) \<and>
   (\<forall>l \<in> set (normalizeLockSet ls). lk_Key l \<noteq> [] \<and> lk_Mode l \<noteq> []) \<and>
   (\<forall>l \<in> set ls. lk_Key l \<noteq> [] \<longrightarrow>
      lockToken (if lk_Mode l = [] then l\<lparr>lk_Mode := LockModeExclusive\<rparr> else l)
        \<in> lockToken ` set (normalizeLockSet ls))"
  using normalizeLocks_distinct normalizeLocks_elem normalizeLocks_complete
  unfolding normalizeLockSet_def by (metis UnCI Un_empty_left)

definition demo_locks :: "LockDescriptor list" where
  "demo_locks = [\<lparr>lk_Key = ''a'', lk_Mode = [], lk_Source = ''s''\<rparr>, \<lparr>lk_Key = ''a'', lk_Mode = ''exclusive'', lk_Source = ''t''\<rparr>,
     \<lparr>lk_Key = [], lk_Mode = ''shared'', lk_Source = ''u''\<rparr>]"

lemma normalizeLockSet_spec_witness:
  "lk_Mode (hd (normalizeLockSet demo_locks)) \<noteq> [] \<and>
   ''a|exclusive'' \<in> lockToken ` set (normalizeLockSet demo_locks)"
proof -
  have "hd (normalizeLockSet demo_locks) \<in> set (normalizeLockSet demo_locks)"
    "hd demo_locks \<in> set demo_locks" "lk_Key (hd demo_locks) = ''a''" "lk_Mode (hd demo_locks) = []"
    by (simp_all add: normalizeLockSet_def demo_locks_def LockModeExclusive_def)
  moreover from this(3,4) have
    "lockToken (if lk_Mode (hd demo_locks) = [] then (hd demo_locks)\<lparr>lk_Mode := LockModeExclusive\<rparr> else hd demo_locks)
       = ''a|exclusive''" by (simp add: lockToken_def LockModeExclusive_def)
  ultimately show ?thesis using normalizeLockSet_spec [of demo_locks] by (metis list.distinct(1))
qed

end
