(* ===== verification/Admission.thy ===== *)
theory Admission
  imports JournalFacts
begin

text \<open>
  Admission control over the operation journal: the interleaving of the critical sections of any
  number of executor processes on one host machine, process death and reboot, and the safety of
  the leases they grant.

  \<open>born\<close> maps every operation identifier ever made to the entry it was created with; identifier,
  owner, host and lock set never change after that (\<open>same_op\<close>).
\<close>

subsection \<open>Coherence of the journal's files\<close>

type_synonym births = "string \<Rightarrow> operationJournalEntry option"

definition same_op :: "operationJournalEntry \<Rightarrow> operationJournalEntry \<Rightarrow> bool" where
  "same_op a b \<longleftrightarrow> e_OperationID a = e_OperationID b \<and> e_OwnerPID a = e_OwnerPID b \<and>
     e_OwnerBootID a = e_OwnerBootID b \<and> e_HostKey a = e_HostKey b \<and> e_LockSet a = e_LockSet b"

lemma same_op_refl [simp]: "same_op a a"
  by (simp add: same_op_def)

lemma same_op_sym: "same_op a b \<Longrightarrow> same_op b a"
  by (simp add: same_op_def)

lemma same_op_trans: "same_op a b \<Longrightarrow> same_op b c \<Longrightarrow> same_op a c"
  by (simp add: same_op_def)

definition known :: "births \<Rightarrow> operationJournalEntry \<Rightarrow> bool" where
  "known B x \<longleftrightarrow> (\<exists>b. B (e_OperationID x) = Some b \<and> same_op x b)"

definition rand_id :: "string \<Rightarrow> bool" where
  "rand_id i \<longleftrightarrow> (\<exists>s. i = ''rand:'' @ hex_bytes s)"

definition births_ok :: "births \<Rightarrow> bool" where
  "births_ok B \<longleftrightarrow> (\<forall>i b. B i = Some b \<longrightarrow> e_OperationID b = i \<and> rand_id i \<and>
     distinct (map lockToken (e_LockSet b)))"

lemma rand_id_bar: "rand_id i \<Longrightarrow> CHR ''|'' \<notin> set i"
  using hex_bytes_bar by (auto simp: rand_id_def)

lemma births_okD:
  assumes "births_ok B" and "B i = Some b"
  shows "e_OperationID b = i" "CHR ''|'' \<notin> set i" "rand_id i" "distinct (map lockToken (e_LockSet b))"
  using assms rand_id_bar unfolding births_ok_def by blast+

text \<open>No two of the claim keys used so far collide under the 128-bit XXH3 hash.\<close>

definition claims_free :: "hashes \<Rightarrow> births \<Rightarrow> bool" where
  "claims_free H B \<longleftrightarrow> (\<forall>i b l i' b' l'. B i = Some b \<longrightarrow> l \<in> set (e_LockSet b) \<longrightarrow>
     B i' = Some b' \<longrightarrow> l' \<in> set (e_LockSet b') \<longrightarrow>
     xxh3_sum H (claim_key i l) = xxh3_sum H (claim_key i' l') \<longrightarrow> claim_key i l = claim_key i' l')"

lemma claims_free_mono: "claims_free H B' \<Longrightarrow> B \<subseteq>\<^sub>m B' \<Longrightarrow> claims_free H B"
  unfolding claims_free_def map_le_def by (metis domI)

lemma lockClaimName_inj:
  assumes sz: "hash_sizes H" and cf: "claims_free H B" and ok: "births_ok B"
    and k: "B a = Some x" "k \<in> set (e_LockSet x)" and l: "B b = Some y" "l \<in> set (e_LockSet y)"
    and eq: "lockClaimName H a k = lockClaimName H b l"
  shows "a = b \<and> lockToken k = lockToken l"
proof -
  have "claim_key a k = claim_key b l"
    using cf k l lockClaimName_sum [OF sz eq] unfolding claims_free_def by blast
  from claim_key_inj [OF _ _ this] births_okD(2) [OF ok] k(1) l(1) show ?thesis by blast
qed

lemma permcheckName_not_json: "rand_id i \<Longrightarrow> json_name i \<noteq> permcheckName E"
  by (auto simp: rand_id_def json_name_def permcheckName_def)

lemma permcheckName_not_claim: "hash_sizes H \<Longrightarrow> lockClaimName H i l \<noteq> permcheckName E"
  using digestPathComponent_head [of H "i @ ''|'' @ lk_Key l @ ''|'' @ lk_Mode l"]
  by (auto simp: lockClaimName_def json_name_def permcheckName_def)

definition index_ok :: "births \<Rightarrow> hostOperationIndex \<Rightarrow> bool" where
  "index_ok B idx \<longleftrightarrow> (\<exists>b. B (i_OperationID idx) = Some b \<and> i_OwnerPID idx = e_OwnerPID b \<and>
     i_OwnerBootID idx = e_OwnerBootID b)"

definition claim_ok :: "hashes \<Rightarrow> births \<Rightarrow> string \<Rightarrow> string \<Rightarrow> lockClaim \<Rightarrow> bool" where
  "claim_ok H B h n c \<longleftrightarrow> (\<exists>b. B (c_OperationID c) = Some b \<and> c_OwnerPID c = e_OwnerPID b \<and>
     c_OwnerBootID c = e_OwnerBootID b \<and> h = digestPathComponent H (e_HostKey b) \<and>
     c_Lock c \<in> set (e_LockSet b) \<and> n = lockClaimName H (c_OperationID c) (c_Lock c))"

definition coherent :: "hashes \<Rightarrow> births \<Rightarrow> journal \<Rightarrow> bool" where
  "coherent H B j \<longleftrightarrow>
     (\<forall>n k v. op_at j n = Some (Plain (Sealed k v)) \<longrightarrow> n = json_name (e_OperationID v) \<and> known B v) \<and>
     (\<forall>h n idx. index_at j h n = Some (Plain idx) \<longrightarrow> index_ok B idx) \<and>
     (\<forall>h n c. claim_at j h n = Some (Plain c) \<longrightarrow> claim_ok H B h n c)"

lemma coherentD:
  assumes "coherent H B j"
  shows "op_at j n = Some (Plain (Sealed k v)) \<Longrightarrow> n = json_name (e_OperationID v)"
    and "op_at j n = Some (Plain (Sealed k v)) \<Longrightarrow> known B v"
    and "index_at j h n = Some (Plain idx) \<Longrightarrow> index_ok B idx"
    and "claim_at j h n = Some (Plain c) \<Longrightarrow> claim_ok H B h n c"
  using assms unfolding coherent_def by blast+

abbreviation owner_active :: "env \<Rightarrow> int \<Rightarrow> string \<Rightarrow> bool" where
  "owner_active E p b \<equiv> operationJournalOwnerActive E p b (boot_id E)"

subsection \<open>What a clean-up may change\<close>

text \<open>\<open>op_change\<close>: an entry file is unchanged, or belongs to an operation whose owner is gone and
  was removed or marked abandoned, or is a temporary file that went away.\<close>

definition op_change :: "env \<Rightarrow> births \<Rightarrow> journal \<Rightarrow> journal \<Rightarrow> string \<Rightarrow> bool" where
  "op_change E B j j' n \<longleftrightarrow> op_at j' n = op_at j n \<or>
     (\<exists>i b. n = json_name i \<and> B i = Some b \<and> \<not> owner_active E (e_OwnerPID b) (e_OwnerBootID b) \<and>
        (op_at j' n = None \<or>
         (\<exists>k v. op_at j' n = Some (Plain (Sealed k v)) \<and> e_OperationID v = i \<and> same_op v b \<and>
            e_Status v = Abandoned))) \<or>
     (op_at j' n = None \<and> (\<forall>f. op_at j n \<noteq> Some (Plain f)))"

definition claim_change :: "env \<Rightarrow> journal \<Rightarrow> journal \<Rightarrow> string \<Rightarrow> string \<Rightarrow> bool" where
  "claim_change E j j' h n \<longleftrightarrow> claim_at j' h n = claim_at j h n \<or>
     (claim_at j' h n = None \<and>
      (\<forall>c. claim_at j h n = Some (Plain c) \<longrightarrow> \<not> owner_active E (c_OwnerPID c) (c_OwnerBootID c)))"

definition evolves :: "env \<Rightarrow> births \<Rightarrow> journal \<Rightarrow> journal \<Rightarrow> bool" where
  "evolves E B j j' \<longleftrightarrow>
     faults j' = faults j \<and> (dirs_wf j \<longrightarrow> dirs_wf j') \<and>
     (\<forall>h. hosts j h \<noteq> None \<longrightarrow> hosts j' h \<noteq> None) \<and>
     (\<forall>h. claims j h \<noteq> None \<longrightarrow> claims j' h \<noteq> None) \<and>
     (\<forall>h n. index_at j' h n = index_at j h n \<or> index_at j' h n = None) \<and>
     (\<forall>h n. claim_change E j j' h n) \<and> (\<forall>n. op_change E B j j' n)"

lemma evolves_refl [simp]: "evolves E B j j"
  by (simp add: evolves_def claim_change_def op_change_def)

lemma claim_change_trans:
  "claim_change E j j' h n \<Longrightarrow> claim_change E j' j'' h n \<Longrightarrow> claim_change E j j'' h n"
  unfolding claim_change_def by auto

lemma op_change_trans:
  "op_change E B j j' n \<Longrightarrow> op_change E B j' j'' n \<Longrightarrow> op_change E B j j'' n"
  unfolding op_change_def by (elim disjE) (simp_all, auto)

lemma evolves_trans: "evolves E B j j' \<Longrightarrow> evolves E B j' j'' \<Longrightarrow> evolves E B j j''"
  unfolding evolves_def
  by (elim conjE, intro conjI allI impI; (blast intro: claim_change_trans op_change_trans | metis))

lemma evolves_calm: "evolves E B j j' \<Longrightarrow> faults j = [] \<Longrightarrow> faults j' = []"
  by (simp add: evolves_def)

lemma evolves_wf: "evolves E B j j' \<Longrightarrow> dirs_wf j \<Longrightarrow> dirs_wf j'"
  by (simp add: evolves_def)

lemma evolves_dirs:
  "evolves E B j j' \<Longrightarrow> hosts j h \<noteq> None \<Longrightarrow> hosts j' h \<noteq> None"
  "evolves E B j j' \<Longrightarrow> claims j h \<noteq> None \<Longrightarrow> claims j' h \<noteq> None"
  unfolding evolves_def by blast+

lemma evolves_coherent:
  assumes ev: "evolves E B j j'" and co: "coherent H B j"
  shows "coherent H B j'"
  unfolding coherent_def
proof (intro conjI allI impI)
  fix n k v assume v: "op_at j' n = Some (Plain (Sealed k v))"
  have "op_change E B j j' n" using ev by (simp add: evolves_def)
  then consider "op_at j n = Some (Plain (Sealed k v))"
    | b where "n = json_name (e_OperationID v)" "B (e_OperationID v) = Some b" "same_op v b"
    using v unfolding op_change_def by auto
  then have "n = json_name (e_OperationID v) \<and> known B v"
  proof cases
    case 1
    then show ?thesis using coherentD(1,2) [OF co] by blast
  qed (auto simp: known_def)
  then show "n = json_name (e_OperationID v)" and "known B v" by simp_all
next
  fix h n idx assume "index_at j' h n = Some (Plain idx)"
  moreover have "index_at j' h n = index_at j h n \<or> index_at j' h n = None"
    using ev by (simp add: evolves_def)
  ultimately show "index_ok B idx" using coherentD(3) [OF co] by auto
next
  fix h n c assume "claim_at j' h n = Some (Plain c)"
  moreover have "claim_change E j j' h n" using ev by (simp add: evolves_def)
  ultimately show "claim_ok H B h n c" using coherentD(4) [OF co] by (auto simp: claim_change_def)
qed

text \<open>Removals of one file.\<close>

lemma op_change_same: "op_at j' n = op_at j n \<Longrightarrow> op_change E B j j' n"
  by (simp add: op_change_def)

lemma claim_change_same: "claim_at j' h n = claim_at j h n \<Longrightarrow> claim_change E j j' h n"
  by (simp add: claim_change_def)

lemma evolves_del_index: "faults j = [] \<Longrightarrow> evolves E B j (del_file (HostsDir h) n j)"
  unfolding evolves_def
  by (intro conjI allI impI op_change_same claim_change_same)
    (simp_all add: del_file_views dirs_wf_del_file)

lemma evolves_del_claim:
  assumes "\<And>c. claim_at j h n = Some (Plain c) \<Longrightarrow> \<not> owner_active E (c_OwnerPID c) (c_OwnerBootID c)"
  shows "evolves E B j (del_file (LocksDir h) n j)"
  unfolding evolves_def using assms
  by (intro conjI allI impI op_change_same)
    (auto simp: claim_change_def del_file_views dirs_wf_del_file)

lemma evolves_del_junk_op:
  "\<forall>f. op_at j n \<noteq> Some (Plain f) \<Longrightarrow> evolves E B j (del_file OperationsDir n j)"
  unfolding evolves_def
  by (intro conjI allI impI claim_change_same)
    (auto simp: del_file_views dirs_wf_del_file op_change_def)

lemma evolves_mkdirAll: "evolves E B j (mkdirAll jd j)"
  unfolding evolves_def
  by (intro conjI allI impI op_change_same claim_change_same; cases jd)
    (auto simp: mkdirAll.simps view_defs dirs_wf_def split: option.splits if_splits)

lemma evolves_admission: "evolves E B j (j\<lparr>admission := a\<rparr>)"
  unfolding evolves_def
  by (intro conjI allI impI op_change_same claim_change_same) (simp_all add: view_defs dirs_wf_def)

lemma evolves_del_op:
  assumes "B i = Some b" and "\<not> owner_active E (e_OwnerPID b) (e_OwnerBootID b)"
  shows "evolves E B j (del_file OperationsDir (json_name i) j)"
  unfolding evolves_def
proof (intro conjI allI impI claim_change_same)
  show "op_change E B j (del_file OperationsDir (json_name i) j) n" for n
    using assms by (cases "n = json_name i") (auto simp: op_change_def op_at_del_file)
qed (simp_all add: del_file_views dirs_wf_del_file)

lemma evolves_abandon_op:
  assumes "B (e_OperationID v) = Some b" and "\<not> owner_active E (e_OwnerPID b) (e_OwnerBootID b)"
    and "same_op v b" and "e_Status v = Abandoned"
  shows "evolves E B j (j\<lparr>operations := dir_put (json_name (e_OperationID v)) (Plain (Sealed k v)) (operations j)\<rparr>)"
    (is "evolves E B j ?j'")
  unfolding evolves_def
proof (intro conjI allI impI claim_change_same)
  show "op_change E B j ?j' n" for n
  proof (cases "n = json_name (e_OperationID v)")
    case True
    with assms show ?thesis by (auto simp: op_change_def op_at_def dir.get_put)
  next
    case False
    then show ?thesis by (intro op_change_same) (simp add: op_at_def dir.get_put)
  qed
qed (simp_all add: dirs_wf_def claim_at_def index_at_def)

subsection \<open>The listing loops\<close>

text \<open>The rest of a listing that is being worked off still describes the directory, but for the
  files removed meanwhile.\<close>

definition agrees :: "journal \<Rightarrow> string \<Rightarrow> lockClaim dir \<Rightarrow> bool" where
  "agrees j h fs \<longleftrightarrow> (\<forall>n f. (n, f) \<in> set fs \<longrightarrow> claim_at j h n = Some f \<or> claim_at j h n = None)"

lemma agrees_del: "agrees j h fs \<Longrightarrow> agrees (del_file (LocksDir h) n j) h fs"
  by (simp add: agrees_def claim_at_del_file)

fun activeClaims :: "env \<Rightarrow> lockClaim dir \<Rightarrow> lockClaim list" where
  "activeClaims E [] = []"
| "activeClaims E ((n, Plain c) # fs) =
     (if owner_active E (c_OwnerPID c) (c_OwnerBootID c) then c # activeClaims E fs else activeClaims E fs)"
| "activeClaims E ((n, f) # fs) = activeClaims E fs"

lemma set_activeClaims:
  "set (activeClaims E fs) =
     {c. (\<exists>n. (n, Plain c) \<in> set fs) \<and> owner_active E (c_OwnerPID c) (c_OwnerBootID c)}"
  by (induction E fs rule: activeClaims.induct) auto

lemma collectClaims_evolves:
  assumes "faults j = []" and "agrees j h fs"
  shows "evolves E B j (snd (collectClaims E h fs j)) \<and> fst (collectClaims E h fs j) = activeClaims E fs"
  using assms
proof (induction E h fs j rule: collectClaims.induct)
  case (1 E h j)
  then show ?case by simp
next
  case (2 E h n f fs j)
  let ?del = "del_file (LocksDir h) n j"
  have here: "claim_at j h n = Some f \<or> claim_at j h n = None"
    and rest: "agrees j h fs"
    using "2.prems"(2) by (auto simp: agrees_def)
  from rest have rest': "agrees ?del h fs" by (rule agrees_del)
  have calm: "faults j = []" "faults ?del = []" using "2.prems"(1) by simp_all
  have gone: "evolves E B j ?del"
    if "\<And>c. f = Plain c \<Longrightarrow> \<not> owner_active E (c_OwnerPID c) (c_OwnerBootID c)"
    by (rule evolves_del_claim) (use here that in auto)
  show ?case
  proof (cases f)
    case SubDir
    with "2.IH"(1) [OF SubDir] calm rest show ?thesis by simp
  next
    case Junk
    with "2.IH"(4) [OF Junk] calm rest' gone show ?thesis
      by (auto intro: evolves_trans)
  next
    case (Plain c)
    show ?thesis
    proof (cases "owner_active E (c_OwnerPID c) (c_OwnerBootID c)")
      case True
      with Plain "2.IH"(3) [OF Plain] calm rest show ?thesis
        by (simp add: case_prod_unfold Let_def)
    next
      case False
      with Plain "2.IH"(2) [OF Plain] calm rest' gone show ?thesis
        by (auto intro: evolves_trans)
    qed
  qed
qed

lemma readLockClaims_calm:
  assumes "faults j = []" and "dirs_wf j" and "readLockClaims E hostKey j = (r, j')"
  shows "evolves E B j j' \<and> (\<exists>cs. r = Inr cs \<and>
     (\<forall>n c. claim_at j (hostDir E hostKey) n = Some (Plain c) \<longrightarrow>
        owner_active E (c_OwnerPID c) (c_OwnerBootID c) \<longrightarrow> c \<in> set cs) \<and>
     (\<forall>c \<in> set cs. owner_active E (c_OwnerPID c) (c_OwnerBootID c) \<and>
        (\<exists>n. claim_at j (hostDir E hostKey) n = Some (Plain c))))"
proof (cases "claims j (hostDir E hostKey)")
  case None
  with assms show ?thesis by (auto simp: readLockClaims_def claim_at_def)
next
  case (Some d)
  let ?h = "hostDir E hostKey"
  have wf: "dir_wf d" using assms(2) Some by (auto simp: dirs_wf_def)
  have at: "claim_at j ?h n = Some f \<longleftrightarrow> (n, f) \<in> set d" for n f
    using dir.listing_get [OF wf] Some by (simp add: claim_at_def)
  have "evolves E B j (snd (collectClaims E ?h d j)) \<and> fst (collectClaims E ?h d j) = activeClaims E d"
    using assms(1) at by (intro collectClaims_evolves) (simp_all add: agrees_def)
  moreover have "r = Inr (fst (collectClaims E ?h d j))" "j' = snd (collectClaims E ?h d j)"
    using assms Some by (auto simp: readLockClaims_def case_prod_unfold Let_def)
  ultimately show ?thesis using at by (auto simp: set_activeClaims)
qed

lemma collectIndexes_evolves:
  "faults j = [] \<Longrightarrow> evolves E B j (snd (collectIndexes h fs j)) \<and>
     set (fst (collectIndexes h fs j)) = {idx. \<exists>n. (n, Plain idx) \<in> set fs}"
proof (induction h fs j rule: collectIndexes.induct)
  case (2 h n f fs j)
  then show ?case
    by (cases f) (auto simp: case_prod_unfold Let_def intro: evolves_trans [OF evolves_del_index])
qed simp

lemma readHostOperationIndexes_calm:
  assumes "faults j = []" and "dirs_wf j" and "readHostOperationIndexes E hostKey j = (r, j')"
  shows "evolves E B j j' \<and> (\<exists>idxs. r = Inr idxs \<and>
     (\<forall>idx. idx \<in> set idxs \<longleftrightarrow> (\<exists>n. index_at j (hostDir E hostKey) n = Some (Plain idx))))"
proof (cases "hosts j (hostDir E hostKey)")
  case None
  with assms show ?thesis by (auto simp: readHostOperationIndexes_def index_at_def)
next
  case (Some d)
  have wf: "dir_wf d" using assms(2) Some by (auto simp: dirs_wf_def)
  show ?thesis
    using collectIndexes_evolves [OF assms(1), of E B "hostDir E hostKey" d] assms Some
      dir.listing_get [OF wf]
    by (auto simp: readHostOperationIndexes_def index_at_def case_prod_unfold Let_def)
qed

subsection \<open>Removing the claims of an operation whose owner is gone\<close>

lemma stale_claim_name:
  assumes co: "coherent H B j" and ok: "births_ok B" and hz: "hash_sizes H" "claims_free H B"
    and b: "B i = Some b" and l: "l \<in> set (e_LockSet b)" and c: "claim_at j h (lockClaimName H i l) = Some (Plain c)"
  shows "c_OperationID c = i \<and> c_OwnerPID c = e_OwnerPID b \<and> c_OwnerBootID c = e_OwnerBootID b"
proof -
  from coherentD(4) [OF co c] obtain b' where
    b': "B (c_OperationID c) = Some b'" "c_OwnerPID c = e_OwnerPID b'" "c_OwnerBootID c = e_OwnerBootID b'"
      "c_Lock c \<in> set (e_LockSet b')" "lockClaimName H i l = lockClaimName H (c_OperationID c) (c_Lock c)"
    unfolding claim_ok_def by auto
  from lockClaimName_inj [OF hz ok b l b'(1,4,5)] b b' show ?thesis by auto
qed

lemma removeClaims_evolves:
  assumes "faults j = []" and "coherent (hashfns E) B j" and "births_ok B"
    and "hash_sizes (hashfns E)" "claims_free (hashfns E) B"
    and "B (e_OperationID entry) = Some b" and "\<not> owner_active E (e_OwnerPID b) (e_OwnerBootID b)"
    and "set locks \<subseteq> set (e_LockSet b)"
  shows "\<exists>j'. removeClaims E entry locks j = (None, j') \<and> evolves E B j j'"
  using assms(1,2,8)
proof (induction locks arbitrary: j)
  case Nil
  then show ?case by simp
next
  case (Cons l ls)
  let ?del = "del_file (LocksDir (hostDir E (e_HostKey entry))) (lockClaimName (hashfns E) (e_OperationID entry) l) j"
  have ev: "evolves E B j ?del"
    by (rule evolves_del_claim)
      (use stale_claim_name [OF Cons.prems(2) assms(3-6), of l] Cons.prems(3) assms(7) in auto)
  have "faults ?del = []" "coherent (hashfns E) B ?del"
    using Cons.prems ev evolves_coherent by auto
  from Cons.IH [OF this] ev Cons.prems(1,3) show ?case by (auto intro: evolves_trans)
qed

lemma purgeClaims_evolves:
  assumes "faults j = []" and "agrees j h fs"
    and "\<And>c n. (n, Plain c) \<in> set fs \<Longrightarrow> c_OperationID c = i \<Longrightarrow>
       \<not> owner_active E (c_OwnerPID c) (c_OwnerBootID c)"
  shows "\<exists>j'. purgeClaims h i fs j = (None, j') \<and> evolves E B j j'"
  using assms
proof (induction fs arbitrary: j)
  case Nil
  then show ?case by simp
next
  case (Cons nf fs)
  obtain n f where nf: "nf = (n, f)" by force
  let ?del = "del_file (LocksDir h) n j"
  have here: "claim_at j h n = Some f \<or> claim_at j h n = None"
    and rest: "agrees j h fs"
    using Cons.prems(2) nf by (auto simp: agrees_def)
  from rest have rest': "agrees ?del h fs" by (rule agrees_del)
  have keep: "\<exists>j'. purgeClaims h i fs j = (None, j') \<and> evolves E B j j'"
    using Cons.IH [OF Cons.prems(1) rest] Cons.prems(3) by auto
  have drop: "\<exists>j'. purgeClaims h i fs ?del = (None, j') \<and> evolves E B j j'"
    if "\<And>c. f = Plain c \<Longrightarrow> \<not> owner_active E (c_OwnerPID c) (c_OwnerBootID c)"
  proof -
    have "evolves E B j ?del" by (rule evolves_del_claim) (use here that in auto)
    moreover have "\<exists>j'. purgeClaims h i fs ?del = (None, j') \<and> evolves E B ?del j'"
      using Cons.IH [of ?del] Cons.prems(1,3) rest' by auto
    ultimately show ?thesis by (blast intro: evolves_trans)
  qed
  show ?case
  proof (cases f)
    case (Plain c)
    with nf keep drop Cons.prems(1,3) show ?thesis by auto
  qed (use nf keep drop Cons.prems(1) in auto)
qed

lemma removeClaimsForOperation_evolves:
  assumes "faults j = []" and "dirs_wf j" and "coherent (hashfns E) B j"
    and "B i = Some b" and "\<not> owner_active E (e_OwnerPID b) (e_OwnerBootID b)"
  shows "\<exists>j'. removeClaimsForOperation E hostKey i j = (None, j') \<and> evolves E B j j'"
proof (cases "claims j (hostDir E hostKey)")
  case None
  with assms(1) show ?thesis by (simp add: removeClaimsForOperation_def)
next
  case (Some d)
  let ?h = "hostDir E hostKey"
  have wf: "dir_wf d" using assms(2) Some by (auto simp: dirs_wf_def)
  have at: "claim_at j ?h n = Some f \<longleftrightarrow> (n, f) \<in> set d" for n f
    using dir.listing_get [OF wf] Some by (simp add: claim_at_def)
  have "\<not> owner_active E (c_OwnerPID c) (c_OwnerBootID c)"
    if "(n, Plain c) \<in> set d" "c_OperationID c = i" for n c
  proof -
    have "claim_at j ?h n = Some (Plain c)" using at that(1) by simp
    from coherentD(4) [OF assms(3) this] that(2) assms(4,5) show ?thesis
      by (simp add: claim_ok_def)
  qed
  moreover have "agrees j ?h d" using at by (simp add: agrees_def)
  ultimately obtain j' where "purgeClaims ?h i d j = (None, j')" "evolves E B j j'"
    using purgeClaims_evolves [OF assms(1)] by blast
  with Some assms(1) show ?thesis by (simp add: removeClaimsForOperation_def)
qed

text \<open>Marking one stale operation abandoned.\<close>

lemma abandonLoop_evolves:
  assumes "faults j = []" and "dirs_wf j" and "coherent (hashfns E) B j" and "births_ok B"
    and "hash_sizes (hashfns E)" "claims_free (hashfns E) B"
    and "\<forall>idx \<in> set idxs. index_ok B idx"
  shows "evolves E B j (snd (abandonLoop E hostKey p idxs j))"
  using assms(1,2,3,7)
proof (induction idxs arbitrary: j)
  case Nil
  then show ?case by simp
next
  case (Cons idx rest)
  note calm = Cons.prems(1) and wf = Cons.prems(2) and co = Cons.prems(3)
  let ?i = "i_OperationID idx"
  have rest: "evolves E B j' (snd (abandonLoop E hostKey p rest j'))" if "evolves E B j j'" for j'
    using Cons.IH [of j'] that evolves_calm [OF that calm] evolves_wf [OF that wf]
      evolves_coherent [OF that co] Cons.prems(4) by simp
  from Cons.prems(4) obtain b where b: "B ?i = Some b" "i_OwnerPID idx = e_OwnerPID b"
    "i_OwnerBootID idx = e_OwnerBootID b" by (auto simp: index_ok_def)
  have i: "e_OperationID b = ?i" using births_okD(1) [OF assms(4) b(1)] .
  show ?case
  proof (cases "i_OwnerPID idx = p \<and> sameOperationJournalBoot (i_OwnerBootID idx) (boot_id E) \<or>
      \<not> isActiveOperationStatus (i_Status idx) \<or>
      operationJournalOwnerActive E (i_OwnerPID idx) (i_OwnerBootID idx) (boot_id E)")
    case True
    with rest [of j] show ?thesis by auto
  next
    case False
    then have gone: "\<not> owner_active E (e_OwnerPID b) (e_OwnerBootID b)" using b by simp
    obtain r j1 where rd: "readOperation E ?i j = (r, j1)" by force
    from readOperation_calm [OF calm rd] have j1: "j1 = j" by simp
    show ?thesis
    proof (cases r)
      case (Inl e)
      obtain j2 where j2: "removeClaimsForOperation E hostKey ?i j = (None, j2)" "evolves E B j j2"
        using removeClaimsForOperation_evolves [OF calm wf co b(1) gone] by blast
      let ?j3 = "del_file (HostsDir (hostDir E hostKey)) (json_name ?i) j2"
      let ?j4 = "del_file OperationsDir (json_name ?i) ?j3"
      have calm2: "faults j2 = []" using evolves_calm [OF j2(2) calm] .
      have "evolves E B j ?j4"
        using j2(2) evolves_del_index [OF calm2, of E B]
          evolves_del_op [where B = B and i = ?i and b = b and E = E, OF b(1) gone]
        by (meson evolves_trans)
      from evolves_trans [OF this rest [OF this]] show ?thesis
        using False Inl rd j1 j2(1) calm2 by auto
    next
      case (Inr entry0)
      from readOperation_calm [OF calm rd] Inr have
        op: "op_at j (json_name ?i) = Some (Plain (Sealed (journal_key E) entry0))" by simp
      have id0: "e_OperationID entry0 = ?i" using coherentD(1) [OF co op] by simp
      with coherentD(2) [OF co op] b(1) have so: "same_op entry0 b" by (auto simp: known_def)
      define entry where "entry = entry0\<lparr>e_Status := Abandoned,
        e_LastError := abandonedText (i_OwnerPID idx), e_UpdatedAt := now E\<rparr>"
      have e: "e_OperationID entry = ?i" "same_op entry b" "e_Status entry = Abandoned"
        using id0 so by (simp_all add: entry_def same_op_def)
      obtain r2 j2 where w: "writeOperation E entry j = (r2, j2)" by force
      show ?thesis
      proof (cases r2)
        case (Some err)
        with writeOperation_calm [OF calm w] have "j2 = j" by auto
        with Some False Inr rd j1 w show ?thesis by (auto simp: Let_def simp flip: entry_def)
      next
        case None
        with writeOperation_calm [OF calm w] have j2: "j2 = j\<lparr>operations :=
          dir_put (json_name (e_OperationID entry)) (Plain (Sealed (journal_key E) entry)) (operations j)\<rparr>"
          by auto
        have ev2: "evolves E B j j2"
          unfolding j2 using evolves_abandon_op [of B entry b E] b(1) gone e by simp
        have c2: "faults j2 = []" "coherent (hashfns E) B j2"
          using evolves_calm [OF ev2 calm] evolves_coherent [OF ev2 co] by auto
        obtain j3 where j3: "removeClaims E entry (e_LockSet entry) j2 = (None, j3)" "evolves E B j2 j3"
          using removeClaims_evolves [OF c2 assms(4-6), of entry b] b(1) e(1,2) gone
          by (auto simp: same_op_def)
        have calm3: "faults j3 = []" using evolves_calm [OF j3(2) c2(1)] .
        let ?j4 = "del_file (HostsDir (hostDir E (e_HostKey entry))) (json_name (e_OperationID entry)) j3"
        have "evolves E B j ?j4"
          using ev2 j3(2) evolves_del_index [OF calm3] by (blast intro: evolves_trans)
        from evolves_trans [OF this rest [OF this]] show ?thesis
          using False Inr rd j1 w None j3(1) calm3 by (auto simp: Let_def simp flip: entry_def)
      qed
    qed
  qed
qed

lemma abandonStale_evolves:
  assumes "faults j = []" and "dirs_wf j" and "coherent (hashfns E) B j" and "births_ok B"
    and "hash_sizes (hashfns E)" "claims_free (hashfns E) B"
    and "abandonStaleHostEntriesLocked E hostKey p j = (r, j')"
  shows "evolves E B j j'"
proof -
  obtain q j1 where rd: "readHostOperationIndexes E hostKey j = (q, j1)" by force
  from readHostOperationIndexes_calm [OF assms(1,2) rd, of B] obtain idxs where
    ev: "evolves E B j j1" and q: "q = Inr idxs"
    and idxs: "\<forall>idx. idx \<in> set idxs \<longleftrightarrow> (\<exists>n. index_at j (hostDir E hostKey) n = Some (Plain idx))" by auto
  have "\<forall>idx \<in> set idxs. index_ok B idx" using idxs coherentD(3) [OF assms(3)] by blast
  from abandonLoop_evolves [OF evolves_calm [OF ev assms(1)] evolves_wf [OF ev assms(2)]
      evolves_coherent [OF ev assms(3)] assms(4-6) this, of hostKey p]
  have "evolves E B j1 (snd (abandonLoop E hostKey p idxs j1))" .
  moreover have "j' = snd (abandonLoop E hostKey p idxs j1)"
    using assms(7) rd q by (simp add: abandonStaleHostEntriesLocked_def)
  ultimately show ?thesis using ev by (auto intro: evolves_trans)
qed

end
