(* ===== verification/AdmissionSafety.thy ===== *)
theory AdmissionSafety
  imports Admission
begin

text \<open>
  The journal in use: executor processes come and go, the machine reboots, and every process runs
  the critical sections of \<open>Acquire\<close> and \<open>Release\<close> in any interleaving. A section that works on an
  entry read earlier works on that snapshot, as the code does: \<open>inflight\<close> are the entries
  returned by \<open>findOrCreateOperation\<close> and not yet activated, \<open>releasing\<close> those read by \<open>finalize\<close>
  and not yet finalized, each with the process that holds it.

  \<open>leases\<close> are the operations whose \<open>Acquire\<close> has answered \<open>granted\<close>, that have not been
  finalized since, and whose recorded owner process has lived since. \<open>orphans\<close> are the
  operations whose recorded owner has died. Both are bookkeeping of the model, not of the code.

  File system calls do not fail here (\<open>faults = []\<close>); theory JournalScenarios shows what a failing
  call does.
\<close>

record world =
  jr :: journal
  alive :: "int \<Rightarrow> bool"
  kernel_boot :: string
  born :: births
  orphans :: "string set"
  inflight :: "(int \<times> operationJournalEntry) set"
  releasing :: "(int \<times> operationJournalEntry) set"
  leases :: "operationJournalEntry set"

text \<open>The surroundings an executor process sees: it is alive, the kernel answers \<open>kill(pid, 0)\<close>
  truthfully, and the boot id is the kernel's or could not be read.\<close>

definition runs_in :: "hashes \<Rightarrow> world \<Rightarrow> env \<Rightarrow> bool" where
  "runs_in H w E \<longleftrightarrow> hashfns E = H \<and> 0 < pid E \<and> alive w (pid E) \<and> exists_pid E = alive w \<and>
     (boot_id E = kernel_boot w \<or> boot_id E = [])"

definition init_world :: "world \<Rightarrow> bool" where
  "init_world w \<longleftrightarrow> faults (jr w) = [] \<and> operations (jr w) = [] \<and>
     hosts (jr w) = (\<lambda>_. None) \<and> claims (jr w) = (\<lambda>_. None) \<and>
     born w = (\<lambda>_. None) \<and> orphans w = {} \<and> inflight w = {} \<and> releasing w = {} \<and> leases w = {}"

definition grant :: "world \<Rightarrow> operationJournalEntry \<Rightarrow> operationJournalEntry set" where
  "grant w entry = (if e_OperationID entry \<in> orphans w then leases w else insert entry (leases w))"

inductive step :: "hashes \<Rightarrow> world \<Rightarrow> world \<Rightarrow> bool" for H where
  spawn: "step H w (w\<lparr>alive := (alive w)(p := True)\<rparr>)"
| die: "step H w (w\<lparr>alive := (alive w)(p := False),
      orphans := orphans w \<union> {i. \<exists>b. born w i = Some b \<and> e_OwnerPID b = p},
      inflight := {(q, x). (q, x) \<in> inflight w \<and> q \<noteq> p},
      releasing := {(q, x). (q, x) \<in> releasing w \<and> q \<noteq> p},
      leases := {x. x \<in> leases w \<and> e_OwnerPID x \<noteq> p}\<rparr>)"
| reboot: "step H w (w\<lparr>alive := (\<lambda>_. False), kernel_boot := b, orphans := dom (born w),
      inflight := {}, releasing := {}, leases := {}\<rparr>)"
| make_dirs: "runs_in H w E \<Longrightarrow> step H w (w\<lparr>jr := mkdirAll jd (jr w)\<rparr>)"
| perm_create: "runs_in H w E \<Longrightarrow> \<not> has_file jd (permcheckName E) (jr w) \<Longrightarrow>
    step H w (w\<lparr>jr := snd (verifyCreate E jd (jr w))\<rparr>)"
| perm_remove: "runs_in H w E \<Longrightarrow> step H w (w\<lparr>jr := snd (verifyRemove E jd (jr w))\<rparr>)"
| enqueue: "runs_in H w E \<Longrightarrow>
    hosts (jr w) (hostDir E (aq_HostKey params)) \<noteq> None \<Longrightarrow>
    claims (jr w) (hostDir E (aq_HostKey params)) \<noteq> None \<Longrightarrow>
    born w (newJournalOperationID E) = None \<Longrightarrow>
    findOrCreateOperation E params (jr w) = (Inr entry, j') \<Longrightarrow>
    born' = (if e_OperationID entry = newJournalOperationID E
             then (born w)(newJournalOperationID E \<mapsto> entry) else born w) \<Longrightarrow>
    leases' = (if e_Status entry = Running then grant w entry else leases w) \<Longrightarrow>
    step H w (w\<lparr>jr := j', born := born', inflight := insert (pid E, entry) (inflight w),
                leases := leases'\<rparr>)"
| enqueue_error: "runs_in H w E \<Longrightarrow>
    hosts (jr w) (hostDir E (aq_HostKey params)) \<noteq> None \<Longrightarrow>
    claims (jr w) (hostDir E (aq_HostKey params)) \<noteq> None \<Longrightarrow>
    born w (newJournalOperationID E) = None \<Longrightarrow>
    findOrCreateOperation E params (jr w) = (Inl e, j') \<Longrightarrow> step H w (w\<lparr>jr := j'\<rparr>)"
| activate: "runs_in H w E \<Longrightarrow> (pid E, entry) \<in> inflight w \<Longrightarrow>
    tryActivate E entry (jr w) = (r, j') \<Longrightarrow>
    leases' = (if r = Inr True then grant w entry else leases w) \<Longrightarrow>
    step H w (w\<lparr>jr := j', inflight := inflight w - {(pid E, entry)}, leases := leases'\<rparr>)"
| read_release: "runs_in H w E \<Longrightarrow> readOperation E i (jr w) = (Inr entry, j') \<Longrightarrow>
    step H w (w\<lparr>jr := j', releasing := insert (pid E, entry) (releasing w)\<rparr>)"
| release: "runs_in H w E \<Longrightarrow> (pid E, entry) \<in> releasing w \<Longrightarrow> status \<noteq> Running \<Longrightarrow>
    withAdmissionLock E (finalizeLocked E entry status lastErr) (jr w) = (r, j') \<Longrightarrow>
    step H w (w\<lparr>jr := j', releasing := releasing w - {(pid E, entry)},
                leases := {x. x \<in> leases w \<and> e_OperationID x \<noteq> e_OperationID entry}\<rparr>)"

text \<open>The invariant. \<open>holding\<close>: a running operation whose owner has lived since has all its claims
  on disk. \<open>exclusive\<close>: no two of them conflict.\<close>

definition running :: "world \<Rightarrow> operationJournalEntry \<Rightarrow> bool" where
  "running w x \<longleftrightarrow> (\<exists>k. op_at (jr w) (json_name (e_OperationID x)) = Some (Plain (Sealed k x))) \<and>
     e_Status x = Running \<and> e_OperationID x \<notin> orphans w"

definition owners_ok :: "world \<Rightarrow> bool" where
  "owners_ok w \<longleftrightarrow> (\<forall>i b. born w i = Some b \<longrightarrow> i \<notin> orphans w \<longrightarrow>
     0 < e_OwnerPID b \<and> alive w (e_OwnerPID b) \<and>
     (e_OwnerBootID b = kernel_boot w \<or> e_OwnerBootID b = []))"

definition holding :: "hashes \<Rightarrow> world \<Rightarrow> bool" where
  "holding H w \<longleftrightarrow> (\<forall>x l. running w x \<longrightarrow> l \<in> set (e_LockSet x) \<longrightarrow>
     (\<exists>c. claim_at (jr w) (digestPathComponent H (e_HostKey x)) (lockClaimName H (e_OperationID x) l)
            = Some (Plain c) \<and> c_Lock c = l))"

definition conflict_free :: "operationJournalEntry \<Rightarrow> operationJournalEntry \<Rightarrow> bool" where
  "conflict_free a b \<longleftrightarrow> (\<forall>l \<in> set (e_LockSet a). \<forall>m \<in> set (e_LockSet b). \<not> locksConflict l m)"

definition exclusive :: "world \<Rightarrow> bool" where
  "exclusive w \<longleftrightarrow> (\<forall>x y. running w x \<longrightarrow> running w y \<longrightarrow> e_OperationID x \<noteq> e_OperationID y \<longrightarrow>
     e_HostKey x = e_HostKey y \<longrightarrow> conflict_free x y)"

definition snapshots_ok :: "hashes \<Rightarrow> world \<Rightarrow> bool" where
  "snapshots_ok H w \<longleftrightarrow> (\<forall>p x. (p, x) \<in> inflight w \<longrightarrow> known (born w) x \<and>
      hosts (jr w) (digestPathComponent H (e_HostKey x)) \<noteq> None \<and>
      claims (jr w) (digestPathComponent H (e_HostKey x)) \<noteq> None) \<and>
    (\<forall>p x. (p, x) \<in> releasing w \<longrightarrow> known (born w) x)"

definition leases_ok :: "world \<Rightarrow> bool" where
  "leases_ok w \<longleftrightarrow> (\<forall>x \<in> leases w. \<exists>y. running w y \<and> same_op x y)"

definition entries_have_dirs :: "hashes \<Rightarrow> world \<Rightarrow> bool" where
  "entries_have_dirs H w \<longleftrightarrow> (\<forall>i b. born w i = Some b \<longrightarrow>
      hosts (jr w) (digestPathComponent H (e_HostKey b)) \<noteq> None \<and>
      claims (jr w) (digestPathComponent H (e_HostKey b)) \<noteq> None)"

definition world_inv :: "hashes \<Rightarrow> world \<Rightarrow> bool" where
  "world_inv H w \<longleftrightarrow> faults (jr w) = [] \<and> dirs_wf (jr w) \<and> births_ok (born w) \<and>
     coherent H (born w) (jr w) \<and> owners_ok w \<and> entries_have_dirs H w \<and> snapshots_ok H w \<and>
     holding H w \<and> exclusive w \<and> leases_ok w"

lemma world_invD:
  assumes "world_inv H w"
  shows "faults (jr w) = []" "dirs_wf (jr w)" "births_ok (born w)" "coherent H (born w) (jr w)"
    "owners_ok w" "entries_have_dirs H w" "snapshots_ok H w" "holding H w" "exclusive w" "leases_ok w"
  using assms by (simp_all add: world_inv_def)

lemma init_world_inv: "init_world w \<Longrightarrow> world_inv H w"
  by (simp add: init_world_def world_inv_def dirs_wf_def births_ok_def coherent_def view_defs
      owners_ok_def entries_have_dirs_def snapshots_ok_def holding_def exclusive_def leases_ok_def
      running_def)

lemma active_owner:
  assumes "world_inv H w" and "runs_in H w E" and "born w i = Some b" and "i \<notin> orphans w"
  shows "owner_active E (e_OwnerPID b) (e_OwnerBootID b)"
proof -
  have "0 < e_OwnerPID b" "alive w (e_OwnerPID b)"
    "e_OwnerBootID b = kernel_boot w \<or> e_OwnerBootID b = []"
    using world_invD(5) [OF assms(1)] assms(3,4) unfolding owners_ok_def by blast+
  with assms(2) show ?thesis
    by (auto simp: runs_in_def operationJournalOwnerActive_def sameOperationJournalBoot_def
        processExists_def)
qed

lemma running_known:
  assumes "world_inv H w" and "running w x"
  obtains b where "born w (e_OperationID x) = Some b" "same_op x b" "e_OperationID x \<notin> orphans w"
  using coherentD(2) [OF world_invD(4) [OF assms(1)]] assms(2)
  unfolding running_def known_def by blast

subsection \<open>Clean-ups keep the invariant\<close>

lemma evolves_running:
  assumes "world_inv H w" and "runs_in H w E" and "evolves E (born w) (jr w) j'"
  shows "running (w\<lparr>jr := j'\<rparr>) x \<longleftrightarrow> running w x"
proof -
  have ch: "op_change E (born w) (jr w) j' (json_name (e_OperationID x))"
    using assms(3) by (simp add: evolves_def)
  have act: "owner_active E (e_OwnerPID b) (e_OwnerBootID b)"
    if "born w (e_OperationID x) = Some b" "e_OperationID x \<notin> orphans w" for b
    using active_owner [OF assms(1,2) that] .
  show ?thesis
  proof
    assume "running (w\<lparr>jr := j'\<rparr>) x"
    with ch show "running w x" by (auto simp: running_def op_change_def)
  next
    assume run: "running w x"
    then obtain b where "born w (e_OperationID x) = Some b" "e_OperationID x \<notin> orphans w"
      using running_known [OF assms(1)] by blast
    with act ch run show "running (w\<lparr>jr := j'\<rparr>) x"
      by (auto simp: running_def op_change_def)
  qed
qed

lemma evolves_holding:
  assumes inv: "world_inv H w" and E: "runs_in H w E" and ev: "evolves E (born w) (jr w) j'"
    and sz: "hash_sizes H" "claims_free H (born w)"
  shows "holding H (w\<lparr>jr := j'\<rparr>)"
  unfolding holding_def
proof (intro allI impI)
  fix x l
  assume "running (w\<lparr>jr := j'\<rparr>) x" and l: "l \<in> set (e_LockSet x)"
  then have run: "running w x" using evolves_running [OF inv E ev] by simp
  let ?h = "digestPathComponent H (e_HostKey x)" and ?n = "lockClaimName H (e_OperationID x) l"
  from run l obtain c where c: "claim_at (jr w) ?h ?n = Some (Plain c)" "c_Lock c = l"
    using world_invD(8) [OF inv] unfolding holding_def by blast
  obtain b where b: "born w (e_OperationID x) = Some b" "e_OperationID x \<notin> orphans w" "same_op x b"
    using running_known [OF inv run] by blast
  from stale_claim_name [OF world_invD(4,3) [OF inv] sz b(1) _ c(1)] l b(3) active_owner [OF inv E b(1,2)]
  have "owner_active E (c_OwnerPID c) (c_OwnerBootID c)" by (simp add: same_op_def)
  moreover have "claim_change E (jr w) j' ?h ?n" using ev by (simp add: evolves_def)
  ultimately show "\<exists>c. claim_at (jr (w\<lparr>jr := j'\<rparr>)) ?h ?n = Some (Plain c) \<and> c_Lock c = l"
    using c by (auto simp: claim_change_def)
qed

lemma evolves_inv:
  assumes inv: "world_inv H w" and E: "runs_in H w E" and ev: "evolves E (born w) (jr w) j'"
    and sz: "hash_sizes H" "claims_free H (born w)"
  shows "world_inv H (w\<lparr>jr := j'\<rparr>)"
proof -
  note D = world_invD [OF inv]
  have run: "running (w\<lparr>jr := j'\<rparr>) x \<longleftrightarrow> running w x" for x
    by (rule evolves_running [OF inv E ev])
  show ?thesis
    unfolding world_inv_def
    using evolves_calm [OF ev D(1)] evolves_wf [OF ev D(2)] D(3) evolves_coherent [OF ev D(4)]
      D(5) D(6,7) evolves_dirs [OF ev] evolves_holding [OF inv E ev sz] D(9,10)
    by (auto simp: owners_ok_def entries_have_dirs_def snapshots_ok_def exclusive_def leases_ok_def run)
qed

lemma runs_in_jr [simp]: "runs_in H (w\<lparr>jr := j\<rparr>) E = runs_in H w E"
  by (simp add: runs_in_def)

text \<open>The admission lock of a calm journal only touches the admission directory.\<close>

lemma withAdmissionLock_calm:
  assumes "faults j = []"
  shows "\<exists>a. withAdmissionLock E fn j = fn (j\<lparr>admission := a\<rparr>)"
proof -
  have "ensureWritableJournalDir E AdmissionDir j =
      (None, j\<lparr>admission := dir_del (permcheckName E) (dir_put (permcheckName E) Junk (admission j))\<rparr>)"
    using assms
    by (simp add: ensureWritableJournalDir_def verifyWritableJournalDir_def verifyCreate_def
        verifyRemove_def mkdirAll.simps put_junk.simps del_file.simps dir.get_put Let_def)
  then show ?thesis using assms by (auto simp: withAdmissionLock_def)
qed

lemma inv_admission:
  assumes "world_inv H w" "runs_in H w E" "hash_sizes H" "claims_free H (born w)"
  shows "world_inv H (w\<lparr>jr := (jr w)\<lparr>admission := a\<rparr>\<rparr>)"
  using evolves_inv [OF assms(1,2) evolves_admission assms(3,4)] .

subsection \<open>Processes and temporary files\<close>

lemma inv_spawn:
  assumes "world_inv H w" shows "world_inv H (w\<lparr>alive := (alive w)(p := True)\<rparr>)"
  using assms
  by (auto simp: world_inv_def owners_ok_def entries_have_dirs_def snapshots_ok_def holding_def
      exclusive_def leases_ok_def running_def)

lemma inv_fewer:
  assumes inv: "world_inv H w" and own: "owners_ok w'"
    and jr: "jr w' = jr w" and born: "born w' = born w" and orph: "orphans w \<subseteq> orphans w'"
    and inf: "inflight w' \<subseteq> inflight w" and rel: "releasing w' \<subseteq> releasing w"
    and ls: "\<forall>x \<in> leases w'. x \<in> leases w \<and> e_OperationID x \<notin> orphans w'"
  shows "world_inv H w'"
proof -
  have run: "running w' x \<longleftrightarrow> running w x \<and> e_OperationID x \<notin> orphans w'" for x
    using jr orph by (auto simp: running_def)
  have "leases_ok w'"
    unfolding leases_ok_def
  proof
    fix x assume x: "x \<in> leases w'"
    then obtain y where y: "running w y" "same_op x y"
      using world_invD(10) [OF inv] ls by (auto simp: leases_ok_def)
    with x ls show "\<exists>y. running w' y \<and> same_op x y"
      by (auto simp: run same_op_def intro!: exI [of _ y])
  qed
  with inv own jr born inf rel show ?thesis
    unfolding world_inv_def entries_have_dirs_def snapshots_ok_def holding_def exclusive_def
    by (simp add: run) blast
qed

text \<open>Snapshots and leases may be dropped at any time.\<close>

lemma inv_less_work:
  assumes inv: "world_inv H w" and "inf' \<subseteq> inflight w" "rel' \<subseteq> releasing w" "ls' \<subseteq> leases w"
  shows "world_inv H (w\<lparr>inflight := inf', releasing := rel', leases := ls'\<rparr>)" (is "world_inv H ?w")
proof (rule inv_fewer [OF inv])
  show "owners_ok ?w" using world_invD(5) [OF inv] by (simp add: owners_ok_def)
  have "e_OperationID y \<notin> orphans w" if "y \<in> leases w" for y
  proof -
    from that world_invD(10) [OF inv] obtain z where "running w z" "same_op y z"
      unfolding leases_ok_def by blast
    then show ?thesis by (simp add: running_def same_op_def)
  qed
  with assms(4) show "\<forall>x \<in> leases ?w. x \<in> leases w \<and> e_OperationID x \<notin> orphans ?w" by auto
qed (use assms in simp_all)

lemma inv_die:
  assumes inv: "world_inv H w"
  shows "world_inv H (w\<lparr>alive := (alive w)(p := False),
      orphans := orphans w \<union> {i. \<exists>b. born w i = Some b \<and> e_OwnerPID b = p},
      inflight := {(q, x). (q, x) \<in> inflight w \<and> q \<noteq> p},
      releasing := {(q, x). (q, x) \<in> releasing w \<and> q \<noteq> p},
      leases := {x. x \<in> leases w \<and> e_OwnerPID x \<noteq> p}\<rparr>)"
proof (rule inv_fewer [OF inv])
  show "\<forall>x \<in> leases (w\<lparr>alive := (alive w)(p := False),
      orphans := orphans w \<union> {i. \<exists>b. born w i = Some b \<and> e_OwnerPID b = p},
      inflight := {(q, x). (q, x) \<in> inflight w \<and> q \<noteq> p},
      releasing := {(q, x). (q, x) \<in> releasing w \<and> q \<noteq> p},
      leases := {x. x \<in> leases w \<and> e_OwnerPID x \<noteq> p}\<rparr>). x \<in> leases w \<and>
        e_OperationID x \<notin> orphans (w\<lparr>alive := (alive w)(p := False),
      orphans := orphans w \<union> {i. \<exists>b. born w i = Some b \<and> e_OwnerPID b = p},
      inflight := {(q, x). (q, x) \<in> inflight w \<and> q \<noteq> p},
      releasing := {(q, x). (q, x) \<in> releasing w \<and> q \<noteq> p},
      leases := {x. x \<in> leases w \<and> e_OwnerPID x \<noteq> p}\<rparr>)"
  proof (clarsimp)
    fix x assume x: "x \<in> leases w" "e_OwnerPID x \<noteq> p"
    then obtain y where y: "running w y" "same_op x y"
      using world_invD(10) [OF inv] by (auto simp: leases_ok_def)
    from running_known [OF inv y(1)] obtain b where
      "born w (e_OperationID y) = Some b" "same_op y b" "e_OperationID y \<notin> orphans w" .
    with x y show "e_OperationID x \<notin> orphans w \<and>
        (\<forall>b. born w (e_OperationID x) = Some b \<longrightarrow> e_OwnerPID b \<noteq> p)"
      by (auto simp: same_op_def)
  qed
qed (use world_invD(5) [OF inv] in \<open>auto simp: owners_ok_def\<close>)

lemma inv_reboot:
  assumes inv: "world_inv H w"
  shows "world_inv H (w\<lparr>alive := (\<lambda>_. False), kernel_boot := b, orphans := dom (born w),
      inflight := {}, releasing := {}, leases := {}\<rparr>)"
proof -
  let ?w = "w\<lparr>alive := (\<lambda>_. False), kernel_boot := b, orphans := dom (born w),
      inflight := {}, releasing := {}, leases := {}\<rparr>"
  have "\<not> running ?w x" for x
    using coherentD(2) [OF world_invD(4) [OF inv]]
    by (fastforce simp: running_def known_def)
  then show ?thesis
    using inv
    unfolding world_inv_def owners_ok_def entries_have_dirs_def snapshots_ok_def holding_def
      exclusive_def leases_ok_def by auto
qed

lemma inv_make_dirs:
  assumes "world_inv H w" "runs_in H w E" "hash_sizes H" "claims_free H (born w)"
  shows "world_inv H (w\<lparr>jr := mkdirAll jd (jr w)\<rparr>)"
  using evolves_inv [OF assms(1,2) evolves_mkdirAll assms(3,4)] .

lemma inv_perm_create:
  assumes inv: "world_inv H w" and E: "runs_in H w E" and new: "\<not> has_file jd (permcheckName E) (jr w)"
  shows "world_inv H (w\<lparr>jr := snd (verifyCreate E jd (jr w))\<rparr>)"
proof -
  note D = world_invD [OF inv]
  let ?j = "put_junk jd (permcheckName E) (jr w)"
  have vc: "snd (verifyCreate E jd (jr w)) = ?j"
    using D(1) by (simp add: verifyCreate_def)
  have ops: "op_at ?j n = op_at (jr w) n \<or> (op_at (jr w) n = None \<and> op_at ?j n = Some Junk)" for n
    using new by (cases jd) (auto simp: put_junk.simps op_at_def dir.get_put)
  have cls: "claim_at ?j h n = claim_at (jr w) h n \<or> (claim_at (jr w) h n = None \<and> claim_at ?j h n = Some Junk)" for h n
    using new by (cases jd) (auto simp: put_junk.simps claim_at_def dir.get_put split: option.splits)
  have ixs: "index_at ?j h n = index_at (jr w) h n \<or> index_at ?j h n = Some Junk" for h n
    by (cases jd) (auto simp: put_junk.simps index_at_def dir.get_put split: option.splits)
  have ops': "op_at ?j n = Some (Plain f) \<longleftrightarrow> op_at (jr w) n = Some (Plain f)" for n f
    using ops [of n] by auto
  have cls': "claim_at ?j h n = Some (Plain c) \<longleftrightarrow> claim_at (jr w) h n = Some (Plain c)" for h n c
    using cls [of h n] by auto
  have dirs: "(hosts ?j h = None) = (hosts (jr w) h = None)" "(claims ?j h = None) = (claims (jr w) h = None)" for h
    by (cases jd; auto simp: put_junk.simps)+
  have run: "running (w\<lparr>jr := ?j\<rparr>) x \<longleftrightarrow> running w x" for x
    by (simp add: running_def ops')
  have "coherent H (born w) ?j"
    using D(4) ixs unfolding coherent_def ops' cls' by (metis node.distinct(5) option.inject)
  then show ?thesis
    unfolding vc world_inv_def
    using D dirs_wf_put_junk [OF D(2)]
    by (simp add: owners_ok_def entries_have_dirs_def snapshots_ok_def holding_def exclusive_def
        leases_ok_def run cls' dirs)
qed

lemma inv_perm_remove:
  assumes inv: "world_inv H w" and E: "runs_in H w E" and sz: "hash_sizes H" "claims_free H (born w)"
  shows "world_inv H (w\<lparr>jr := snd (verifyRemove E jd (jr w))\<rparr>)"
proof -
  note D = world_invD [OF inv]
  let ?del = "del_file jd (permcheckName E) (jr w)"
  have "evolves E (born w) (jr w) ?del"
  proof (cases jd)
    case OperationsDir
    have "op_at (jr w) (permcheckName E) \<noteq> Some (Plain f)" for f
    proof
      assume f: "op_at (jr w) (permcheckName E) = Some (Plain f)"
      obtain k v where "f = Sealed k v" by (cases f)
      with coherentD(1,2) [OF D(4)] f obtain b where
        "permcheckName E = json_name (e_OperationID v)" "born w (e_OperationID v) = Some b"
        unfolding known_def by blast
      with births_okD(3) [OF D(3)] permcheckName_not_json [of "e_OperationID v" E] show False by metis
    qed
    with OperationsDir show ?thesis using evolves_del_junk_op by blast
  next
    case (HostsDir h)
    then show ?thesis using evolves_del_index [OF D(1)] by simp
  next
    case (LocksDir h)
    have "claim_at (jr w) h (permcheckName E) \<noteq> Some (Plain c)" for c
      using coherentD(4) [OF D(4)] permcheckName_not_claim [OF sz(1), of _ _ E]
      unfolding claim_ok_def by metis
    with LocksDir show ?thesis by (auto intro: evolves_del_claim)
  next
    case AdmissionDir
    then show ?thesis by (simp add: del_file.simps evolves_admission)
  qed
  then have "evolves E (born w) (jr w) (snd (verifyRemove E jd (jr w)))"
    using D(1) by (simp add: verifyRemove_def)
  from evolves_inv [OF inv E this sz] show ?thesis .
qed

subsection \<open>Enqueueing\<close>

lemma findLoop_calm:
  assumes "faults j = []" and "findLoop E hostKey requestID idxs j = (found, j')"
  shows "evolves E B j j' \<and> (\<forall>x. found = Some x \<longrightarrow>
     (\<exists>i. op_at j' (json_name i) = Some (Plain (Sealed (journal_key E) x))))"
  using assms
proof (induction idxs arbitrary: j)
  case Nil
  then show ?case by simp
next
  case (Cons idx rest)
  let ?del = "del_file (HostsDir (hostDir E hostKey)) (json_name (i_OperationID idx)) j"
  obtain r j1 where rd: "readOperation E (i_OperationID idx) j = (r, j1)" by force
  from readOperation_calm [OF Cons.prems(1) rd] have j1: "j1 = j" by simp
  have ev: "evolves E B j ?del" by (rule evolves_del_index [OF Cons.prems(1)])
  show ?case
  proof (cases "TrimSpace (i_RequestID idx) = [] \<or> i_RequestID idx \<noteq> requestID")
    case True
    with Cons show ?thesis by auto
  next
    case False
    show ?thesis
    proof (cases r)
      case (Inl e)
      with False Cons.prems rd j1 have "findLoop E hostKey requestID rest ?del = (found, j')" by auto
      from Cons.IH [OF _ this] Cons.prems(1) ev show ?thesis by (auto intro: evolves_trans)
    next
      case (Inr x)
      with False Cons.prems rd j1 readOperation_calm [OF Cons.prems(1) rd] show ?thesis by auto
    qed
  qed
qed

lemma findOperation_calm:
  assumes "faults j = []" and "dirs_wf j"
    and "findOperationByRequestIDLocked E hostKey requestID j = (r, j')"
  shows "evolves E B j j' \<and> (\<exists>found. r = Inr found \<and> (\<forall>x. found = Some x \<longrightarrow>
     (\<exists>i. op_at j' (json_name i) = Some (Plain (Sealed (journal_key E) x)))))"
proof -
  obtain q j1 where rd: "readHostOperationIndexes E hostKey j = (q, j1)" by force
  from readHostOperationIndexes_calm [OF assms(1,2) rd, of B] obtain idxs where
    ev: "evolves E B j j1" and q: "q = Inr idxs" by auto
  obtain found j2 where fl: "findLoop E hostKey requestID idxs j1 = (found, j2)" by force
  from findLoop_calm [OF evolves_calm [OF ev assms(1)] fl, of B] ev assms(3) rd q fl show ?thesis
    by (auto simp: findOperationByRequestIDLocked_def intro: evolves_trans)
qed

lemma newEntry_simps [simp]:
  "e_OperationID (newEntry E params) = newJournalOperationID E"
  "e_OwnerPID (newEntry E params) = pid E" "e_OwnerBootID (newEntry E params) = boot_id E"
  "e_HostKey (newEntry E params) = aq_HostKey params" "e_Status (newEntry E params) = Queued"
  "e_LockSet (newEntry E params) = normalizeLockSet (aq_LockSet params)"
  by (simp_all add: newEntry_def)

lemma createLocked_calm:
  assumes "faults j = []" and "hosts j (hostDir E (aq_HostKey params)) = Some d"
    and "createLocked E params j = (r, j')"
  shows "(\<exists>e. r = Inl e \<and> j' = j) \<or> (r = Inr (newEntry E params) \<and>
     j' = j\<lparr>operations := dir_put (json_name (newJournalOperationID E))
                (Plain (Sealed (journal_key E) (newEntry E params))) (operations j),
             hosts := (hosts j)(hostDir E (aq_HostKey params) \<mapsto>
                dir_put (json_name (newJournalOperationID E)) (Plain (indexOf (newEntry E params))) d)\<rparr>)"
proof -
  obtain r1 j1 where w: "writeOperation E (newEntry E params) j = (r1, j1)" by force
  from writeOperation_calm [OF assms(1) w] show ?thesis
  proof (elim disjE exE conjE)
    fix e assume "r1 = Some e" "j1 = j"
    with assms(3) w have "r = Inl e" "j' = j" by (simp_all add: createLocked_def Let_def)
    then show ?thesis by blast
  next
    assume r1: "r1 = None" and j1: "j1 = j\<lparr>operations := dir_put (json_name (e_OperationID (newEntry E params)))
                              (Plain (Sealed (journal_key E) (newEntry E params))) (operations j)\<rparr>"
    then have "faults j1 = []" "hosts j1 (hostDir E (aq_HostKey params)) = Some d"
      using assms(1,2) by simp_all
    with assms(3) w r1 j1 show ?thesis
      by (auto simp: createLocked_def Let_def writeHostIndex_def)
  qed
qed

lemma newJournalOperationID_rand: "rand_id (newJournalOperationID E)"
  by (auto simp: rand_id_def newJournalOperationID_def)

lemma indexOf_simps [simp]:
  "i_OperationID (indexOf x) = e_OperationID x" "i_OwnerPID (indexOf x) = e_OwnerPID x"
  "i_OwnerBootID (indexOf x) = e_OwnerBootID x" "i_RequestID (indexOf x) = e_RequestID x"
  "i_Status (indexOf x) = e_Status x"
  by (simp_all add: indexOf_def)

lemma inv_create:
  assumes inv: "world_inv H w" and E: "runs_in H w E"
    and hd: "hosts (jr w) (hostDir E (aq_HostKey params)) = Some d"
    and cd: "claims (jr w) (hostDir E (aq_HostKey params)) \<noteq> None"
    and fresh: "born w (newJournalOperationID E) = None"
    and cr: "createLocked E params (jr w) = (Inr entry, j')"
  shows "world_inv H (w\<lparr>jr := j', born := (born w)(newJournalOperationID E \<mapsto> entry),
      inflight := insert (pid E, entry) (inflight w)\<rparr>)" (is "world_inv H ?w")
proof -
  note D = world_invD [OF inv]
  let ?i = "newJournalOperationID E" and ?h = "hostDir E (aq_HostKey params)"
  have H: "hashfns E = H" using E by (simp add: runs_in_def)
  from createLocked_calm [OF D(1) hd cr] have entry: "entry = newEntry E params"
    and j': "j' = (jr w)\<lparr>operations := dir_put (json_name ?i)
                (Plain (Sealed (journal_key E) entry)) (operations (jr w)),
             hosts := (hosts (jr w))(?h \<mapsto> dir_put (json_name ?i) (Plain (indexOf entry)) d)\<rparr>" by auto
  have ops: "op_at j' n = (if n = json_name ?i then Some (Plain (Sealed (journal_key E) entry)) else op_at (jr w) n)" for n
    by (simp add: j' op_at_def dir.get_put)
  have cls: "claim_at j' h n = claim_at (jr w) h n" for h n
    by (simp add: j' claim_at_def)
  have ixs: "index_at j' h n = (if h = ?h \<and> n = json_name ?i then Some (Plain (indexOf entry)) else index_at (jr w) h n)" for h n
    using hd by (auto simp: j' index_at_def dir.get_put)
  have old: "\<not> running w x" if "e_OperationID x = ?i" for x
    using running_known [OF inv, of x] fresh that by (metis option.distinct(1))
  have run: "running ?w x \<longleftrightarrow> running w x" for x
  proof (cases "e_OperationID x = ?i")
    case True
    then show ?thesis using old by (auto simp: running_def ops entry)
  qed (simp add: running_def ops)
  have kn: "known ((born w)(?i \<mapsto> entry)) x" if "known (born w) x" for x
    using that fresh by (auto simp: known_def)
  have kn': "known ((born w)(?i \<mapsto> entry)) entry" by (simp add: known_def entry)
  have "births_ok ((born w)(?i \<mapsto> entry))"
    using D(3) newJournalOperationID_rand normalizeLocks_distinct
    by (auto simp: births_ok_def entry normalizeLockSet_def)
  moreover have "coherent H ((born w)(?i \<mapsto> entry)) j'"
  proof (unfold coherent_def, intro conjI allI impI)
    fix n k v assume v: "op_at j' n = Some (Plain (Sealed k v))"
    show "n = json_name (e_OperationID v)" "known ((born w)(?i \<mapsto> entry)) v"
      using v coherentD(1,2) [OF D(4)] kn kn' by (auto simp: ops entry split: if_splits)
  next
    fix h n idx assume "index_at j' h n = Some (Plain idx)"
    then consider "idx = indexOf entry" | "index_at (jr w) h n = Some (Plain idx)"
      unfolding ixs by (metis node.inject option.inject)
    then consider "idx = indexOf entry" | "index_ok (born w) idx"
      using coherentD(3) [OF D(4)] by metis
    then show "index_ok ((born w)(?i \<mapsto> entry)) idx"
      using fresh by cases (auto simp: index_ok_def entry)
  next
    fix h n c assume "claim_at j' h n = Some (Plain c)"
    then show "claim_ok H ((born w)(?i \<mapsto> entry)) h n c"
      using coherentD(4) [OF D(4), of h n c] fresh by (auto simp: cls claim_ok_def)
  qed
  moreover have "dirs_wf j'"
    using D(2) hd by (auto simp: j' dirs_wf_def dir.wf_put)
  moreover have "owners_ok ?w"
    using D(5) E by (auto simp: owners_ok_def entry runs_in_def)
  moreover have "entries_have_dirs H ?w" "snapshots_ok H ?w"
    using D(6,7) hd cd H kn kn' by (auto simp: entries_have_dirs_def snapshots_ok_def j' entry hostDir_def)
  moreover have "faults j' = []" using D(1) by (simp add: j')
  ultimately show ?thesis
    using D(8,9,10) unfolding world_inv_def holding_def exclusive_def leases_ok_def
    by (simp add: run cls)
qed

lemma findOrCreateLocked_calm:
  assumes "faults j = []" and "dirs_wf j" and "coherent (hashfns E) B j" and "births_ok B"
    and "hash_sizes (hashfns E)" "claims_free (hashfns E) B"
    and "findOrCreateLocked E params j = (r, j')"
  shows "\<exists>j1. evolves E B j j1 \<and>
     ((\<exists>e. r = Inl e) \<and> j' = j1 \<or>
      (\<exists>x i. r = Inr x \<and> j' = j1 \<and> op_at j1 (json_name i) = Some (Plain (Sealed (journal_key E) x))) \<or>
      createLocked E params j1 = (r, j'))"
proof -
  obtain ra j1 where ab: "abandonStaleHostEntriesLocked E (aq_HostKey params) (pid E) j = (ra, j1)" by force
  have ev: "evolves E B j j1" by (rule abandonStale_evolves [OF assms(1-6) ab])
  obtain rf j2 where fi: "findOperationByRequestIDLocked E (aq_HostKey params) (aq_RequestID params) j1 = (rf, j2)"
    by force
  from findOperation_calm [OF evolves_calm [OF ev assms(1)] evolves_wf [OF ev assms(2)] fi, of B]
  obtain found where ev2: "evolves E B j1 j2" and rf: "rf = Inr found"
    and fo: "\<And>x. found = Some x \<Longrightarrow> \<exists>i. op_at j2 (json_name i) = Some (Plain (Sealed (journal_key E) x))"
    by auto
  note ev12 = evolves_trans [OF ev ev2]
  show ?thesis
  proof (cases ra)
    case (Some e)
    with assms(7) ab ev show ?thesis by (auto simp: findOrCreateLocked_def)
  next
    case None
    show ?thesis
    proof (cases "TrimSpace (aq_RequestID params) = []")
      case True
      with assms(7) ab None have "createLocked E params j1 = (r, j')" by (simp add: findOrCreateLocked_def)
      with ev show ?thesis by blast
    next
      case False
      show ?thesis
      proof (cases found)
        case None
        with False assms(7) ab \<open>ra = None\<close> fi rf have "createLocked E params j2 = (r, j')"
          by (simp add: findOrCreateLocked_def)
        with ev12 show ?thesis by blast
      next
        case (Some x)
        with False assms(7) ab \<open>ra = None\<close> fi rf have "r = Inr x" "j' = j2"
          by (simp_all add: findOrCreateLocked_def)
        with fo [OF Some] ev12 show ?thesis by blast
      qed
    qed
  qed
qed

text \<open>The same for the whole critical section, admission lock included, from a reachable world.\<close>

lemma findOrCreate_inv:
  assumes inv: "world_inv H w" and E: "runs_in H w E" and sz: "hash_sizes H" "claims_free H (born w)"
    and foc: "findOrCreateOperation E params (jr w) = (r, j')"
  shows "\<exists>j1. evolves E (born w) (jr w) j1 \<and> world_inv H (w\<lparr>jr := j1\<rparr>) \<and>
     ((\<exists>e. r = Inl e) \<and> j' = j1 \<or>
      (\<exists>x i. r = Inr x \<and> j' = j1 \<and> op_at j1 (json_name i) = Some (Plain (Sealed (journal_key E) x))) \<or>
      createLocked E params j1 = (r, j'))"
proof -
  note D = world_invD [OF inv]
  have H: "hashfns E = H" using E by (simp add: runs_in_def)
  obtain a where a: "withAdmissionLock E (findOrCreateLocked E params) (jr w) =
      findOrCreateLocked E params ((jr w)\<lparr>admission := a\<rparr>)"
    using withAdmissionLock_calm [OF D(1)] by blast
  note D1 = world_invD [OF inv_admission [OF inv E sz, of a]]
  have "findOrCreateLocked E params ((jr w)\<lparr>admission := a\<rparr>) = (r, j')"
    using foc a by (simp add: findOrCreateOperation_def)
  from findOrCreateLocked_calm [OF _ _ _ _ _ _ this, of "born w"] D1(1-4) sz H
  obtain j1 where ev: "evolves E (born w) ((jr w)\<lparr>admission := a\<rparr>) j1"
    and or: "(\<exists>e. r = Inl e) \<and> j' = j1 \<or>
      (\<exists>x i. r = Inr x \<and> j' = j1 \<and> op_at j1 (json_name i) = Some (Plain (Sealed (journal_key E) x))) \<or>
      createLocked E params j1 = (r, j')" by auto
  have ev: "evolves E (born w) (jr w) j1" using evolves_trans [OF evolves_admission ev] .
  from evolves_inv [OF inv E ev sz] ev or show ?thesis by blast
qed

text \<open>An entry that some file holds may be taken as a snapshot; if it says \<open>Running\<close>, it is
  granted.\<close>

lemma inv_grant:
  assumes inv: "world_inv H w" and at: "op_at (jr w) (json_name i) = Some (Plain (Sealed k x))"
    and ls: "leases' = (if e_Status x = Running then grant w x else leases w)"
  shows "world_inv H (w\<lparr>inflight := insert (p, x) (inflight w), leases := leases'\<rparr>)" (is "world_inv H ?w")
proof -
  note D = world_invD [OF inv]
  have kn: "known (born w) x" using coherentD(2) [OF D(4) at] .
  have i: "i = e_OperationID x" using coherentD(1) [OF D(4) at] by simp
  have run: "running ?w y \<longleftrightarrow> running w y" for y by (simp add: running_def)
  have "leases_ok ?w"
    using D(10) at i ls unfolding leases_ok_def run
    by (auto simp: grant_def running_def split: if_splits)
  moreover have "snapshots_ok H ?w"
    using D(6,7) kn unfolding snapshots_ok_def entries_have_dirs_def known_def same_op_def by auto
  ultimately show ?thesis
    using D by (simp add: world_inv_def owners_ok_def entries_have_dirs_def holding_def exclusive_def run)
qed

lemma inv_enqueue:
  assumes inv: "world_inv H w" and E: "runs_in H w E" and sz: "hash_sizes H" "claims_free H (born w)"
    and hd: "hosts (jr w) (hostDir E (aq_HostKey params)) \<noteq> None"
    and cd: "claims (jr w) (hostDir E (aq_HostKey params)) \<noteq> None"
    and fresh: "born w (newJournalOperationID E) = None"
    and foc: "findOrCreateOperation E params (jr w) = (Inr entry, j')"
    and b': "born' = (if e_OperationID entry = newJournalOperationID E
             then (born w)(newJournalOperationID E \<mapsto> entry) else born w)"
    and ls: "leases' = (if e_Status entry = Running then grant w entry else leases w)"
  shows "world_inv H (w\<lparr>jr := j', born := born', inflight := insert (pid E, entry) (inflight w),
                leases := leases'\<rparr>)"
proof -
  from findOrCreate_inv [OF inv E sz foc] obtain j1 where ev: "evolves E (born w) (jr w) j1"
    and inv1: "world_inv H (w\<lparr>jr := j1\<rparr>)"
    and or: "j' = j1 \<and> (\<exists>i. op_at j1 (json_name i) = Some (Plain (Sealed (journal_key E) entry))) \<or>
      createLocked E params j1 = (Inr entry, j')" by blast
  from or show ?thesis
  proof
    assume "j' = j1 \<and> (\<exists>i. op_at j1 (json_name i) = Some (Plain (Sealed (journal_key E) entry)))"
    then obtain i where j': "j' = j1"
      and at: "op_at (jr (w\<lparr>jr := j1\<rparr>)) (json_name i) = Some (Plain (Sealed (journal_key E) entry))" by auto
    from coherentD(2) [OF world_invD(4) [OF inv1] at] fresh b' have "born' = born w"
      by (auto simp: known_def)
    have "leases' = (if e_Status entry = Running then grant (w\<lparr>jr := j1\<rparr>) entry else leases (w\<lparr>jr := j1\<rparr>))"
      using ls by (simp add: grant_def)
    from inv_grant [OF inv1 at this, of "pid E"] j' \<open>born' = born w\<close> show ?thesis by simp
  next
    assume cr: "createLocked E params j1 = (Inr entry, j')"
    obtain d where hd1: "hosts j1 (hostDir E (aq_HostKey params)) = Some d"
      using evolves_dirs(1) [OF ev hd] by blast
    from createLocked_calm [OF _ hd1 cr] world_invD(1) [OF inv1] have "entry = newEntry E params" by auto
    then have "born' = (born w)(newJournalOperationID E \<mapsto> entry)" "leases' = leases w"
      using b' ls by simp_all
    with inv_create [OF inv1, of E params d entry j'] E hd1 evolves_dirs(2) [OF ev cd] fresh cr
    show ?thesis by simp
  qed
qed

lemma inv_enqueue_error:
  assumes inv: "world_inv H w" and E: "runs_in H w E" and sz: "hash_sizes H" "claims_free H (born w)"
    and hd: "hosts (jr w) (hostDir E (aq_HostKey params)) \<noteq> None"
    and foc: "findOrCreateOperation E params (jr w) = (Inl e, j')"
  shows "world_inv H (w\<lparr>jr := j'\<rparr>)"
proof -
  from findOrCreate_inv [OF inv E sz foc] obtain j1 where ev: "evolves E (born w) (jr w) j1"
    and inv1: "world_inv H (w\<lparr>jr := j1\<rparr>)"
    and or: "j' = j1 \<or> createLocked E params j1 = (Inl e, j')" by blast
  obtain d where hd1: "hosts j1 (hostDir E (aq_HostKey params)) = Some d"
    using evolves_dirs(1) [OF ev hd] by blast
  have "j' = j1"
    using or createLocked_calm [OF _ hd1, of "Inl e" j'] world_invD(1) [OF inv1] by auto
  with inv1 show ?thesis by simp
qed

subsection \<open>Activation\<close>

definition activated :: "env \<Rightarrow> operationJournalEntry \<Rightarrow> operationJournalEntry" where
  "activated E entry = entry\<lparr>e_Status := Running, e_Attempts := e_Attempts entry + 1,
     e_LastError := [], e_UpdatedAt := now E\<rparr>"

lemma activated_simps [simp]:
  "e_OperationID (activated E x) = e_OperationID x" "e_OwnerPID (activated E x) = e_OwnerPID x"
  "e_OwnerBootID (activated E x) = e_OwnerBootID x" "e_HostKey (activated E x) = e_HostKey x"
  "e_LockSet (activated E x) = e_LockSet x" "e_Status (activated E x) = Running"
  by (simp_all add: activated_def)

lemma claimOf_simps [simp]:
  "c_OperationID (claimOf x l) = e_OperationID x" "c_OwnerPID (claimOf x l) = e_OwnerPID x"
  "c_OwnerBootID (claimOf x l) = e_OwnerBootID x" "c_Lock (claimOf x l) = l"
  by (simp_all add: claimOf_def)

definition put_claims :: "env \<Rightarrow> operationJournalEntry \<Rightarrow> LockDescriptor list \<Rightarrow> lockClaim dir \<Rightarrow> lockClaim dir" where
  "put_claims E entry locks d = fold (\<lambda>l. dir_put (lockClaimName (hashfns E) (e_OperationID entry) l)
     (Plain (claimOf entry l))) locks d"

lemma writeClaims_calm:
  assumes "faults j = []" and "claims j (hostDir E (e_HostKey entry)) = Some d"
  shows "writeClaims E entry locks j =
    (None, j\<lparr>claims := (claims j)(hostDir E (e_HostKey entry) \<mapsto> put_claims E entry locks d)\<rparr>)"
  using assms
proof (induction locks arbitrary: j d)
  case Nil
  then have "(claims j)(hostDir E (e_HostKey entry) \<mapsto> d) = claims j" by (auto simp: fun_eq_iff)
  then show ?case by (simp add: put_claims_def)
next
  case (Cons l ls)
  let ?h = "hostDir E (e_HostKey entry)"
  let ?d = "dir_put (lockClaimName (hashfns E) (e_OperationID entry) l) (Plain (claimOf entry l)) d"
  let ?j = "j\<lparr>claims := (claims j)(?h \<mapsto> ?d)\<rparr>"
  have "writeClaim E entry l j = (None, ?j)"
    using Cons.prems by (simp add: writeClaim_def)
  moreover have "writeClaims E entry ls ?j = (None, ?j\<lparr>claims := (claims ?j)(?h \<mapsto> put_claims E entry ls ?d)\<rparr>)"
    by (rule Cons.IH) (simp_all add: Cons.prems(1))
  moreover have "put_claims E entry (l # ls) d = put_claims E entry ls ?d" by (simp add: put_claims_def)
  moreover have "?j\<lparr>claims := (claims ?j)(?h \<mapsto> put_claims E entry ls ?d)\<rparr> =
      j\<lparr>claims := (claims j)(?h \<mapsto> put_claims E entry ls ?d)\<rparr>" by simp
  ultimately show ?case by (simp only: writeClaims.simps prod.case option.case)
qed

definition write_running :: "env \<Rightarrow> operationJournalEntry \<Rightarrow> hostOperationIndex dir \<Rightarrow> lockClaim dir \<Rightarrow> journal \<Rightarrow> journal" where
  "write_running E x d dc j = j\<lparr>
     operations := dir_put (json_name (e_OperationID x)) (Plain (Sealed (journal_key E) x)) (operations j),
     hosts := (hosts j)(hostDir E (e_HostKey x) \<mapsto> dir_put (json_name (e_OperationID x)) (Plain (indexOf x)) d),
     claims := (claims j)(hostDir E (e_HostKey x) \<mapsto> put_claims E x (e_LockSet x) dc)\<rparr>"

lemma conflictsWith_False:
  "\<not> conflictsWith i ls cs \<Longrightarrow> c \<in> set cs \<Longrightarrow> c_OperationID c \<noteq> i \<Longrightarrow> l \<in> set ls \<Longrightarrow>
     \<not> locksConflict (c_Lock c) l"
  by (auto simp: conflictsWith_def list_ex_iff)

text \<open>With a journal key, the clean-up of a calm journal does not fail.\<close>

lemma removeClaims_none: "faults j = [] \<Longrightarrow> fst (removeClaims E x ls j) = None \<and> faults (snd (removeClaims E x ls j)) = []"
  by (induction ls arbitrary: j) auto

lemma purgeClaims_none: "faults j = [] \<Longrightarrow> fst (purgeClaims h i fs j) = None \<and> faults (snd (purgeClaims h i fs j)) = []"
proof (induction fs arbitrary: j)
  case (Cons nf fs)
  obtain n f where "nf = (n, f)" by force
  with Cons show ?case by (cases f) auto
qed simp

lemma removeClaimsForOperation_none:
  "faults j = [] \<Longrightarrow> fst (removeClaimsForOperation E k i j) = None \<and> faults (snd (removeClaimsForOperation E k i j)) = []"
  using purgeClaims_none by (auto simp: removeClaimsForOperation_def Let_def split: option.splits)

lemma writeOperation_none:
  "faults j = [] \<Longrightarrow> journal_key E \<noteq> [] \<Longrightarrow> fst (writeOperation E x j) = None \<and> faults (snd (writeOperation E x j)) = []"
  by (simp add: writeOperation_def marshalEncryptedJSON_def runtimeJournalKeyBytes_def)

lemma abandonLoop_none:
  "faults j = [] \<Longrightarrow> journal_key E \<noteq> [] \<Longrightarrow> fst (abandonLoop E k p idxs j) = None"
proof (induction idxs arbitrary: j)
  case (Cons idx rest)
  obtain r j1 where rd: "readOperation E (i_OperationID idx) j = (r, j1)" by force
  from readOperation_calm [OF Cons.prems(1) rd] have j1: "j1 = j" by simp
  obtain rc jc where rc: "removeClaimsForOperation E k (i_OperationID idx) j = (rc, jc)" by force
  with removeClaimsForOperation_none [OF Cons.prems(1), of E k "i_OperationID idx"]
  have rc': "rc = None" "faults jc = []" by auto
  have act: "fst (abandonLoop E k p (idx # rest) j) = None" if "r = Inr x" for x
  proof -
    let ?x = "x\<lparr>e_Status := Abandoned, e_LastError := abandonedText (i_OwnerPID idx), e_UpdatedAt := now E\<rparr>"
    obtain rw j2 where w: "writeOperation E ?x j = (rw, j2)" by force
    with writeOperation_none [OF Cons.prems, of ?x] have w': "rw = None" "faults j2 = []" by auto
    obtain rr j3 where rr: "removeClaims E ?x (e_LockSet ?x) j2 = (rr, j3)" by force
    with removeClaims_none [OF w'(2), of E ?x "e_LockSet ?x"] have "rr = None" "faults j3 = []" by auto
    with that rd j1 w w' rr Cons show ?thesis by (simp add: Let_def)
  qed
  with Cons rd j1 rc rc' show ?case by (cases r) auto
qed simp

lemma abandonStale_none:
  assumes "faults j = []" and "dirs_wf j" and "journal_key E \<noteq> []"
  shows "fst (abandonStaleHostEntriesLocked E k p j) = None"
proof -
  obtain q j1 where rd: "readHostOperationIndexes E k j = (q, j1)" by force
  from readHostOperationIndexes_calm [OF assms(1,2) rd] obtain idxs where "q = Inr idxs" and
    "evolves E (\<lambda>_. None) j j1" by blast
  with abandonLoop_none [OF evolves_calm assms(3)] assms(1) rd show ?thesis
    by (simp add: abandonStaleHostEntriesLocked_def)
qed

lemma activateLocked_calm:
  assumes "faults j = []" and "dirs_wf j" and "coherent (hashfns E) B j" and "births_ok B"
    and "hash_sizes (hashfns E)" "claims_free (hashfns E) B"
    and hd: "hosts j (hostDir E (e_HostKey x)) \<noteq> None" and cd: "claims j (hostDir E (e_HostKey x)) \<noteq> None"
    and act: "activateLocked E x j = (r, j')"
  shows "\<exists>j1 j2 cs. evolves E B j j1 \<and> evolves E B j j2 \<and>
     (\<forall>n c. claim_at j1 (hostDir E (e_HostKey x)) n = Some (Plain c) \<longrightarrow>
        owner_active E (c_OwnerPID c) (c_OwnerBootID c) \<longrightarrow> c \<in> set cs) \<and>
     (\<forall>c \<in> set cs. owner_active E (c_OwnerPID c) (c_OwnerBootID c) \<and>
        (\<exists>n. claim_at j1 (hostDir E (e_HostKey x)) n = Some (Plain c))) \<and>
     ((r \<noteq> Inr True \<and> (j' = j1 \<or> j' = j2) \<and>
       (journal_key E = [] \<or> r = Inr False \<and> conflictsWith (e_OperationID x) (e_LockSet x) cs)) \<or>
      (\<exists>d dc. r = Inr True \<and> \<not> conflictsWith (e_OperationID x) (e_LockSet x) cs \<and>
         hosts j2 (hostDir E (e_HostKey x)) = Some d \<and> claims j2 (hostDir E (e_HostKey x)) = Some dc \<and>
         j' = write_running E (activated E x) d dc j2))"
proof -
  obtain ra j1 where ab: "abandonStaleHostEntriesLocked E (e_HostKey x) (e_OwnerPID x) j = (ra, j1)" by force
  have ev1: "evolves E B j j1" by (rule abandonStale_evolves [OF assms(1-6) ab])
  obtain rc j2 where rl: "readLockClaims E (e_HostKey x) j1 = (rc, j2)" by force
  from readLockClaims_calm [OF evolves_calm [OF ev1 assms(1)] evolves_wf [OF ev1 assms(2)] rl, of B]
  obtain cs where ev12: "evolves E B j1 j2" and rc: "rc = Inr cs"
    and cs: "\<forall>n c. claim_at j1 (hostDir E (e_HostKey x)) n = Some (Plain c) \<longrightarrow>
        owner_active E (c_OwnerPID c) (c_OwnerBootID c) \<longrightarrow> c \<in> set cs"
    and only: "\<forall>c \<in> set cs. owner_active E (c_OwnerPID c) (c_OwnerBootID c) \<and>
        (\<exists>n. claim_at j1 (hostDir E (e_HostKey x)) n = Some (Plain c))" by auto
  note ev2 = evolves_trans [OF ev1 ev12]
  have calm2: "faults j2 = []" using evolves_calm [OF ev2 assms(1)] .
  obtain d where d: "hosts j2 (hostDir E (e_HostKey x)) = Some d" using evolves_dirs(1) [OF ev2 hd] by blast
  obtain dc where dc: "claims j2 (hostDir E (e_HostKey x)) = Some dc" using evolves_dirs(2) [OF ev2 cd] by blast
  have cases: "(r \<noteq> Inr True \<and> (j' = j1 \<or> j' = j2) \<and>
       (journal_key E = [] \<or> r = Inr False \<and> conflictsWith (e_OperationID x) (e_LockSet x) cs)) \<or> (r = Inr True \<and>
      \<not> conflictsWith (e_OperationID x) (e_LockSet x) cs \<and> j' = write_running E (activated E x) d dc j2)"
  proof (cases "\<exists>e. ra = Some e \<or> conflictsWith (e_OperationID x) (e_LockSet x) cs")
    case True
    moreover have "journal_key E \<noteq> [] \<Longrightarrow> ra = None"
      using abandonStale_none [OF assms(1,2), of E "e_HostKey x" "e_OwnerPID x"] ab by simp
    ultimately show ?thesis using act ab rl rc
      by (cases ra) (auto simp: activateLocked_def conflictsLocked_def)
  next
    case False
    then have ra: "ra = None" and nc: "\<not> conflictsWith (e_OperationID x) (e_LockSet x) cs" by auto
    have act': "(r, j') = (case writeOperation E (activated E x) j2 of
                  (Some e, j3) \<Rightarrow> (Inl e, j3)
                | (None, j3) \<Rightarrow>
                    (case writeHostIndex E (activated E x) j3 of
                       (Some e, j4) \<Rightarrow> (Inl e, j4)
                     | (None, j4) \<Rightarrow>
                         (case writeClaims E (activated E x) (e_LockSet (activated E x)) j4 of
                            (Some e, j5) \<Rightarrow> (Inl e, j5)
                          | (None, j5) \<Rightarrow> (Inr True, j5))))"
      using act ab rl rc ra nc unfolding activated_def
      by (simp add: activateLocked_def conflictsLocked_def Let_def)
    obtain rw j3 where w: "writeOperation E (activated E x) j2 = (rw, j3)" by force
    show ?thesis
    proof (cases rw)
      case (Some e)
      with writeOperation_calm [OF calm2 w] act' w show ?thesis by auto
    next
      case None
      with writeOperation_calm [OF calm2 w] have j3: "j3 = j2\<lparr>operations :=
          dir_put (json_name (e_OperationID x)) (Plain (Sealed (journal_key E) (activated E x))) (operations j2)\<rparr>"
        by auto
      let ?j4 = "j3\<lparr>hosts := (hosts j3)(hostDir E (e_HostKey x) \<mapsto>
          dir_put (json_name (e_OperationID x)) (Plain (indexOf (activated E x))) d)\<rparr>"
      have "writeHostIndex E (activated E x) j3 = (None, ?j4)"
        using calm2 d by (simp add: writeHostIndex_def j3)
      moreover have "writeClaims E (activated E x) (e_LockSet x) ?j4 = (None, ?j4\<lparr>claims :=
          (claims ?j4)(hostDir E (e_HostKey x) \<mapsto> put_claims E (activated E x) (e_LockSet x) dc)\<rparr>)"
        using writeClaims_calm [of ?j4 E "activated E x" dc] calm2 dc by (simp add: j3)
      ultimately show ?thesis
        using act' w None nc by (simp add: write_running_def j3)
    qed
  qed
  show ?thesis
    by (rule exI [of _ j1], rule exI [of _ j2], rule exI [of _ cs]) (use ev1 ev2 cs only d dc cases in auto)
qed

lemma put_claims_get:
  "n \<notin> (\<lambda>l. lockClaimName (hashfns E) (e_OperationID x) l) ` set ls \<Longrightarrow>
     dir_get (put_claims E x ls d) n = dir_get d n"
  "inj_on (lockClaimName (hashfns E) (e_OperationID x)) (set ls) \<Longrightarrow> l \<in> set ls \<Longrightarrow>
     dir_get (put_claims E x ls d) (lockClaimName (hashfns E) (e_OperationID x) l) = Some (Plain (claimOf x l))"
  unfolding put_claims_def
  by (simp_all add: dir.get_fold_put_other
      dir.get_fold_put [where f = "lockClaimName (hashfns E) (e_OperationID x)"])

lemma conflict_free_sym: "conflict_free a b \<Longrightarrow> conflict_free b a"
  using locksConflict_sym by (auto simp: conflict_free_def)

lemma claimName_inj_on:
  assumes "hash_sizes H" "claims_free H B" "births_ok B" "B i = Some b"
  shows "inj_on (lockClaimName H i) (set (e_LockSet b))"
proof (rule inj_onI)
  fix k l assume "k \<in> set (e_LockSet b)" "l \<in> set (e_LockSet b)" "lockClaimName H i k = lockClaimName H i l"
  with lockClaimName_inj [OF assms(1-4) _ assms(4)] births_okD(4) [OF assms(3,4)] show "k = l"
    by (meson distinct_map inj_onD)
qed

lemma write_running_views:
  assumes "hosts j (hostDir E (e_HostKey x)) = Some d" "claims j (hostDir E (e_HostKey x)) = Some dc"
  shows "op_at (write_running E x d dc j) n =
      (if n = json_name (e_OperationID x) then Some (Plain (Sealed (journal_key E) x)) else op_at j n)"
    and "index_at (write_running E x d dc j) h n =
      (if h = hostDir E (e_HostKey x) \<and> n = json_name (e_OperationID x) then Some (Plain (indexOf x))
       else index_at j h n)"
    and "claim_at (write_running E x d dc j) h n =
      (if h = hostDir E (e_HostKey x) then dir_get (put_claims E x (e_LockSet x) dc) n else claim_at j h n)"
    and "h = hostDir E (e_HostKey x) \<Longrightarrow> claim_at j h n = dir_get dc n"
    and "faults (write_running E x d dc j) = faults j"
    and "hosts (write_running E x d dc j) h' = None \<longleftrightarrow> hosts j h' = None"
    and "claims (write_running E x d dc j) h' = None \<longleftrightarrow> claims j h' = None"
    and "dirs_wf j \<Longrightarrow> dirs_wf (write_running E x d dc j)"
  using assms
  by (auto simp: write_running_def view_defs dir.get_put dirs_wf_def dir.wf_put put_claims_def dir.wf_fold_put)

lemma write_running_coherent:
  assumes "coherent H B j" and "hashfns E = H" and "known B x" and "births_ok B"
    and "hosts j (hostDir E (e_HostKey x)) = Some d" "claims j (hostDir E (e_HostKey x)) = Some dc"
    and sz: "hash_sizes H" "claims_free H B"
  shows "coherent H B (write_running E x d dc j)"
proof -
  note V = write_running_views [OF assms(5,6)]
  from assms(3) obtain b where b: "B (e_OperationID x) = Some b" "same_op x b" by (auto simp: known_def)
  let ?name = "lockClaimName H (e_OperationID x)"
  have inj: "inj_on ?name (set (e_LockSet x))"
    using claimName_inj_on [OF sz assms(4) b(1)] b(2) by (simp add: same_op_def)
  show ?thesis
  proof (unfold coherent_def, intro conjI allI impI)
    fix n k v assume v: "op_at (write_running E x d dc j) n = Some (Plain (Sealed k v))"
    show "n = json_name (e_OperationID v)" "known B v"
      using v coherentD(1,2) [OF assms(1)] assms(3) by (auto simp: V(1) split: if_splits)
  next
    fix h n idx assume "index_at (write_running E x d dc j) h n = Some (Plain idx)"
    then consider "idx = indexOf x" | "index_at j h n = Some (Plain idx)"
      unfolding V(2) by (metis node.inject option.inject)
    then show "index_ok B idx"
      using coherentD(3) [OF assms(1)] b by cases (auto simp: index_ok_def same_op_def)
  next
    fix h n c assume c: "claim_at (write_running E x d dc j) h n = Some (Plain c)"
    show "claim_ok H B h n c"
    proof (cases "h = hostDir E (e_HostKey x) \<and> n \<in> ?name ` set (e_LockSet x)")
      case True
      then obtain l where l: "l \<in> set (e_LockSet x)" "n = ?name l" by blast
      with True c put_claims_get(2) [where E = E and x = x and ls = "e_LockSet x" and d = dc] inj assms(2)
      have "c = claimOf x l" by (simp add: V(3))
      with True l b assms(2) show ?thesis by (auto simp: claim_ok_def same_op_def hostDir_def)
    next
      case False
      with c put_claims_get(1) [where E = E and x = x and ls = "e_LockSet x" and d = dc] assms(2)
      have "claim_at j h n = Some (Plain c)" by (auto simp: V(3) V(4) split: if_splits)
      with coherentD(4) [OF assms(1)] show ?thesis by blast
    qed
  qed
qed

lemma inv_activated:
  assumes inv: "world_inv H w" and E: "runs_in H w E" and sz: "hash_sizes H" "claims_free H (born w)"
    and kn: "known (born w) x" and st: "e_Status x = Running"
    and d: "hosts (jr w) (hostDir E (e_HostKey x)) = Some d"
    and dc: "claims (jr w) (hostDir E (e_HostKey x)) = Some dc"
    and free: "\<And>y. running w y \<Longrightarrow> e_OperationID y \<noteq> e_OperationID x \<Longrightarrow> e_HostKey y = e_HostKey x \<Longrightarrow>
       conflict_free x y"
    and inf: "inf' \<subseteq> inflight w" and so: "same_op e x" and ls: "leases' = grant w e"
  shows "world_inv H (w\<lparr>jr := write_running E x d dc (jr w), inflight := inf', leases := leases'\<rparr>)"
    (is "world_inv H ?w")
proof -
  note D = world_invD [OF inv]
  note V = write_running_views [OF d dc]
  have H: "hashfns E = H" using E by (simp add: runs_in_def)
  from kn obtain b where b: "born w (e_OperationID x) = Some b" "same_op x b" by (auto simp: known_def)
  have run: "running ?w y \<longleftrightarrow> (if e_OperationID y = e_OperationID x
      then y = x \<and> e_OperationID x \<notin> orphans w else running w y)" for y
    using st by (auto simp: running_def V(1))
  let ?name = "\<lambda>i. lockClaimName H i"
  have inj: "inj_on (?name (e_OperationID x)) (set (e_LockSet x))"
    using claimName_inj_on [OF sz D(3) b(1)] b(2) by (simp add: same_op_def)
  have "holding H ?w"
    unfolding holding_def
  proof (intro allI impI)
    fix y l assume y: "running ?w y" and l: "l \<in> set (e_LockSet y)"
    show "\<exists>c. claim_at (jr ?w) (digestPathComponent H (e_HostKey y)) (?name (e_OperationID y) l)
            = Some (Plain c) \<and> c_Lock c = l"
    proof (cases "e_OperationID y = e_OperationID x")
      case True
      with y have "y = x" by (simp add: run)
      with put_claims_get(2) [where E = E and x = x and ls = "e_LockSet x" and d = dc] inj l H show ?thesis
        by (simp add: V(3) hostDir_def)
    next
      case False
      with y have y': "running w y" by (simp add: run)
      with l obtain c where c: "claim_at (jr w) (digestPathComponent H (e_HostKey y))
          (?name (e_OperationID y) l) = Some (Plain c)" "c_Lock c = l"
        using D(8) unfolding holding_def by blast
      obtain b' where b': "born w (e_OperationID y) = Some b'" "same_op y b'" using running_known [OF inv y'] by blast
      have "?name (e_OperationID y) l \<noteq> ?name (e_OperationID x) m" if "m \<in> set (e_LockSet x)" for m
        using lockClaimName_inj [OF sz D(3) b'(1) _ b(1), of l m] False that l b'(2) b(2)
        by (auto simp: same_op_def)
      then have "claim_at (jr ?w) (digestPathComponent H (e_HostKey y)) (?name (e_OperationID y) l) =
          claim_at (jr w) (digestPathComponent H (e_HostKey y)) (?name (e_OperationID y) l)"
        using put_claims_get(1) [where E = E and x = x and ls = "e_LockSet x" and d = dc
            and n = "?name (e_OperationID y) l"] H V(4)
        by (auto simp: V(3))
      with c show ?thesis by simp
    qed
  qed
  moreover have "exclusive ?w"
    unfolding exclusive_def run
    using D(9) free conflict_free_sym by (auto simp: exclusive_def split: if_splits)
  moreover have "leases_ok ?w"
    unfolding leases_ok_def
  proof
    fix z assume "z \<in> leases ?w"
    then consider "z = e" "e_OperationID e \<notin> orphans w" | "z \<in> leases w"
      using ls by (auto simp: grant_def split: if_splits)
    then show "\<exists>y. running ?w y \<and> same_op z y"
    proof cases
      case 1
      with so show ?thesis by (intro exI [of _ x]) (simp add: run same_op_def)
    next
      case 2
      then obtain y where y: "running w y" "same_op z y" using D(10) by (auto simp: leases_ok_def)
      from running_known [OF inv y(1)] obtain b' where
        b': "born w (e_OperationID y) = Some b'" "same_op y b'" "e_OperationID y \<notin> orphans w" .
      show ?thesis
      proof (cases "e_OperationID y = e_OperationID x")
        case True
        with b b' y(2) have "same_op z x" by (simp add: same_op_def)
        with True b'(3) show ?thesis by (intro exI [of _ x]) (simp add: run)
      qed (use y in \<open>auto simp: run\<close>)
    qed
  qed
  moreover have "owners_ok ?w" "entries_have_dirs H ?w" "snapshots_ok H ?w"
    using D(5,6,7) inf by (auto simp: owners_ok_def entries_have_dirs_def snapshots_ok_def V(6,7))
  moreover have "coherent H (born w) (write_running E x d dc (jr w))"
    by (rule write_running_coherent [OF D(4) H kn D(3) d dc sz])
  ultimately show ?thesis
    using D(1,2,3) V(5,8) by (simp add: world_inv_def)
qed

lemma evolves_worlds:
  assumes inv: "world_inv H w" and E: "runs_in H w E" and sz: "hash_sizes H" "claims_free H (born w)"
    and ev: "evolves E (born w) (jr w) j1"
  shows "world_inv H (w\<lparr>jr := j1\<rparr>)" "running (w\<lparr>jr := j1\<rparr>) y \<longleftrightarrow> running w y"
  using evolves_inv [OF inv E ev sz] evolves_running [OF inv E ev] by blast+

lemma inv_activate:
  assumes inv: "world_inv H w" and E: "runs_in H w E" and sz: "hash_sizes H" "claims_free H (born w)"
    and fl: "(pid E, x) \<in> inflight w" and act: "tryActivate E x (jr w) = (r, j')"
    and ls: "leases' = (if r = Inr True then grant w x else leases w)"
  shows "world_inv H (w\<lparr>jr := j', inflight := inflight w - {(pid E, x)}, leases := leases'\<rparr>)"
proof -
  have H: "hashfns E = H" using E by (simp add: runs_in_def)
  note D = world_invD [OF inv]
  from D(7) fl have kn: "known (born w) x"
    and dirs: "hosts (jr w) (hostDir E (e_HostKey x)) \<noteq> None" "claims (jr w) (hostDir E (e_HostKey x)) \<noteq> None"
    using H by (auto simp: snapshots_ok_def hostDir_def)
  obtain a where a: "withAdmissionLock E (activateLocked E x) (jr w) =
      activateLocked E x ((jr w)\<lparr>admission := a\<rparr>)"
    using withAdmissionLock_calm [OF D(1)] by blast
  note D0 = world_invD [OF inv_admission [OF inv E sz, of a]]
  have act0: "activateLocked E x ((jr w)\<lparr>admission := a\<rparr>) = (r, j')"
    using act a by (simp add: tryActivate_def)
  have "faults ((jr w)\<lparr>admission := a\<rparr>) = []" "dirs_wf ((jr w)\<lparr>admission := a\<rparr>)"
    "coherent (hashfns E) (born w) ((jr w)\<lparr>admission := a\<rparr>)" "births_ok (born w)"
    "hash_sizes (hashfns E)" "claims_free (hashfns E) (born w)"
    "hosts ((jr w)\<lparr>admission := a\<rparr>) (hostDir E (e_HostKey x)) \<noteq> None"
    "claims ((jr w)\<lparr>admission := a\<rparr>) (hostDir E (e_HostKey x)) \<noteq> None"
    using D0 D(3) H sz dirs by simp_all
  from activateLocked_calm [OF this act0] obtain j1 j2 cs where
    ev: "evolves E (born w) ((jr w)\<lparr>admission := a\<rparr>) j1" "evolves E (born w) ((jr w)\<lparr>admission := a\<rparr>) j2"
    and cs: "\<And>n c. claim_at j1 (hostDir E (e_HostKey x)) n = Some (Plain c) \<Longrightarrow>
        owner_active E (c_OwnerPID c) (c_OwnerBootID c) \<Longrightarrow> c \<in> set cs"
    and or: "(r \<noteq> Inr True \<and> (j' = j1 \<or> j' = j2)) \<or> (\<exists>d dc. r = Inr True \<and> \<not> conflictsWith (e_OperationID x) (e_LockSet x) cs \<and>
         hosts j2 (hostDir E (e_HostKey x)) = Some d \<and> claims j2 (hostDir E (e_HostKey x)) = Some dc \<and>
         j' = write_running E (activated E x) d dc j2)" by blast
  note ev1 = evolves_trans [OF evolves_admission ev(1)]
  note ev2 = evolves_trans [OF evolves_admission ev(2)]
  note w1 = evolves_worlds [OF inv E sz ev1]
  note w2 = evolves_worlds [OF inv E sz ev2]
  from or show ?thesis
  proof
    assume no: "r \<noteq> Inr True \<and> (j' = j1 \<or> j' = j2)"
    then have "world_inv H (w\<lparr>jr := j'\<rparr>)" using w1(1) w2(1) by blast
    from inv_less_work [OF this, of "inflight w - {(pid E, x)}" "releasing w" "leases w"] no ls
    show ?thesis by simp
  next
    assume "\<exists>d dc. r = Inr True \<and> \<not> conflictsWith (e_OperationID x) (e_LockSet x) cs \<and>
         hosts j2 (hostDir E (e_HostKey x)) = Some d \<and> claims j2 (hostDir E (e_HostKey x)) = Some dc \<and>
         j' = write_running E (activated E x) d dc j2"
    then obtain d dc where r: "r = Inr True" and nc: "\<not> conflictsWith (e_OperationID x) (e_LockSet x) cs"
      and d: "hosts j2 (hostDir E (e_HostKey x)) = Some d" and dc: "claims j2 (hostDir E (e_HostKey x)) = Some dc"
      and j': "j' = write_running E (activated E x) d dc j2" by blast
    have free: "conflict_free (activated E x) y" if y: "running w y"
      and ne: "e_OperationID y \<noteq> e_OperationID x" and hk: "e_HostKey y = e_HostKey x" for y
    proof (rule conflict_free_sym, unfold conflict_free_def, intro ballI)
      fix m l assume m: "m \<in> set (e_LockSet y)" and l: "l \<in> set (e_LockSet (activated E x))"
      from y w1(2) have y1: "running (w\<lparr>jr := j1\<rparr>) y" by simp
      with m obtain c where c: "claim_at j1 (digestPathComponent H (e_HostKey y))
          (lockClaimName H (e_OperationID y) m) = Some (Plain c)" "c_Lock c = m"
        using world_invD(8) [OF w1(1)] unfolding holding_def by fastforce
      obtain b where b: "born w (e_OperationID y) = Some b" "e_OperationID y \<notin> orphans w" "same_op y b"
        using running_known [OF inv y] by blast
      from world_invD(4) [OF w1(1)] have "coherent H (born w) j1" by simp
      from stale_claim_name [OF this D(3) sz b(1) _ c(1)] active_owner [OF inv E b(1,2)] m b(3)
      have "owner_active E (c_OwnerPID c) (c_OwnerBootID c)" and id: "c_OperationID c = e_OperationID y"
        by (simp_all add: same_op_def)
      with cs c(1) hk H have "c \<in> set cs" by (simp add: hostDir_def)
      from conflictsWith_False [OF nc this] id ne l c(2) show "\<not> locksConflict m l" by simp
    qed
    have "world_inv H ((w\<lparr>jr := j2\<rparr>)\<lparr>jr := write_running E (activated E x) d dc (jr (w\<lparr>jr := j2\<rparr>)),
        inflight := inflight w - {(pid E, x)}, leases := leases'\<rparr>)"
    proof (rule inv_activated [OF w2(1)])
      show "hash_sizes H" "claims_free H (born (w\<lparr>jr := j2\<rparr>))" using sz by simp_all
      show "runs_in H (w\<lparr>jr := j2\<rparr>) E" using E by simp
      show "known (born (w\<lparr>jr := j2\<rparr>)) (activated E x)" using kn by (simp add: known_def same_op_def)
      show "same_op x (activated E x)" by (simp add: same_op_def)
      show "leases' = grant (w\<lparr>jr := j2\<rparr>) x" using ls r by (simp add: grant_def)
      show "conflict_free (activated E x) y"
        if "running (w\<lparr>jr := j2\<rparr>) y" "e_OperationID y \<noteq> e_OperationID (activated E x)"
          "e_HostKey y = e_HostKey (activated E x)" for y
        using free that w2(2) by simp
    qed (use d dc in auto)
    then show ?thesis by (simp add: j')
  qed
qed

subsection \<open>Release\<close>

lemma inv_read_release:
  assumes inv: "world_inv H w" and rd: "readOperation E i (jr w) = (Inr x, j')"
  shows "world_inv H (w\<lparr>jr := j', releasing := insert (p, x) (releasing w)\<rparr>)"
proof -
  note D = world_invD [OF inv]
  from readOperation_calm [OF D(1) rd] have j': "j' = jr w"
    and at: "op_at (jr w) (json_name i) = Some (Plain (Sealed (journal_key E) x))" by auto
  from coherentD(2) [OF D(4) at] D show ?thesis
    by (auto simp: j' world_inv_def owners_ok_def entries_have_dirs_def holding_def exclusive_def
        snapshots_ok_def leases_ok_def running_def)
qed

lemma removeClaims_calm:
  "faults j = [] \<Longrightarrow> \<exists>j'. removeClaims E x ls j = (None, j') \<and> faults j' = [] \<and>
     (dirs_wf j \<longrightarrow> dirs_wf j') \<and> operations j' = operations j \<and> hosts j' = hosts j \<and>
     (\<forall>h. (claims j' h = None) = (claims j h = None)) \<and>
     (\<forall>h n. claim_at j' h n = (if h = hostDir E (e_HostKey x) \<and>
        n \<in> lockClaimName (hashfns E) (e_OperationID x) ` set ls then None else claim_at j h n))"
proof (induction ls arbitrary: j)
  case Nil
  then show ?case by simp
next
  case (Cons l ls)
  let ?j = "del_file (LocksDir (hostDir E (e_HostKey x))) (lockClaimName (hashfns E) (e_OperationID x) l) j"
  have same: "operations ?j = operations j" "hosts ?j = hosts j"
    by (simp_all add: del_file.simps)
  from Cons.prems have "faults ?j = []" by simp
  from Cons.IH [OF this] obtain j' where j': "removeClaims E x ls ?j = (None, j')" "faults j' = []"
     "dirs_wf ?j \<longrightarrow> dirs_wf j'" "operations j' = operations j" "hosts j' = hosts j"
     "\<forall>h. (claims j' h = None) = (claims j h = None)"
     "\<forall>h n. claim_at j' h n = (if h = hostDir E (e_HostKey x) \<and>
        n \<in> lockClaimName (hashfns E) (e_OperationID x) ` set ls then None else claim_at ?j h n)"
    unfolding same by auto
  show ?case
    by (rule exI [of _ j']) (use Cons.prems j' dirs_wf_del_file in \<open>auto simp: claim_at_del_file\<close>)
qed

lemma finalizeLocked_calm:
  assumes "faults j = []" and "finalizeLocked E x status lastErr j = (r, j')"
  shows "(\<exists>e. r = Inl e \<and> journal_key E = [] \<and> j' = j) \<or>
    (\<exists>v. r = Inr () \<and> same_op v x \<and> e_Status v = status \<and> faults j' = [] \<and> (dirs_wf j \<longrightarrow> dirs_wf j') \<and>
     (\<forall>h. (claims j' h = None) = (claims j h = None)) \<and> (\<forall>h. (hosts j' h = None) = (hosts j h = None)) \<and>
     (\<forall>n. op_at j' n = (if n = json_name (e_OperationID x) then Some (Plain (Sealed (journal_key E) v)) else op_at j n)) \<and>
     (\<forall>h n. index_at j' h n = (if h = hostDir E (e_HostKey x) \<and> n = json_name (e_OperationID x)
        then None else index_at j h n)) \<and>
     (\<forall>h n. claim_at j' h n = (if h = hostDir E (e_HostKey x) \<and>
        n \<in> lockClaimName (hashfns E) (e_OperationID x) ` set (e_LockSet x) then None else claim_at j h n)))"
proof -
  define v where "v = x\<lparr>e_Status := status, e_UpdatedAt := now E,
                    e_LastError := (case lastErr of None \<Rightarrow> [] | Some e \<Rightarrow> error_text e)\<rparr>"
  have v: "same_op v x" "e_Status v = status" "e_OperationID v = e_OperationID x"
    "e_LockSet v = e_LockSet x" "e_HostKey v = e_HostKey x"
    by (simp_all add: v_def same_op_def)
  obtain rw j1 where w: "writeOperation E v j = (rw, j1)" by force
  have fin: "(r, j') = (case rw of Some e \<Rightarrow> (Inl e, j1) | None \<Rightarrow>
      (case removeClaims E v (e_LockSet v) j1 of (Some e, j2) \<Rightarrow> (Inl e, j2)
       | (None, j2) \<Rightarrow> (let (bad, j3) = os_Remove (HostsDir (hostDir E (e_HostKey v))) (json_name (e_OperationID v)) j2
          in if bad then (Inl (io_error ''remove host operation index''), j3) else (Inr (), j3))))"
    using assms(2) w by (simp add: finalizeLocked_def Let_def flip: v_def split: option.splits)
  show ?thesis
  proof (cases rw)
    case (Some e)
    with writeOperation_calm [OF assms(1) w] fin show ?thesis by auto
  next
    case None
    with writeOperation_calm [OF assms(1) w] have j1: "j1 = j\<lparr>operations := dir_put (json_name (e_OperationID v))
        (Plain (Sealed (journal_key E) v)) (operations j)\<rparr>" by auto
    then have "faults j1 = []" using assms(1) by simp
    from removeClaims_calm [OF this, of E v "e_LockSet v"] obtain j2 where j2:
      "removeClaims E v (e_LockSet v) j1 = (None, j2)" "faults j2 = []" "dirs_wf j1 \<longrightarrow> dirs_wf j2"
      "operations j2 = operations j1" "hosts j2 = hosts j1" "\<forall>h. (claims j2 h = None) = (claims j1 h = None)"
      "\<forall>h n. claim_at j2 h n = (if h = hostDir E (e_HostKey v) \<and>
        n \<in> lockClaimName (hashfns E) (e_OperationID v) ` set (e_LockSet v) then None else claim_at j1 h n)"
      by auto
    let ?j3 = "del_file (HostsDir (hostDir E (e_HostKey x))) (json_name (e_OperationID x)) j2"
    have r: "r = Inr ()" "j' = ?j3" using fin None j2(1,2) v by simp_all
    have "dirs_wf j1 \<longleftrightarrow> dirs_wf j" by (simp add: j1 dirs_wf_def)
    then have wf: "dirs_wf j \<longrightarrow> dirs_wf ?j3" using j2(3) dirs_wf_del_file by blast
    have "op_at ?j3 n = (if n = json_name (e_OperationID x) then Some (Plain (Sealed (journal_key E) v)) else op_at j n)" for n
      by (simp add: op_at_del_file) (simp add: op_at_def j2(4) j1 dir.get_put v(3))
    moreover have "index_at ?j3 h n = (if h = hostDir E (e_HostKey x) \<and> n = json_name (e_OperationID x)
        then None else index_at j h n)" for h n
      by (auto simp: index_at_del_file) (auto simp: index_at_def j2(5) j1)
    moreover have "claim_at j1 h n = claim_at j h n" for h n by (simp add: claim_at_def j1)
    moreover have "claims j1 = claims j" "hosts j1 = hosts j" by (simp_all add: j1)
    ultimately show ?thesis
      using r v wf j2 by (intro disjI2 exI [of _ v]) (simp add: claim_at_del_file)
  qed
qed

lemma inv_release:
  assumes inv: "world_inv H w" and E: "runs_in H w E" and sz: "hash_sizes H" "claims_free H (born w)"
    and rl: "(pid E, x) \<in> releasing w" and st: "status \<noteq> Running"
    and fin: "withAdmissionLock E (finalizeLocked E x status lastErr) (jr w) = (r, j')"
  shows "world_inv H (w\<lparr>jr := j', releasing := releasing w - {(pid E, x)},
                leases := {y. y \<in> leases w \<and> e_OperationID y \<noteq> e_OperationID x}\<rparr>)" (is "world_inv H ?w")
proof -
  have H: "hashfns E = H" using E by (simp add: runs_in_def)
  have kn: "known (born w) x" using world_invD(7) [OF inv] rl by (auto simp: snapshots_ok_def)
  then obtain b where b: "born w (e_OperationID x) = Some b" "same_op x b" by (auto simp: known_def)
  obtain a where a: "withAdmissionLock E (finalizeLocked E x status lastErr) (jr w) =
      finalizeLocked E x status lastErr ((jr w)\<lparr>admission := a\<rparr>)"
    using withAdmissionLock_calm [OF world_invD(1) [OF inv]] by blast
  let ?u = "w\<lparr>jr := (jr w)\<lparr>admission := a\<rparr>\<rparr>"
  note inv0 = inv_admission [OF inv E sz, of a]
  note D = world_invD [OF inv0]
  have less: "{y. y \<in> leases w \<and> e_OperationID y \<noteq> e_OperationID x} \<subseteq> leases ?u"
    "releasing w - {(pid E, x)} \<subseteq> releasing ?u" by auto
  from finalizeLocked_calm [OF D(1), of E x status lastErr r j'] fin a
  consider (err) "j' = jr ?u" | (ok) v where "same_op v x" "e_Status v = status" "faults j' = []"
     "dirs_wf (jr ?u) \<longrightarrow> dirs_wf j'"
     "\<forall>h. (claims j' h = None) = (claims (jr ?u) h = None)" "\<forall>h. (hosts j' h = None) = (hosts (jr ?u) h = None)"
     "\<forall>n. op_at j' n = (if n = json_name (e_OperationID x)
        then Some (Plain (Sealed (journal_key E) v)) else op_at (jr ?u) n)"
     "\<forall>h n. index_at j' h n = (if h = hostDir E (e_HostKey x) \<and> n = json_name (e_OperationID x)
        then None else index_at (jr ?u) h n)"
     "\<forall>h n. claim_at j' h n = (if h = hostDir E (e_HostKey x) \<and>
        n \<in> lockClaimName (hashfns E) (e_OperationID x) ` set (e_LockSet x) then None else claim_at (jr ?u) h n)"
    unfolding a by auto
  then show ?thesis
  proof cases
    case err
    from inv_less_work [OF inv0 order_refl less(2,1)] err show ?thesis by simp
  next
    case ok
    have idv: "e_OperationID v = e_OperationID x" using ok(1) by (simp add: same_op_def)
    have run: "running ?w y \<longleftrightarrow> running ?u y \<and> e_OperationID y \<noteq> e_OperationID x" for y
    proof (cases "e_OperationID y = e_OperationID x")
      case True
      with ok(2,7) st show ?thesis by (auto simp: running_def)
    next
      case False
      with ok(7) show ?thesis by (simp add: running_def)
    qed
    have "coherent H (born w) j'"
    proof (unfold coherent_def, intro conjI allI impI)
      fix n k u assume u: "op_at j' n = Some (Plain (Sealed k u))"
      show "n = json_name (e_OperationID u)" "known (born w) u"
        using u coherentD(1,2) [OF D(4)] b ok(1) idv
        by (auto simp: ok(7) known_def same_op_def split: if_splits)
    next
      fix h n idx assume "index_at j' h n = Some (Plain idx)"
      then have "index_at (jr ?u) h n = Some (Plain idx)" by (simp add: ok(8) split: if_splits)
      from coherentD(3) [OF D(4) this] show "index_ok (born w) idx" by simp
    next
      fix h n c assume "claim_at j' h n = Some (Plain c)"
      then have "claim_at (jr ?u) h n = Some (Plain c)" by (simp add: ok(9) split: if_splits)
      from coherentD(4) [OF D(4) this] show "claim_ok H (born w) h n c" by simp
    qed
    moreover have "holding H ?w"
      unfolding holding_def
    proof (intro allI impI)
      fix y l assume y: "running ?w y" and l: "l \<in> set (e_LockSet y)"
      then have y0: "running ?u y" and ne: "e_OperationID y \<noteq> e_OperationID x" by (simp_all add: run)
      obtain b' where b': "born w (e_OperationID y) = Some b'" "same_op y b'"
        using running_known [OF inv0 y0] by auto
      from b' b l ne have "lockClaimName H (e_OperationID y) l \<noteq> lockClaimName H (e_OperationID x) m"
        if "m \<in> set (e_LockSet x)" for m
        using lockClaimName_inj [OF sz _ b'(1) _ b(1), of l m] world_invD(3) [OF inv] that
        by (auto simp: same_op_def)
      then have "claim_at j' (digestPathComponent H (e_HostKey y)) (lockClaimName H (e_OperationID y) l) =
          claim_at (jr ?u) (digestPathComponent H (e_HostKey y)) (lockClaimName H (e_OperationID y) l)"
        using H unfolding ok(9) [rule_format] by auto
      with y0 l D(8) show "\<exists>c. claim_at (jr ?w) (digestPathComponent H (e_HostKey y))
          (lockClaimName H (e_OperationID y) l) = Some (Plain c) \<and> c_Lock c = l"
        unfolding holding_def by simp
    qed
    moreover have "exclusive ?w"
      using D(9) unfolding exclusive_def run by blast
    moreover have "leases_ok ?w"
      using D(10) unfolding leases_ok_def run same_op_def by fastforce
    moreover have "owners_ok ?w" "entries_have_dirs H ?w" "snapshots_ok H ?w"
      using D(5,6,7) ok(5,6) by (auto simp: owners_ok_def entries_have_dirs_def snapshots_ok_def)
    ultimately show ?thesis
      using D(2,3) ok(3,4) by (simp add: world_inv_def)
  qed
qed

subsection \<open>Every step\<close>

lemma step_born: "step H w w' \<Longrightarrow> born w \<subseteq>\<^sub>m born w'"
  by (cases rule: step.cases) (auto simp: map_le_def)

lemma step_inv:
  assumes "step H w w'" and inv: "world_inv H w" and sz: "hash_sizes H" "claims_free H (born w)"
  shows "world_inv H w'"
  using assms(1)
proof cases
  case (enqueue E params entry j' born' leases')
  from inv_enqueue [OF inv enqueue(2) sz enqueue(3-8)] enqueue(1) show ?thesis by simp
next
  case (activate E x r j' leases')
  from inv_activate [OF inv activate(2) sz activate(3-5)] activate(1) show ?thesis by simp
next
  case (release E x status lastErr r j')
  from inv_release [OF inv release(2) sz release(3-5)] release(1) show ?thesis by simp
next
  case (enqueue_error E params e j')
  from inv_enqueue_error [OF inv enqueue_error(2) sz enqueue_error(3,6)] enqueue_error(1) show ?thesis by simp
qed (use inv_spawn [OF inv] inv_die [OF inv] inv_reboot [OF inv] inv_make_dirs [OF inv _ sz]
      inv_perm_create [OF inv] inv_perm_remove [OF inv _ sz] inv_read_release [OF inv] in simp_all)

text \<open>The invariant as the step relation keeps it: as long as no two claim keys collide.\<close>

interpretation admission: transition_system init_world "step H"
  "\<lambda>w. hash_sizes H \<longrightarrow> claims_free H (born w) \<longrightarrow> world_inv H w" for H
proof unfold_locales
  fix w w' assume "hash_sizes H \<longrightarrow> claims_free H (born w) \<longrightarrow> world_inv H w" and "step H w w'"
  then show "hash_sizes H \<longrightarrow> claims_free H (born w') \<longrightarrow> world_inv H w'"
    using step_inv claims_free_mono [OF _ step_born] by blast
qed (use init_world_inv in blast)

end
