(* ===== verification/DemoHost.thy ===== *)
theory DemoHost
  imports JournalFacts
begin

text \<open>
  A concrete host for the witnesses: digest functions of the right output sizes and the
  surroundings of an executor process.
\<close>

definition pad16 :: "string \<Rightarrow> string" where
  "pad16 s = take 16 (s @ replicate 16 (CHR ''0''))"

definition demo_hashes :: hashes where
  "demo_hashes = \<lparr>blake3_sum = (\<lambda>s. replicate 32 (CHR ''b'')),
     shake256_sum = (\<lambda>s. replicate 64 (CHR ''s'')), xxh3_sum = pad16\<rparr>"

lemma demo_hash_sizes: "hash_sizes demo_hashes"
  by (auto simp: hash_sizes_def demo_hashes_def pad16_def)

definition demo_env :: "int \<Rightarrow> string \<Rightarrow> (int \<Rightarrow> bool) \<Rightarrow> env" where
  "demo_env p rnd al = \<lparr>pid = p, boot_id = ''b'', exists_pid = al, now = 1, random_bytes = rnd,
     temp_suffix = ''t'', journal_key = ''k'', hashfns = demo_hashes\<rparr>"

lemma VerifyDigest_sound_complete_witness:
  "\<exists>d. DigestBytes demo_hashes AlgorithmBlake3 ''hello'' = Inr d \<and> VerifyDigest demo_hashes ''hello'' d = Inr ()"
proof -
  have "DigestBytes demo_hashes AlgorithmBlake3 ''hello'' =
      Inr (AlgorithmBlake3 @ '':'' @ hex_bytes (blake3_sum demo_hashes ''hello''))"
    by (simp only: DigestBytes_def simp_thms if_True)
  with VerifyDigest_sound_complete [OF demo_hash_sizes, of "''hello''"] show ?thesis by blast
qed

end
