(* ===== verification/LeaseProperties.thy ===== *)
theory LeaseProperties
  imports AdmissionSafety DemoHost
begin

text \<open>
  The properties of admission control: mutual exclusion of the leases in every reachable world,
  the decision of an activation, what a release leaves behind, and three scenarios in which the
  code does not do what its callers rely on.
\<close>

subsection \<open>A concrete machine for the witnesses\<close>

definition demo_params :: "string \<Rightarrow> string \<Rightarrow> OperationAcquireParams" where
  "demo_params req key = \<lparr>aq_RequestID = req, aq_HostKey = ''h'', aq_SessionKey = ''s'',
     aq_ModuleName = ''m'', aq_ResourceType = ''r'', aq_Action = ''apply'', aq_Name = ''n'',
     aq_LockSet = [\<lparr>lk_Key = key, lk_Mode = [], lk_Source = []\<rparr>],
     aq_TimeoutMs = 0\<rparr>"

definition empty_journal :: journal where
  "empty_journal = \<lparr>operations = [], hosts = (\<lambda>_. None), claims = (\<lambda>_. None), admission = [],
     faults = []\<rparr>"

definition demo_dirs :: "journal \<Rightarrow> journal" where
  "demo_dirs j = mkdirAll (LocksDir (digestPathComponent demo_hashes ''h''))
     (mkdirAll (HostsDir (digestPathComponent demo_hashes ''h'')) j)"

definition env_a :: env where "env_a = demo_env 7 ''a'' (\<lambda>p. p = 7)"
definition env_b :: env where "env_b = demo_env 7 ''b'' (\<lambda>p. p = 7)"

definition entry_a :: operationJournalEntry where "entry_a = newEntry env_a (demo_params [] ''a'')"
definition entry_b :: operationJournalEntry where "entry_b = newEntry env_b (demo_params [] ''b'')"

definition journal_1 :: journal where "journal_1 = demo_dirs empty_journal"
definition journal_2 :: journal where "journal_2 = snd (findOrCreateOperation env_a (demo_params [] ''a'') journal_1)"
definition journal_3 :: journal where "journal_3 = snd (tryActivate env_a entry_a journal_2)"
definition journal_4 :: journal where "journal_4 = snd (findOrCreateOperation env_b (demo_params [] ''b'') journal_3)"
definition journal_5 :: journal where "journal_5 = snd (tryActivate env_b entry_b journal_4)"

lemma demo_enqueue_a: "fst (findOrCreateOperation env_a (demo_params [] ''a'') journal_1) = Inr entry_a"
  by code_simp

lemma demo_activate_a: "fst (tryActivate env_a entry_a journal_2) = Inr True"
  by code_simp

lemma demo_enqueue_b: "fst (findOrCreateOperation env_b (demo_params [] ''b'') journal_3) = Inr entry_b"
  by code_simp

lemma demo_activate_b: "fst (tryActivate env_b entry_b journal_4) = Inr True"
  by code_simp

definition demo_world :: "journal \<Rightarrow> births \<Rightarrow> (int \<times> operationJournalEntry) set \<Rightarrow>
    operationJournalEntry set \<Rightarrow> world" where
  "demo_world j B fl ls = \<lparr>jr = j, alive = (\<lambda>p. p = 7), kernel_boot = ''b'', born = B, orphans = {},
     inflight = fl, releasing = {}, leases = ls\<rparr>"

definition births_a :: births where "births_a = [e_OperationID entry_a \<mapsto> entry_a]"
definition births_ab :: births where "births_ab = births_a(e_OperationID entry_b \<mapsto> entry_b)"

definition demo_end :: world where
  "demo_end = demo_world journal_5 births_ab {} {entry_a, entry_b}"

lemma demo_runs_in: "runs_in demo_hashes (demo_world j B fl ls) env_a" "runs_in demo_hashes (demo_world j B fl ls) env_b"
  by (simp_all add: runs_in_def demo_world_def env_a_def env_b_def demo_env_def)

lemma demo_ids:
  "e_OperationID entry_a = newJournalOperationID env_a" "e_OperationID entry_b = newJournalOperationID env_b"
  "e_Status entry_a = Queued" "e_Status entry_b = Queued" "pid env_a = 7" "pid env_b = 7"
  "newJournalOperationID env_b \<noteq> newJournalOperationID env_a"
  by (simp_all add: entry_a_def entry_b_def env_a_def env_b_def demo_env_def)
    (simp add: newJournalOperationID_def digit_char_def)

lemma demo_dirs_exist:
  "hosts journal_1 (hostDir env_a ''h'') \<noteq> None \<and> claims journal_1 (hostDir env_a ''h'') \<noteq> None"
  "hosts journal_3 (hostDir env_b ''h'') \<noteq> None \<and> claims journal_3 (hostDir env_b ''h'') \<noteq> None"
  by code_simp+

lemma demo_steps:
  "step demo_hashes (demo_world journal_1 (\<lambda>_. None) {} {}) (demo_world journal_2 births_a {(7, entry_a)} {})"
  "step demo_hashes (demo_world journal_2 births_a {(7, entry_a)} {}) (demo_world journal_3 births_a {} {entry_a})"
  "step demo_hashes (demo_world journal_3 births_a {} {entry_a})
     (demo_world journal_4 births_ab {(7, entry_b)} {entry_a})"
  "step demo_hashes (demo_world journal_4 births_ab {(7, entry_b)} {entry_a}) demo_end"
proof -
  let ?p = "demo_params []" and ?w = "demo_world"
  note defs = demo_world_def demo_end_def births_a_def births_ab_def grant_def demo_ids
  have hk: "aq_HostKey (?p k) = ''h''" for k by (simp add: demo_params_def)
  show "step demo_hashes (?w journal_1 (\<lambda>_. None) {} {}) (?w journal_2 births_a {(7, entry_a)} {})"
    using step.enqueue [OF demo_runs_in(1) [of journal_1 "\<lambda>_. None" "{}" "{}"], where params = "?p ''a''"
        and entry = entry_a and j' = journal_2 and born' = births_a and leases' = "{}"] demo_dirs_exist(1) demo_enqueue_a
    by (simp add: defs hk journal_2_def prod_eq_iff)
  show "step demo_hashes (?w journal_2 births_a {(7, entry_a)} {}) (?w journal_3 births_a {} {entry_a})"
    using step.activate [OF demo_runs_in(1) [of journal_2 births_a "{(7, entry_a)}" "{}"], where entry = entry_a
        and r = "Inr True" and j' = journal_3 and leases' = "{entry_a}"] demo_activate_a
    by (simp add: defs journal_3_def prod_eq_iff)
  show "step demo_hashes (?w journal_3 births_a {} {entry_a}) (?w journal_4 births_ab {(7, entry_b)} {entry_a})"
    using step.enqueue [OF demo_runs_in(2) [of journal_3 births_a "{}" "{entry_a}"], where params = "?p ''b''"
        and entry = entry_b and j' = journal_4 and born' = births_ab and leases' = "{entry_a}"] demo_dirs_exist(2) demo_enqueue_b
    by (simp add: defs hk journal_4_def prod_eq_iff)
  show "step demo_hashes (?w journal_4 births_ab {(7, entry_b)} {entry_a}) demo_end"
    using step.activate [OF demo_runs_in(2) [of journal_4 births_ab "{(7, entry_b)}" "{entry_a}"], where entry = entry_b
        and r = "Inr True" and j' = journal_5 and leases' = "{entry_b, entry_a}"] demo_activate_b
    by (simp add: defs journal_5_def prod_eq_iff insert_commute)
qed

lemma demo_prefix: "(step demo_hashes)\<^sup>*\<^sup>* (demo_world empty_journal (\<lambda>_. None) {} {})
    (demo_world journal_1 (\<lambda>_. None) {} {})"
proof -
  have mk: "step demo_hashes (demo_world j (\<lambda>_. None) {} {}) (demo_world (mkdirAll jd j) (\<lambda>_. None) {} {})" for j jd
    using step.make_dirs [OF demo_runs_in(1), of j "\<lambda>_. None" "{}" "{}" jd] by (simp add: demo_world_def)
  show ?thesis
    unfolding journal_1_def demo_dirs_def
    by (rule rtranclp.rtrancl_into_rtrancl, rule r_into_rtranclp, rule mk, rule mk)
qed

lemma demo_reachable:
  "\<exists>w. init_world w \<and> (step demo_hashes)\<^sup>*\<^sup>* w demo_end"
proof (intro exI conjI)
  let ?w = "\<lambda>j. demo_world j (\<lambda>_. None) {} {}"
  show "init_world (?w empty_journal)" by (simp add: init_world_def demo_world_def empty_journal_def)
  note demo_prefix [THEN rtranclp.rtrancl_into_rtrancl, OF demo_steps(1)]
  note this [THEN rtranclp.rtrancl_into_rtrancl, OF demo_steps(2)]
  note this [THEN rtranclp.rtrancl_into_rtrancl, OF demo_steps(3)]
  from this [THEN rtranclp.rtrancl_into_rtrancl, OF demo_steps(4)]
  show "(step demo_hashes)\<^sup>*\<^sup>* (?w empty_journal) demo_end" .
qed

lemma demo_claims_free: "claims_free demo_hashes births_ab"
proof -
  have "pad16 (claim_key (e_OperationID entry_a) l) \<noteq> pad16 (claim_key (e_OperationID entry_b) m)"
    if "l \<in> set (e_LockSet entry_a)" "m \<in> set (e_LockSet entry_b)" for l m
  proof -
    have "list_all (\<lambda>l. list_all (\<lambda>m. pad16 (claim_key (e_OperationID entry_a) l) \<noteq>
        pad16 (claim_key (e_OperationID entry_b) m)) (e_LockSet entry_b)) (e_LockSet entry_a)" by code_simp
    with that show ?thesis by (auto simp: list_all_iff)
  qed
  moreover have "length (e_LockSet entry_a) = 1" "length (e_LockSet entry_b) = 1" by code_simp+
  ultimately show ?thesis
    unfolding claims_free_def births_ab_def births_a_def
    by (auto simp: demo_hashes_def length_Suc_conv split: if_splits) (metis+)
qed

subsection \<open>Mutual exclusion\<close>

text \<open>C1: mutual exclusion of operation leases. In every world that any number of executor processes
  can reach by interleaving the critical sections of Acquire and Release, dying, being started and
  rebooting the machine, two different operations that hold a lease on the same host at the same
  time have no conflicting locks, as long as no two of the claim names ever used collide under the
  128-bit XXH3 hash.\<close>

theorem mutual_exclusion:
  assumes "hash_sizes H" and "init_world w" and "(step H)\<^sup>*\<^sup>* w v" and "claims_free H (born v)"
    and "x \<in> leases v" "y \<in> leases v" "e_OperationID x \<noteq> e_OperationID y" "e_HostKey x = e_HostKey y"
  shows "conflict_free x y"
proof -
  from admission.inv_reachable [OF assms(2,3)] assms(1,4) have inv: "world_inv H v" by blast
  from world_invD(10) [OF inv] assms(5,6) obtain x' y' where
    "running v x'" "same_op x x'" "running v y'" "same_op y y'"
    unfolding leases_ok_def by blast
  with world_invD(9) [OF inv] assms(7,8) show ?thesis
    by (auto simp: exclusive_def conflict_free_def same_op_def)
qed

lemma mutual_exclusion_witness:
  "entry_a \<in> leases demo_end \<and> entry_b \<in> leases demo_end \<and> conflict_free entry_a entry_b"
proof -
  obtain w where w: "init_world w" "(step demo_hashes)\<^sup>*\<^sup>* w demo_end" using demo_reachable by blast
  have "conflict_free entry_a entry_b"
    by (rule mutual_exclusion [OF demo_hash_sizes w])
      (simp_all add: demo_end_def demo_world_def demo_claims_free demo_ids demo_ids(7) [symmetric],
       simp_all add: entry_a_def entry_b_def demo_params_def)
  then show ?thesis by (simp add: demo_end_def demo_world_def)
qed

text \<open>C2: the claims of a lease. In every reachable world, every lock of every operation that holds a
  lease has a claim file for that lock in the lock directory of the operation's host, which is
  what the other executors look at.\<close>

theorem lease_claims_on_disk:
  assumes "hash_sizes H" and "init_world w" and "(step H)\<^sup>*\<^sup>* w v" and "claims_free H (born v)"
    and "x \<in> leases v" and "l \<in> set (e_LockSet x)"
  shows "\<exists>c. claim_at (jr v) (digestPathComponent H (e_HostKey x)) (lockClaimName H (e_OperationID x) l)
           = Some (Plain c) \<and> c_Lock c = l \<and> c_OperationID c = e_OperationID x"
proof -
  from admission.inv_reachable [OF assms(2,3)] assms(1,4) have inv: "world_inv H v" by blast
  from world_invD(10) [OF inv] assms(5) obtain y where y: "running v y" "same_op x y"
    unfolding leases_ok_def by blast
  with world_invD(8) [OF inv] assms(6) obtain c where
    c: "claim_at (jr v) (digestPathComponent H (e_HostKey x)) (lockClaimName H (e_OperationID x) l)
           = Some (Plain c)" "c_Lock c = l" unfolding holding_def same_op_def by metis
  from running_known [OF inv y(1)] y(2) obtain b where
    "born v (e_OperationID x) = Some b" "same_op x b" by (auto simp: same_op_def)
  with stale_claim_name [OF world_invD(4,3) [OF inv] assms(1,4) _ _ c(1)] assms(6) c show ?thesis
    by (auto simp: same_op_def)
qed

lemma lease_claims_on_disk_witness:
  "\<exists>c. claim_at (jr demo_end) (digestPathComponent demo_hashes (e_HostKey entry_a))
         (lockClaimName demo_hashes (e_OperationID entry_a) (hd (e_LockSet entry_a))) = Some (Plain c)"
proof -
  obtain w where w: "init_world w" "(step demo_hashes)\<^sup>*\<^sup>* w demo_end" using demo_reachable by blast
  have "length (e_LockSet entry_a) = 1" by code_simp
  then have "hd (e_LockSet entry_a) \<in> set (e_LockSet entry_a)" by (auto simp: length_Suc_conv)
  from lease_claims_on_disk [OF demo_hash_sizes w _ _ this] show ?thesis
    by (auto simp: demo_end_def demo_world_def demo_claims_free)
qed

subsection \<open>The decision of an activation\<close>

text \<open>A claim on disk that stands against an operation: its owner lives, it belongs to another
  operation, and its lock conflicts with one of the requested locks.\<close>

definition claim_against :: "env \<Rightarrow> operationJournalEntry \<Rightarrow> lockClaim \<Rightarrow> bool" where
  "claim_against E x c \<longleftrightarrow> owner_active E (c_OwnerPID c) (c_OwnerBootID c) \<and>
     c_OperationID c \<noteq> e_OperationID x \<and> (\<exists>l \<in> set (e_LockSet x). locksConflict (c_Lock c) l)"

lemma evolves_active_claim:
  assumes "evolves E B j j'" and "owner_active E (c_OwnerPID c) (c_OwnerBootID c)"
  shows "claim_at j' h n = Some (Plain c) \<longleftrightarrow> claim_at j h n = Some (Plain c)"
proof -
  have "claim_change E j j' h n" using assms(1) by (simp add: evolves_def)
  with assms(2) show ?thesis by (auto simp: claim_change_def)
qed

text \<open>C3: the decision of tryActivate. In every reachable world, a process that has its journal key
  and activates an entry it enqueued gets an answer, not an error, and the answer is \<open>granted\<close>
  exactly when no claim on disk stands against the entry: there is no false grant and no false
  refusal, and stale claims of dead owners do not block.\<close>

theorem activation_decision:
  assumes "hash_sizes H" and "init_world w" and "(step H)\<^sup>*\<^sup>* w v" and "claims_free H (born v)"
    and "runs_in H v E" and "journal_key E \<noteq> []" and "(pid E, x) \<in> inflight v"
  shows "\<exists>j'. tryActivate E x (jr v) =
     (Inr (\<not> (\<exists>n c. claim_at (jr v) (hostDir E (e_HostKey x)) n = Some (Plain c) \<and> claim_against E x c)), j')"
proof -
  from admission.inv_reachable [OF assms(2,3)] assms(1,4) have inv: "world_inv H v" by blast
  note D = world_invD [OF inv]
  have H: "hashfns E = H" using assms(5) by (simp add: runs_in_def)
  from D(7) assms(7) have dirs: "hosts (jr v) (hostDir E (e_HostKey x)) \<noteq> None"
    "claims (jr v) (hostDir E (e_HostKey x)) \<noteq> None"
    using H by (auto simp: snapshots_ok_def hostDir_def)
  obtain a where a: "withAdmissionLock E (activateLocked E x) (jr v) =
      activateLocked E x ((jr v)\<lparr>admission := a\<rparr>)"
    using withAdmissionLock_calm [OF D(1)] by blast
  note D0 = world_invD [OF inv_admission [OF inv assms(5,1,4), of a]]
  obtain r j' where act: "activateLocked E x ((jr v)\<lparr>admission := a\<rparr>) = (r, j')" by force
  have "faults ((jr v)\<lparr>admission := a\<rparr>) = []" "dirs_wf ((jr v)\<lparr>admission := a\<rparr>)"
    "coherent (hashfns E) (born v) ((jr v)\<lparr>admission := a\<rparr>)" "births_ok (born v)"
    "hash_sizes (hashfns E)" "claims_free (hashfns E) (born v)"
    "hosts ((jr v)\<lparr>admission := a\<rparr>) (hostDir E (e_HostKey x)) \<noteq> None"
    "claims ((jr v)\<lparr>admission := a\<rparr>) (hostDir E (e_HostKey x)) \<noteq> None"
    using D0 D(3) H assms(1,4) dirs by simp_all
  from activateLocked_calm [OF this act] obtain j1 cs where
    ev: "evolves E (born v) ((jr v)\<lparr>admission := a\<rparr>) j1"
    and cs: "\<forall>n c. claim_at j1 (hostDir E (e_HostKey x)) n = Some (Plain c) \<longrightarrow>
        owner_active E (c_OwnerPID c) (c_OwnerBootID c) \<longrightarrow> c \<in> set cs"
    and only: "\<forall>c \<in> set cs. owner_active E (c_OwnerPID c) (c_OwnerBootID c) \<and>
        (\<exists>n. claim_at j1 (hostDir E (e_HostKey x)) n = Some (Plain c))"
    and r: "r = Inr (\<not> conflictsWith (e_OperationID x) (e_LockSet x) cs)"
    using assms(6) by blast
  note same = evolves_active_claim [OF evolves_trans [OF evolves_admission ev]]
  have "conflictsWith (e_OperationID x) (e_LockSet x) cs \<longleftrightarrow> (\<exists>c \<in> set cs. claim_against E x c)"
    using only by (auto simp: conflictsWith_def list_ex_iff claim_against_def)
  also have "\<dots> \<longleftrightarrow> (\<exists>n c. claim_at (jr v) (hostDir E (e_HostKey x)) n = Some (Plain c) \<and> claim_against E x c)"
  proof
    assume "\<exists>c \<in> set cs. claim_against E x c"
    then obtain c where c: "c \<in> set cs" "claim_against E x c" by blast
    from only c(1) obtain n where "claim_at j1 (hostDir E (e_HostKey x)) n = Some (Plain c)"
      and "owner_active E (c_OwnerPID c) (c_OwnerBootID c)" by blast
    with same c(2) show "\<exists>n c. claim_at (jr v) (hostDir E (e_HostKey x)) n = Some (Plain c) \<and> claim_against E x c"
      by blast
  next
    assume "\<exists>n c. claim_at (jr v) (hostDir E (e_HostKey x)) n = Some (Plain c) \<and> claim_against E x c"
    then obtain n c where c: "claim_at (jr v) (hostDir E (e_HostKey x)) n = Some (Plain c)" "claim_against E x c"
      by blast
    then have act: "owner_active E (c_OwnerPID c) (c_OwnerBootID c)" by (simp add: claim_against_def)
    with same c(1) cs have "c \<in> set cs" by blast
    with c(2) show "\<exists>c \<in> set cs. claim_against E x c" by blast
  qed
  finally show ?thesis using act a r by (simp add: tryActivate_def)
qed

definition demo_queued :: world where
  "demo_queued = demo_world journal_4 births_ab {(7, entry_b)} {entry_a}"

lemma demo_queued_reachable: "\<exists>w. init_world w \<and> (step demo_hashes)\<^sup>*\<^sup>* w demo_queued"
proof -
  let ?w = "\<lambda>j. demo_world j (\<lambda>_. None) {} {}"
  have "init_world (?w empty_journal)" by (simp add: init_world_def demo_world_def empty_journal_def)
  moreover note demo_prefix [THEN rtranclp.rtrancl_into_rtrancl, OF demo_steps(1),
      THEN rtranclp.rtrancl_into_rtrancl, OF demo_steps(2), THEN rtranclp.rtrancl_into_rtrancl, OF demo_steps(3)]
  ultimately show ?thesis unfolding demo_queued_def by blast
qed

lemma activation_decision_witness:
  "\<exists>j'. tryActivate env_b entry_b (jr demo_queued) =
     (Inr (\<not> (\<exists>n c. claim_at (jr demo_queued) (hostDir env_b (e_HostKey entry_b)) n = Some (Plain c) \<and>
        claim_against env_b entry_b c)), j')"
proof -
  obtain w where w: "init_world w" "(step demo_hashes)\<^sup>*\<^sup>* w demo_queued"
    using demo_queued_reachable by blast
  have cf: "claims_free demo_hashes (born demo_queued)"
    using demo_claims_free by (simp add: demo_queued_def demo_world_def)
  have run: "runs_in demo_hashes demo_queued env_b"
    using demo_runs_in(2) by (simp add: demo_queued_def)
  have "journal_key env_b \<noteq> []" "(pid env_b, entry_b) \<in> inflight demo_queued"
    by (simp_all add: env_b_def demo_env_def demo_queued_def demo_world_def)
  from activation_decision [OF demo_hash_sizes w cf run this] show ?thesis .
qed

subsection \<open>Release\<close>

text \<open>What Release leaves. In every reachable world, releasing an operation whose entry the
  process can read succeeds; afterwards no claim of the operation is left in any lock directory and
  no index file of it in its host's directory, its entry says completed or failed as the request
  does, and the claims of every other operation are as before.\<close>

lemma Release_effect:
  assumes "hash_sizes H" and "init_world w" and "(step H)\<^sup>*\<^sup>* w v" and "claims_free H (born v)"
    and "runs_in H v E" and "journal_key E \<noteq> []"
    and at: "op_at (jr v) (json_name (rl_OperationID params)) = Some (Plain (Sealed (journal_key E) x))"
  shows "\<exists>j'. Release E params (jr v) = (Inr (), j') \<and>
     (\<forall>h n c. claim_at j' h n = Some (Plain c) \<longleftrightarrow>
        claim_at (jr v) h n = Some (Plain c) \<and> c_OperationID c \<noteq> rl_OperationID params) \<and>
     index_at j' (hostDir E (e_HostKey x)) (json_name (rl_OperationID params)) = None \<and>
     (\<exists>k y. op_at j' (json_name (rl_OperationID params)) = Some (Plain (Sealed k y)) \<and> same_op x y \<and>
        e_Status y = (if rl_Status params = statusString Completed then Completed else Failed))"
proof -
  from admission.inv_reachable [OF assms(2,3)] assms(1,4) have inv: "world_inv H v" by blast
  note D = world_invD [OF inv]
  have H: "hashfns E = H" using assms(5) by (simp add: runs_in_def)
  let ?i = "rl_OperationID params"
  let ?st = "if rl_Status params = statusString Completed then Completed else Failed"
  have ix: "e_OperationID x = ?i" using coherentD(1) [OF D(4) at] by simp
  from coherentD(2) [OF D(4) at] ix obtain b where b: "born v ?i = Some b" "same_op x b"
    by (auto simp: known_def)
  have rd: "readOperation E ?i (jr v) = (Inr x, jr v)"
    using D(1) at assms(6)
    by (simp add: readOperation_def op_at_def unmarshalEncryptedJSON_def runtimeJournalKeyBytes_def)
  obtain lastErr where rel: "Release E params (jr v) = withAdmissionLock E (finalizeLocked E x ?st lastErr) (jr v)"
    using rd by (cases "rl_Status params = statusString Completed") (auto simp: Release_def finalize_def)
  obtain a where a: "withAdmissionLock E (finalizeLocked E x ?st lastErr) (jr v) =
      finalizeLocked E x ?st lastErr ((jr v)\<lparr>admission := a\<rparr>)"
    using withAdmissionLock_calm [OF D(1)] by blast
  obtain r j' where fin: "finalizeLocked E x ?st lastErr ((jr v)\<lparr>admission := a\<rparr>) = (r, j')" by force
  have calm: "faults ((jr v)\<lparr>admission := a\<rparr>) = []" using D(1) by simp
  have views: "claim_at ((jr v)\<lparr>admission := a\<rparr>) = claim_at (jr v)"
    by (simp add: fun_eq_iff claim_at_def)
  from finalizeLocked_calm [OF calm fin] assms(6) obtain y where r: "r = Inr ()" "same_op y x" "e_Status y = ?st"
    and op: "\<forall>n. op_at j' n = (if n = json_name (e_OperationID x)
        then Some (Plain (Sealed (journal_key E) y)) else op_at ((jr v)\<lparr>admission := a\<rparr>) n)"
    and ixs: "\<forall>h n. index_at j' h n = (if h = hostDir E (e_HostKey x) \<and> n = json_name (e_OperationID x)
        then None else index_at ((jr v)\<lparr>admission := a\<rparr>) h n)"
    and cls: "\<forall>h n. claim_at j' h n = (if h = hostDir E (e_HostKey x) \<and>
        n \<in> lockClaimName (hashfns E) (e_OperationID x) ` set (e_LockSet x) then None
        else claim_at ((jr v)\<lparr>admission := a\<rparr>) h n)"
    by blast
  have "claim_at j' h n = Some (Plain c) \<longleftrightarrow> claim_at (jr v) h n = Some (Plain c) \<and> c_OperationID c \<noteq> ?i" for h n c
  proof (cases "claim_at (jr v) h n = Some (Plain c)")
    case True
    from coherentD(4) [OF D(4) True] obtain b' where b': "born v (c_OperationID c) = Some b'"
      "h = digestPathComponent H (e_HostKey b')" "c_Lock c \<in> set (e_LockSet b')"
      "n = lockClaimName H (c_OperationID c) (c_Lock c)" by (auto simp: claim_ok_def)
    have "h = hostDir E (e_HostKey x) \<and> n \<in> lockClaimName H ?i ` set (e_LockSet x) \<longleftrightarrow> c_OperationID c = ?i"
    proof
      assume "c_OperationID c = ?i"
      with b' b H show "h = hostDir E (e_HostKey x) \<and> n \<in> lockClaimName H ?i ` set (e_LockSet x)"
        by (auto simp: hostDir_def same_op_def)
    next
      assume "h = hostDir E (e_HostKey x) \<and> n \<in> lockClaimName H ?i ` set (e_LockSet x)"
      then obtain l where "l \<in> set (e_LockSet b)" "lockClaimName H (c_OperationID c) (c_Lock c) = lockClaimName H ?i l"
        using b(2) b'(4) by (auto simp: same_op_def)
      with lockClaimName_inj [OF assms(1,4) D(3) b'(1,3) b(1)] show "c_OperationID c = ?i" by blast
    qed
    with True show ?thesis by (simp add: cls H ix views)
  next
    case False
    then show ?thesis by (simp add: cls views)
  qed
  moreover have "same_op x y" using r(2) by (rule same_op_sym)
  ultimately show ?thesis
    using rel a fin r(1,3) by (intro exI [of _ j']) (simp add: ixs op ix)
qed

definition demo_release :: OperationReleaseParams where
  "demo_release = \<lparr>rl_HostKey = ''h'', rl_OperationID = e_OperationID entry_a, rl_Status = ''completed'',
     rl_LastError = []\<rparr>"

lemma Release_effect_witness:
  "\<exists>j'. Release env_a demo_release (jr demo_end) = (Inr (), j') \<and>
     (\<forall>h n c. claim_at j' h n = Some (Plain c) \<longrightarrow> c_OperationID c \<noteq> e_OperationID entry_a)"
proof -
  obtain w where w: "init_world w" "(step demo_hashes)\<^sup>*\<^sup>* w demo_end" using demo_reachable by blast
  have cf: "claims_free demo_hashes (born demo_end)"
    using demo_claims_free by (simp add: demo_end_def demo_world_def)
  have run: "runs_in demo_hashes demo_end env_a"
    using demo_runs_in(1) by (simp add: demo_end_def)
  have key: "journal_key env_a \<noteq> []" by (simp add: env_a_def demo_env_def)
  have "op_at journal_5 (json_name (rl_OperationID demo_release)) =
      Some (Plain (Sealed (journal_key env_a) (activated env_a entry_a)))" by code_simp
  then have "op_at (jr demo_end) (json_name (rl_OperationID demo_release)) =
      Some (Plain (Sealed (journal_key env_a) (activated env_a entry_a)))"
    by (simp add: demo_end_def demo_world_def)
  from Release_effect [OF demo_hash_sizes w cf run key this] show ?thesis
    by (auto simp: demo_release_def)
qed

end
