(* ===== verification/JournalScenarios.thy ===== *)
theory JournalScenarios
  imports LeaseProperties
begin

text \<open>
  Three runs of the operation journal that show where the guarantees of theory LeaseProperties
  end: a lease taken over through a second executor dies with the first one, a failing write in the
  middle of an activation leaves a running entry without claims, and the writability check of one
  process fails because another one cleans up its temporary file.

  The runs start from the journal whose directories exist; \<open>Acquire\<close> answers \<open>granted\<close> when
  \<open>findOrCreateOperation\<close> returns a running entry, and otherwise what \<open>tryActivate\<close> answers.
\<close>

definition host_lock :: "string \<Rightarrow> OperationAcquireParams" where
  "host_lock req = demo_params req ''host''"

definition enqueued :: "env \<Rightarrow> OperationAcquireParams \<Rightarrow> journal \<Rightarrow> (string \<times> operationStatus) res" where
  "enqueued E params j = map_sum id (\<lambda>x. (e_OperationID x, e_Status x)) (fst (findOrCreateOperation E params j))"

subsection \<open>A lease dies with the executor that created it\<close>

definition both_alive :: "int \<Rightarrow> bool" where "both_alive p \<longleftrightarrow> p = 7 \<or> p = 9"
definition nine_alive :: "int \<Rightarrow> bool" where "nine_alive p \<longleftrightarrow> p = 9"

definition env_7 :: env where "env_7 = demo_env 7 ''a'' both_alive"
definition env_9 :: env where "env_9 = demo_env 9 ''b'' both_alive"
definition env_9_alone :: env where "env_9_alone = demo_env 9 ''c'' nine_alive"

definition take_1 :: journal where "take_1 = snd (findOrCreateOperation env_7 (host_lock ''r'') journal_1)"
definition take_2 :: journal where "take_2 = snd (tryActivate env_7 (newEntry env_7 (host_lock ''r'')) take_1)"
definition take_3 :: journal where "take_3 = snd (findOrCreateOperation env_9 (host_lock ''r'') take_2)"
definition take_4 :: journal where "take_4 = snd (findOrCreateOperation env_9_alone (host_lock ''s'') take_3)"


subsection \<open>A failing write in the middle of an activation\<close>

definition with_faults :: "bool list \<Rightarrow> journal \<Rightarrow> journal" where
  "with_faults bs j = j\<lparr>faults := bs\<rparr>"

definition env_6 :: env where "env_6 = demo_env 9 ''d'' both_alive"

text \<open>Nine calls of the activation succeed, the write of the host index fails, and so does the read
  with which Acquire starts to mark the operation failed.\<close>

definition activation_faults :: "bool list" where
  "activation_faults = replicate 9 False @ [True, True]"

definition broken_1 :: "bool res \<times> journal" where
  "broken_1 = tryActivate env_7 (newEntry env_7 (host_lock ''r'')) (with_faults activation_faults take_1)"
definition broken_2 :: "unit res \<times> journal" where
  "broken_2 = finalize env_7 (newJournalOperationID env_7) Failed (Some (Errorf ''x'')) (snd broken_1)"
definition broken_3 :: journal where
  "broken_3 = snd (findOrCreateOperation env_7 (host_lock ''r'') (snd broken_2))"
definition broken_4 :: journal where
  "broken_4 = snd (findOrCreateOperation env_6 (host_lock ''s'') broken_3)"

text \<open>A failed activation can leave a running entry without claims. The activation of executor 7
  fails at the host index and so does the attempt to mark the operation failed; all later file calls
  succeed. The repeat of the request finds the operation running, and another executor is granted a
  conflicting lock.\<close>

lemma activation_fault_double_grant:
  "fst broken_1 = Inl (io_error ''write host index'') \<and>
   fst broken_2 = Inl (io_error ''read operation'') \<and>
   faults (snd broken_2) = [] \<and>
   enqueued env_7 (host_lock ''r'') (snd broken_2) = Inr (newJournalOperationID env_7, Running) \<and>
   fst (tryActivate env_6 (newEntry env_6 (host_lock ''s'')) broken_4) = Inr True"
  by (intro conjI; code_simp)

subsection \<open>The writability check against a clean-up\<close>

lemma collectClaims_keeps_gone:
  "faults j = [] \<Longrightarrow> claim_at j h n = None \<Longrightarrow> claim_at (snd (collectClaims E h fs j)) h n = None"
proof (induction E h fs j rule: collectClaims.induct)
  case (2 E h m f fs j)
  then show ?case
    by (cases f) (auto simp: case_prod_unfold Let_def claim_at_del_file)
qed simp

lemma collectClaims_removes_junk:
  "faults j = [] \<Longrightarrow> (n, Junk) \<in> set fs \<Longrightarrow> claim_at (snd (collectClaims E h fs j)) h n = None"
proof (induction E h fs j rule: collectClaims.induct)
  case (2 E h m f fs j)
  show ?case
  proof (cases "m = n \<and> f = Junk")
    case True
    with 2 show ?thesis by (simp add: collectClaims_keeps_gone claim_at_del_file)
  next
    case False
    with "2.prems" have "(n, Junk) \<in> set fs" by auto
    with 2 show ?thesis by (cases f) (auto simp: case_prod_unfold Let_def)
  qed
qed simp

text \<open>The writability check can fail on a writable directory. One executor is inside the writability check of a host's lock directory (it made its
  temporary file and has not removed it yet) when another one reads the claims of that directory:
  the reader deletes the file, because it does not decode, and the check, hence the whole Acquire,
  fails although the directory is writable.\<close>

lemma permcheck_race:
  assumes "faults j = []" and "claims j (hostDir R hostKey) = Some d" and "dir_wf d"
  shows "let jd = LocksDir (hostDir R hostKey);
             created = snd (verifyCreate E jd j);
             listed = snd (readLockClaims R hostKey created)
         in fst (verifyCreate E jd j) = None \<and>
            fst (verifyRemove E jd listed) = Some (Wrapf ''remove journal permcheck: '' (NotExist ''remove'') [])"
proof -
  let ?h = "hostDir R hostKey"
  let ?d = "dir_put (permcheckName E) Junk d"
  let ?j = "put_junk (LocksDir ?h) (permcheckName E) j"
  let ?l = "snd (collectClaims R ?h ?d ?j)"
  have calm: "faults ?j = []" and dirs: "claims ?j ?h = Some ?d"
    using assms(1,2) by (simp_all add: put_junk.simps)
  have wf: "dir_wf ?d" using assms(3) by (rule dir.wf_put)
  have "dir_get ?d (permcheckName E) = Some Junk" by (simp add: dir.get_put)
  then have "(permcheckName E, Junk) \<in> set ?d" using dir.listing_get [OF wf] by simp
  from collectClaims_removes_junk [OF calm this] have gone: "claim_at ?l ?h (permcheckName E) = None" .
  have "agrees ?j ?h ?d"
    using dir.listing_get [OF wf] dirs by (auto simp: agrees_def claim_at_def)
  from collectClaims_evolves [OF calm this] have "evolves R (\<lambda>_. None) ?j ?l" by blast
  from evolves_calm [OF this calm] have "faults ?l = []" .
  moreover have "snd (readLockClaims R hostKey ?j) = ?l"
    using calm dirs by (simp add: readLockClaims_def case_prod_unfold Let_def)
  moreover have "\<not> has_file (LocksDir ?h) (permcheckName E) ?l"
    using gone by (auto simp: claim_at_def split: option.splits)
  ultimately show ?thesis
    using assms(1) by (simp add: Let_def verifyCreate_def verifyRemove_def)
qed

lemma permcheck_race_witness:
  "fst (verifyRemove env_7 (LocksDir (hostDir env_9 ''host''))
     (snd (readLockClaims env_9 ''host'' (snd (verifyCreate env_7 (LocksDir (hostDir env_9 ''host''))
        (mkdirAll (LocksDir (hostDir env_9 ''host'')) empty_journal))))))
   = Some (Wrapf ''remove journal permcheck: '' (NotExist ''remove'') [])"
proof -
  have "faults (mkdirAll (LocksDir (hostDir env_9 ''host'')) empty_journal) = []"
    "claims (mkdirAll (LocksDir (hostDir env_9 ''host'')) empty_journal) (hostDir env_9 ''host'') = Some []"
    by (simp_all add: empty_journal_def mkdirAll.simps)
  from permcheck_race [OF this] show ?thesis by (simp add: Let_def dir_wf_def)
qed

end
