(* ===== verification/GoPath.thy ===== *)
theory GoPath
  imports Prelude
begin

text \<open>
  Go's \<open>path/filepath\<close> on Unix as the program uses it: \<open>IsAbs\<close>, \<open>Clean\<close>, \<open>Join\<close>, \<open>Base\<close>
  and \<open>Dir\<close>. \<open>Clean\<close> reads the elements left to right over a stack, as the library does.
\<close>

definition IsAbs :: "string \<Rightarrow> bool" where
  "IsAbs p \<longleftrightarrow> HasPrefix p ''/''"

definition dot :: string where "dot = ''.''"
definition dotdot :: string where "dotdot = ''..''"

lemma dot_simps [simp]: "dot \<noteq> []" "dotdot \<noteq> []" "dot \<noteq> dotdot" "dotdot \<noteq> dot" "CHR ''/'' \<notin> set dotdot"
  by (simp_all add: dot_def dotdot_def)

definition push_elem :: "bool \<Rightarrow> string \<Rightarrow> string list \<Rightarrow> string list" where
  "push_elem rooted e st =
     (if e = [] \<or> e = dot then st
      else if e = dotdot then
        (case st of
           [] \<Rightarrow> if rooted then [] else [dotdot]
         | t # st' \<Rightarrow> if t = dotdot then dotdot # st else st')
      else e # st)"

fun joinWith :: "string \<Rightarrow> string list \<Rightarrow> string" where
  "joinWith sep [] = []"
| "joinWith sep [x] = x"
| "joinWith sep (x # xs) = x @ sep @ joinWith sep xs"

definition Clean :: "string \<Rightarrow> string" where
  "Clean p =
     (if p = [] then dot
      else
        let rooted = IsAbs p;
            out = joinWith ''/'' (rev (fold (push_elem rooted) (Split (CHR ''/'') p) []))
        in if rooted then ''/'' @ out else if out = [] then dot else out)"

definition Join :: "string list \<Rightarrow> string" where
  "Join elems =
     (let es = dropWhile (\<lambda>e. e = []) elems in
      if es = [] then [] else Clean (joinWith ''/'' es))"

definition stack_ok :: "bool \<Rightarrow> string list \<Rightarrow> bool" where
  "stack_ok rooted st \<longleftrightarrow> (\<forall>e \<in> set st. e \<noteq> [] \<and> e \<noteq> dot \<and> CHR ''/'' \<notin> set e \<and> (rooted \<longrightarrow> e \<noteq> dotdot))"

lemma Split_no_sep: "e \<in> set (Split c s) \<Longrightarrow> c \<notin> set e"
proof (induction s arbitrary: e)
  case (Cons x xs)
  then show ?case by (cases "Split c xs") (auto split: if_splits)
qed simp

lemma push_elem_ok: "stack_ok rooted st \<Longrightarrow> CHR ''/'' \<notin> set e \<Longrightarrow> stack_ok rooted (push_elem rooted e st)"
  by (cases st) (auto simp: stack_ok_def push_elem_def)

lemma fold_push_ok:
  "stack_ok rooted st \<Longrightarrow> \<forall>e \<in> set es. CHR ''/'' \<notin> set e \<Longrightarrow> stack_ok rooted (fold (push_elem rooted) es st)"
  by (induction es arbitrary: st) (auto simp: push_elem_ok)

text \<open>A cleaned absolute path is a slash and a list of elements none of which is empty, \<open>.\<close> or
  \<open>..\<close>.\<close>

lemma Clean_absolute:
  assumes "IsAbs p"
  shows "\<exists>es. Clean p = ''/'' @ joinWith ''/'' es \<and> stack_ok True es"
proof -
  let ?es = "fold (push_elem True) (Split (CHR ''/'') p) []"
  have "stack_ok True ?es"
    by (rule fold_push_ok) (use Split_no_sep in \<open>auto simp: stack_ok_def\<close>)
  moreover have "p \<noteq> []" using assms by (auto simp: IsAbs_def HasPrefix_def)
  ultimately show ?thesis
    using assms by (intro exI [of _ "rev ?es"]) (simp add: Clean_def Let_def stack_ok_def)
qed

lemma Split_joinWith:
  "es \<noteq> [] \<Longrightarrow> \<forall>e \<in> set es. c \<notin> set e \<Longrightarrow> Split c (joinWith [c] es) = es"
proof (induction es rule: induct_list012)
  case (2 e)
  then show ?case by (induction e) auto
next
  case (3 e f es)
  then have IH: "Split c (joinWith [c] (f # es)) = f # es" and e: "c \<notin> set e" by simp_all
  have "Split c (a @ [c] @ b) = a # Split c b" if "c \<notin> set a" for a b
    using that by (induction a) auto
  from this [OF e] IH show ?case by simp
qed simp

lemma fold_push_id:
  "\<forall>e \<in> set es. e \<noteq> [] \<and> e \<noteq> dot \<and> e \<noteq> dotdot \<Longrightarrow> fold (push_elem r) es st = rev es @ st"
  by (induction es arbitrary: st) (auto simp: push_elem_def)

text \<open>Cleaning is idempotent on absolute paths.\<close>

lemma Clean_idem:
  assumes "IsAbs p" shows "Clean (Clean p) = Clean p"
proof -
  from Clean_absolute [OF assms] obtain es where es: "Clean p = ''/'' @ joinWith ''/'' es" "stack_ok True es" by blast
  have "Split (CHR ''/'') (joinWith ''/'' es) = (if es = [] then [[]] else es)"
    using es(2) Split_joinWith [of es "CHR ''/''"] by (auto simp: stack_ok_def)
  moreover have "fold (push_elem True) es [] = rev es"
    using fold_push_id [of es True "[]"] es(2) by (simp add: stack_ok_def)
  ultimately have "fold (push_elem True) (Split (CHR ''/'') (''/'' @ joinWith ''/'' es)) [] = rev es"
    by (auto simp: push_elem_def)
  then show ?thesis
    by (simp add: es(1)) (simp add: Clean_def IsAbs_def HasPrefix_def)
qed

subsection \<open>Dir and Base\<close>

definition Dir :: "string \<Rightarrow> string" where
  "Dir p = Clean (rev (dropWhile (\<lambda>c. c \<noteq> CHR ''/'') (rev p)))"

definition Base :: "string \<Rightarrow> string" where
  "Base p =
     (if p = [] then dot
      else let t = rev (dropWhile (\<lambda>c. c = CHR ''/'') (rev p));
               b = rev (takeWhile (\<lambda>c. c \<noteq> CHR ''/'') (rev t)) in
           if b = [] then ''/'' else b)"

subsection \<open>Joining a child\<close>

lemma joinWith_snoc: "joinWith sep (es @ [e]) = (if es = [] then e else joinWith sep es @ sep @ e)"
  by (induction es rule: induct_list012) auto

lemma joinWith_Nil_iff: "stack_ok r es \<Longrightarrow> joinWith sep es = [] \<longleftrightarrow> es = []"
  by (induction es rule: induct_list012) (auto simp: stack_ok_def)

lemma Clean_rooted:
  assumes "stack_ok True es"
  shows "Clean (''/'' @ joinWith ''/'' es) = ''/'' @ joinWith ''/'' es"
proof -
  have "Split (CHR ''/'') (joinWith ''/'' es) = (if es = [] then [[]] else es)"
    using assms Split_joinWith [of es "CHR ''/''"] by (auto simp: stack_ok_def)
  moreover have "fold (push_elem True) es [] = rev es"
    using fold_push_id [of es True "[]"] assms by (simp add: stack_ok_def)
  ultimately have "fold (push_elem True) (Split (CHR ''/'') (''/'' @ joinWith ''/'' es)) [] = rev es"
    by (auto simp: push_elem_def)
  then show ?thesis by (simp add: Clean_def IsAbs_def HasPrefix_def)
qed

lemma Join_child:
  assumes "IsAbs p" and e: "e \<noteq> []" "e \<noteq> dot" "e \<noteq> dotdot" "CHR ''/'' \<notin> set e"
  shows "Join [Clean p, e] = (if Clean p = ''/'' then ''/'' @ e else Clean p @ ''/'' @ e)"
proof -
  from Clean_absolute [OF assms(1)] obtain es where es: "Clean p = ''/'' @ joinWith ''/'' es" "stack_ok True es"
    by blast
  have ok: "stack_ok True (es @ [e])" using es(2) e by (auto simp: stack_ok_def)
  have join: "Join [Clean p, e] = Clean (Clean p @ ''/'' @ e)"
    using e(1) by (simp add: Join_def es(1))
  show ?thesis
  proof (cases "es = []")
    case True
    have "Split (CHR ''/'') (''//'' @ e) = [[], [], e]"
      using Split_joinWith [of "[e]" "CHR ''/''"] e(4) by simp
    then have "Clean (''//'' @ e) = ''/'' @ e"
      using e by (simp add: Clean_def IsAbs_def HasPrefix_def push_elem_def)
    with join es(1) True show ?thesis by simp
  next
    case False
    then have "Clean p @ ''/'' @ e = ''/'' @ joinWith ''/'' (es @ [e])"
      by (simp add: es(1) joinWith_snoc)
    with Clean_rooted [OF ok] join False es joinWith_Nil_iff [OF es(2)] show ?thesis by simp
  qed
qed

lemma Dir_absolute: "IsAbs p \<Longrightarrow> \<exists>q. IsAbs q \<and> Dir p = Clean q"
proof -
  assume "IsAbs p"
  then obtain s where p: "p = CHR ''/'' # s" by (cases p) (auto simp: IsAbs_def HasPrefix_def)
  define q where "q = rev (dropWhile (\<lambda>c. c \<noteq> CHR ''/'') (rev p))"
  have "dropWhile (\<lambda>c. c \<noteq> CHR ''/'') (rev s @ [CHR ''/'']) = dropWhile (\<lambda>c. c \<noteq> CHR ''/'') (rev s) @ [CHR ''/'']"
    by (induction s rule: rev_induct) auto
  then have "IsAbs q" by (simp add: q_def p IsAbs_def HasPrefix_def)
  then show ?thesis by (auto simp: Dir_def q_def)
qed

lemma Base_no_slash: "Base p \<noteq> ''/'' \<Longrightarrow> CHR ''/'' \<notin> set (Base p)"
  by (auto simp: Base_def Let_def dot_def dest: set_takeWhileD split: if_splits)

end
