(* ===== verification/Locks.thy ===== *)
theory Locks
  imports GoPath JournalFacts
begin

text \<open>
  The provider's lock planning: providers/shared/engine/locks.go (the default lock set, the
  mode of an action, the normalisation before the lock set is sent), the planners of
  providers/shared/catalog/locks.go, those of providers/shared/actions and the three \<open>plan...Locks\<close>
  of providers/shared/engine/adapter_helpers.go. An attribute map is a partial function to attribute
  values, of which the planners only tell strings from others; a nil map is the empty one.
\<close>

datatype attr = StrAttr string | OtherAttr

type_synonym attrs = "string \<rightharpoonup> attr"

record OperationMessage =
  op_Plan :: attrs
  op_State :: attrs
  op_Config :: attrs

definition empty_op :: OperationMessage where
  "empty_op = \<lparr>op_Plan = Map.empty, op_State = Map.empty, op_Config = Map.empty\<rparr>"

type_synonym LockPlanner = "string \<Rightarrow> OperationMessage option \<Rightarrow> LockDescriptor list"

definition lock :: "string \<Rightarrow> string \<Rightarrow> string \<Rightarrow> LockDescriptor" where
  "lock key mode source = \<lparr>lk_Key = key, lk_Mode = mode, lk_Source = source\<rparr>"

lemma lock_simps [simp]:
  "lk_Key (lock k m s) = k" "lk_Mode (lock k m s) = m" "lk_Source (lock k m s) = s"
  by (simp_all add: lock_def)

subsection \<open>engine/locks.go\<close>

definition LockModeForAction :: "string \<Rightarrow> string" where
  "LockModeForAction action =
     (if action = ''validate'' \<or> action = ''read'' \<or> action = ''import'' \<or> action = ''data_read''
      then LockModeShared else LockModeExclusive)"

definition DefaultLockSet :: "string \<Rightarrow> LockDescriptor list" where
  "DefaultLockSet action =
     (let mode = LockModeForAction action in
      [lock ''host'' mode (if mode = LockModeShared then ''default host read lock'' else ''default host lock'')])"

fun normalizeWith :: "string \<Rightarrow> string set \<Rightarrow> LockDescriptor list \<Rightarrow> LockDescriptor list" where
  "normalizeWith action seen [] = []"
| "normalizeWith action seen (l # ls) =
     (if TrimSpace (lk_Key l) = [] then normalizeWith action seen ls
      else
        let l' = (if lk_Mode l = [] then l\<lparr>lk_Mode := LockModeForAction action\<rparr> else l);
            key = lk_Key l' @ ''|'' @ lk_Mode l'
        in if key \<in> seen then normalizeWith action seen ls
           else l' # normalizeWith action (insert key seen) ls)"

definition NormalizeLockSet :: "string \<Rightarrow> LockDescriptor list \<Rightarrow> LockDescriptor list" where
  "NormalizeLockSet action locks =
     (if locks = [] then DefaultLockSet action
      else let normalized = normalizeWith action {} locks in
           if normalized = [] then DefaultLockSet action else normalized)"

text \<open>The first non-blank string under one of the keys, in the plan, then the state, then the
  configuration.\<close>

fun firstAttr :: "attrs \<Rightarrow> string list \<Rightarrow> string option" where
  "firstAttr attrs [] = None"
| "firstAttr attrs (key # keys) =
     (case attrs key of
        Some (StrAttr text) \<Rightarrow> if TrimSpace text \<noteq> [] then Some (TrimSpace text) else firstAttr attrs keys
      | _ \<Rightarrow> firstAttr attrs keys)"

definition StringAttr :: "OperationMessage option \<Rightarrow> string list \<Rightarrow> string" where
  "StringAttr oper keys =
     (case oper of
        None \<Rightarrow> []
      | Some x \<Rightarrow>
          (case firstAttr (op_Plan x) keys of
             Some s \<Rightarrow> s
           | None \<Rightarrow> (case firstAttr (op_State x) keys of
                Some s \<Rightarrow> s
              | None \<Rightarrow> (case firstAttr (op_Config x) keys of Some s \<Rightarrow> s | None \<Rightarrow> []))))"

subsection \<open>catalog/locks.go\<close>

definition pathLock :: "string \<Rightarrow> string \<Rightarrow> string \<Rightarrow> LockDescriptor" where
  "pathLock path mode source = lock (''path:'' @ path) mode source"

definition hostsEntryLockPlanner :: LockPlanner where
  "hostsEntryLockPlanner action oper = [lock ''path:/etc/hosts'' (LockModeForAction action) ''hosts entry resource'']"

definition packageLockPlanner :: LockPlanner where
  "packageLockPlanner action oper =
     (let path = TrimSpace (StringAttr oper [''repo_keyring_path'']) in
      [lock ''pkgmgr:system'' (LockModeForAction action) ''package manager resource''] @
      (if IsAbs path then [pathLock path (LockModeForAction action) ''package repository keyring''] else []))"

definition identityLockPlanner :: LockPlanner where
  "identityLockPlanner action oper = [lock ''identity:system'' (LockModeForAction action) ''identity resource'']"

definition sshdConfigLockPlanner :: LockPlanner where
  "sshdConfigLockPlanner action oper =
     (let mode = LockModeForAction action in
      [lock ''sshd:config'' mode ''sshd config resource'', lock ''service:sshd'' mode ''sshd config resource''])"

definition sysctlEntryLockPlanner :: LockPlanner where
  "sysctlEntryLockPlanner action oper =
     (let key0 = TrimSpace (StringAttr oper [''key'']);
          key = (if key0 = [] then ''system'' else key0);
          mode = LockModeForAction action in
      [lock ''path:/etc/sysctl.conf'' mode ''sysctl resource'', lock (''sysctl:'' @ key) mode ''sysctl resource''])"

definition networkStackLockPlanner :: LockPlanner where
  "networkStackLockPlanner action oper =
     (let mode = LockModeForAction action in
      map (\<lambda>key. lock key mode ''network stack resource'')
       [''path:/etc/sysctl.d/90-tf-linux-provider-network-stack.conf'', ''network:stack'',
        ''sysctl:net.ipv4.ip_forward'', ''sysctl:net.ipv6.conf.all.forwarding'',
        ''sysctl:net.ipv6.conf.default.forwarding'', ''sysctl:net.bridge.bridge-nf-call-iptables'',
        ''sysctl:net.bridge.bridge-nf-call-ip6tables''])"

definition ufwRuleLockPlanner :: LockPlanner where
  "ufwRuleLockPlanner action oper =
     (let mode = LockModeForAction action;
          name0 = TrimSpace (StringAttr oper [''name'', ''id'']);
          name = (if name0 = [] then ''managed'' else name0) in
      [lock ''network:system'' mode ''ufw firewall rule'', lock ''firewall:ufw'' mode ''ufw firewall rule'',
       lock (''firewall:ufw:rule:'' @ name) mode ''ufw firewall rule''])"

definition firewalldLockPlanner :: LockPlanner where
  "firewalldLockPlanner action oper =
     (let mode = LockModeForAction action;
          zone0 = TrimSpace (StringAttr oper [''zone'']);
          zone = (if zone0 = [] then ''public'' else zone0) in
      [lock ''network:system'' mode ''firewalld resource'', lock ''firewall:firewalld'' mode ''firewalld resource'',
       lock (''firewall:firewalld:zone:'' @ zone) mode ''firewalld resource''])"

definition fstabEntryLockPlanner :: LockPlanner where
  "fstabEntryLockPlanner action oper = [lock ''path:/etc/fstab'' (LockModeForAction action) ''fstab resource'']"

definition crontabKey :: "string \<Rightarrow> string" where
  "crontabKey user = ''crontab:user:'' @ user"

definition crontabKeys :: "string list \<Rightarrow> string list" where
  "crontabKeys users =
     (let keys = fold (\<lambda>user keys.
            if user = [] then keys
            else let key = crontabKey user in if key \<in> set keys then keys else keys @ [key]) users []
      in if keys = [] then [crontabKey ''system''] else keys)"

definition crontabEntryLockPlanner :: LockPlanner where
  "crontabEntryLockPlanner action oper =
     (let mode = LockModeForAction action;
          x = (case oper of None \<Rightarrow> empty_op | Some x \<Rightarrow> x);
          users = [TrimSpace (StringAttr (Some (empty_op\<lparr>op_Plan := op_Plan x\<rparr>)) [''user'']),
                   TrimSpace (StringAttr (Some (empty_op\<lparr>op_State := op_State x\<rparr>)) [''user''])]
      in map (\<lambda>key. lock key mode ''crontab resource'') (crontabKeys users))"

definition fileLockPlanner :: LockPlanner where
  "fileLockPlanner action oper =
     (let path = TrimSpace (StringAttr oper [''path'', ''id'']) in
      if path = [] \<or> \<not> IsAbs path then []
      else [pathLock path (LockModeForAction action) ''file resource''])"

definition kernelModulesLockPlanner :: LockPlanner where
  "kernelModulesLockPlanner action oper =
     (let mode = LockModeForAction action;
          path = TrimSpace (StringAttr oper [''path'', ''id'']) in
      [lock ''kernel-modules:system'' mode ''kernel modules resource''] @
      (if IsAbs path then [pathLock path mode ''kernel modules resource''] else []))"

definition swapLockPlanner :: LockPlanner where
  "swapLockPlanner action oper =
     (let mode = LockModeForAction action in
      [lock ''swap:system'' mode ''swap resource'', lock ''path:/etc/fstab'' mode ''swap resource''])"

definition commandLockPlanner :: LockPlanner where
  "commandLockPlanner action oper =
     (let name = TrimSpace (StringAttr oper [''name'', ''id'']) in
      if name = [] then [lock ''command:host'' (LockModeForAction action) ''command resource'']
      else [lock (''command:'' @ name) (LockModeForAction action) ''command resource''])"

definition systemdUnitLockPlanner :: LockPlanner where
  "systemdUnitLockPlanner action oper =
     (let name = TrimSpace (StringAttr oper [''name'', ''id'']) in
      if name = [] then []
      else [lock (''service:'' @ name) (LockModeForAction action) ''systemd unit resource''])"

definition timezoneLockPlanner :: LockPlanner where
  "timezoneLockPlanner action oper = [lock ''time:timezone'' (LockModeForAction action) ''timezone resource'']"

definition timesyncdLockPlanner :: LockPlanner where
  "timesyncdLockPlanner action oper =
     map (\<lambda>key. lock key (LockModeForAction action) ''timesync resource'')
       [''time:timesync'', ''path:/etc/systemd/timesyncd.conf.d/90-tf-linux-provider-timesync.conf'',
        ''service:systemd-timesyncd'']"

definition chronyTimesyncLockPlanner :: LockPlanner where
  "chronyTimesyncLockPlanner action oper =
     map (\<lambda>key. lock key (LockModeForAction action) ''timesync resource'')
       [''time:timesync'', ''path:/etc/chrony.conf'',
        ''path:/etc/chrony.d/90-tf-linux-provider-timesync.conf'', ''service:chronyd'']"

definition aptRepositoryLockPlanner :: LockPlanner where
  "aptRepositoryLockPlanner action oper =
     (let mode = LockModeForAction action;
          path = TrimSpace (StringAttr oper [''file_path'']);
          signedBy = TrimSpace (StringAttr oper [''signed_by'']) in
      [lock ''pkgmgr:system'' mode ''apt repository resource''] @
      (if IsAbs path then [pathLock path mode ''apt repository file''] else []) @
      (if IsAbs signedBy \<and> TrimSpace (StringAttr oper [''signed_by_key_url'']) \<noteq> []
       then [pathLock signedBy mode ''apt repository keyring''] else []))"

definition dnfRepositoryLockPlanner :: LockPlanner where
  "dnfRepositoryLockPlanner action oper =
     (let mode = LockModeForAction action; path = TrimSpace (StringAttr oper [''file_path'']) in
      [lock ''pkgmgr:system'' mode ''dnf repository resource''] @
      (if IsAbs path then [pathLock path mode ''dnf repository file''] else []))"

definition trustedCertLockPath :: "OperationMessage option \<Rightarrow> string" where
  "trustedCertLockPath oper =
     (if StringAttr oper [''cert_path''] \<noteq> [] then StringAttr oper [''cert_path'']
      else if IsAbs (StringAttr oper [''id'']) then StringAttr oper [''id'']
      else if StringAttr oper [''name''] \<noteq> []
        then Join [''/usr/local/share/ca-certificates'', StringAttr oper [''name''] @ ''.crt'']
      else [])"

definition trustStoreLocks :: "string \<Rightarrow> string \<Rightarrow> LockPlanner" where
  "trustStoreLocks key source action oper =
     (let path = trustedCertLockPath oper in
      [lock key (LockModeForAction action) source] @
      (if path \<noteq> [] then [pathLock path (LockModeForAction action) ''managed trust anchor path''] else []))"

definition trustedCertLockPlanner :: LockPlanner where
  "trustedCertLockPlanner = trustStoreLocks ''trust-store:debian'' ''debian trust store''"

definition redHatTrustedCertLockPlanner :: LockPlanner where
  "redHatTrustedCertLockPlanner = trustStoreLocks ''trust-store:redhat'' ''redhat trust store''"

definition tlsIdentityFullchainLockPath :: "OperationMessage option \<Rightarrow> string" where
  "tlsIdentityFullchainLockPath oper =
     (let path = StringAttr oper [''fullchain_path''] in
      if IsAbs path then path
      else let name = TrimSpace (StringAttr oper [''name'', ''id'']) in
           if name = [] then [] else Join [''/etc/ssl/certs'', name @ ''-fullchain.pem''])"

definition tlsIdentityPrivateKeyLockPath :: "OperationMessage option \<Rightarrow> string" where
  "tlsIdentityPrivateKeyLockPath oper =
     (let path = StringAttr oper [''private_key_path''] in
      if IsAbs path then path
      else let name = TrimSpace (StringAttr oper [''name'', ''id'']) in
           if name = [] then [] else Join [''/etc/ssl/private'', name @ ''.key''])"

definition tlsIdentityLockPlanner :: LockPlanner where
  "tlsIdentityLockPlanner action oper =
     (let mode = LockModeForAction action;
          full = tlsIdentityFullchainLockPath oper; key = tlsIdentityPrivateKeyLockPath oper in
      (if full \<noteq> [] then [pathLock full mode ''managed tls fullchain path''] else []) @
      (if key \<noteq> [] then [pathLock key mode ''managed tls private key path''] else []))"

definition nginxSiteLockPlanner :: LockPlanner where
  "nginxSiteLockPlanner action oper =
     (let mode = LockModeForAction action;
          name = TrimSpace (StringAttr oper [''name'', ''id'']);
          locks = [lock ''pkgmgr:system'' mode ''nginx site resource'', lock ''nginx:config'' mode ''nginx site resource'',
                   lock ''service:nginx'' mode ''nginx site resource''] in
      if name = [] then locks
      else locks @ [pathLock (Join [''/etc/nginx/sites-available'', name]) mode ''nginx site file'',
                    pathLock (Join [''/etc/nginx/sites-enabled'', name]) mode ''nginx site enablement''])"

text \<open>Data sources.\<close>

definition osReleaseLockPlanner :: LockPlanner where
  "osReleaseLockPlanner action oper = [lock ''facts:system'' LockModeShared ''os release data source'']"

definition systemInfoLockPlanner :: LockPlanner where
  "systemInfoLockPlanner action oper = [lock ''facts:system'' LockModeShared ''system info data source'']"

definition networkInterfacesLockPlanner :: LockPlanner where
  "networkInterfacesLockPlanner action oper =
     [lock ''network:system'' LockModeShared ''network interfaces data source'']"

definition mountsLockPlanner :: LockPlanner where
  "mountsLockPlanner action oper = [lock ''mounts:system'' LockModeShared ''mounts data source'']"

definition fileInfoLockPlanner :: LockPlanner where
  "fileInfoLockPlanner action oper =
     (let path = TrimSpace (StringAttr oper [''path'', ''id'']) in
      if path = [] \<or> \<not> IsAbs path then [lock ''host'' LockModeShared ''file info data source'']
      else [pathLock path LockModeShared ''file info data source''])"

text \<open>providers/shared/actions: restart_process.go and run_command.go.\<close>

definition stringValue :: "attrs \<Rightarrow> string \<Rightarrow> string" where
  "stringValue values key = (case values key of Some (StrAttr s) \<Rightarrow> s | _ \<Rightarrow> [])"

definition RestartProcessLockPlanner :: "attrs \<Rightarrow> LockDescriptor list" where
  "RestartProcessLockPlanner config =
     (let name = TrimSpace (stringValue config ''name'') in
      if name = [] then [lock ''host'' LockModeExclusive ''restart action'']
      else [lock (''service:'' @ name) LockModeExclusive ''restart action''])"

definition RunCommandLockPlanner :: "attrs \<Rightarrow> LockDescriptor list" where
  "RunCommandLockPlanner config =
     (let name = TrimSpace (stringValue config ''name'') in
      if name = [] then [lock ''command:host'' LockModeExclusive ''run_command action'']
      else [lock (''command:'' @ name) LockModeExclusive ''run_command action''])"

text \<open>engine/adapter_helpers.go: a planner that may fail, or none.\<close>

definition planResourceLocks ::
    "string \<Rightarrow> OperationMessage option \<Rightarrow> (string \<Rightarrow> OperationMessage option \<Rightarrow> LockDescriptor list res) option
      \<Rightarrow> LockDescriptor list res" where
  "planResourceLocks action oper planner =
     (case planner of
        None \<Rightarrow> Inr (DefaultLockSet action)
      | Some p \<Rightarrow>
          (case p action oper of
             Inl e \<Rightarrow> Inl (Wrapf (''plan locks for '' @ action @ '': '') e [])
           | Inr locks \<Rightarrow> Inr (NormalizeLockSet action locks)))"

definition planActionLocks ::
    "string \<Rightarrow> attrs \<Rightarrow> (attrs \<Rightarrow> LockDescriptor list res) option \<Rightarrow> LockDescriptor list res" where
  "planActionLocks action config planner =
     (case planner of
        None \<Rightarrow> Inr (DefaultLockSet action)
      | Some p \<Rightarrow>
          (case p config of
             Inl e \<Rightarrow> Inl (Wrapf (''plan locks for '' @ action @ '': '') e [])
           | Inr locks \<Rightarrow> Inr (NormalizeLockSet action locks)))"

subsection \<open>What the normalisation leaves\<close>

definition normal_locks :: "LockDescriptor list \<Rightarrow> bool" where
  "normal_locks ls \<longleftrightarrow> distinct (map lockToken ls) \<and> (\<forall>l \<in> set ls. TrimSpace (lk_Key l) \<noteq> [] \<and> lk_Mode l \<noteq> [])"

lemma mode_nonempty [simp]: "LockModeForAction action \<noteq> []"
  by (simp add: LockModeForAction_def LockModeShared_def LockModeExclusive_def)

lemma normalizeWith_fresh: "l \<in> set (normalizeWith a seen ls) \<Longrightarrow> lockToken l \<notin> seen"
proof (induction a seen ls rule: normalizeWith.induct)
  case (2 a seen x xs)
  then show ?case by (auto simp: Let_def lockToken_def split: if_splits)
qed simp

lemma normalizeWith_normal: "normal_locks (normalizeWith a seen ls)"
proof (induction a seen ls rule: normalizeWith.induct)
  case (1 a seen)
  then show ?case by (simp add: normal_locks_def)
next
  case (2 a seen x xs)
  define x' where "x' = (if lk_Mode x = [] then x\<lparr>lk_Mode := LockModeForAction a\<rparr> else x)"
  show ?case
  proof (cases "TrimSpace (lk_Key x) = [] \<or> lockToken x' \<in> seen")
    case True
    with 2 show ?thesis by (auto simp: Let_def lockToken_def simp flip: x'_def)
  next
    case False
    have "lockToken x' \<notin> set (map lockToken (normalizeWith a (insert (lockToken x') seen) xs))"
      using normalizeWith_fresh by fastforce
    moreover have "TrimSpace (lk_Key x') \<noteq> []" "lk_Mode x' \<noteq> []"
      using False by (simp_all add: x'_def)
    moreover have "normal_locks (normalizeWith a (insert (lockToken x') seen) xs)"
      using 2 False by (simp add: Let_def lockToken_def flip: x'_def)
    ultimately show ?thesis
      using False by (simp add: Let_def normal_locks_def lockToken_def flip: x'_def)
  qed
qed

lemma TrimSpace_host: "TrimSpace ''host'' \<noteq> []"
  by code_simp

lemma NormalizeLockSet_normal: "normal_locks (NormalizeLockSet a ls) \<and> NormalizeLockSet a ls \<noteq> []"
proof -
  have "normal_locks (DefaultLockSet a)"
    using TrimSpace_host by (simp add: normal_locks_def DefaultLockSet_def Let_def)
  moreover have "DefaultLockSet a \<noteq> []" by (simp add: DefaultLockSet_def Let_def)
  ultimately show ?thesis
    using normalizeWith_normal [of a "{}" ls] by (simp add: NormalizeLockSet_def Let_def)
qed

lemma normalizeWith_id:
  "normal_locks ls \<Longrightarrow> \<forall>l \<in> set ls. lockToken l \<notin> seen \<Longrightarrow> normalizeWith a seen ls = ls"
proof (induction ls arbitrary: seen)
  case (Cons l ls)
  have "lockToken l \<notin> lockToken ` set ls" "normal_locks ls"
    using Cons.prems(1) by (simp_all add: normal_locks_def)
  then have "\<forall>m \<in> set ls. lockToken m \<notin> insert (lockToken l) seen" "normal_locks ls"
    using Cons.prems(2) by (metis image_eqI insert_iff list.set_intros(2), simp)
  then have "normalizeWith a (insert (lockToken l) seen) ls = ls" by (intro Cons.IH)
  with Cons.prems show ?case by (simp add: normal_locks_def Let_def lockToken_def)
qed simp

lemma normalizeLocks_id:
  "normal_locks ls \<Longrightarrow> \<forall>l \<in> set ls. lockToken l \<notin> seen \<Longrightarrow> normalizeLocks seen ls = ls"
proof (induction ls arbitrary: seen)
  case (Cons l ls)
  have "lockToken l \<notin> lockToken ` set ls" "normal_locks ls"
    using Cons.prems(1) by (simp_all add: normal_locks_def)
  then have "\<forall>m \<in> set ls. lockToken m \<notin> insert (lockToken l) seen" "normal_locks ls"
    using Cons.prems(2) by (metis image_eqI insert_iff list.set_intros(2), simp)
  then have "normalizeLocks (insert (lockToken l) seen) ls = ls" by (intro Cons.IH)
  moreover have "lk_Key l \<noteq> []" using Cons.prems(1) by (auto simp: normal_locks_def)
  ultimately show ?case using Cons.prems by (simp add: normal_locks_def Let_def lockToken_def)
qed simp

text \<open>C5: the two lock-set normalisations agree. What the provider's NormalizeLockSet sends is
  never empty, is a fixed point of NormalizeLockSet, and the executor's own normalizeLockSet
  leaves it as it is, so the provider and the journal speak of the same locks.\<close>

theorem lock_normalisations_agree:
  "NormalizeLockSet action locks \<noteq> [] \<and>
   NormalizeLockSet action (NormalizeLockSet action locks) = NormalizeLockSet action locks \<and>
   normalizeLockSet (NormalizeLockSet action locks) = NormalizeLockSet action locks"
  using NormalizeLockSet_normal [of action locks]
    normalizeWith_id [of "NormalizeLockSet action locks" "{}" action]
    normalizeLocks_id [of "NormalizeLockSet action locks" "{}"]
  by (simp add: NormalizeLockSet_def [of action "NormalizeLockSet action locks"] normalizeLockSet_def Let_def)

subsection \<open>The planners\<close>

definition resourcePlanners :: "LockPlanner list" where
  "resourcePlanners = [hostsEntryLockPlanner, packageLockPlanner, identityLockPlanner, sshdConfigLockPlanner,
     sysctlEntryLockPlanner, networkStackLockPlanner, ufwRuleLockPlanner, firewalldLockPlanner,
     fstabEntryLockPlanner, crontabEntryLockPlanner, fileLockPlanner, kernelModulesLockPlanner,
     swapLockPlanner, commandLockPlanner, systemdUnitLockPlanner, timezoneLockPlanner,
     timesyncdLockPlanner, chronyTimesyncLockPlanner, aptRepositoryLockPlanner, dnfRepositoryLockPlanner,
     trustedCertLockPlanner, redHatTrustedCertLockPlanner, tlsIdentityLockPlanner, nginxSiteLockPlanner]"

lemmas resource_planner_defs =
  hostsEntryLockPlanner_def packageLockPlanner_def identityLockPlanner_def sshdConfigLockPlanner_def
  sysctlEntryLockPlanner_def networkStackLockPlanner_def ufwRuleLockPlanner_def firewalldLockPlanner_def
  fstabEntryLockPlanner_def crontabEntryLockPlanner_def fileLockPlanner_def kernelModulesLockPlanner_def
  swapLockPlanner_def commandLockPlanner_def systemdUnitLockPlanner_def timezoneLockPlanner_def
  timesyncdLockPlanner_def chronyTimesyncLockPlanner_def aptRepositoryLockPlanner_def dnfRepositoryLockPlanner_def
  trustedCertLockPlanner_def redHatTrustedCertLockPlanner_def trustStoreLocks_def tlsIdentityLockPlanner_def
  nginxSiteLockPlanner_def pathLock_def

text \<open>What every planner does with the action: it only chooses the mode, and every key starts with
  a lower-case letter.\<close>

definition lower :: "char \<Rightarrow> bool" where
  "lower c \<longleftrightarrow> 97 \<le> (of_char c :: nat) \<and> (of_char c :: nat) \<le> 122"

definition key_ok :: "string \<Rightarrow> bool" where
  "key_ok k \<longleftrightarrow> k \<noteq> [] \<and> lower (hd k)"

definition planned :: "LockPlanner \<Rightarrow> bool" where
  "planned p \<longleftrightarrow> (\<forall>oper a b. map lk_Key (p a oper) = map lk_Key (p b oper)) \<and>
     (\<forall>oper a. list_all (\<lambda>l. lk_Mode l = LockModeForAction a \<and> key_ok (lk_Key l)) (p a oper))"

lemma key_ok_crontab: "list_all key_ok (crontabKeys users)"
proof -
  have ok: "key_ok (crontabKey u)" for u by (simp add: crontabKey_def key_ok_def lower_def)
  have "list_all key_ok (fold (\<lambda>user keys. if user = [] then keys
      else let key = crontabKey user in if key \<in> set keys then keys else keys @ [key]) users ks)"
    if "list_all key_ok ks" for ks
    using that by (induction users arbitrary: ks) (simp_all add: Let_def ok)
  from this [of "[]"] show ?thesis by (simp add: crontabKeys_def Let_def ok)
qed

lemma planner_lists:
  "planned hostsEntryLockPlanner" "planned packageLockPlanner" "planned identityLockPlanner"
  "planned sshdConfigLockPlanner" "planned sysctlEntryLockPlanner" "planned networkStackLockPlanner"
  "planned ufwRuleLockPlanner" "planned firewalldLockPlanner" "planned fstabEntryLockPlanner"
  "planned fileLockPlanner" "planned kernelModulesLockPlanner" "planned swapLockPlanner"
  "planned commandLockPlanner" "planned systemdUnitLockPlanner" "planned timezoneLockPlanner"
  "planned timesyncdLockPlanner" "planned chronyTimesyncLockPlanner" "planned aptRepositoryLockPlanner"
  "planned dnfRepositoryLockPlanner" "planned trustedCertLockPlanner" "planned redHatTrustedCertLockPlanner"
  "planned tlsIdentityLockPlanner" "planned nginxSiteLockPlanner"
  by (simp_all add: planned_def resource_planner_defs Let_def key_ok_def lower_def)

lemma planned_crontab: "planned crontabEntryLockPlanner"
  using key_ok_crontab
  by (simp add: planned_def crontabEntryLockPlanner_def Let_def comp_def list_all_iff)

lemma resourcePlanners_planned: "p \<in> set resourcePlanners \<Longrightarrow> planned p"
  using planner_lists planned_crontab by (simp add: resourcePlanners_def) blast

text \<open>A string with a lower-case letter is not blank.\<close>

lemma lower_no_space: "lower c \<Longrightarrow> \<not> ascii_space c"
  by (auto simp: lower_def ascii_space_def)

lemma lower_not_high: "lower c \<Longrightarrow> (of_char c :: nat) < 128"
  by (simp add: lower_def)

lemma space2_high: "space2 a b \<Longrightarrow> 128 \<le> (of_char a :: nat) \<and> 128 \<le> (of_char b :: nat)"
  by (auto simp: space2_def)

lemma space3_high: "space3 a b c \<Longrightarrow> 128 \<le> (of_char a :: nat) \<and> 128 \<le> (of_char b :: nat) \<and> 128 \<le> (of_char c :: nat)"
  by (auto simp: space3_def)

lemma lower_in_rest:
  assumes "x \<in> set s" "lower x"
  shows "x \<in> set (drop (space_at_end s) s)"
proof (cases s)
  case (Cons a t)
  note a = this
  show ?thesis
  proof (cases "ascii_space a")
    case True
    with a assms lower_no_space show ?thesis by auto
  next
    case noa: False
    show ?thesis
    proof (cases t)
      case (Cons b u)
      show ?thesis
      proof (cases "space2 b a")
        case True
        with a Cons noa assms space2_high [OF True] lower_not_high show ?thesis by fastforce
      next
        case no2: False
        show ?thesis
        proof (cases u)
          case (Cons c v)
          show ?thesis
          proof (cases "space3 c b a")
            case True
            with a \<open>t = b # u\<close> Cons noa no2 assms space3_high [OF True] lower_not_high
            show ?thesis by fastforce
          qed (use a \<open>t = b # u\<close> Cons noa no2 assms in auto)
        qed (use a \<open>t = b # u\<close> noa no2 assms in auto)
      qed
    qed (use a noa assms in auto)
  qed
qed (use assms in auto)

lemma lower_trim_end: "x \<in> set s \<Longrightarrow> lower x \<Longrightarrow> x \<in> set (trim_by space_at_end s)"
proof (induction space_at_end s rule: trim_by.induct)
  case (1 s)
  then show ?case
    using lower_in_rest [of x s] by (cases "s = [] \<or> space_at_end s = 0") (auto simp: trim_by.simps [of space_at_end s])
qed

lemma TrimSpace_key_ok: "key_ok k \<Longrightarrow> TrimSpace k \<noteq> []"
proof -
  assume ok: "key_ok k"
  then obtain c s where k: "k = c # s" "lower c" by (cases k) (auto simp: key_ok_def)
  then have "\<not> space2 c b" "\<not> space3 c b d" for b d
    using space2_high space3_high lower_not_high by fastforce+
  with k lower_no_space have "space_at_start k = 0" by (auto split: list.splits)
  with k have "c \<in> set (trim_by space_at_end (rev (trim_by space_at_start k)))"
    by (intro lower_trim_end) (simp_all add: trim_by_keep)
  then show ?thesis by (auto simp: TrimSpace_def)
qed

lemma normalizeWith_keeps:
  assumes "\<forall>l \<in> set ls. lk_Mode l = m" "m \<noteq> []" and "l \<in> set ls" "TrimSpace (lk_Key l) \<noteq> []"
    and "lockToken l \<notin> seen"
  shows "\<exists>l' \<in> set (normalizeWith a seen ls). lk_Key l' = lk_Key l \<and> lk_Mode l' = m"
  using assms
proof (induction a seen ls rule: normalizeWith.induct)
  case (2 a seen x xs)
  have m: "lk_Mode x = m" "lk_Mode l = m" using "2.prems" by auto
  show ?case
  proof (cases "TrimSpace (lk_Key x) = [] \<or> lockToken x \<in> seen")
    case True
    then have "l \<in> set xs" using "2.prems"(3,4,5) by auto
    with True 2 m show ?thesis by (auto simp: Let_def lockToken_def)
  next
    case False
    then have nw: "normalizeWith a seen (x # xs) = x # normalizeWith a (insert (lockToken x) seen) xs"
      using m "2.prems"(2) by (simp add: Let_def lockToken_def)
    show ?thesis
    proof (cases "lk_Key l = lk_Key x")
      case True
      with nw m show ?thesis by auto
    next
      case ne: False
      then have "l \<in> set xs" "lockToken l \<notin> insert (lockToken x) seen"
        using "2.prems"(3,5) m by (auto simp: lockToken_def)
      with False 2 m ne nw show ?thesis by (auto simp: Let_def lockToken_def)
    qed
  qed
qed simp

lemma planned_lock_sent:
  assumes "planned p" and "l \<in> set (p a oper)"
  shows "\<exists>l' \<in> set (NormalizeLockSet a (p a oper)). lk_Key l' = lk_Key l \<and> lk_Mode l' = LockModeForAction a"
proof -
  have all: "\<forall>x \<in> set (p a oper). lk_Mode x = LockModeForAction a" and ok: "key_ok (lk_Key l)"
    using assms by (auto simp: planned_def list_all_iff)
  from normalizeWith_keeps [OF all mode_nonempty assms(2) TrimSpace_key_ok [OF ok], of "{}" a]
  obtain l' where l': "l' \<in> set (normalizeWith a {} (p a oper))" "lk_Key l' = lk_Key l"
    "lk_Mode l' = LockModeForAction a" by auto
  then show ?thesis by (auto simp: NormalizeLockSet_def Let_def)
qed

lemma host_locks_conflict: "\<exists>l \<in> set (DefaultLockSet a). \<exists>m \<in> set (DefaultLockSet b). locksConflict l m"
  by (simp add: DefaultLockSet_def Let_def locksConflict_def isDominatingLockKey_def)



text \<open>Reads under the default lock exclude each other: the default lock is called a read lock and is shared for a read, but two of them conflict: the
  journal lets a host lock dominate every lock, whatever the modes.\<close>

lemma default_read_locks_exclude_each_other:
  "DefaultLockSet ''read'' = [lock ''host'' LockModeShared ''default host read lock''] \<and>
   locksConflict (hd (DefaultLockSet ''read'')) (hd (DefaultLockSet ''read''))"
  by (simp add: DefaultLockSet_def LockModeForAction_def locksConflict_def isDominatingLockKey_def Let_def)

end
