(* ===== verification/RebootJournal.thy ===== *)
theory RebootJournal
  imports DemoHost
begin

text \<open>
  executor/runtime/reboot_journal.go: the journal of host reboots. Every operation has an entry
  under its identifier; while it is not completed, its latest entry is also the \<open>current\<close> entry of
  its fingerprint, which is what a repeated request finds. Entries are sealed with the runtime
  journal key as in theory OperationJournal. Times are the clock readings themselves, not their
  RFC 3339 text; an operation that is not completed has no completion time.
\<close>

definition rebootPhasePlanned :: string where "rebootPhasePlanned = ''planned''"
definition rebootPhasePrecheckComplete :: string where "rebootPhasePrecheckComplete = ''precheck_complete''"
definition rebootPhaseTargetPrepared :: string where "rebootPhaseTargetPrepared = ''target_prepared''"
definition rebootPhaseRebootIssued :: string where "rebootPhaseRebootIssued = ''reboot_issued''"
definition rebootPhaseWaitingForReconnect :: string where "rebootPhaseWaitingForReconnect = ''waiting_for_reconnect''"
definition rebootPhasePostReconnectValidated :: string where
  "rebootPhasePostReconnectValidated = ''post_reconnect_validation''"
definition rebootPhaseExecutorRebootstrapped :: string where
  "rebootPhaseExecutorRebootstrapped = ''executor_rebootstrapped''"
definition rebootPhaseCompleted :: string where "rebootPhaseCompleted = ''completed''"
definition rebootPhaseFailed :: string where "rebootPhaseFailed = ''failed''"

lemmas phase_defs = rebootPhasePlanned_def rebootPhasePrecheckComplete_def rebootPhaseTargetPrepared_def
  rebootPhaseRebootIssued_def rebootPhaseWaitingForReconnect_def rebootPhasePostReconnectValidated_def
  rebootPhaseExecutorRebootstrapped_def rebootPhaseCompleted_def rebootPhaseFailed_def

record RebootJournalEntry =
  rj_OperationID :: string
  rj_Fingerprint :: string
  rj_HostAddress :: string
  rj_Name :: string
  rj_Reason :: string
  rj_RebootCommand :: string
  rj_Phase :: string
  rj_StableHostID :: string
  rj_PreBootID :: string
  rj_PostBootID :: string
  rj_TimeoutSeconds :: int
  rj_SettleSeconds :: int
  rj_RequestedAt :: int
  rj_UpdatedAt :: int
  rj_CompletedAt :: "int option"
  rj_LastError :: string

record RebootJournalPrepareParams =
  rp_HostAddress :: string
  rp_PName :: string
  rp_Reason :: string
  rp_RebootCommand :: string
  rp_TimeoutSeconds :: int
  rp_SettleSeconds :: int

record RebootJournalMarkPhaseParams =
  mp_OperationID :: string
  mp_Phase :: string
  mp_StableHostID :: string
  mp_PreBootID :: string
  mp_PostBootID :: string
  mp_RebootCommand :: string

record rebootStore =
  rs_operations :: "RebootJournalEntry sealed dir"
  rs_current :: "RebootJournalEntry sealed dir"
  rs_faults :: "bool list"

subsection \<open>JSON of a string map\<close>

text \<open>\<open>encoding/json\<close>: object keys in byte order, and the escapes of its string encoder on valid
  UTF-8, which is what the request's fields hold.\<close>

fun json_chars :: "string \<Rightarrow> string" where
  "json_chars [] = []"
| "json_chars (c # s) =
     (if c = CHR 0x22 \<or> c = CHR 0x5C then CHR 0x5C # c # json_chars s
      else if c = CHR 0x08 then CHR 0x5C # CHR ''b'' # json_chars s
      else if c = CHR 0x0C then CHR 0x5C # CHR ''f'' # json_chars s
      else if c = CHR 0x0A then CHR 0x5C # CHR ''n'' # json_chars s
      else if c = CHR 0x0D then CHR 0x5C # CHR ''r'' # json_chars s
      else if c = CHR 0x09 then CHR 0x5C # CHR ''t'' # json_chars s
      else if (of_char c :: nat) < 32 \<or> c = CHR ''<'' \<or> c = CHR ''>'' \<or> c = CHR 0x26
        then CHR 0x5C # CHR ''u'' # CHR ''0'' # CHR ''0'' # hex_bytes [c] @ json_chars s
      else if take 2 s = [CHR 0x80, CHR 0xA8] \<and> c = CHR 0xE2
        then CHR 0x5C # ''u2028'' @ json_chars (drop 2 s)
      else if take 2 s = [CHR 0x80, CHR 0xA9] \<and> c = CHR 0xE2
        then CHR 0x5C # ''u2029'' @ json_chars (drop 2 s)
      else c # json_chars s)"

definition json_string :: "string \<Rightarrow> string" where
  "json_string s = [CHR 0x22] @ json_chars s @ [CHR 0x22]"

fun json_members :: "(string \<times> string) list \<Rightarrow> string" where
  "json_members [] = []"
| "json_members [(k, v)] = json_string k @ '':'' @ json_string v"
| "json_members ((k, v) # kvs) = json_string k @ '':'' @ json_string v @ '','' @ json_members kvs"

definition rebootFingerprint :: "env \<Rightarrow> RebootJournalPrepareParams \<Rightarrow> string res" where
  "rebootFingerprint E params =
     DigestBytes (hashfns E) AlgorithmXXH3_128
       (''{'' @ json_members [(''host_address'', rp_HostAddress params), (''name'', rp_PName params),
          (''reason'', rp_Reason params), (''reboot_command'', rp_RebootCommand params)] @ ''}'')"

definition newRebootOperationID :: "env \<Rightarrow> string" where
  "newRebootOperationID E = ''rand:'' @ hex_bytes (random_bytes E)"

subsection \<open>Files\<close>

definition rfault :: "rebootStore \<Rightarrow> bool \<times> rebootStore" where
  "rfault s = (case rs_faults s of [] \<Rightarrow> (False, s) | b # bs \<Rightarrow> (b, s\<lparr>rs_faults := bs\<rparr>))"

definition ensureRebootDirs :: "rebootStore \<Rightarrow> error option \<times> rebootStore" where
  "ensureRebootDirs s =
     (let (bad, s1) = rfault s in
      if bad then (Some (io_error ''create reboot journal dir''), s1)
      else let (bad', s2) = rfault s1 in
        if bad' then (Some (io_error ''create reboot journal dir''), s2) else (None, s2))"

definition decodeEntry :: "env \<Rightarrow> string \<Rightarrow> RebootJournalEntry sealed node option \<Rightarrow> RebootJournalEntry res" where
  "decodeEntry E n f =
     (case f of None \<Rightarrow> Inl (NotExist (''open '' @ n)) | Some f \<Rightarrow> unmarshalEncryptedJSON E f)"

definition readRebootOperation :: "env \<Rightarrow> string \<Rightarrow> rebootStore \<Rightarrow> RebootJournalEntry res \<times> rebootStore" where
  "readRebootOperation E i s =
     (let (bad, s1) = rfault s in
      if bad then (Inl (io_error ''read''), s1)
      else (decodeEntry E (json_name i) (dir_get (rs_operations s1) (json_name i)), s1))"

definition readRebootCurrent :: "env \<Rightarrow> string \<Rightarrow> rebootStore \<Rightarrow> RebootJournalEntry res \<times> rebootStore" where
  "readRebootCurrent E fp s =
     (let (bad, s1) = rfault s in
      if bad then (Inl (io_error ''read''), s1)
      else (decodeEntry E (json_name fp) (dir_get (rs_current s1) (json_name fp)), s1))"

definition writeRebootOperation :: "env \<Rightarrow> string \<Rightarrow> RebootJournalEntry \<Rightarrow> rebootStore \<Rightarrow> error option \<times> rebootStore" where
  "writeRebootOperation E i entry s =
     (case marshalEncryptedJSON E entry of
        Inl e \<Rightarrow> (Some e, s)
      | Inr f \<Rightarrow>
          let (bad, s1) = rfault s in
          if bad then (Some (io_error ''write''), s1)
          else (None, s1\<lparr>rs_operations := dir_put (json_name i) (Plain f) (rs_operations s1)\<rparr>))"

definition writeRebootCurrent :: "env \<Rightarrow> string \<Rightarrow> RebootJournalEntry \<Rightarrow> rebootStore \<Rightarrow> error option \<times> rebootStore" where
  "writeRebootCurrent E fp entry s =
     (case marshalEncryptedJSON E entry of
        Inl e \<Rightarrow> (Some e, s)
      | Inr f \<Rightarrow>
          let (bad, s1) = rfault s in
          if bad then (Some (io_error ''write''), s1)
          else (None, s1\<lparr>rs_current := dir_put (json_name fp) (Plain f) (rs_current s1)\<rparr>))"

definition removeRebootCurrent :: "string \<Rightarrow> rebootStore \<Rightarrow> error option \<times> rebootStore" where
  "removeRebootCurrent fp s =
     (let (bad, s1) = rfault s in
      if bad then (Some (io_error ''remove''), s1)
      else (None, s1\<lparr>rs_current := dir_del (json_name fp) (rs_current s1)\<rparr>))"

subsection \<open>The operations\<close>

definition resumable :: "string \<Rightarrow> bool" where
  "resumable phase \<longleftrightarrow> phase = rebootPhasePlanned \<or> phase = rebootPhasePrecheckComplete \<or>
     phase = rebootPhaseTargetPrepared \<or> phase = rebootPhaseRebootIssued \<or>
     phase = rebootPhaseWaitingForReconnect \<or> phase = rebootPhasePostReconnectValidated \<or>
     phase = rebootPhaseExecutorRebootstrapped \<or> phase = rebootPhaseFailed"

definition newRebootEntry :: "env \<Rightarrow> string \<Rightarrow> RebootJournalPrepareParams \<Rightarrow> RebootJournalEntry" where
  "newRebootEntry E fp params = \<lparr>
     rj_OperationID = newRebootOperationID E, rj_Fingerprint = fp, rj_HostAddress = rp_HostAddress params,
     rj_Name = rp_PName params, rj_Reason = rp_Reason params, rj_RebootCommand = rp_RebootCommand params,
     rj_Phase = rebootPhasePlanned, rj_StableHostID = [], rj_PreBootID = [], rj_PostBootID = [],
     rj_TimeoutSeconds = rp_TimeoutSeconds params, rj_SettleSeconds = rp_SettleSeconds params,
     rj_RequestedAt = now E, rj_UpdatedAt = now E, rj_CompletedAt = None, rj_LastError = []\<rparr>"

definition createReboot :: "env \<Rightarrow> string \<Rightarrow> RebootJournalPrepareParams \<Rightarrow> rebootStore \<Rightarrow> RebootJournalEntry res \<times> rebootStore" where
  "createReboot E fp params s =
     (let entry = newRebootEntry E fp params in
      case writeRebootOperation E (rj_OperationID entry) entry s of
        (Some e, s1) \<Rightarrow> (Inl e, s1)
      | (None, s1) \<Rightarrow>
          (case writeRebootCurrent E fp entry s1 of
             (Some e, s2) \<Rightarrow> (Inl e, s2)
           | (None, s2) \<Rightarrow> (Inr entry, s2)))"

definition Prepare :: "env \<Rightarrow> RebootJournalPrepareParams \<Rightarrow> rebootStore \<Rightarrow> RebootJournalEntry res \<times> rebootStore" where
  "Prepare E params s =
     (case ensureRebootDirs s of
        (Some e, s1) \<Rightarrow> (Inl e, s1)
      | (None, s1) \<Rightarrow>
          (case rebootFingerprint E params of
             Inl e \<Rightarrow> (Inl e, s1)
           | Inr fp \<Rightarrow>
               (case readRebootCurrent E fp s1 of
                  (Inr existing, s2) \<Rightarrow>
                    if resumable (rj_Phase existing) then (Inr existing, s2)
                    else if rj_Phase existing = rebootPhaseCompleted
                      then createReboot E fp params (snd (removeRebootCurrent fp s2))
                    else createReboot E fp params s2
                | (Inl err, s2) \<Rightarrow>
                    if IsNotExist err then createReboot E fp params s2
                    else createReboot E fp params (snd (removeRebootCurrent fp s2)))))"

definition updateReboot ::
    "env \<Rightarrow> string \<Rightarrow> (RebootJournalEntry \<Rightarrow> RebootJournalEntry) \<Rightarrow> rebootStore \<Rightarrow> RebootJournalEntry res \<times> rebootStore" where
  "updateReboot E i mutate s =
     (case readRebootOperation E i s of
        (Inl e, s1) \<Rightarrow> (Inl e, s1)
      | (Inr entry0, s1) \<Rightarrow>
          (let entry = (mutate entry0)\<lparr>rj_UpdatedAt := now E\<rparr> in
           case writeRebootOperation E i entry s1 of
             (Some e, s2) \<Rightarrow> (Inl e, s2)
           | (None, s2) \<Rightarrow>
               if rj_Phase entry = rebootPhaseCompleted then
                 (case removeRebootCurrent (rj_Fingerprint entry) s2 of
                    (Some e, s3) \<Rightarrow> (Inl e, s3)
                  | (None, s3) \<Rightarrow> (Inr entry, s3))
               else
                 (case writeRebootCurrent E (rj_Fingerprint entry) entry s2 of
                    (Some e, s3) \<Rightarrow> (Inl e, s3)
                  | (None, s3) \<Rightarrow> (Inr entry, s3))))"

definition keep_unless_empty :: "string \<Rightarrow> string \<Rightarrow> string" where
  "keep_unless_empty old new = (if new = [] then old else new)"

definition markPhase :: "RebootJournalMarkPhaseParams \<Rightarrow> RebootJournalEntry \<Rightarrow> RebootJournalEntry" where
  "markPhase params entry = entry\<lparr>rj_Phase := mp_Phase params,
     rj_StableHostID := keep_unless_empty (rj_StableHostID entry) (mp_StableHostID params),
     rj_PreBootID := keep_unless_empty (rj_PreBootID entry) (mp_PreBootID params),
     rj_PostBootID := keep_unless_empty (rj_PostBootID entry) (mp_PostBootID params),
     rj_RebootCommand := keep_unless_empty (rj_RebootCommand entry) (mp_RebootCommand params)\<rparr>"

definition MarkPhase :: "env \<Rightarrow> RebootJournalMarkPhaseParams \<Rightarrow> rebootStore \<Rightarrow> RebootJournalEntry res \<times> rebootStore" where
  "MarkPhase E params s = updateReboot E (mp_OperationID params) (markPhase params) s"

definition markFailed :: "string \<Rightarrow> RebootJournalEntry \<Rightarrow> RebootJournalEntry" where
  "markFailed lastError entry = entry\<lparr>rj_Phase := rebootPhaseFailed, rj_LastError := lastError\<rparr>"

definition MarkFailed :: "env \<Rightarrow> string \<Rightarrow> string \<Rightarrow> rebootStore \<Rightarrow> RebootJournalEntry res \<times> rebootStore" where
  "MarkFailed E operationID lastError s = updateReboot E operationID (markFailed lastError) s"

definition markCompleted :: "env \<Rightarrow> string \<Rightarrow> RebootJournalEntry \<Rightarrow> RebootJournalEntry" where
  "markCompleted E postBootID entry = entry\<lparr>rj_Phase := rebootPhaseCompleted,
     rj_PostBootID := keep_unless_empty (rj_PostBootID entry) postBootID,
     rj_CompletedAt := Some (now E), rj_LastError := []\<rparr>"

definition MarkCompleted :: "env \<Rightarrow> string \<Rightarrow> string \<Rightarrow> rebootStore \<Rightarrow> RebootJournalEntry res \<times> rebootStore" where
  "MarkCompleted E operationID postBootID s = updateReboot E operationID (markCompleted E postBootID) s"

subsection \<open>Reachable stores\<close>

definition rop_at :: "rebootStore \<Rightarrow> string \<Rightarrow> RebootJournalEntry sealed node option" where
  "rop_at s i = dir_get (rs_operations s) (json_name i)"

definition cur_at :: "rebootStore \<Rightarrow> string \<Rightarrow> RebootJournalEntry sealed node option" where
  "cur_at s fp = dir_get (rs_current s) (json_name fp)"

definition empty_store :: "rebootStore \<Rightarrow> bool" where
  "empty_store s \<longleftrightarrow> rs_operations s = [] \<and> rs_current s = []"

text \<open>The operations in any order and from any executor, with any calls failing; a new operation
  identifier is one that was not used before.\<close>

inductive reboot_step :: "rebootStore \<Rightarrow> rebootStore \<Rightarrow> bool" where
  prepare: "rop_at s (newRebootOperationID E) = None \<Longrightarrow> Prepare E params s = (r, s') \<Longrightarrow> reboot_step s s'"
| mark_phase: "MarkPhase E mp s = (r, s') \<Longrightarrow> reboot_step s s'"
| mark_failed: "MarkFailed E i err s = (r, s') \<Longrightarrow> reboot_step s s'"
| mark_completed: "MarkCompleted E i post s = (r, s') \<Longrightarrow> reboot_step s s'"
| later_faults: "reboot_step s (s\<lparr>rs_faults := bs\<rparr>)"

text \<open>The invariant: files are under their own names, a current entry is never a completed one, and
  it belongs to an operation on record for the same request.\<close>

definition store_ok :: "rebootStore \<Rightarrow> bool" where
  "store_ok s \<longleftrightarrow> (\<forall>i k e. rop_at s i = Some (Plain (Sealed k e)) \<longrightarrow> rj_OperationID e = i) \<and>
     (\<forall>fp k e. cur_at s fp = Some (Plain (Sealed k e)) \<longrightarrow> rj_Fingerprint e = fp \<and>
        rj_Phase e \<noteq> rebootPhaseCompleted \<and>
        (\<exists>k' e'. rop_at s (rj_OperationID e) = Some (Plain (Sealed k' e')) \<and> rj_Fingerprint e' = fp))"

lemma store_okD:
  assumes "store_ok s"
  shows "rop_at s i = Some (Plain (Sealed k e)) \<Longrightarrow> rj_OperationID e = i"
    and "cur_at s fp = Some (Plain (Sealed k e)) \<Longrightarrow> rj_Fingerprint e = fp"
    and "cur_at s fp = Some (Plain (Sealed k e)) \<Longrightarrow> rj_Phase e \<noteq> rebootPhaseCompleted"
    and "cur_at s fp = Some (Plain (Sealed k e)) \<Longrightarrow>
      \<exists>k' e'. rop_at s (rj_OperationID e) = Some (Plain (Sealed k' e')) \<and> rj_Fingerprint e' = fp"
  using assms unfolding store_ok_def by blast+

text \<open>What each file call changes.\<close>

definition same_files :: "rebootStore \<Rightarrow> rebootStore \<Rightarrow> bool" where
  "same_files s s' \<longleftrightarrow> rs_operations s' = rs_operations s \<and> rs_current s' = rs_current s"

lemma same_files_at: "same_files s s' \<Longrightarrow> rop_at s' i = rop_at s i" "same_files s s' \<Longrightarrow> cur_at s' fp = cur_at s fp"
  by (simp_all add: same_files_def rop_at_def cur_at_def)

lemma same_files_ok: "same_files s s' \<Longrightarrow> store_ok s' = store_ok s"
  by (simp add: store_ok_def same_files_at)

lemma same_files_refl [simp]: "same_files s s"
  by (simp add: same_files_def)

lemma same_files_trans: "same_files s t \<Longrightarrow> same_files t u \<Longrightarrow> same_files s u"
  by (simp add: same_files_def)

lemma rfault_same: "rfault s = (b, s') \<Longrightarrow> same_files s s'"
  by (auto simp: rfault_def same_files_def split: list.splits)

lemma ensureRebootDirs_same: "ensureRebootDirs s = (r, s') \<Longrightarrow> same_files s s'"
  using rfault_same by (auto simp: ensureRebootDirs_def split: prod.splits if_splits intro: same_files_trans)

lemma unmarshal_Inr: "unmarshalEncryptedJSON E f = Inr e \<longleftrightarrow> journal_key E \<noteq> [] \<and> f = Plain (Sealed (journal_key E) e)"
  by (auto simp: unmarshalEncryptedJSON_def runtimeJournalKeyBytes_def split: node.splits sealed.splits if_splits)

lemma decodeEntry_Inr: "decodeEntry E n f = Inr e \<longleftrightarrow> journal_key E \<noteq> [] \<and> f = Some (Plain (Sealed (journal_key E) e))"
  by (cases f) (auto simp: decodeEntry_def unmarshal_Inr)

lemma readRebootOperation_same:
  assumes "readRebootOperation E i s = (r, s')"
  shows "same_files s s' \<and> (\<forall>e. r = Inr e \<longrightarrow> rop_at s i = Some (Plain (Sealed (journal_key E) e)))"
  using assms rfault_same
  by (force simp: readRebootOperation_def decodeEntry_Inr rop_at_def same_files_def split: prod.splits if_splits)

lemma readRebootCurrent_same:
  assumes "readRebootCurrent E fp s = (r, s')"
  shows "same_files s s' \<and> (\<forall>e. r = Inr e \<longrightarrow> cur_at s fp = Some (Plain (Sealed (journal_key E) e)))"
  using assms rfault_same
  by (force simp: readRebootCurrent_def decodeEntry_Inr cur_at_def same_files_def split: prod.splits if_splits)

lemma writeRebootOperation_at:
  assumes "writeRebootOperation E i e s = (r, s')"
  shows "(same_files s s' \<and> r \<noteq> None) \<or> (r = None \<and> rop_at s' = (rop_at s)(i \<mapsto> Plain (Sealed (journal_key E) e)) \<and>
     cur_at s' = cur_at s)"
  using assms rfault_same [of s]
  by (auto simp: writeRebootOperation_def marshalEncryptedJSON_def runtimeJournalKeyBytes_def rop_at_def
      cur_at_def same_files_def dir.get_put fun_eq_iff split: if_splits prod.splits)

lemma writeRebootCurrent_at:
  assumes "writeRebootCurrent E fp e s = (r, s')"
  shows "(same_files s s' \<and> r \<noteq> None) \<or> (r = None \<and> cur_at s' = (cur_at s)(fp \<mapsto> Plain (Sealed (journal_key E) e)) \<and>
     rop_at s' = rop_at s)"
  using assms rfault_same [of s]
  by (auto simp: writeRebootCurrent_def marshalEncryptedJSON_def runtimeJournalKeyBytes_def rop_at_def
      cur_at_def same_files_def dir.get_put fun_eq_iff split: if_splits prod.splits)

lemma removeRebootCurrent_at:
  assumes "removeRebootCurrent fp s = (r, s')"
  shows "(same_files s s' \<and> r \<noteq> None) \<or> (r = None \<and> cur_at s' = (cur_at s)(fp := None) \<and> rop_at s' = rop_at s)"
  using assms rfault_same [of s]
  by (auto simp: removeRebootCurrent_def rop_at_def cur_at_def same_files_def dir.get_del fun_eq_iff
      split: if_splits prod.splits)

lemma store_ok_put_op:
  assumes ok: "store_ok s" and op: "rop_at s' = (rop_at s)(i \<mapsto> Plain (Sealed k e))" and cur: "cur_at s' = cur_at s"
    and id: "rj_OperationID e = i"
    and old: "\<And>k0 e0. rop_at s i = Some (Plain (Sealed k0 e0)) \<Longrightarrow> rj_Fingerprint e0 = rj_Fingerprint e"
  shows "store_ok s'"
proof -
  have cur_op: "\<exists>k' e'. rop_at s' (rj_OperationID x) = Some (Plain (Sealed k' e')) \<and> rj_Fingerprint e' = fp"
    if c: "cur_at s fp = Some (Plain (Sealed kx x))" for fp kx x
  proof (cases "rj_OperationID x = i")
    case True
    with store_okD(4) [OF ok c] old show ?thesis by (auto simp: op)
  next
    case False
    with store_okD(4) [OF ok c] show ?thesis by (simp add: op)
  qed
  show ?thesis
  proof (unfold store_ok_def cur, intro conjI allI impI)
    fix n kx x assume "rop_at s' n = Some (Plain (Sealed kx x))"
    then have "(n = i \<and> x = e) \<or> rop_at s n = Some (Plain (Sealed kx x))"
      unfolding op by (cases "n = i") simp_all
    then show "rj_OperationID x = n"
      using id store_okD(1) [OF ok, of n kx x] by blast
  next
    fix fp kx x assume c: "cur_at s fp = Some (Plain (Sealed kx x))"
    show "rj_Fingerprint x = fp" "rj_Phase x \<noteq> rebootPhaseCompleted"
      using store_okD(2,3) [OF ok c] by simp_all
    show "\<exists>k' e'. rop_at s' (rj_OperationID x) = Some (Plain (Sealed k' e')) \<and> rj_Fingerprint e' = fp"
      using cur_op [OF c] .
  qed
qed

lemma store_ok_put_cur:
  assumes ok: "store_ok s" and cur: "cur_at s' = (cur_at s)(fp \<mapsto> Plain (Sealed k e))" and op: "rop_at s' = rop_at s"
    and "rj_Fingerprint e = fp" "rj_Phase e \<noteq> rebootPhaseCompleted"
    and "rop_at s (rj_OperationID e) = Some (Plain (Sealed k' e))"
  shows "store_ok s'"
proof (unfold store_ok_def op, intro conjI allI impI)
  fix n kx x assume "rop_at s n = Some (Plain (Sealed kx x))"
  then show "rj_OperationID x = n" using store_okD(1) [OF ok] by blast
next
  fix fq kx x assume "cur_at s' fq = Some (Plain (Sealed kx x))"
  then have c: "(fq = fp \<and> x = e) \<or> cur_at s fq = Some (Plain (Sealed kx x))"
    unfolding cur by (cases "fq = fp") simp_all
  show "rj_Fingerprint x = fq" using c assms(4) store_okD(2) [OF ok] by blast
  show "rj_Phase x \<noteq> rebootPhaseCompleted" using c assms(5) store_okD(3) [OF ok] by blast
  show "\<exists>k' e'. rop_at s (rj_OperationID x) = Some (Plain (Sealed k' e')) \<and> rj_Fingerprint e' = fq"
    using c assms(4,6) store_okD(4) [OF ok] by blast
qed

lemma store_ok_del_cur:
  "store_ok s \<Longrightarrow> cur_at s' = (cur_at s)(fp := None) \<Longrightarrow> rop_at s' = rop_at s \<Longrightarrow> store_ok s'"
  unfolding store_ok_def by (auto split: if_splits)

lemma newRebootEntry_simps [simp]:
  "rj_OperationID (newRebootEntry E fp p) = newRebootOperationID E" "rj_Fingerprint (newRebootEntry E fp p) = fp"
  "rj_Phase (newRebootEntry E fp p) = rebootPhasePlanned"
  by (simp_all add: newRebootEntry_def)

lemma planned_not_completed [simp]: "rebootPhasePlanned \<noteq> rebootPhaseCompleted"
  by (simp add: phase_defs)

lemma createReboot_ok:
  assumes ok: "store_ok s" and fresh: "rop_at s (newRebootOperationID E) = None"
    and cr: "createReboot E fp p s = (r, s')"
  shows "store_ok s'"
proof -
  let ?e = "newRebootEntry E fp p"
  obtain r1 s1 where w1: "writeRebootOperation E (newRebootOperationID E) ?e s = (r1, s1)" by force
  obtain r2 s2 where w2: "writeRebootCurrent E fp ?e s1 = (r2, s2)" by force
  from writeRebootOperation_at [OF w1] show ?thesis
  proof
    assume "same_files s s1 \<and> r1 \<noteq> None"
    with ok cr w1 show ?thesis by (auto simp: createReboot_def Let_def dest: same_files_ok)
  next
    assume *: "r1 = None \<and> rop_at s1 = (rop_at s)(newRebootOperationID E \<mapsto> Plain (Sealed (journal_key E) ?e)) \<and>
      cur_at s1 = cur_at s"
    have ok1: "store_ok s1"
      by (rule store_ok_put_op [OF ok, where i = "newRebootOperationID E" and e = ?e]) (use * fresh in auto)
    from writeRebootCurrent_at [OF w2] have "store_ok s2"
    proof
      assume **: "r2 = None \<and> cur_at s2 = (cur_at s1)(fp \<mapsto> Plain (Sealed (journal_key E) ?e)) \<and> rop_at s2 = rop_at s1"
      show ?thesis by (rule store_ok_put_cur [OF ok1, where fp = fp and e = ?e]) (use * ** in auto)
    qed (use ok1 same_files_ok in auto)
    with cr w1 w2 * show ?thesis by (auto simp: createReboot_def Let_def split: option.splits)
  qed
qed

lemma removeRebootCurrent_ok: "store_ok s \<Longrightarrow> store_ok (snd (removeRebootCurrent fp s))"
  using removeRebootCurrent_at [of fp s "fst (removeRebootCurrent fp s)" "snd (removeRebootCurrent fp s)"]
    store_ok_del_cur same_files_ok by auto

lemma removeRebootCurrent_op: "rop_at (snd (removeRebootCurrent fp s)) = rop_at s"
  using removeRebootCurrent_at [of fp s "fst (removeRebootCurrent fp s)" "snd (removeRebootCurrent fp s)"]
  by (auto simp: same_files_at fun_eq_iff)

lemma Prepare_ok:
  assumes ok: "store_ok s" and fresh: "rop_at s (newRebootOperationID E) = None"
    and pr: "Prepare E p s = (r, s')"
  shows "store_ok s'"
proof -
  obtain r1 s1 where e1: "ensureRebootDirs s = (r1, s1)" by force
  note f1 = ensureRebootDirs_same [OF e1]
  have 1: "store_ok s1" "rop_at s1 (newRebootOperationID E) = None"
    using ok fresh by (simp_all add: same_files_ok [OF f1] same_files_at [OF f1])
  show ?thesis
  proof (cases "r1 = None \<and> (\<exists>fp. rebootFingerprint E p = Inr fp)")
    case False
    with pr e1 1 show ?thesis by (auto simp: Prepare_def split: option.splits sum.splits)
  next
    case True
    then obtain fp where fp: "rebootFingerprint E p = Inr fp" by blast
    obtain r2 s2 where e2: "readRebootCurrent E fp s1 = (r2, s2)" by force
    note f2 = readRebootCurrent_same [OF e2, THEN conjunct1]
    have 2: "store_ok s2" "rop_at s2 (newRebootOperationID E) = None"
      using 1 by (simp_all add: same_files_ok [OF f2] same_files_at [OF f2])
    have 3: "store_ok (snd (removeRebootCurrent fp s2))"
      "rop_at (snd (removeRebootCurrent fp s2)) (newRebootOperationID E) = None"
      using removeRebootCurrent_ok 2 by (simp_all add: removeRebootCurrent_op)
    from pr e1 True fp e2 consider "s' = s2" | "createReboot E fp p s2 = (r, s')"
      | "createReboot E fp p (snd (removeRebootCurrent fp s2)) = (r, s')"
      by (auto simp: Prepare_def split: sum.splits if_splits)
    then show ?thesis using 2 3 createReboot_ok by cases blast+
  qed
qed

lemma updateReboot_ok:
  assumes ok: "store_ok s" and up: "updateReboot E i mutate s = (r, s')"
    and same: "\<And>e. rj_OperationID (mutate e) = rj_OperationID e" "\<And>e. rj_Fingerprint (mutate e) = rj_Fingerprint e"
  shows "store_ok s'"
proof -
  obtain r1 s1 where rd: "readRebootOperation E i s = (r1, s1)" by force
  note f1 = readRebootOperation_same [OF rd, THEN conjunct1]
  have ok1: "store_ok s1" using ok by (simp add: same_files_ok [OF f1])
  show ?thesis
  proof (cases r1)
    case (Inl e)
    with up rd ok1 show ?thesis by (simp add: updateReboot_def)
  next
    case (Inr e0)
    with readRebootOperation_same [OF rd] have at: "rop_at s1 i = Some (Plain (Sealed (journal_key E) e0))"
      by (simp add: same_files_at [OF f1])
    then have id0: "rj_OperationID e0 = i" using store_okD(1) [OF ok1] by blast
    let ?e = "(mutate e0)\<lparr>rj_UpdatedAt := now E\<rparr>"
    obtain r2 s2 where w: "writeRebootOperation E i ?e s1 = (r2, s2)" by force
    from writeRebootOperation_at [OF w] show ?thesis
    proof
      assume "same_files s1 s2 \<and> r2 \<noteq> None"
      with up rd Inr w ok1 show ?thesis by (auto simp: updateReboot_def Let_def dest: same_files_ok)
    next
      assume *: "r2 = None \<and> rop_at s2 = (rop_at s1)(i \<mapsto> Plain (Sealed (journal_key E) ?e)) \<and> cur_at s2 = cur_at s1"
      have ok2: "store_ok s2"
        by (rule store_ok_put_op [OF ok1, where i = i and e = ?e]) (use * at id0 same in auto)
      obtain r3 s3 where d: "removeRebootCurrent (rj_Fingerprint ?e) s2 = (r3, s3)" by force
      obtain r4 s4 where c: "writeRebootCurrent E (rj_Fingerprint ?e) ?e s2 = (r4, s4)" by force
      have "store_ok s3" using removeRebootCurrent_ok [OF ok2, of "rj_Fingerprint ?e"] d by simp
      moreover have "store_ok s4" if "rj_Phase ?e \<noteq> rebootPhaseCompleted"
        using writeRebootCurrent_at [OF c]
      proof
        assume **: "r4 = None \<and> cur_at s4 = (cur_at s2)(rj_Fingerprint ?e \<mapsto> Plain (Sealed (journal_key E) ?e)) \<and>
          rop_at s4 = rop_at s2"
        show ?thesis
          by (rule store_ok_put_cur [OF ok2, where fp = "rj_Fingerprint ?e" and e = ?e])
            (use * ** that id0 same in auto)
      qed (use ok2 same_files_ok in auto)
      ultimately show ?thesis
        using up rd Inr w * c d
        by (auto simp: updateReboot_def Let_def split: option.splits if_splits)
    qed
  qed
qed

lemma mark_same [simp]:
  "rj_OperationID (markPhase mp e) = rj_OperationID e" "rj_Fingerprint (markPhase mp e) = rj_Fingerprint e"
  "rj_OperationID (markFailed x e) = rj_OperationID e" "rj_Fingerprint (markFailed x e) = rj_Fingerprint e"
  "rj_OperationID (markCompleted E x e) = rj_OperationID e" "rj_Fingerprint (markCompleted E x e) = rj_Fingerprint e"
  by (simp_all add: markPhase_def markFailed_def markCompleted_def)

lemma reboot_step_ok: "reboot_step s s' \<Longrightarrow> store_ok s \<Longrightarrow> store_ok s'"
proof (induction rule: reboot_step.induct)
  case (later_faults s bs)
  then show ?case by (simp add: store_ok_def rop_at_def cur_at_def)
qed (auto intro: Prepare_ok updateReboot_ok simp: MarkPhase_def MarkFailed_def MarkCompleted_def)

interpretation reboots: transition_system empty_store reboot_step store_ok
  by unfold_locales
    (simp add: empty_store_def store_ok_def rop_at_def cur_at_def, rule reboot_step_ok)

subsection \<open>Resuming a request\<close>

lemma rfault_calm [simp]: "rs_faults s = [] \<Longrightarrow> rfault s = (False, s)"
  by (simp add: rfault_def)

lemma rebootFingerprint_Inr: "\<exists>fp. rebootFingerprint E p = Inr fp"
  by (simp add: rebootFingerprint_def DigestBytes_def)

lemma Prepare_found:
  assumes "rs_faults s = []" "journal_key E \<noteq> []" "rebootFingerprint E p = Inr fp"
    and "cur_at s fp = Some (Plain (Sealed (journal_key E) e))" "resumable (rj_Phase e)"
  shows "Prepare E p s = (Inr e, s)"
  using assms
  by (simp add: Prepare_def ensureRebootDirs_def readRebootCurrent_def decodeEntry_def cur_at_def
      unmarshalEncryptedJSON_def runtimeJournalKeyBytes_def)

lemma createReboot_calm:
  assumes "rs_faults s = []" "journal_key E \<noteq> []"
  shows "\<exists>s'. createReboot E fp p s = (Inr (newRebootEntry E fp p), s') \<and> rs_faults s' = [] \<and>
     cur_at s' fp = Some (Plain (Sealed (journal_key E) (newRebootEntry E fp p)))"
  using assms
  by (simp add: createReboot_def Let_def writeRebootOperation_def writeRebootCurrent_def cur_at_def
      marshalEncryptedJSON_def runtimeJournalKeyBytes_def dir.get_put)

lemma removeRebootCurrent_calm: "rs_faults s = [] \<Longrightarrow> rs_faults (snd (removeRebootCurrent fp s)) = []"
  by (simp add: removeRebootCurrent_def)

text \<open>A calm Prepare returns the current entry of the fingerprint: the one it found or a new one.\<close>

lemma Prepare_calm:
  assumes "rs_faults s = []" "journal_key E \<noteq> []" "rebootFingerprint E p = Inr fp"
  shows "\<exists>e s'. Prepare E p s = (Inr e, s') \<and> rs_faults s' = [] \<and>
     cur_at s' fp = Some (Plain (Sealed (journal_key E) e)) \<and>
     ((cur_at s fp = Some (Plain (Sealed (journal_key E) e)) \<and> resumable (rj_Phase e)) \<or> e = newRebootEntry E fp p)"
proof (cases "\<exists>x. cur_at s fp = Some (Plain (Sealed (journal_key E) x)) \<and> resumable (rj_Phase x)")
  case True
  with Prepare_found [OF assms] assms(1) show ?thesis by blast
next
  case False
  let ?d = "snd (removeRebootCurrent fp s)"
  have e1: "ensureRebootDirs s = (None, s)" using assms(1) by (simp add: ensureRebootDirs_def)
  obtain r where rd: "readRebootCurrent E fp s = (r, s)"
    using assms(1) by (simp add: readRebootCurrent_def)
  with readRebootCurrent_same [OF rd] False have nr: "\<not> resumable (rj_Phase x)" if "r = Inr x" for x
    using that by blast
  have "Prepare E p s = createReboot E fp p s \<or> Prepare E p s = createReboot E fp p ?d"
    using e1 rd nr assms(3) by (cases r) (auto simp: Prepare_def)
  with createReboot_calm [OF assms(1,2), of fp p]
    createReboot_calm [OF removeRebootCurrent_calm [OF assms(1), of fp] assms(2), of fp p]
  show ?thesis by metis
qed

lemma updateReboot_calm:
  assumes "rs_faults s = []" and "updateReboot E i mutate s = (Inr e, s')"
  shows "\<exists>e0. rop_at s i = Some (Plain (Sealed (journal_key E) e0)) \<and> journal_key E \<noteq> [] \<and>
     e = (mutate e0)\<lparr>rj_UpdatedAt := now E\<rparr> \<and> rs_faults s' = [] \<and>
     cur_at s' (rj_Fingerprint e) = (if rj_Phase e = rebootPhaseCompleted then None
        else Some (Plain (Sealed (journal_key E) e)))"
proof -
  obtain r where rd: "readRebootOperation E i s = (r, s)"
    using assms(1) by (simp add: readRebootOperation_def)
  with assms(2) obtain e0 where r: "r = Inr e0" by (cases r) (auto simp: updateReboot_def)
  from rd r assms(1) have key: "journal_key E \<noteq> []"
    by (auto simp: readRebootOperation_def decodeEntry_Inr)
  with readRebootOperation_same [OF rd] r assms rd show ?thesis
    by (auto simp: updateReboot_def Let_def writeRebootOperation_def writeRebootCurrent_def removeRebootCurrent_def
        marshalEncryptedJSON_def runtimeJournalKeyBytes_def cur_at_def dir.get_put dir.get_del
        split: if_splits)
qed

text \<open>C4: a reboot request is resumed, not repeated. In every reachable reboot journal, when a
  prepared operation has been marked with any phase but \<open>completed\<close>, preparing the same request
  again (by any executor with the same key and digest functions) returns that operation with its
  latest phase and changes nothing.\<close>

theorem reboot_request_resumes:
  assumes "empty_store s\<^sub>0" and "reboot_step\<^sup>*\<^sup>* s\<^sub>0 s" and "rs_faults s = []"
    and "journal_key E \<noteq> []" and "rop_at s (newRebootOperationID E) = None"
    and same: "journal_key E' = journal_key E" "journal_key E'' = journal_key E" "hashfns E'' = hashfns E"
    and prep: "Prepare E p s = (Inr e, s1)"
    and mark: "MarkPhase E' mp s1 = (Inr e2, s2)" and "mp_OperationID mp = rj_OperationID e"
    and "resumable (mp_Phase mp)"
  shows "Prepare E'' p s2 = (Inr e2, s2) \<and> rj_OperationID e2 = rj_OperationID e"
proof -
  from reboots.inv_reachable [OF assms(1,2)] have "store_ok s" .
  from Prepare_ok [OF this assms(5) prep] have ok1: "store_ok s1" .
  obtain fp where fp: "rebootFingerprint E p = Inr fp" using rebootFingerprint_Inr by blast
  from Prepare_calm [OF assms(3,4) fp] prep have s1: "rs_faults s1 = []"
    "cur_at s1 fp = Some (Plain (Sealed (journal_key E) e))" by auto
  from store_okD(4) [OF ok1 s1(2)] obtain k' e' where
    e': "rop_at s1 (rj_OperationID e) = Some (Plain (Sealed k' e'))" "rj_Fingerprint e' = fp" by blast
  from updateReboot_calm [OF s1(1)] mark obtain e0 where
    e0: "rop_at s1 (mp_OperationID mp) = Some (Plain (Sealed (journal_key E') e0))"
    "e2 = (markPhase mp e0)\<lparr>rj_UpdatedAt := now E'\<rparr>" "rs_faults s2 = []"
    "cur_at s2 (rj_Fingerprint e2) = (if rj_Phase e2 = rebootPhaseCompleted then None
        else Some (Plain (Sealed (journal_key E') e2)))"
    unfolding MarkPhase_def by blast
  with e' assms(11) have "e0 = e'" by simp
  then have f2: "rj_Fingerprint e2 = fp" "rj_OperationID e2 = rj_OperationID e" "rj_Phase e2 = mp_Phase mp"
    using e0(2) e'(2) store_okD(1) [OF ok1 e'(1)] by (simp_all add: markPhase_def)
  have "mp_Phase mp \<noteq> rebootPhaseCompleted"
    using assms(12) by (auto simp: resumable_def phase_defs)
  with e0(4) f2 same have cur: "cur_at s2 fp = Some (Plain (Sealed (journal_key E'') e2))" by simp
  have "rebootFingerprint E'' p = Inr fp" using fp same(3) by (simp add: rebootFingerprint_def)
  from Prepare_found [OF e0(3) _ this cur] assms(4,12) same f2 show ?thesis by simp
qed

definition demo_reboot :: RebootJournalPrepareParams where
  "demo_reboot = \<lparr>rp_HostAddress = ''h'', rp_PName = ''n'', rp_Reason = ''r'', rp_RebootCommand = [],
     rp_TimeoutSeconds = 900, rp_SettleSeconds = 15\<rparr>"

definition demo_mark :: RebootJournalMarkPhaseParams where
  "demo_mark = \<lparr>mp_OperationID = ''rand:61'', mp_Phase = ''reboot_issued'', mp_StableHostID = [],
     mp_PreBootID = [], mp_PostBootID = [], mp_RebootCommand = ''reboot''\<rparr>"

definition demo_store :: rebootStore where
  "demo_store = \<lparr>rs_operations = [], rs_current = [], rs_faults = []\<rparr>"

definition demo_E :: env where "demo_E = demo_env 7 ''a'' (\<lambda>p. p = 7)"

lemma demo_reboot_runs:
  "case Prepare demo_E demo_reboot demo_store of
     (Inl e, s1) \<Rightarrow> False
   | (Inr e, s1) \<Rightarrow> rj_OperationID e = ''rand:61'' \<and>
       (case MarkPhase demo_E demo_mark s1 of (Inl e2, s2) \<Rightarrow> False | (Inr e2, s2) \<Rightarrow> True)"
  by code_simp

lemma reboot_request_resumes_witness:
  "\<exists>e e2 s1 s2. Prepare demo_E demo_reboot demo_store = (Inr e, s1) \<and>
     MarkPhase demo_E demo_mark s1 = (Inr e2, s2) \<and> Prepare demo_E demo_reboot s2 = (Inr e2, s2)"
proof -
  obtain e s1 e2 s2 where p: "Prepare demo_E demo_reboot demo_store = (Inr e, s1)"
    and id: "rj_OperationID e = ''rand:61''" and m: "MarkPhase demo_E demo_mark s1 = (Inr e2, s2)"
    using demo_reboot_runs by (auto split: prod.splits sum.splits)
  have "resumable (mp_Phase demo_mark)"
    by (simp add: demo_mark_def resumable_def rebootPhaseRebootIssued_def)
  with reboot_request_resumes [OF _ rtranclp.rtrancl_refl _ _ _ refl refl refl p m] id
  have "Prepare demo_E demo_reboot s2 = (Inr e2, s2)"
    by (simp add: empty_store_def demo_store_def demo_E_def demo_env_def rop_at_def demo_mark_def)
  with p m show ?thesis by blast
qed

end
