(* ===== verification/GoText.thy ===== *)
theory GoText
  imports Prelude
begin

text \<open>
  More of Go's \<open>strings\<close>, \<open>bytes\<close>, \<open>unicode/utf8\<close> and \<open>strconv\<close>, as the host session
  and the transport use them. \<open>ToLower\<close> and \<open>EqualFold\<close> are given on ASCII letters; the program
  compares with ASCII constants only.
\<close>

definition ascii_lower :: "char \<Rightarrow> char" where
  "ascii_lower c = (if 65 \<le> (of_char c :: nat) \<and> (of_char c :: nat) \<le> 90 then char_of ((of_char c :: nat) + 32) else c)"

definition ToLower :: "string \<Rightarrow> string" where
  "ToLower s = map ascii_lower s"

definition EqualFold :: "string \<Rightarrow> string \<Rightarrow> bool" where
  "EqualFold s t \<longleftrightarrow> ToLower s = ToLower t"

definition HasSuffix :: "string \<Rightarrow> string \<Rightarrow> bool" where
  "HasSuffix s p \<longleftrightarrow> HasPrefix (rev s) (rev p)"

text \<open>\<open>strings.Trim\<close> and \<open>strings.TrimRight\<close> with a set of ASCII characters.\<close>

definition TrimLeftSet :: "string \<Rightarrow> string \<Rightarrow> string" where
  "TrimLeftSet cutset s = dropWhile (\<lambda>c. c \<in> set cutset) s"

definition TrimRightSet :: "string \<Rightarrow> string \<Rightarrow> string" where
  "TrimRightSet cutset s = rev (TrimLeftSet cutset (rev s))"

definition TrimSet :: "string \<Rightarrow> string \<Rightarrow> string" where
  "TrimSet cutset s = TrimRightSet cutset (TrimLeftSet cutset s)"

lemma set_TrimSet: "set (TrimSet cutset s) \<subseteq> set s"
  by (auto simp: TrimSet_def TrimRightSet_def TrimLeftSet_def dest!: set_dropWhileD)

lemma dropWhile_hd: "dropWhile P xs \<noteq> [] \<Longrightarrow> \<not> P (hd (dropWhile P xs))"
  by (induction xs) auto

lemma dropWhile_append_last:
  "xs \<noteq> [] \<Longrightarrow> \<not> P (last xs) \<Longrightarrow> dropWhile P xs \<noteq> [] \<and> last (dropWhile P xs) = last xs"
  by (induction xs) auto

lemma TrimSet_ends:
  assumes "TrimSet cutset s \<noteq> []"
  shows "hd (TrimSet cutset s) \<notin> set cutset" "last (TrimSet cutset s) \<notin> set cutset"
proof -
  let ?l = "TrimLeftSet cutset s"
  have t: "TrimSet cutset s = rev (dropWhile (\<lambda>c. c \<in> set cutset) (rev ?l))"
    by (simp add: TrimSet_def TrimRightSet_def TrimLeftSet_def)
  with assms have ne: "dropWhile (\<lambda>c. c \<in> set cutset) (rev ?l) \<noteq> []" by simp
  from dropWhile_hd [OF ne] ne show "last (TrimSet cutset s) \<notin> set cutset" by (simp add: t last_rev)
  have l: "?l \<noteq> []" using ne by auto
  have "hd ?l \<notin> set cutset"
    using dropWhile_hd [of "\<lambda>c. c \<in> set cutset" s] l by (simp add: TrimLeftSet_def)
  moreover have "last (dropWhile (\<lambda>c. c \<in> set cutset) (rev ?l)) = hd ?l"
    using dropWhile_append_last [of "rev ?l" "\<lambda>c. c \<in> set cutset"] l calculation by (simp add: last_rev)
  ultimately show "hd (TrimSet cutset s) \<notin> set cutset" using ne by (simp add: t hd_rev)
qed

text \<open>\<open>utf8.DecodeRune\<close>: the number of bytes of the first rune; an invalid byte is a rune of its
  own.\<close>

definition cont_byte :: "nat \<Rightarrow> bool" where
  "cont_byte b \<longleftrightarrow> 128 \<le> b \<and> b \<le> 191"

definition rune_width :: "nat list \<Rightarrow> nat" where
  "rune_width bs =
     (case bs of
        b0 # b1 # rest \<Rightarrow>
          if 194 \<le> b0 \<and> b0 \<le> 223 \<and> cont_byte b1 then 2
          else (case rest of
             b2 # rest' \<Rightarrow>
               if cont_byte b2 \<and> (b0 = 224 \<and> 160 \<le> b1 \<and> b1 \<le> 191 \<or>
                    225 \<le> b0 \<and> b0 \<le> 236 \<and> cont_byte b1 \<or> b0 = 237 \<and> 128 \<le> b1 \<and> b1 \<le> 159 \<or>
                    238 \<le> b0 \<and> b0 \<le> 239 \<and> cont_byte b1) then 3
               else (case rest' of
                  b3 # _ \<Rightarrow>
                    if cont_byte b2 \<and> cont_byte b3 \<and> (b0 = 240 \<and> 144 \<le> b1 \<and> b1 \<le> 191 \<or>
                       241 \<le> b0 \<and> b0 \<le> 243 \<and> cont_byte b1 \<or> b0 = 244 \<and> 128 \<le> b1 \<and> b1 \<le> 143) then 4 else 1
                | [] \<Rightarrow> 1)
           | [] \<Rightarrow> 1)
      | _ \<Rightarrow> 1)"

lemma rune_width_pos: "0 < rune_width bs"
  by (auto simp: rune_width_def split: list.splits)

definition string_bytes :: "string \<Rightarrow> nat list" where
  "string_bytes s = map of_char s"

text \<open>The runes of a string: a single ASCII character, or anything else.\<close>

datatype rune = Ascii char | Wide

function runes :: "string \<Rightarrow> rune list" where
  "runes [] = []"
| "runes (c # s) =
     (if (of_char c :: nat) < 128 then Ascii c # runes s
      else Wide # runes (drop (rune_width (string_bytes (c # s))) (c # s)))"
  by pat_completeness auto
termination
  by (relation "measure length") (use rune_width_pos in auto)

text \<open>\<open>bytes.LastIndex\<close>: what stands before and after the last occurrence.\<close>

fun lastIndex :: "string \<Rightarrow> string \<Rightarrow> (string \<times> string) option" where
  "lastIndex p [] = (if p = [] then Some ([], []) else None)"
| "lastIndex p (c # s) =
     (case lastIndex p s of
        Some (a, b) \<Rightarrow> Some (c # a, b)
      | None \<Rightarrow> if HasPrefix (c # s) p then Some ([], drop (length p) (c # s)) else None)"

text \<open>\<open>strconv.Atoi\<close> on a 64-bit machine.\<close>

definition is_digit :: "char \<Rightarrow> bool" where
  "is_digit c \<longleftrightarrow> 48 \<le> (of_char c :: nat) \<and> (of_char c :: nat) \<le> 57"

definition digits_value :: "string \<Rightarrow> nat" where
  "digits_value s = foldl (\<lambda>n c. 10 * n + ((of_char c :: nat) - 48)) 0 s"

definition Atoi :: "string \<Rightarrow> int option" where
  "Atoi s =
     (let neg = (s \<noteq> [] \<and> hd s = CHR ''-'');
          ds = (if s \<noteq> [] \<and> (hd s = CHR ''-'' \<or> hd s = CHR ''+'') then tl s else s);
          v = int (digits_value ds) in
      if ds = [] \<or> \<not> list_all is_digit ds then None
      else if neg then (if v \<le> 2 ^ 63 then Some (- v) else None)
      else if v < 2 ^ 63 then Some v else None)"

lemma digit_char_digit: "n < 10 \<Longrightarrow> is_digit (digit_char n) \<and> (of_char (digit_char n) :: nat) = 48 + n"
proof -
  assume "n < 10"
  then have "n \<in> {0,1,2,3,4,5,6,7,8,9}" by auto
  then show ?thesis by (auto simp: digit_char_def is_digit_def)
qed

lemma show_nat_digits: "list_all is_digit (show_nat n) \<and> show_nat n \<noteq> [] \<and> digits_value (show_nat n) = n"
proof (induction n rule: show_nat.induct)
  case (1 n)
  show ?case
  proof (cases "n < 10")
    case True
    then show ?thesis using digit_char_digit [OF True] by (simp add: show_nat.simps [of n] digits_value_def)
  next
    case False
    with 1 digit_char_digit [of "n mod 10"] show ?thesis
      by (simp add: show_nat.simps [of n] digits_value_def)
  qed
qed

lemma Atoi_show_nat: "n < 2 ^ 63 \<Longrightarrow> Atoi (show_nat n) = Some (int n)"
proof -
  assume n: "n < 2 ^ 63"
  have d: "list_all is_digit (show_nat n)" "show_nat n \<noteq> []" "digits_value (show_nat n) = n"
    using show_nat_digits by auto
  have "is_digit (hd (show_nat n))" using d(1,2) by (cases "show_nat n") auto
  then have "hd (show_nat n) \<noteq> CHR ''-''" "hd (show_nat n) \<noteq> CHR ''+''" by (auto simp: is_digit_def)
  with d n show ?thesis by (simp add: Atoi_def Let_def)
qed

text \<open>\<open>int64\<close> arithmetic wraps.\<close>

definition wrap64 :: "int \<Rightarrow> int" where
  "wrap64 x = (x + 2 ^ 63) mod 2 ^ 64 - 2 ^ 63"

lemma wrap64_id: "- (2 ^ 63) \<le> x \<Longrightarrow> x < 2 ^ 63 \<Longrightarrow> wrap64 x = x"
  by (simp add: wrap64_def)

text \<open>Division by a positive number truncates towards zero.\<close>

definition go_quot :: "int \<Rightarrow> int \<Rightarrow> int" where
  "go_quot a b = (if a < 0 then - (- a div b) else a div b)"

text \<open>\<open>strings.ReplaceAll(s, c, "")\<close> for a single character.\<close>

definition remove_char :: "char \<Rightarrow> string \<Rightarrow> string" where
  "remove_char c s = filter (\<lambda>x. x \<noteq> c) s"

subsection \<open>Trimming and lower case\<close>

lemma space_at_start_append: "space_at_start (u @ q) = 0 \<Longrightarrow> space_at_start u = 0"
proof (cases u)
  case (Cons a v)
  assume "space_at_start (u @ q) = 0"
  with Cons show ?thesis
  proof (cases v)
    case (Cons b x)
    with \<open>u = a # v\<close> \<open>space_at_start (u @ q) = 0\<close> show ?thesis by (cases x) (simp_all split: if_splits)
  qed (simp split: if_splits)
qed simp

lemma TrimSpace_idem: "TrimSpace (TrimSpace s) = TrimSpace s"
proof (cases "TrimSpace s = []")
  case False
  let ?t = "trim_by space_at_start s"
  obtain q where q: "rev ?t = q @ trim_by space_at_end (rev ?t)" using trim_by_suffix by blast
  then have t: "?t = TrimSpace s @ rev q" by (metis TrimSpace_def rev_append rev_rev_ident)
  with False have "?t \<noteq> []" by auto
  with trim_by_fixed [of space_at_start s] have "space_at_start ?t = 0" by blast
  then have "space_at_start (TrimSpace s) = 0" using space_at_start_append t by metis
  moreover have "space_at_end (rev (TrimSpace s)) = 0"
    using trim_by_fixed [of space_at_end "rev ?t"] False by (auto simp: TrimSpace_def)
  ultimately show ?thesis by (rule TrimSpace_keep)
qed simp

lemma TrimSpace_start: "TrimSpace s = s \<Longrightarrow> s \<noteq> [] \<Longrightarrow> space_at_start s = 0"
proof -
  assume s: "TrimSpace s = s" "s \<noteq> []"
  let ?t = "trim_by space_at_start s"
  obtain q where "rev ?t = q @ trim_by space_at_end (rev ?t)" using trim_by_suffix by blast
  then have t: "?t = s @ rev q" using s(1) unfolding TrimSpace_def by (metis rev_append rev_rev_ident)
  then have "?t \<noteq> []" using s(2) by simp
  then show ?thesis using trim_by_fixed [of space_at_start s] space_at_start_append t by metis
qed

lemma ascii_lower_code:
  "(of_char (ascii_lower c) :: nat) =
     (if 65 \<le> (of_char c :: nat) \<and> (of_char c :: nat) \<le> 90 then of_char c + 32 else of_char c)"
  by (simp add: ascii_lower_def)

lemma ascii_lower_eq:
  assumes "\<not> (65 \<le> (of_char d :: nat) \<and> (of_char d :: nat) \<le> 122)"
  shows "ascii_lower c = d \<longleftrightarrow> c = d"
proof -
  have "(of_char (ascii_lower c) :: nat) = of_char d \<longleftrightarrow> (of_char c :: nat) = of_char d"
    using assms by (auto simp: ascii_lower_code)
  then show ?thesis by simp
qed

lemma spaces_lower [simp]:
  "ascii_space (ascii_lower c) = ascii_space c" "space2 (ascii_lower a) (ascii_lower b) = space2 a b"
  "space3 (ascii_lower a) (ascii_lower b) (ascii_lower c) = space3 a b c"
  by (simp_all add: ascii_space_def space2_def space3_def ascii_lower_eq)

lemma space_at_lower [simp]:
  "space_at_start (map ascii_lower s) = space_at_start s" "space_at_end (map ascii_lower s) = space_at_end s"
  by (cases s rule: space_at_start.cases, auto split: list.splits)+

lemma trim_by_map:
  "(\<And>s. sp (map f s) = sp s) \<Longrightarrow> trim_by sp (map f s) = map f (trim_by sp s)"
proof (induction sp s rule: trim_by.induct)
  case (1 sp s)
  show ?case
  proof (cases "s = [] \<or> sp s = 0")
    case True
    then show ?thesis using "1.prems" by (simp add: trim_by.simps [of sp "map f s"] trim_by.simps [of sp s])
  next
    case False
    then have "trim_by sp (map f s) = trim_by sp (map f (drop (sp s) s))"
      using "1.prems" by (simp add: trim_by.simps [of sp "map f s"] drop_map)
    with "1.IH" [OF False "1.prems"] False show ?thesis by (simp add: trim_by.simps [of sp s])
  qed
qed

lemma TrimSpace_lower: "TrimSpace (ToLower s) = ToLower (TrimSpace s)"
  by (simp add: TrimSpace_def ToLower_def trim_by_map rev_map)

lemma ToLower_idem: "ToLower (ToLower s) = ToLower s"
proof -
  have "ascii_lower (ascii_lower c) = ascii_lower c" for c
    using ascii_lower_code [of c] by (auto simp: ascii_lower_def [of "ascii_lower c"])
  then show ?thesis by (simp add: ToLower_def)
qed

end
