(* ===== verification/ConnPool.thy ===== *)
theory ConnPool
  imports GoText "HOL-Library.AList"
begin

text \<open>
  providers/shared/transport: transport.go (the identity of a target) and pool.go (the pool of
  sessions, the retry of a connection), with \<open>isRetryableConnectError\<close> of ssh.go.

  Every section of the pool's code that runs under its mutex is one state transformer. Sessions are
  shared objects: the pool's map holds references into \<open>heap\<close>. Go iterates a map in no fixed
  order; the eviction scans the association list's order, which decides only between sessions of
  the same age. Logging and the SSH library are left out: what a connection attempt answered is an
  argument.
\<close>

subsection \<open>transport.go\<close>

definition TransportSSH :: string where "TransportSSH = ''ssh''"
definition TransportLocal :: string where "TransportLocal = ''local''"

lemma transport_names [simp]: "TransportSSH \<noteq> TransportLocal" "TransportLocal \<noteq> []" "TransportSSH \<noteq> []"
  by (simp_all add: TransportSSH_def TransportLocal_def)

record TransportConfig =
  tc_SSHUser :: string
  tc_SSHPrivateKey :: string
  tc_SSHCertificate :: string
  tc_SSHAgent :: bool
  tc_SSHKnownHostsFile :: string
  tc_SSHHostKeyTrust :: "nat option"
  tc_SSHHostKeyFingerprint :: string
  tc_Target :: string
  tc_Port :: int
  tc_Transport :: string

definition NormalizedTransport :: "TransportConfig \<Rightarrow> string" where
  "NormalizedTransport c =
     (let transportName = ToLower (TrimSpace (tc_Transport c)) in
      if transportName \<noteq> [] then transportName
      else if EqualFold (TrimSpace (tc_Target c)) TransportLocal then TransportLocal
      else TransportSSH)"

definition IsLocal :: "TransportConfig \<Rightarrow> bool" where
  "IsLocal c \<longleftrightarrow> NormalizedTransport c = TransportLocal"

definition NormalizedTarget :: "TransportConfig \<Rightarrow> string" where
  "NormalizedTarget c =
     (let target = TrimSpace (tc_Target c) in
      if HasPrefix target ''['' \<and> HasSuffix target '']''
      then (let inner = TrimPrefix target ''['' in if HasSuffix inner '']'' then butlast inner else inner)
      else target)"

definition ResolvedPort :: "TransportConfig \<Rightarrow> int" where
  "ResolvedPort c = (if IsLocal c then 0 else if tc_Port c > 0 then tc_Port c else 22)"

text \<open>\<open>net.JoinHostPort\<close>.\<close>

definition JoinHostPort :: "string \<Rightarrow> string \<Rightarrow> string" where
  "JoinHostPort host port =
     (if CHR '':'' \<in> set host \<or> CHR ''%'' \<in> set host then ''['' @ host @ '']:'' @ port
      else host @ '':'' @ port)"

definition Endpoint :: "TransportConfig \<Rightarrow> string" where
  "Endpoint c =
     (if IsLocal c then TransportLocal
      else let target = NormalizedTarget c in
           if target = [] then [] else JoinHostPort target (show_int (ResolvedPort c)))"

definition DisplayTarget :: "TransportConfig \<Rightarrow> string" where
  "DisplayTarget c =
     (if IsLocal c then TransportLocal
      else if Endpoint c \<noteq> [] then Endpoint c else NormalizedTarget c)"

definition CacheKey :: "TransportConfig \<Rightarrow> string" where
  "CacheKey c =
     (if IsLocal c then TransportLocal else NormalizedTransport c @ ''|'' @ ToLower (Endpoint c))"

subsection \<open>Errors of a connection attempt\<close>

text \<open>What the retry logic can observe of an error; wrapping with \<open>%w\<close> changes the text only.\<close>

record connectError =
  ce_text :: string
  ce_canceled :: bool
  ce_deadline :: bool
  ce_keyWant :: "nat option"
  ce_revoked :: bool
  ce_timeout :: bool
  ce_net :: bool

definition plainError :: "string \<Rightarrow> connectError" where
  "plainError m = \<lparr>ce_text = m, ce_canceled = False, ce_deadline = False, ce_keyWant = None,
     ce_revoked = False, ce_timeout = False, ce_net = False\<rparr>"

definition wrapError :: "string \<Rightarrow> connectError \<Rightarrow> connectError" where
  "wrapError pre e = e\<lparr>ce_text := pre @ ce_text e\<rparr>"

definition nonRetryableTexts :: "string list" where
  "nonRetryableTexts = [''unable to authenticate'', ''no supported methods remain'', ''parse private key'',
     ''no ssh authentication method configured'', ''key mismatch'', ''key is revoked'',
     ''parse known_hosts'', ''host verification'', ''adopt new host key'']"

definition retryableTexts :: "string list" where
  "retryableTexts = [''dial tcp'', ''handshake failed'', ''connection refused'', ''connection reset'',
     ''connection closed'', ''broken pipe'', ''no route to host'', ''network is unreachable'',
     ''resource temporarily unavailable'', ''eof'']"

definition isRetryableConnectError :: "connectError \<Rightarrow> bool" where
  "isRetryableConnectError e \<longleftrightarrow>
     (if ce_canceled e then False
      else case ce_keyWant e of
        Some want \<Rightarrow> want = 0
      | None \<Rightarrow>
          if ce_revoked e then False
          else if ce_timeout e then True
          else if ce_net e then True
          else let message = ToLower (ce_text e) in
            if list_ex (Contains message) nonRetryableTexts then False
            else list_ex (Contains message) retryableTexts)"

subsection \<open>Retry policies\<close>

record ConnectRetryPolicy =
  cr_MaxAttempts :: int
  cr_InitialBackoff :: int
  cr_MaxBackoff :: int
  cr_TotalTimeout :: int

definition defaultConnectRetryPolicy :: ConnectRetryPolicy where
  "defaultConnectRetryPolicy = \<lparr>cr_MaxAttempts = 120, cr_InitialBackoff = 500000000,
     cr_MaxBackoff = 3000000000, cr_TotalTimeout = 300000000000\<rparr>"

definition defaultReconnectRetryPolicy :: ConnectRetryPolicy where
  "defaultReconnectRetryPolicy = defaultConnectRetryPolicy\<lparr>cr_TotalTimeout := 60000000000\<rparr>"

definition normalizeConnectRetryPolicy :: "ConnectRetryPolicy \<Rightarrow> ConnectRetryPolicy \<Rightarrow> ConnectRetryPolicy" where
  "normalizeConnectRetryPolicy policy defaults =
     (let attempts = (if cr_MaxAttempts policy \<le> 0 then cr_MaxAttempts defaults else cr_MaxAttempts policy);
          initial = (if cr_InitialBackoff policy \<le> 0 then cr_InitialBackoff defaults else cr_InitialBackoff policy);
          max0 = (if cr_MaxBackoff policy \<le> 0 then cr_MaxBackoff defaults else cr_MaxBackoff policy);
          max1 = (if max0 < initial then initial else max0);
          total = (if cr_TotalTimeout policy \<le> 0 then cr_TotalTimeout defaults else cr_TotalTimeout policy)
      in \<lparr>cr_MaxAttempts = attempts, cr_InitialBackoff = initial, cr_MaxBackoff = max1, cr_TotalTimeout = total\<rparr>)"

text \<open>The doubling loop; durations are 64-bit integers.\<close>

fun backoffLoop :: "nat \<Rightarrow> int \<Rightarrow> int \<Rightarrow> int" where
  "backoffLoop 0 mx b = (if b > mx then mx else b)"
| "backoffLoop (Suc n) mx b = (let b' = wrap64 (b * 2) in if b' \<ge> mx then mx else backoffLoop n mx b')"

definition connectRetryBackoff :: "ConnectRetryPolicy \<Rightarrow> nat \<Rightarrow> int" where
  "connectRetryBackoff policy attempt = backoffLoop attempt (cr_MaxBackoff policy) (cr_InitialBackoff policy)"

text \<open>\<open>time.Duration.String\<close> of a value rounded as \<open>formatRetryDuration\<close> does: to milliseconds
  below a second, to seconds from there on; halves are rounded away from zero.\<close>

definition round_to :: "int \<Rightarrow> int \<Rightarrow> int" where
  "round_to unit v = (v + unit div 2) div unit"

definition secondsString :: "int \<Rightarrow> string" where
  "secondsString s =
     (let h = s div 3600; m = (s div 60) mod 60; r = s mod 60 in
      if h > 0 then show_int h @ ''h'' @ show_int m @ ''m'' @ show_int r @ ''s''
      else if m > 0 then show_int m @ ''m'' @ show_int r @ ''s''
      else show_int r @ ''s'')"

definition formatRetryDuration :: "int \<Rightarrow> string" where
  "formatRetryDuration v =
     (if v \<le> 0 then ''0s''
      else if v < 1000000000 then
        (let ms = round_to 1000000 v in
         if ms = 0 then ''0s'' else if ms = 1000 then ''1s'' else show_int ms @ ''ms'')
      else secondsString (round_to 1000000000 v))"

subsection \<open>Connecting with retries\<close>

text \<open>What the outside does at one attempt: the retry context's error at the top of the loop (with
  the time elapsed since the start), the outcome of \<open>Connect\<close>, and the outcome of the sleep.\<close>

record 't connectRound =
  rd_ctx :: "(connectError \<times> int) option"
  rd_connect :: "connectError + 't"
  rd_sleep :: "(connectError \<times> int) option"

definition wrapConnectContextError ::
    "string \<Rightarrow> string \<Rightarrow> int \<Rightarrow> connectError option \<Rightarrow> connectError \<Rightarrow> connectError" where
  "wrapConnectContextError oper cacheKey elapsed lastErr err =
     (if ce_canceled err then err
      else if \<not> ce_deadline err then err
      else let pre = oper @ '' '' @ cacheKey @ '': timed out after '' @ formatRetryDuration elapsed @
                       '' waiting for SSH availability: '' in
        (case lastErr of
           Some l \<Rightarrow> wrapError (pre @ ''last error: '') l
         | None \<Rightarrow> wrapError pre err))"

text \<open>The loop with \<open>left\<close> attempts to go; the transports that failed are closed. The rounds are
  what happens outside; were they to run out, the context would be done.\<close>

fun connectLoop ::
    "ConnectRetryPolicy \<Rightarrow> string \<Rightarrow> string \<Rightarrow> nat \<Rightarrow> connectError option \<Rightarrow> 't connectRound list
      \<Rightarrow> connectError + 't" where
  "connectLoop policy oper key 0 lastErr rs =
     Inl (wrapError (oper @ '' '' @ key @ '': retry budget exhausted after '' @
            show_int (cr_MaxAttempts policy) @ '' attempts over '' @
            formatRetryDuration (cr_TotalTimeout policy) @ '': '')
          (case lastErr of Some l \<Rightarrow> l | None \<Rightarrow> plainError ''ssh connection failed''))"
| "connectLoop policy oper key (Suc left) lastErr [] = Inl (plainError ''context done'')"
| "connectLoop policy oper key (Suc left) lastErr (r # rs) =
     (case rd_ctx r of
        Some (err, elapsed) \<Rightarrow> Inl (wrapConnectContextError oper key elapsed lastErr err)
      | None \<Rightarrow>
          (case rd_connect r of
             Inr t \<Rightarrow> Inr t
           | Inl err \<Rightarrow>
               if \<not> isRetryableConnectError err then Inl (wrapError (oper @ '' '' @ key @ '': '') err)
               else if left = 0 then connectLoop policy oper key 0 (Some err) rs
               else (case rd_sleep r of
                       Some (serr, elapsed) \<Rightarrow> Inl (wrapConnectContextError oper key elapsed (Some err) serr)
                     | None \<Rightarrow> connectLoop policy oper key left (Some err) rs)))"

definition connectTransportWithRetry ::
    "ConnectRetryPolicy \<Rightarrow> string \<Rightarrow> TransportConfig \<Rightarrow> 't connectRound list \<Rightarrow> connectError + 't" where
  "connectTransportWithRetry policy oper config rs =
     connectLoop policy oper (CacheKey config) (nat (cr_MaxAttempts policy)) None rs"

subsection \<open>The pool\<close>

record SSHConfig =
  sc_User :: string
  sc_PrivateKey :: string
  sc_Certificate :: string
  sc_Agent :: bool
  sc_KnownHostsFile :: string
  sc_HostKeyTrust :: "nat option"

record Session =
  se_Config :: TransportConfig
  se_LastUsed :: int
  se_HostKeyFingerprint :: string
  se_inUse :: int

record ConnectionPool =
  sessions :: "(string \<times> nat) list"
  inflight :: "(string \<times> nat) list"
  heap :: "nat \<Rightarrow> Session"
  maxConns :: int
  connectRetry :: ConnectRetryPolicy
  reconnectRetry :: ConnectRetryPolicy
  poolConfig :: "SSHConfig option"
  nextRef :: nat
  closed :: "nat list"

definition AcquireUse :: "Session \<Rightarrow> Session" where
  "AcquireUse s = s\<lparr>se_inUse := se_inUse s + 1\<rparr>"

definition ReleaseUse :: "Session \<Rightarrow> Session" where
  "ReleaseUse s = (if se_inUse s - 1 < 0 then s\<lparr>se_inUse := 0\<rparr> else s\<lparr>se_inUse := se_inUse s - 1\<rparr>)"

definition InUse :: "Session \<Rightarrow> bool" where
  "InUse s \<longleftrightarrow> se_inUse s > 0"

definition retryPolicyForOperation :: "ConnectionPool \<Rightarrow> string \<Rightarrow> ConnectRetryPolicy" where
  "retryPolicyForOperation p oper =
     (if oper = ''reconnect'' then normalizeConnectRetryPolicy (reconnectRetry p) defaultReconnectRetryPolicy
      else normalizeConnectRetryPolicy (connectRetry p) defaultConnectRetryPolicy)"

definition mergeConfig :: "SSHConfig option \<Rightarrow> TransportConfig \<Rightarrow> TransportConfig" where
  "mergeConfig cfg c =
     (case cfg of
        None \<Rightarrow> c
      | Some d \<Rightarrow> c\<lparr>
          tc_SSHUser := (if tc_SSHUser c = [] then sc_User d else tc_SSHUser c),
          tc_SSHPrivateKey := (if tc_SSHPrivateKey c = [] then sc_PrivateKey d else tc_SSHPrivateKey c),
          tc_SSHCertificate := (if tc_SSHCertificate c = [] then sc_Certificate d else tc_SSHCertificate c),
          tc_SSHAgent := (tc_SSHAgent c \<or> sc_Agent d),
          tc_SSHHostKeyTrust := (if tc_SSHHostKeyTrust c = None then sc_HostKeyTrust d else tc_SSHHostKeyTrust c),
          tc_SSHKnownHostsFile := (if tc_SSHKnownHostsFile c = [] then sc_KnownHostsFile d
                                   else tc_SSHKnownHostsFile c)\<rparr>)"

definition validateSessionTrust :: "Session \<Rightarrow> TransportConfig \<Rightarrow> connectError option \<times> Session" where
  "validateSessionTrust s c =
     (let expected = TrimSpace (tc_SSHHostKeyFingerprint c);
          observed = TrimSpace (se_HostKeyFingerprint s) in
      if expected = [] \<or> observed = [] then
        (None, if expected \<noteq> [] \<and> tc_SSHHostKeyFingerprint (se_Config s) = []
               then s\<lparr>se_Config := (se_Config s)\<lparr>tc_SSHHostKeyFingerprint := expected\<rparr>\<rparr> else s)
      else if expected = observed then
        (None, s\<lparr>se_Config := (se_Config s)\<lparr>tc_SSHHostKeyFingerprint := expected\<rparr>\<rparr>)
      else (Some (plainError (''ssh host key fingerprint mismatch for '' @ Endpoint c @ '': expected '' @
                    expected @ '', got '' @ observed)), s))"

text \<open>The section of \<open>GetOrCreate\<close> under the mutex: wait for an attempt, a session, a trust error,
  or an attempt of one's own.\<close>

datatype getOutcome = WaitFor nat | Got nat | Untrusted connectError | StartAttempt nat

definition getOrCreateSection :: "TransportConfig \<Rightarrow> int \<Rightarrow> ConnectionPool \<Rightarrow> getOutcome \<times> ConnectionPool" where
  "getOrCreateSection merged time p =
     (let key = CacheKey merged in
      case map_of (inflight p) key of
        Some attempt \<Rightarrow> (WaitFor attempt, p)
      | None \<Rightarrow>
          (case map_of (sessions p) key of
             Some ref \<Rightarrow>
               (case validateSessionTrust (heap p ref) merged of
                  (Some err, s) \<Rightarrow> (Untrusted err, p\<lparr>heap := (heap p)(ref := s)\<rparr>)
                | (None, s) \<Rightarrow> (Got ref, p\<lparr>heap := (heap p)(ref := s\<lparr>se_LastUsed := time\<rparr>)\<rparr>))
           | None \<Rightarrow>
               (StartAttempt (nextRef p),
                p\<lparr>inflight := AList.update key (nextRef p) (inflight p), nextRef := nextRef p + 1\<rparr>)))"

text \<open>After waiting for another's attempt that produced a session; a failed one is an error or another
  round.\<close>

definition afterWait :: "TransportConfig \<Rightarrow> int \<Rightarrow> nat \<Rightarrow> ConnectionPool \<Rightarrow> (connectError + nat) \<times> ConnectionPool" where
  "afterWait merged time ref p =
     (case validateSessionTrust (heap p ref) merged of
        (Some err, s) \<Rightarrow> (Inl err, p\<lparr>heap := (heap p)(ref := s)\<rparr>)
      | (None, s) \<Rightarrow> (Inr ref, p\<lparr>heap := (heap p)(ref := s\<lparr>se_LastUsed := time\<rparr>)\<rparr>))"

definition shouldRetryAfterInflightConnectFailure :: "bool \<Rightarrow> connectError option \<Rightarrow> bool" where
  "shouldRetryAfterInflightConnectFailure ctxDone err \<longleftrightarrow>
     (case err of None \<Rightarrow> False | Some e \<Rightarrow> if ctxDone then False else isRetryableConnectError e)"

definition newSession :: "TransportConfig \<Rightarrow> string \<Rightarrow> int \<Rightarrow> Session" where
  "newSession config hostKeyFingerprint time =
     (let fingerprint = TrimSpace hostKeyFingerprint;
          config' = (if fingerprint \<noteq> [] then config\<lparr>tc_SSHHostKeyFingerprint := fingerprint\<rparr> else config) in
      \<lparr>se_Config = config', se_LastUsed = time, se_HostKeyFingerprint = fingerprint, se_inUse = 0\<rparr>)"

text \<open>\<open>evictLRULocked\<close>.\<close>

fun oldestIdle :: "(nat \<Rightarrow> Session) \<Rightarrow> (string \<times> nat) list \<Rightarrow> (string \<times> nat) option \<Rightarrow> (string \<times> nat) option" where
  "oldestIdle h [] best = best"
| "oldestIdle h ((key, ref) # rest) best =
     (if InUse (h ref) then oldestIdle h rest best
      else (case best of
              None \<Rightarrow> oldestIdle h rest (Some (key, ref))
            | Some (k, r) \<Rightarrow>
                if se_LastUsed (h ref) < se_LastUsed (h r) then oldestIdle h rest (Some (key, ref))
                else oldestIdle h rest best))"

definition evictLRULocked :: "ConnectionPool \<Rightarrow> nat option \<times> ConnectionPool" where
  "evictLRULocked p =
     (case oldestIdle (heap p) (sessions p) None of
        None \<Rightarrow> (None, p)
      | Some (key, ref) \<Rightarrow> (Some ref, p\<lparr>sessions := AList.delete key (sessions p)\<rparr>))"

definition closeSession :: "nat \<Rightarrow> ConnectionPool \<Rightarrow> ConnectionPool" where
  "closeSession ref p = p\<lparr>closed := ref # closed p\<rparr>"

text \<open>\<open>finishConnectAttempt\<close>: \<open>result\<close> is the new session, or the error.\<close>

definition finishConnectAttempt ::
    "string \<Rightarrow> nat \<Rightarrow> connectError + Session \<Rightarrow> ConnectionPool \<Rightarrow> (connectError + nat) \<times> ConnectionPool" where
  "finishConnectAttempt key attempt result p =
     (case result of
        Inl err \<Rightarrow>
          (Inl err, if map_of (inflight p) key = Some attempt
                    then p\<lparr>inflight := AList.delete key (inflight p)\<rparr> else p)
      | Inr s \<Rightarrow>
          (let ref = nextRef p;
               p1 = p\<lparr>heap := (heap p)(ref := s), nextRef := ref + 1\<rparr> in
           if map_of (inflight p1) key = Some attempt then
             (let (victim, p2) = (if int (length (sessions p1)) \<ge> maxConns p1 then evictLRULocked p1 else (None, p1));
                  p3 = p2\<lparr>sessions := AList.update key ref (sessions p2),
                          inflight := AList.delete key (inflight p2)\<rparr>
              in (Inr ref, case victim of None \<Rightarrow> p3 | Some v \<Rightarrow> closeSession v p3))
           else (Inr ref, p1)))"

definition reconnectSection :: "nat \<Rightarrow> ConnectionPool \<Rightarrow> getOutcome \<times> ConnectionPool" where
  "reconnectSection ref p =
     (let key = CacheKey (se_Config (heap p ref)) in
      case map_of (inflight p) key of
        Some attempt \<Rightarrow> (WaitFor attempt, p)
      | None \<Rightarrow> (StartAttempt (nextRef p),
                 p\<lparr>inflight := AList.update key (nextRef p) (inflight p), nextRef := nextRef p + 1\<rparr>))"

text \<open>\<open>reconnectSession\<close> on success: the session gets the new transport and its fingerprint.\<close>

definition reconnected :: "string \<Rightarrow> int \<Rightarrow> Session \<Rightarrow> Session" where
  "reconnected hostKeyFingerprint time s =
     (let fingerprint = TrimSpace hostKeyFingerprint in
      s\<lparr>se_LastUsed := time, se_HostKeyFingerprint := fingerprint,
        se_Config := (if fingerprint \<noteq> [] then (se_Config s)\<lparr>tc_SSHHostKeyFingerprint := fingerprint\<rparr>
                      else se_Config s)\<rparr>)"

definition finishReconnectAttempt ::
    "string \<Rightarrow> nat \<Rightarrow> nat \<Rightarrow> connectError option \<Rightarrow> ConnectionPool \<Rightarrow> ConnectionPool" where
  "finishReconnectAttempt key attempt ref err p =
     (if map_of (inflight p) key = Some attempt then
        p\<lparr>sessions := (case err of Some _ \<Rightarrow> AList.delete key (sessions p)
                                 | None \<Rightarrow> AList.update key ref (sessions p)),
          inflight := AList.delete key (inflight p)\<rparr>
      else p)"

definition Remove :: "TransportConfig \<Rightarrow> ConnectionPool \<Rightarrow> ConnectionPool" where
  "Remove config p =
     (let key = CacheKey (mergeConfig (poolConfig p) config) in
      case map_of (sessions p) key of
        None \<Rightarrow> p
      | Some ref \<Rightarrow> closeSession ref (p\<lparr>sessions := AList.delete key (sessions p)\<rparr>))"

definition Close :: "ConnectionPool \<Rightarrow> ConnectionPool" where
  "Close p = fold (\<lambda>(key, ref). closeSession ref) (sessions p) (p\<lparr>sessions := []\<rparr>)"

definition HostKeyFingerprint :: "TransportConfig \<Rightarrow> ConnectionPool \<Rightarrow> string" where
  "HostKeyFingerprint config p =
     (case map_of (sessions p) (CacheKey (mergeConfig (poolConfig p) config)) of
        None \<Rightarrow> [] | Some ref \<Rightarrow> TrimSpace (se_HostKeyFingerprint (heap p ref)))"

record ConnectionPoolOptions =
  po_MaxConnections :: int
  po_ConnectRetry :: ConnectRetryPolicy
  po_ReconnectRetry :: ConnectRetryPolicy

definition normalizeConnectionPoolOptions :: "ConnectionPoolOptions \<Rightarrow> ConnectionPoolOptions" where
  "normalizeConnectionPoolOptions o' = \<lparr>
     po_MaxConnections = (if po_MaxConnections o' \<le> 0 then 50 else po_MaxConnections o'),
     po_ConnectRetry = normalizeConnectRetryPolicy (po_ConnectRetry o') defaultConnectRetryPolicy,
     po_ReconnectRetry = normalizeConnectRetryPolicy (po_ReconnectRetry o') defaultReconnectRetryPolicy\<rparr>"

definition NewConnectionPoolWithOptions :: "SSHConfig option \<Rightarrow> ConnectionPoolOptions \<Rightarrow> ConnectionPool" where
  "NewConnectionPoolWithOptions config options =
     (let o' = normalizeConnectionPoolOptions options in
      \<lparr>sessions = [], inflight = [], heap = (\<lambda>_. undefined), maxConns = po_MaxConnections o',
       connectRetry = po_ConnectRetry o', reconnectRetry = po_ReconnectRetry o', poolConfig = config,
       nextRef = 0, closed = []\<rparr>)"

subsection \<open>Backoff\<close>

lemma backoffLoop_bounds:
  assumes "0 < b" "b \<le> mx" "mx < 2 ^ 62"
  shows "b \<le> backoffLoop n mx b \<and> backoffLoop n mx b \<le> mx \<and> backoffLoop n mx b \<le> backoffLoop (Suc n) mx b"
  using assms
proof (induction n arbitrary: b)
  case 0
  then show ?case by (simp add: Let_def wrap64_id)
next
  case (Suc n)
  have w: "wrap64 (b * 2) = b * 2" using Suc.prems by (simp add: wrap64_id)
  show ?case
  proof (cases "b * 2 \<ge> mx")
    case True
    with Suc.prems show ?thesis by (simp add: Let_def w)
  next
    case False
    with Suc.IH [of "b * 2"] Suc.prems have
      "b * 2 \<le> backoffLoop n mx (b * 2) \<and> backoffLoop n mx (b * 2) \<le> mx \<and>
       backoffLoop n mx (b * 2) \<le> backoffLoop (Suc n) mx (b * 2)" by simp
    moreover have "backoffLoop (Suc m) mx b = backoffLoop m mx (b * 2)" for m
      using False by (simp add: Let_def w)
    ultimately show ?thesis using Suc.prems by auto
  qed
qed

text \<open>C23: the connection backoff. With a policy as the pool normalises it (and a maximum below 2^62 ns,
  146 years, from where doubling would overflow), the wait before every retry lies between
  the initial and the maximum backoff and never gets shorter from one attempt to the next.\<close>

theorem connectRetryBackoff_bounds:
  assumes "policy = normalizeConnectRetryPolicy raw defaultConnectRetryPolicy" and "cr_MaxBackoff policy < 2 ^ 62"
  shows "cr_InitialBackoff policy \<le> connectRetryBackoff policy n \<and>
    connectRetryBackoff policy n \<le> cr_MaxBackoff policy \<and>
    connectRetryBackoff policy n \<le> connectRetryBackoff policy (Suc n)"
  unfolding connectRetryBackoff_def
  by (rule backoffLoop_bounds)
    (use assms in \<open>auto simp: normalizeConnectRetryPolicy_def defaultConnectRetryPolicy_def Let_def\<close>)

lemma connectRetryBackoff_bounds_witness:
  "connectRetryBackoff (normalizeConnectRetryPolicy defaultConnectRetryPolicy defaultConnectRetryPolicy) 2 \<le> 3000000000"
  using connectRetryBackoff_bounds [OF refl, of defaultConnectRetryPolicy 2]
  by (simp add: normalizeConnectRetryPolicy_def defaultConnectRetryPolicy_def Let_def)

subsection \<open>Connecting\<close>

text \<open>A round that lets the loop go on: it failed with an error worth a retry, and the wait after it
  was not cut short.\<close>

definition keeps_trying :: "'t connectRound \<Rightarrow> bool" where
  "keeps_trying r \<longleftrightarrow> rd_ctx r = None \<and> rd_sleep r = None \<and>
     (case rd_connect r of Inl e \<Rightarrow> isRetryableConnectError e | Inr _ \<Rightarrow> False)"

lemma connectLoop_Inr:
  "connectLoop policy oper key n lastErr rs = Inr t \<longleftrightarrow>
     (\<exists>i < min n (length rs). (\<forall>k < i. keeps_trying (rs ! k)) \<and> rd_ctx (rs ! i) = None \<and> rd_connect (rs ! i) = Inr t)"
proof (induction policy oper key n lastErr rs rule: connectLoop.induct)
  case (3 policy oper key left lastErr r rs)
  have split: "(\<exists>i < min (Suc left) (length (r # rs)). (\<forall>k < i. keeps_trying ((r # rs) ! k)) \<and>
        rd_ctx ((r # rs) ! i) = None \<and> rd_connect ((r # rs) ! i) = Inr t) \<longleftrightarrow>
      (rd_ctx r = None \<and> rd_connect r = Inr t) \<or>
      (keeps_trying r \<and> (\<exists>i < min left (length rs). (\<forall>k < i. keeps_trying (rs ! k)) \<and>
        rd_ctx (rs ! i) = None \<and> rd_connect (rs ! i) = Inr t))" (is "?L \<longleftrightarrow> ?A \<or> keeps_trying r \<and> ?B")
  proof
    assume ?L
    then obtain i where i: "i < min (Suc left) (length (r # rs))" "\<forall>k < i. keeps_trying ((r # rs) ! k)"
      "rd_ctx ((r # rs) ! i) = None" "rd_connect ((r # rs) ! i) = Inr t" by blast
    show "?A \<or> keeps_trying r \<and> ?B"
    proof (cases i)
      case (Suc j)
      with i have "keeps_trying r" "\<forall>k < j. keeps_trying (rs ! k)" by fastforce+
      with i Suc show ?thesis by (intro disjI2 conjI exI [of _ j]) auto
    qed (use i in auto)
  next
    assume "?A \<or> keeps_trying r \<and> ?B"
    then show ?L
    proof
      assume ?A
      then show ?L by (intro exI [of _ 0]) auto
    next
      assume *: "keeps_trying r \<and> ?B"
      then obtain j where "j < min left (length rs)" "\<forall>k < j. keeps_trying (rs ! k)"
        "rd_ctx (rs ! j) = None" "rd_connect (rs ! j) = Inr t" by blast
      with * show ?L by (intro exI [of _ "Suc j"]) (auto simp: less_Suc_eq_0_disj)
    qed
  qed
  show ?case
  proof (cases "rd_ctx r")
    case (Some c)
    then show ?thesis unfolding split by (cases c) (auto simp: keeps_trying_def)
  next
    case ctx: None
    show ?thesis
    proof (cases "rd_connect r")
      case (Inr u)
      with ctx show ?thesis unfolding split by (auto simp: keeps_trying_def)
    next
      case (Inl e)
      show ?thesis
      proof (cases "isRetryableConnectError e")
        case False
        with ctx Inl show ?thesis unfolding split by (auto simp: keeps_trying_def)
      next
        case retry: True
        show ?thesis
        proof (cases "left = 0")
          case True
          with ctx Inl retry show ?thesis unfolding split by (auto simp: keeps_trying_def)
        next
          case left: False
          show ?thesis
          proof (cases "rd_sleep r")
            case (Some c)
            with ctx Inl retry left show ?thesis unfolding split by (cases c) (auto simp: keeps_trying_def)
          next
            case None
            with "3.IH"(2) [OF ctx Inl _ left None] ctx Inl retry left show ?thesis
              unfolding split by (auto simp: keeps_trying_def)
          qed
        qed
      qed
    qed
  qed
qed auto

text \<open>C21: connectTransportWithRetry. It returns a transport exactly when one of at most MaxAttempts
  attempts connects while the retry context is alive, and every attempt before it failed with a
  retryable error and a completed wait: a fatal error (authentication, a changed host key) ends it at
  once and no success is missed.\<close>

theorem connectTransportWithRetry_success:
  "connectTransportWithRetry policy oper config rs = Inr t \<longleftrightarrow>
     (\<exists>i < min (nat (cr_MaxAttempts policy)) (length rs). (\<forall>k < i. keeps_trying (rs ! k)) \<and>
        rd_ctx (rs ! i) = None \<and> rd_connect (rs ! i) = Inr t)"
  unfolding connectTransportWithRetry_def by (rule connectLoop_Inr)

subsection \<open>Eviction\<close>

lemma oldestIdle_Some:
  assumes "oldestIdle h ss best = Some (k, r)"
    and "\<And>k0 r0. best = Some (k0, r0) \<Longrightarrow> \<not> InUse (h r0)"
  shows "((k, r) \<in> set ss \<or> best = Some (k, r)) \<and> \<not> InUse (h r) \<and>
    (\<forall>(k', r') \<in> set ss. InUse (h r') \<or> se_LastUsed (h r) \<le> se_LastUsed (h r')) \<and>
    (\<forall>k0 r0. best = Some (k0, r0) \<longrightarrow> se_LastUsed (h r) \<le> se_LastUsed (h r0))"
  using assms
proof (induction h ss best rule: oldestIdle.induct)
  case (2 h key ref rest best)
  show ?case
  proof (cases "InUse (h ref)")
    case True
    with 2 show ?thesis by auto
  next
    case idle: False
    show ?thesis
    proof (cases best)
      case None
      with "2.prems"(1) idle have rest: "oldestIdle h rest (Some (key, ref)) = Some (k, r)" by simp
      from "2.IH"(2) [OF idle None rest] idle show ?thesis using None by auto
    next
      case (Some b)
      obtain k0 r0 where b: "b = (k0, r0)" by force
      have idle0: "\<not> InUse (h r0)" using "2.prems"(2) Some b by blast
      show ?thesis
      proof (cases "se_LastUsed (h ref) < se_LastUsed (h r0)")
        case True
        with "2.prems"(1) idle Some b have rest: "oldestIdle h rest (Some (key, ref)) = Some (k, r)" by simp
        from "2.IH"(3) [OF idle Some b [symmetric] True rest] idle
        show ?thesis using True Some b by auto
      next
        case False
        with "2.prems"(1) idle Some b have rest: "oldestIdle h rest best = Some (k, r)" by simp
        have "(k0', r0') = (k0, r0)" if "best = Some (k0', r0')" for k0' r0' using that Some b by simp
        with "2.IH"(4) [OF idle Some b [symmetric] False rest] idle0 have ih:
          "(k, r) \<in> set rest \<or> best = Some (k, r)" "\<not> InUse (h r)"
          "\<forall>(k', r') \<in> set rest. InUse (h r') \<or> se_LastUsed (h r) \<le> se_LastUsed (h r')"
          "\<forall>k1 r1. best = Some (k1, r1) \<longrightarrow> se_LastUsed (h r) \<le> se_LastUsed (h r1)" by blast+
        have "se_LastUsed (h r) \<le> se_LastUsed (h r0)" using ih(4) Some b by blast
        with ih False show ?thesis by auto
      qed
    qed
  qed
qed auto

lemma oldestIdle_None: "oldestIdle h ss best = None \<longleftrightarrow> best = None \<and> (\<forall>(k, r) \<in> set ss. InUse (h r))"
proof (induction h ss best rule: oldestIdle.induct)
  case (2 h key ref rest best)
  then show ?case by (cases best) auto
qed simp

text \<open>C22: the eviction. It never closes a session that is in use: the victim is an idle session that
  no other idle session is older than, only its entry leaves the map, and there is no victim exactly
  when every session is in use.\<close>

theorem evictLRU_spec:
  assumes "evictLRULocked p = (victim, p')"
  shows "case victim of
      None \<Rightarrow> p' = p \<and> (\<forall>(k, r) \<in> set (sessions p). InUse (heap p r))
    | Some r \<Rightarrow> \<not> InUse (heap p r) \<and>
        (\<exists>k. (k, r) \<in> set (sessions p) \<and> sessions p' = filter (\<lambda>e. fst e \<noteq> k) (sessions p)) \<and>
        (\<forall>(k', r') \<in> set (sessions p). InUse (heap p r') \<or> se_LastUsed (heap p r) \<le> se_LastUsed (heap p r'))"
proof (cases "oldestIdle (heap p) (sessions p) None")
  case None
  with assms show ?thesis by (auto simp: evictLRULocked_def oldestIdle_None)
next
  case (Some kr)
  obtain k r where kr: "kr = (k, r)" by force
  with assms Some have v: "victim = Some r" "p' = p\<lparr>sessions := AList.delete k (sessions p)\<rparr>"
    by (auto simp: evictLRULocked_def)
  have "AList.delete k (sessions p) = filter (\<lambda>e. fst e \<noteq> k) (sessions p)"
    by (auto simp: AList.delete_eq case_prod_unfold intro: filter_cong)
  with oldestIdle_Some [OF Some [unfolded kr]] v show ?thesis by auto
qed

definition demo_config :: "string \<Rightarrow> TransportConfig" where
  "demo_config target = \<lparr>tc_SSHUser = ''u'', tc_SSHPrivateKey = [], tc_SSHCertificate = [], tc_SSHAgent = True,
     tc_SSHKnownHostsFile = [], tc_SSHHostKeyTrust = None, tc_SSHHostKeyFingerprint = [],
     tc_Target = target, tc_Port = 0, tc_Transport = []\<rparr>"

definition demo_session :: "int \<Rightarrow> int \<Rightarrow> Session" where
  "demo_session time uses = \<lparr>se_Config = demo_config ''h'', se_LastUsed = time, se_HostKeyFingerprint = [],
     se_inUse = uses\<rparr>"

definition demo_pool :: ConnectionPool where
  "demo_pool = \<lparr>sessions = [(''a'', 0), (''b'', 1), (''c'', 2)], inflight = [],
     heap = (\<lambda>r. if r = 0 then demo_session 1 1 else if r = 1 then demo_session 3 0 else demo_session 2 0),
     maxConns = 3, connectRetry = defaultConnectRetryPolicy, reconnectRetry = defaultReconnectRetryPolicy,
     poolConfig = None, nextRef = 3, closed = []\<rparr>"

lemma evictLRU_spec_witness:
  "\<not> InUse (heap demo_pool 2) \<and> evictLRULocked demo_pool = (Some 2, demo_pool\<lparr>sessions := [(''a'', 0), (''b'', 1)]\<rparr>)"
proof -
  have e: "evictLRULocked demo_pool = (Some 2, demo_pool\<lparr>sessions := [(''a'', 0), (''b'', 1)]\<rparr>)"
    by (simp add: evictLRULocked_def demo_pool_def InUse_def demo_session_def)
  from evictLRU_spec [OF e] e show ?thesis by simp
qed

definition demo_rounds :: "nat connectRound list" where
  "demo_rounds = [\<lparr>rd_ctx = None, rd_connect = Inl (plainError ''eof''), rd_sleep = None\<rparr>,
     \<lparr>rd_ctx = None, rd_connect = Inr 5, rd_sleep = None\<rparr>]"

lemma demo_round_retryable: "isRetryableConnectError (plainError ''eof'')"
  by code_simp

lemma connectTransportWithRetry_success_witness:
  "connectTransportWithRetry defaultConnectRetryPolicy ''connect'' (demo_config ''h'') demo_rounds = Inr 5"
  unfolding connectTransportWithRetry_success
  by (intro exI [of _ 1])
    (simp add: demo_rounds_def keeps_trying_def demo_round_retryable defaultConnectRetryPolicy_def)

subsection \<open>One attempt at a time\<close>

text \<open>The pool used by any number of callers: \<open>working\<close> are the keys for which some caller is
  connecting or reconnecting now, with the attempt it registered.\<close>

record poolWorld =
  pw_pool :: ConnectionPool
  pw_working :: "(string \<times> nat) set"

definition started :: "string \<Rightarrow> getOutcome \<Rightarrow> (string \<times> nat) set" where
  "started key out = (case out of StartAttempt a \<Rightarrow> {(key, a)} | _ \<Rightarrow> {})"

inductive pool_step :: "poolWorld \<Rightarrow> poolWorld \<Rightarrow> bool" where
  get: "getOrCreateSection merged time (pw_pool w) = (out, p') \<Longrightarrow>
    pool_step w \<lparr>pw_pool = p', pw_working = pw_working w \<union> started (CacheKey merged) out\<rparr>"
| waited: "afterWait merged time ref (pw_pool w) = (r, p') \<Longrightarrow> pool_step w (w\<lparr>pw_pool := p'\<rparr>)"
| connected: "(key, a) \<in> pw_working w \<Longrightarrow> finishConnectAttempt key a result (pw_pool w) = (r, p') \<Longrightarrow>
    pool_step w \<lparr>pw_pool = p', pw_working = pw_working w - {(key, a)}\<rparr>"
| reconnect: "reconnectSection ref (pw_pool w) = (out, p') \<Longrightarrow>
    pool_step w \<lparr>pw_pool = p',
      pw_working = pw_working w \<union> started (CacheKey (se_Config (heap (pw_pool w) ref))) out\<rparr>"
| reconnect_done: "(key, a) \<in> pw_working w \<Longrightarrow>
    pool_step w \<lparr>pw_pool = finishReconnectAttempt key a ref err (pw_pool w), pw_working = pw_working w - {(key, a)}\<rparr>"
| remove: "pool_step w (w\<lparr>pw_pool := Remove config (pw_pool w)\<rparr>)"
| close: "pool_step w (w\<lparr>pw_pool := Close (pw_pool w)\<rparr>)"
| session_change: "pool_step w (w\<lparr>pw_pool := (pw_pool w)\<lparr>heap := h\<rparr>\<rparr>)"

definition new_pool :: "poolWorld \<Rightarrow> bool" where
  "new_pool w \<longleftrightarrow> (\<exists>config options. pw_pool w = NewConnectionPoolWithOptions config options) \<and> pw_working w = {}"

definition pool_inv :: "poolWorld \<Rightarrow> bool" where
  "pool_inv w \<longleftrightarrow> distinct (map fst (sessions (pw_pool w))) \<and> distinct (map fst (inflight (pw_pool w))) \<and>
     pw_working w = set (inflight (pw_pool w)) \<and> (\<forall>(k, a) \<in> pw_working w. a < nextRef (pw_pool w))"

lemma inflight_update:
  "map_of xs k = None \<Longrightarrow> set (AList.update k v xs) = insert (k, v) (set xs)"
  by (induction xs) (auto split: if_splits)

lemma inflight_delete:
  "distinct (map fst xs) \<Longrightarrow> (k, v) \<in> set xs \<Longrightarrow> set (AList.delete k xs) = set xs - {(k, v)}"
  by (auto simp: AList.delete_eq dest: eq_key_imp_eq_value)

lemma evict_same:
  "evictLRULocked p = (v, p') \<Longrightarrow> inflight p' = inflight p \<and> nextRef p' = nextRef p \<and>
     (distinct (map fst (sessions p)) \<longrightarrow> distinct (map fst (sessions p')))"
  by (auto simp: evictLRULocked_def distinct_delete split: option.splits)

lemma closeSession_same [simp]:
  "inflight (closeSession r p) = inflight p" "nextRef (closeSession r p) = nextRef p"
  "sessions (closeSession r p) = sessions p" "heap (closeSession r p) = heap p"
  by (simp_all add: closeSession_def)

lemma Close_same: "inflight (Close p) = inflight p \<and> nextRef (Close p) = nextRef p \<and> sessions (Close p) = []"
proof -
  have fold: "inflight (fold (\<lambda>(k, r). closeSession r) xs q) = inflight q \<and>
      nextRef (fold (\<lambda>(k, r). closeSession r) xs q) = nextRef q \<and>
      sessions (fold (\<lambda>(k, r). closeSession r) xs q) = sessions q" for xs :: "(string \<times> nat) list" and q
    by (induction xs arbitrary: q) auto
  show ?thesis unfolding Close_def using fold [of "sessions p" "p\<lparr>sessions := []\<rparr>"] by simp
qed

lemma section_inv:
  assumes inv: "pool_inv w" and none: "map_of (inflight (pw_pool w)) key = None"
  shows "pool_inv \<lparr>pw_pool = (pw_pool w)\<lparr>inflight := AList.update key (nextRef (pw_pool w)) (inflight (pw_pool w)),
      nextRef := nextRef (pw_pool w) + 1\<rparr>, pw_working = pw_working w \<union> {(key, nextRef (pw_pool w))}\<rparr>"
proof -
  have "\<forall>(k, a) \<in> pw_working w. a < Suc (nextRef (pw_pool w))"
    using inv by (fastforce simp: pool_inv_def less_Suc_eq)
  with inv none show ?thesis by (simp add: pool_inv_def inflight_update distinct_update)
qed

lemma finishConnect_inv:
  assumes inv: "pool_inv w" and "(key, a) \<in> pw_working w"
    and fin: "finishConnectAttempt key a result (pw_pool w) = (r, p')"
  shows "pool_inv \<lparr>pw_pool = p', pw_working = pw_working w - {(key, a)}\<rparr>"
proof -
  let ?p = "pw_pool w"
  from inv assms(2) have d: "distinct (map fst (inflight ?p))" and at: "(key, a) \<in> set (inflight ?p)"
    and d': "distinct (map fst (sessions ?p))" and w: "pw_working w = set (inflight ?p)"
    by (auto simp: pool_inv_def)
  then have m: "map_of (inflight ?p) key = Some a" by simp
  show ?thesis
  proof (cases result)
    case (Inl e)
    with fin m inv d at w show ?thesis
      by (auto simp: finishConnectAttempt_def pool_inv_def inflight_delete distinct_delete)
  next
    case (Inr s)
    define p1 where "p1 = ?p\<lparr>heap := (heap ?p)(nextRef ?p := s), nextRef := nextRef ?p + 1\<rparr>"
    obtain v p2 where ev: "(if int (length (sessions p1)) \<ge> maxConns p1 then evictLRULocked p1 else (None, p1)) = (v, p2)"
      by force
    then have same: "inflight p2 = inflight ?p" "nextRef p2 = nextRef ?p + 1" "distinct (map fst (sessions p2))"
      using evict_same [of p1 v p2] d' by (auto simp: p1_def split: if_splits)
    let ?p3 = "p2\<lparr>sessions := AList.update key (nextRef ?p) (sessions p2), inflight := AList.delete key (inflight p2)\<rparr>"
    have "p' = ?p3 \<or> (\<exists>x. p' = closeSession x ?p3)"
      using fin Inr m ev
      by (auto simp: finishConnectAttempt_def Let_def p1_def case_prod_unfold split: option.splits if_splits)
    then have "inflight p' = AList.delete key (inflight ?p) \<and> nextRef p' = nextRef ?p + 1 \<and>
        distinct (map fst (sessions p'))"
      using same by (auto simp: distinct_update)
    with inv d at w show ?thesis by (auto simp: pool_inv_def inflight_delete distinct_delete)
  qed
qed

lemma pool_step_inv: "pool_step w w' \<Longrightarrow> pool_inv w \<Longrightarrow> pool_inv w'"
proof (induction rule: pool_step.induct)
  case (get merged time w out p')
  then consider "out \<noteq> StartAttempt (nextRef (pw_pool w))" "\<forall>a. out \<noteq> StartAttempt a"
      "\<exists>h. p' = (pw_pool w)\<lparr>heap := h\<rparr>"
    | "map_of (inflight (pw_pool w)) (CacheKey merged) = None" "out = StartAttempt (nextRef (pw_pool w))"
      "p' = (pw_pool w)\<lparr>inflight := AList.update (CacheKey merged) (nextRef (pw_pool w)) (inflight (pw_pool w)),
         nextRef := nextRef (pw_pool w) + 1\<rparr>"
    by (auto simp: getOrCreateSection_def Let_def split: option.splits prod.splits)
       (metis ConnectionPool.surjective ConnectionPool.update_convs(3))+
  then show ?case
  proof cases
    case 1
    with get(2) show ?thesis by (auto simp: pool_inv_def started_def split: getOutcome.splits)
  next
    case 2
    with section_inv [OF get(2)] show ?thesis by (simp add: started_def)
  qed
next
  case (reconnect ref w out p')
  let ?key = "CacheKey (se_Config (heap (pw_pool w) ref))"
  show ?case
  proof (cases "map_of (inflight (pw_pool w)) ?key")
    case None
    with reconnect section_inv [OF reconnect(2) None] show ?thesis
      by (auto simp: reconnectSection_def Let_def started_def)
  next
    case (Some a)
    with reconnect show ?thesis by (auto simp: reconnectSection_def Let_def started_def pool_inv_def)
  qed
next
  case (connected key a w result r p')
  from finishConnect_inv [OF connected(3,1,2)] show ?case .
next
  case (reconnect_done key a w ref err)
  then show ?case
    by (auto simp: pool_inv_def finishReconnectAttempt_def inflight_delete distinct_delete distinct_update
        split: option.splits)
next
  case (waited merged time ref w r p')
  then show ?case by (auto simp: pool_inv_def afterWait_def split: prod.splits option.splits)
next
  case (remove w config)
  then show ?case by (auto simp: pool_inv_def Remove_def Let_def distinct_delete split: option.splits)
next
  case (close w)
  then show ?case using Close_same [of "pw_pool w"] by (auto simp: pool_inv_def)
next
  case (session_change w h)
  then show ?case by (auto simp: pool_inv_def)
qed

interpretation connection_pool: transition_system new_pool pool_step pool_inv
proof
  show "pool_inv w" if "new_pool w" for w
    using that by (auto simp: new_pool_def pool_inv_def NewConnectionPoolWithOptions_def Let_def)
qed (rule pool_step_inv)

text \<open>C20: one connection attempt per target. In every reachable pool, no two callers connect or
  reconnect to the same cache key at the same time; the others wait for the registered attempt.\<close>

theorem single_flight:
  assumes "new_pool w" and "pool_step\<^sup>*\<^sup>* w v" and "(key, a) \<in> pw_working v" and "(key, b) \<in> pw_working v"
  shows "a = b"
proof -
  from connection_pool.inv_reachable [OF assms(1,2)] have inv: "pool_inv v" .
  with assms(3,4) have "(key, a) \<in> set (inflight (pw_pool v))" "(key, b) \<in> set (inflight (pw_pool v))"
    by (simp_all add: pool_inv_def)
  with inv show ?thesis by (auto simp: pool_inv_def dest: eq_key_imp_eq_value)
qed

definition demo_empty_pool :: ConnectionPool where
  "demo_empty_pool = NewConnectionPoolWithOptions None \<lparr>po_MaxConnections = 2,
     po_ConnectRetry = defaultConnectRetryPolicy, po_ReconnectRetry = defaultReconnectRetryPolicy\<rparr>"

definition demo_connecting :: ConnectionPool where
  "demo_connecting = demo_empty_pool\<lparr>inflight := [(CacheKey (demo_config ''h''), 0)], nextRef := 1\<rparr>"

lemma single_flight_witness:
  "pool_step \<lparr>pw_pool = demo_empty_pool, pw_working = {}\<rparr>
     \<lparr>pw_pool = demo_connecting, pw_working = {(CacheKey (demo_config ''h''), 0)}\<rparr> \<and>
   (CacheKey (demo_config ''h''), 1) \<notin> pw_working
       \<lparr>pw_pool = demo_connecting, pw_working = {(CacheKey (demo_config ''h''), 0)}\<rparr>"
    (is "pool_step ?w ?v \<and> _")
proof -
  have new: "new_pool ?w" unfolding new_pool_def demo_empty_pool_def by auto
  have "getOrCreateSection (demo_config ''h'') 0 (pw_pool ?w) = (StartAttempt 0, demo_connecting)"
    by (simp add: getOrCreateSection_def demo_connecting_def demo_empty_pool_def NewConnectionPoolWithOptions_def Let_def)
  from pool_step.get [OF this] have step: "pool_step ?w ?v" by (simp add: started_def)
  then have "pool_step\<^sup>*\<^sup>* ?w ?v" ..
  from single_flight [OF new this, of "CacheKey (demo_config ''h'')" 0 1] step show ?thesis by auto
qed

end
