(* ===== verification/ExecPaths.thy ===== *)
theory ExecPaths
  imports ConnPool GoPath
begin

text \<open>
  providers/shared/hostsession, the parts that only compute: the retry policy and its backoff, the
  executor's paths on the target, the loop that avoids a busy executable, the remote command with its
  exit marker, shell quoting (reboot_platform.go) and the keys a session is scheduled under.
  What a transport answered is an argument of the definitions.
\<close>

subsection \<open>Retry policy\<close>

record RetryPolicy =
  ry_MaxAttempts :: int
  ry_InitialBackoff :: int
  ry_MaxBackoff :: int

definition defaultRetryPolicy :: RetryPolicy where
  "defaultRetryPolicy = \<lparr>ry_MaxAttempts = 3, ry_InitialBackoff = 250000000, ry_MaxBackoff = 3000000000\<rparr>"

definition normalizeRetryPolicy :: "RetryPolicy \<Rightarrow> RetryPolicy" where
  "normalizeRetryPolicy policy =
     (let p1 = (if ry_MaxAttempts policy \<le> 0 then policy\<lparr>ry_MaxAttempts := 3\<rparr> else policy);
          p2 = (if ry_InitialBackoff p1 \<le> 0 then p1\<lparr>ry_InitialBackoff := 250000000\<rparr> else p1);
          p3 = (if ry_MaxBackoff p2 \<le> 0 then p2\<lparr>ry_MaxBackoff := 3000000000\<rparr> else p2)
      in if ry_MaxBackoff p3 < ry_InitialBackoff p3 then p3\<lparr>ry_MaxBackoff := ry_InitialBackoff p3\<rparr> else p3)"

definition retryBackoff :: "RetryPolicy \<Rightarrow> nat \<Rightarrow> int" where
  "retryBackoff policy attempt = backoffLoop attempt (ry_MaxBackoff policy) (ry_InitialBackoff policy)"

lemma normalizeRetryPolicy_pos:
  "0 < ry_MaxAttempts (normalizeRetryPolicy p)" "0 < ry_InitialBackoff (normalizeRetryPolicy p)"
  "ry_InitialBackoff (normalizeRetryPolicy p) \<le> ry_MaxBackoff (normalizeRetryPolicy p)"
  by (auto simp: normalizeRetryPolicy_def Let_def)

lemma normalizeRetryPolicy_idem: "normalizeRetryPolicy (normalizeRetryPolicy p) = normalizeRetryPolicy p"
  using normalizeRetryPolicy_pos [of p] by (simp add: normalizeRetryPolicy_def [of "normalizeRetryPolicy p"] Let_def)

subsection \<open>Paths of the executor\<close>

definition normalizeExecutorLayout :: "string \<Rightarrow> string" where
  "normalizeExecutorLayout basePath =
     (let b = TrimSpace basePath in
      if b = [] then ''/tmp/tf-linux''
      else if b \<noteq> ''/'' then TrimRightSet ''/'' b else b)"

definition path_char :: "char \<Rightarrow> bool" where
  "path_char c \<longleftrightarrow> (97 \<le> (of_char c :: nat) \<and> (of_char c :: nat) \<le> 122) \<or>
     (65 \<le> (of_char c :: nat) \<and> (of_char c :: nat) \<le> 90) \<or> is_digit c \<or> c \<in> {CHR ''-'', CHR ''_'', CHR ''.''}"

primrec sanitize_rune :: "rune \<Rightarrow> char" where
  "sanitize_rune (Ascii c) = (if path_char c then c else CHR ''_'')"
| "sanitize_rune Wide = CHR ''_''"

definition sanitizeExecutorPathComponent :: "string \<Rightarrow> string" where
  "sanitizeExecutorPathComponent value =
     (let v = TrimSpace value in
      if v = [] then [] else TrimSet ''._-'' (map sanitize_rune (runes v)))"

text \<open>The base path is the manager's layout; a nil session is \<open>None\<close>.\<close>

definition sessionExecutorDir :: "string \<Rightarrow> TransportConfig option \<Rightarrow> string" where
  "sessionExecutorDir layout session =
     (let basePath = normalizeExecutorLayout layout in
      case session of
        None \<Rightarrow> basePath
      | Some config \<Rightarrow>
          let userComponent = sanitizeExecutorPathComponent (tc_SSHUser config) in
          if userComponent = [] then basePath
          else let baseDir = Dir basePath; baseName = Base basePath in
            if baseName = ''/'' \<or> baseName = dot then Join [basePath, userComponent]
            else Join [baseDir, baseName @ ''-'' @ userComponent])"

definition executorPath :: "string \<Rightarrow> string" where
  "executorPath layout = normalizeExecutorLayout layout @ ''/'' @ ''executor''"

definition sessionExecutorPath :: "string \<Rightarrow> TransportConfig option \<Rightarrow> string" where
  "sessionExecutorPath layout session = sessionExecutorDir layout session @ ''/'' @ ''executor''"

definition executorPathForAttempt :: "string \<Rightarrow> int \<Rightarrow> string" where
  "executorPathForAttempt basePath attempt =
     (if attempt \<le> 0 then basePath else basePath @ ''-'' @ show_int attempt)"

definition isTextFileBusyError :: "error option \<Rightarrow> bool" where
  "isTextFileBusyError err =
     (case err of None \<Rightarrow> False | Some e \<Rightarrow> Contains (ToLower (error_text e)) ''text file busy'')"

subsection \<open>pushAndStartExecutor\<close>

text \<open>\<open>push\<close> and \<open>start\<close> are what pushing to a path and starting the program there answer; \<open>left\<close>
  counts the attempts that remain after this one.\<close>

fun pushAndStartLoop ::
    "(string \<Rightarrow> error option) \<Rightarrow> (string \<Rightarrow> 'p res) \<Rightarrow> string \<Rightarrow> nat \<Rightarrow> nat \<Rightarrow> 'p res" where
  "pushAndStartLoop push start basePath attempt left =
     (let binPath = executorPathForAttempt basePath (int attempt);
          again = (\<lambda>e. case left of
             0 \<Rightarrow> Inl e
           | Suc left' \<Rightarrow> if isTextFileBusyError (Some e) then pushAndStartLoop push start basePath (Suc attempt) left' else Inl e)
      in case push binPath of
           Some e \<Rightarrow> again e
         | None \<Rightarrow>
             (case start binPath of
                Inl e \<Rightarrow> again (Wrapf ''start executor: '' e [])
              | Inr p \<Rightarrow> Inr p))"

declare pushAndStartLoop.simps [simp del]

definition maxExecutorBusyPathRetries :: nat where "maxExecutorBusyPathRetries = 8"

definition pushAndStartExecutor :: "(string \<Rightarrow> error option) \<Rightarrow> (string \<Rightarrow> 'p res) \<Rightarrow> string \<Rightarrow> 'p res" where
  "pushAndStartExecutor push start basePath = pushAndStartLoop push start basePath 0 maxExecutorBusyPathRetries"

subsection \<open>Remote commands\<close>

definition shellQuote :: "string \<Rightarrow> string" where
  "shellQuote value =
     [CHR 0x27] @ concat (map (\<lambda>c. if c = CHR 0x27 then [CHR 0x27, CHR 0x22, CHR 0x27, CHR 0x22, CHR 0x27] else [c]) value)
      @ [CHR 0x27]"

definition newline :: string where "newline = [CHR 0x0A]"

definition exitMarker :: string where "exitMarker = ''__EXIT__''"

definition parseExitMarker :: "string \<Rightarrow> string \<Rightarrow> (string \<times> int) option" where
  "parseExitMarker data marker =
     (case lastIndex (newline @ marker @ '':'') data of
        None \<Rightarrow> None
      | Some (before, rest) \<Rightarrow>
          map_option (\<lambda>rc. (before, rc)) (Atoi (TrimSpace (takeWhile (\<lambda>c. c \<noteq> CHR 0x0A) rest))))"

text \<open>What the streams of the started command gave: the outcome of writing the input and of closing
  it, the output read until the end and the outcome of reading it and of closing it.\<close>

record commandStreams =
  cs_write :: "error option"
  cs_closeInput :: "error option"
  cs_output :: string
  cs_copy :: "error option"
  cs_closeOutput :: "error option"

definition runTransportCommandWithInput :: "error + commandStreams \<Rightarrow> error option" where
  "runTransportCommandWithInput begun =
     (case begun of
        Inl e \<Rightarrow> Some e
      | Inr s \<Rightarrow>
          (case cs_copy s of Some e \<Rightarrow> Some e
           | None \<Rightarrow>
          (case cs_closeOutput s of Some e \<Rightarrow> Some e
           | None \<Rightarrow>
              let parsed = parseExitMarker (cs_output s) exitMarker in
              (case parsed of
                 Some (body, rc) \<Rightarrow>
                   if rc \<noteq> 0 then
                     (let trimmed = TrimSpace body in
                      if trimmed = [] then Some (Errorf (''remote command failed (exit '' @ show_int rc @ '')''))
                      else Some (Errorf (''remote command failed (exit '' @ show_int rc @ ''): '' @ trimmed)))
                   else if cs_write s \<noteq> None then cs_write s
                   else cs_closeInput s
               | None \<Rightarrow>
                   if cs_write s \<noteq> None then cs_write s
                   else if cs_closeInput s \<noteq> None then cs_closeInput s
                   else Some (Errorf (''remote command did not report exit status; output: '' @ TrimSpace (cs_output s)))))))"

text \<open>What the wrapped command writes: its output, then the marker line with its exit status.\<close>

definition wrappedOutput :: "string \<Rightarrow> nat \<Rightarrow> string" where
  "wrappedOutput body status = body @ newline @ exitMarker @ '':'' @ show_nat status @ newline"

subsection \<open>Keys, reasons and timeouts\<close>

definition reconnectReason :: "error option \<Rightarrow> string" where
  "reconnectReason err =
     (case err of
        None \<Rightarrow> []
      | Some e \<Rightarrow>
          let reason = TrimSpace (error_text e) in
          if length reason > 240 then take 240 reason @ ''...'' else reason)"

definition hostKeyForConfig :: "TransportConfig \<Rightarrow> string" where
  "hostKeyForConfig config =
     (let cacheKey = TrimSpace (CacheKey config) in
      if cacheKey = [] \<or> EqualFold cacheKey TransportLocal then ''local'' else cacheKey)"

definition schedulerSessionKey :: "TransportConfig \<Rightarrow> string" where
  "schedulerSessionKey config = joinWith ''|'' [hostKeyForConfig config]"

definition operationReleaseTimeout :: "error option \<Rightarrow> int" where
  "operationReleaseTimeout lastErr =
     (case lastErr of
        Some e \<Rightarrow> if errors_Is e DeadlineExceeded \<or> errors_Is e Canceled then 5000000000 else 20000000000
      | None \<Rightarrow> 20000000000)"

definition timeoutForOperationAction :: "int \<Rightarrow> string \<Rightarrow> int" where
  "timeoutForOperationAction mutationCallTimeout action =
     (if action = ''create'' \<or> action = ''update'' \<or> action = ''delete'' then mutationCallTimeout else 0)"

subsection \<open>Facts\<close>

lemma lastIndex_None: "\<not> Contains s p \<Longrightarrow> lastIndex p s = None"
  by (induction s) auto

lemma lastIndex_append: "lastIndex p b = Some r \<Longrightarrow> lastIndex p (a @ b) = Some (a @ fst r, snd r)"
  by (induction a) (auto simp: case_prod_unfold)

lemma not_Contains_single: "c \<notin> set s \<Longrightarrow> p \<noteq> [] \<Longrightarrow> \<not> Contains (s @ [c]) (c # p)"
  by (induction s) (auto simp: HasPrefix_def take_Cons' split: if_splits)

lemma lastIndex_wrapped:
  assumes "c \<notin> set p" "c \<notin> set d" "p \<noteq> []"
  shows "lastIndex (c # p) (a @ (c # p) @ d @ [c]) = Some (a, d @ [c])"
proof -
  have "lastIndex (c # p) (p @ d @ [c]) = None"
    using not_Contains_single [of c "p @ d" p] assms by (simp add: lastIndex_None)
  then have "lastIndex (c # p) ((c # p) @ d @ [c]) = Some ([], d @ [c])"
    by (simp add: HasPrefix_def)
  from lastIndex_append [OF this] show ?thesis by simp
qed

lemma show_nat_no:
  assumes "\<not> is_digit c" shows "c \<notin> set (show_nat n)"
  using show_nat_digits [of n] assms by (auto simp: list_all_iff)

lemma digits_no_space:
  assumes "list_all is_digit s" "s \<noteq> []"
  shows "TrimSpace s = s"
proof (rule TrimSpace_keep)
  have sp: "space_at_start (c # r) = 0 \<and> space_at_end (c # r) = 0" if "is_digit c" for c r
  proof -
    have "ascii_space c = False" "space2 c x = False" "space2 x c = False" "space3 c x y = False"
      "space3 x y c = False" for x y
      using that by (auto simp: is_digit_def ascii_space_def space2_def space3_def)
    then show ?thesis by (auto split: list.splits)
  qed
  from assms show "space_at_start s = 0" by (cases s) (use sp in auto)
  have "list_all is_digit (rev s)" "rev s \<noteq> []" using assms by simp_all
  then show "space_at_end (rev s) = 0" by (cases "rev s") (use sp in auto)
qed

lemma takeWhile_until: "c \<notin> set s \<Longrightarrow> takeWhile (\<lambda>x. x \<noteq> c) (s @ [c]) = s"
  by (induction s) auto

lemma parse_wrappedOutput:
  assumes "status < 2 ^ 63"
  shows "parseExitMarker (wrappedOutput body status) exitMarker = Some (body, int status)"
proof -
  have d: "\<not> is_digit (CHR 0x0A)" by (simp add: is_digit_def)
  have out: "wrappedOutput body status =
      body @ (CHR 0x0A # exitMarker @ '':'') @ show_nat status @ [CHR 0x0A]"
    by (simp add: wrappedOutput_def newline_def)
  have "lastIndex (CHR 0x0A # exitMarker @ '':'') (wrappedOutput body status) =
      Some (body, show_nat status @ [CHR 0x0A])"
    unfolding out by (rule lastIndex_wrapped) (use show_nat_no [OF d] in \<open>auto simp: exitMarker_def\<close>)
  moreover have "takeWhile (\<lambda>c. c \<noteq> CHR 0x0A) (show_nat status @ [CHR 0x0A]) = show_nat status"
    using show_nat_no [OF d] by (rule takeWhile_until)
  moreover have "TrimSpace (show_nat status) = show_nat status"
    using show_nat_digits by (intro digits_no_space) auto
  ultimately show ?thesis
    using Atoi_show_nat [OF assms] by (simp add: parseExitMarker_def newline_def)
qed

text \<open>C32: the exit status of a remote command. When the wrapped command ran and all its streams
  worked, the caller sees success exactly when the status is 0, and otherwise an error with the status
  and the trimmed output, whatever the output holds, copies of the marker included.\<close>

theorem remote_command_status:
  assumes "status < 256"
  shows "runTransportCommandWithInput (Inr \<lparr>cs_write = None, cs_closeInput = None,
      cs_output = wrappedOutput body status, cs_copy = None, cs_closeOutput = None\<rparr>) =
    (if status = 0 then None
     else if TrimSpace body = [] then Some (Errorf (''remote command failed (exit '' @ show_int (int status) @ '')''))
     else Some (Errorf (''remote command failed (exit '' @ show_int (int status) @ ''): '' @ TrimSpace body)))"
  using parse_wrappedOutput [of status body] assms
  by (simp add: runTransportCommandWithInput_def Let_def)

lemma remote_command_status_witness:
  "runTransportCommandWithInput (Inr \<lparr>cs_write = None, cs_closeInput = None,
      cs_output = wrappedOutput (wrappedOutput ''x'' 0) 127, cs_copy = None, cs_closeOutput = None\<rparr>) \<noteq> None"
  using remote_command_status [of 127] by simp

subsection \<open>Quoting\<close>

text \<open>How a POSIX shell reads one word: outside quotes a blank or an operator character ends it;
  within single quotes every character stands for itself; what would be expanded (outside single
  quotes: \<open>$\<close>, a backquote, a backslash; outside all quotes also patterns and comments) is not read.\<close>

datatype quoting = Bare | Single | Double

definition cons_word :: "char \<Rightarrow> (string \<times> string) option \<Rightarrow> (string \<times> string) option" where
  "cons_word c = map_option (\<lambda>(w, r). (c # w, r))"

definition ends_word :: "char \<Rightarrow> bool" where
  "ends_word c \<longleftrightarrow> c \<in> set '' ;|<>()'' \<or> c \<in> {CHR 0x09, CHR 0x0A, CHR 0x26}"

definition expands :: "char \<Rightarrow> bool" where
  "expands c \<longleftrightarrow> c \<in> {CHR ''$'', CHR 0x60, CHR 0x5C}"

fun sh_word :: "quoting \<Rightarrow> string \<Rightarrow> (string \<times> string) option" where
  "sh_word q [] = (if q = Bare then Some ([], []) else None)"
| "sh_word Single (c # s) = (if c = CHR 0x27 then sh_word Bare s else cons_word c (sh_word Single s))"
| "sh_word Double (c # s) =
     (if c = CHR 0x22 then sh_word Bare s else if expands c then None else cons_word c (sh_word Double s))"
| "sh_word Bare (c # s) =
     (if c = CHR 0x27 then sh_word Single s else if c = CHR 0x22 then sh_word Double s
      else if ends_word c then Some ([], c # s)
      else if expands c \<or> c \<in> set ''*?[#~'' then None
      else cons_word c (sh_word Bare s))"

lemma sh_word_quoted:
  "sh_word Single (concat (map (\<lambda>c. if c = CHR 0x27 then [CHR 0x27, CHR 0x22, CHR 0x27, CHR 0x22, CHR 0x27] else [c]) v)
      @ [CHR 0x27] @ rest) = map_option (\<lambda>(w, r). (v @ w, r)) (sh_word Bare rest)"
proof (induction v)
  case (Cons c v)
  then show ?case by (cases "sh_word Bare rest") (auto simp: cons_word_def expands_def)
qed (cases "sh_word Bare rest", auto)

text \<open>C33: shell quoting. A shell that reads a quoted value reads exactly one word, the value itself,
  byte for byte, whether the command line ends there or goes on after a blank: no value, however
  hostile, can end the word, be expanded or start another command.\<close>

theorem shellQuote_one_word:
  "sh_word Bare (shellQuote v) = Some (v, []) \<and>
   sh_word Bare (shellQuote v @ '' '' @ rest) = Some (v, '' '' @ rest)"
  using sh_word_quoted [of v "[]"] sh_word_quoted [of v "'' '' @ rest"]
  by (simp add: shellQuote_def ends_word_def)

subsection \<open>The staging directory\<close>

lemma sanitize_chars: "list_all path_char (sanitizeExecutorPathComponent s)"
proof -
  have "path_char (sanitize_rune r)" for r
    by (cases r) (auto simp: path_char_def)
  then have "\<forall>c \<in> set (map sanitize_rune (runes (TrimSpace s))). path_char c" by auto
  then have "\<forall>c \<in> set (TrimSet ''._-'' (map sanitize_rune (runes (TrimSpace s)))). path_char c"
    using set_TrimSet by blast
  then show ?thesis by (simp add: sanitizeExecutorPathComponent_def Let_def list_all_iff)
qed

lemma path_char_no_slash: "list_all path_char s \<Longrightarrow> CHR ''/'' \<notin> set s"
  by (auto simp: list_all_iff path_char_def is_digit_def)

text \<open>Where a session's executor is staged. For an absolute base path that is not the root and
  does not end in \<open>.\<close>, a session whose user leaves a sanitised component gets the sibling
  \<open><base>-<user>\<close> of the base, in the base's own directory: the user name, whatever it holds, can neither
  add a path element nor leave that directory.\<close>

theorem staging_dir_beside_base:
  assumes "normalizeExecutorLayout layout = b" and "IsAbs b" and "Base b \<noteq> ''/''" and "Base b \<noteq> dot"
    and "sanitizeExecutorPathComponent (tc_SSHUser config) = user" and "user \<noteq> []"
  shows "sessionExecutorDir layout (Some config) =
      (if Dir b = ''/'' then [] else Dir b) @ ''/'' @ Base b @ ''-'' @ user \<and>
    list_all path_char user \<and> CHR ''/'' \<notin> set (Base b @ ''-'' @ user)"
proof -
  from Dir_absolute [OF assms(2)] obtain q where q: "IsAbs q" "Dir b = Clean q" by blast
  let ?e = "Base b @ ''-'' @ user"
  have user: "list_all path_char user" using sanitize_chars assms(5) by blast
  have slash: "CHR ''/'' \<notin> set ?e"
    using Base_no_slash [OF assms(3)] path_char_no_slash [OF user] by auto
  have "CHR ''-'' \<in> set ?e" by simp
  moreover have "CHR ''-'' \<notin> set dot" "CHR ''-'' \<notin> set dotdot" by (simp_all add: dot_def dotdot_def)
  ultimately have "?e \<noteq> []" "?e \<noteq> dot" "?e \<noteq> dotdot" by (metis append_is_Nil_conv list.distinct(1), metis, metis)
  from Join_child [OF q(1) this slash] show ?thesis
    using assms user slash q(2) by (simp add: sessionExecutorDir_def Let_def)
qed

lemma staging_dir_beside_base_witness:
  "sessionExecutorDir '' /tmp/tf-linux/ '' (Some ((demo_config ''h'')\<lparr>tc_SSHUser := ''../a b''\<rparr>)) = ''/tmp/tf-linux-a_b''"
proof -
  have "normalizeExecutorLayout '' /tmp/tf-linux/ '' = ''/tmp/tf-linux''" by code_simp
  moreover have "IsAbs ''/tmp/tf-linux''" "Base ''/tmp/tf-linux'' = ''tf-linux''" "Dir ''/tmp/tf-linux'' = ''/tmp''"
    by code_simp+
  moreover have "sanitizeExecutorPathComponent (tc_SSHUser ((demo_config ''h'')\<lparr>tc_SSHUser := ''../a b''\<rparr>)) = ''a_b''"
    by code_simp
  moreover have "''tf-linux'' \<noteq> dot" by (simp add: dot_def)
  ultimately show ?thesis
    using staging_dir_beside_base [of "'' /tmp/tf-linux/ ''" "''/tmp/tf-linux''" _ "''a_b''"] by simp
qed

subsection \<open>The busy executable\<close>

definition tried :: "(string \<Rightarrow> error option) \<Rightarrow> (string \<Rightarrow> 'p res) \<Rightarrow> string \<Rightarrow> nat \<Rightarrow> 'p res" where
  "tried push start basePath i =
     (let p = executorPathForAttempt basePath (int i) in
      case push p of Some e \<Rightarrow> Inl e
      | None \<Rightarrow> (case start p of Inl e \<Rightarrow> Inl (Wrapf ''start executor: '' e []) | Inr x \<Rightarrow> Inr x))"

definition busy :: "'p res \<Rightarrow> bool" where
  "busy r \<longleftrightarrow> (case r of Inl e \<Rightarrow> isTextFileBusyError (Some e) | Inr _ \<Rightarrow> False)"

lemma pushAndStartLoop_step:
  "pushAndStartLoop push start basePath i left =
     (if busy (tried push start basePath i) \<and> 0 < left
      then pushAndStartLoop push start basePath (Suc i) (left - 1) else tried push start basePath i)"
  by (subst pushAndStartLoop.simps)
    (auto simp: tried_def busy_def Let_def split: option.splits sum.splits nat.splits)

lemma pushAndStartLoop_first:
  "\<exists>k. i \<le> k \<and> k \<le> i + left \<and> pushAndStartLoop push start basePath i left = tried push start basePath k \<and>
     (\<forall>l. i \<le> l \<longrightarrow> l < k \<longrightarrow> busy (tried push start basePath l)) \<and>
     (k < i + left \<longrightarrow> \<not> busy (tried push start basePath k))"
proof (induction left arbitrary: i)
  case 0
  then show ?case by (intro exI [of _ i]) (simp add: pushAndStartLoop_step)
next
  case (Suc left)
  show ?case
  proof (cases "busy (tried push start basePath i)")
    case True
    from Suc.IH [of "Suc i"] obtain k where k: "Suc i \<le> k" "k \<le> Suc i + left"
      "pushAndStartLoop push start basePath (Suc i) left = tried push start basePath k"
      "\<forall>l. Suc i \<le> l \<longrightarrow> l < k \<longrightarrow> busy (tried push start basePath l)"
      "k < Suc i + left \<longrightarrow> \<not> busy (tried push start basePath k)" by blast
    have "busy (tried push start basePath l)" if "i \<le> l" "l < k" for l
      using that k(4) True by (cases "l = i") auto
    with k True show ?thesis
      by (intro exI [of _ k]) (simp add: pushAndStartLoop_step [of _ _ _ i])
  next
    case False
    then show ?thesis by (intro exI [of _ i]) (simp add: pushAndStartLoop_step [of _ _ _ i])
  qed
qed

text \<open>Starting the executor. The answer is that of the first of the nine candidate paths whose
  attempt does not fail with a busy executable, or of the last path when all are busy: no attempt is
  made after another outcome, and no candidate is skipped.\<close>

theorem pushAndStart_first_not_busy:
  "\<exists>k \<le> maxExecutorBusyPathRetries. pushAndStartExecutor push start basePath = tried push start basePath k \<and>
     (\<forall>l < k. busy (tried push start basePath l)) \<and>
     (k < maxExecutorBusyPathRetries \<longrightarrow> \<not> busy (tried push start basePath k))"
  using pushAndStartLoop_first [of 0 maxExecutorBusyPathRetries push start basePath]
  unfolding pushAndStartExecutor_def by auto

lemma pushAndStart_first_not_busy_witness:
  "\<exists>k \<le> maxExecutorBusyPathRetries. pushAndStartExecutor
     (\<lambda>p. if p = ''/e'' then Some (Errorf ''Text file busy'') else None) (\<lambda>p. Inr p) ''/e'' =
     tried (\<lambda>p. if p = ''/e'' then Some (Errorf ''Text file busy'') else None) (\<lambda>p. Inr p) ''/e'' k"
  using pushAndStart_first_not_busy
    [of "\<lambda>p. if p = ''/e'' then Some (Errorf ''Text file busy'') else None" Inr "''/e''"] by blast

end
