(* ===== verification/RpcRetry.thy ===== *)
theory RpcRetry
  imports ExecPaths HostRpc
begin

text \<open>
  hostsession/manager.go: \<open>withRetries\<close>, the RPCs made through it, and the polling of an operation
  lease.

  \<open>retryOps\<close> holds what an attempt calls, as state transformers: \<open>prepareClientForAction\<close> (its
  error and whether it is a support-policy violation), the call, \<open>onRetry\<close>, \<open>resetSessionSafely\<close>,
  the pool's \<open>GetOrCreate\<close> and the sleep. The loop itself is total.

  \<open>rpc\<close> instantiates them for a call that runs on the target host: the host's state is changed by
  the call whether or not the reply comes back, and what the link does to each attempt is an
  \<open>attempt\<close> of a list; when the list is used up the context is done.
\<close>

subsection \<open>withRetries\<close>

record 'w retryOps =
  ro_prepare :: "'w \<Rightarrow> (error \<times> bool) option \<times> 'w"
  ro_call :: "'w \<Rightarrow> error option \<times> 'w"
  ro_onRetry :: "(error \<Rightarrow> 'w \<Rightarrow> error option \<times> 'w) option"
  ro_reset :: "string \<Rightarrow> 'w \<Rightarrow> error option \<times> 'w"
  ro_reacquire :: "'w \<Rightarrow> error option \<times> 'w"
  ro_sleep :: "int \<Rightarrow> 'w \<Rightarrow> error option \<times> 'w"

definition exhausted :: "RetryPolicy \<Rightarrow> error option \<Rightarrow> error" where
  "exhausted policy lastErr =
     Wrapf (''retry budget exhausted after '' @ show_int (ry_MaxAttempts policy) @ '' attempts: '')
       (case lastErr of Some e \<Rightarrow> e
        | None \<Rightarrow> Errorf (''executor call failed after '' @ show_int (ry_MaxAttempts policy) @ '' attempts'')) []"

text \<open>One attempt: \<open>None\<close> when the loop goes on to the recovery with the error, \<open>Some\<close> its result when
  it ends the loop.\<close>

datatype attemptOutcome = CallDone | PolicyViolation error | AttemptFailed error

definition attemptOnce :: "'w retryOps \<Rightarrow> 'w \<Rightarrow> attemptOutcome \<times> 'w" where
  "attemptOnce ops w =
     (case ro_prepare ops w of
        (Some (e, violation), w1) \<Rightarrow> (if violation then PolicyViolation e else AttemptFailed e, w1)
      | (None, w1) \<Rightarrow>
          (case ro_call ops w1 of
             (None, w2) \<Rightarrow> (CallDone, w2)
           | (Some e, w2) \<Rightarrow> (AttemptFailed e, w2)))"

text \<open>What follows a failed attempt that is not the last: \<open>Inl\<close> ends the loop with an error, \<open>Inr\<close>
  the error the next attempt starts from.\<close>

definition recoverSession :: "bool \<Rightarrow> 'w retryOps \<Rightarrow> error \<Rightarrow> 'w \<Rightarrow> error \<times> 'w" where
  "recoverSession pool ops lastErr w =
     (case ro_reset ops (reconnectReason (Some lastErr)) w of
        (None, w1) \<Rightarrow> (lastErr, w1)
      | (Some recoverErr, w1) \<Rightarrow>
          if pool then
            (case ro_reacquire ops w1 of
               (Some e, w2) \<Rightarrow> (Wrapf ''reacquire session: '' e [], w2)
             | (None, w2) \<Rightarrow> (recoverErr, w2))
          else (recoverErr, w1))"

definition betweenAttempts ::
    "RetryPolicy \<Rightarrow> bool \<Rightarrow> 'w retryOps \<Rightarrow> nat \<Rightarrow> error \<Rightarrow> 'w \<Rightarrow> (error + error) \<times> 'w" where
  "betweenAttempts policy pool ops attempt lastErr w =
     (let (stop, w1) = (case ro_onRetry ops of None \<Rightarrow> (None, w) | Some f \<Rightarrow> f lastErr w) in
      case stop of
        Some e \<Rightarrow> (Inl e, w1)
      | None \<Rightarrow>
          (let (lastErr', w2) = recoverSession pool ops lastErr w1 in
           if \<not> pool then (Inl (exhausted policy (Some lastErr')), w2)
           else (case ro_sleep ops (retryBackoff policy attempt) w2 of
                   (Some e, w3) \<Rightarrow> (Inl e, w3)
                 | (None, w3) \<Rightarrow> (Inr lastErr', w3))))"

fun retryLoop ::
    "RetryPolicy \<Rightarrow> bool \<Rightarrow> 'w retryOps \<Rightarrow> nat \<Rightarrow> nat \<Rightarrow> error option \<Rightarrow> 'w \<Rightarrow> error option \<times> 'w" where
  "retryLoop policy pool ops attempt 0 lastErr w = (Some (exhausted policy lastErr), w)"
| "retryLoop policy pool ops attempt (Suc left) lastErr w =
     (case attemptOnce ops w of
        (CallDone, w1) \<Rightarrow> (None, w1)
      | (PolicyViolation e, w1) \<Rightarrow> (Some e, w1)
      | (AttemptFailed e, w1) \<Rightarrow>
          if left = 0 then (Some (exhausted policy (Some e)), w1)
          else (case betweenAttempts policy pool ops attempt e w1 of
                  (Inl err, w2) \<Rightarrow> (Some err, w2)
                | (Inr lastErr', w2) \<Rightarrow> retryLoop policy pool ops (Suc attempt) left (Some lastErr') w2))"

definition withRetries :: "RetryPolicy \<Rightarrow> bool \<Rightarrow> 'w retryOps \<Rightarrow> 'w \<Rightarrow> error option \<times> 'w" where
  "withRetries retryPolicy pool ops w =
     (let policy = normalizeRetryPolicy retryPolicy in
      retryLoop policy pool ops 0 (nat (ry_MaxAttempts policy)) None w)"

subsection \<open>An RPC on the target host\<close>

text \<open>What the link does to one attempt: the request never arrives, the reply is lost after the
  request ran, or both arrive. \<open>at_exec\<close> is what the executor reads of its surroundings when the
  request runs.\<close>

datatype delivery = NotSent error | LostReply error | Answered

record 'x attempt =
  at_prepare :: "(error \<times> bool) option"
  at_exec :: 'x
  at_delivery :: delivery
  at_reset :: "error option"
  at_reacquire :: "error option"
  at_sleep :: "error option"

record ('h, 'x, 'a) link =
  ln_host :: 'h
  ln_now :: "'x attempt option"
  ln_coming :: "'x attempt list"
  ln_result :: "'a option"

definition link_prepare :: "('h, 'x, 'a) link \<Rightarrow> (error \<times> bool) option \<times> ('h, 'x, 'a) link" where
  "link_prepare l =
     (case ln_coming l of
        [] \<Rightarrow> (Some (Canceled, False), l\<lparr>ln_now := None\<rparr>)
      | e # es \<Rightarrow> (at_prepare e, l\<lparr>ln_now := Some e, ln_coming := es\<rparr>))"

definition link_call ::
    "('x \<Rightarrow> 'h \<Rightarrow> 'a res \<times> 'h) \<Rightarrow> ('h, 'x, 'a) link \<Rightarrow> error option \<times> ('h, 'x, 'a) link" where
  "link_call f l =
     (case ln_now l of
        None \<Rightarrow> (Some Canceled, l)
      | Some e \<Rightarrow>
          (case at_delivery e of
             NotSent err \<Rightarrow> (Some err, l)
           | LostReply err \<Rightarrow> (Some err, l\<lparr>ln_host := snd (f (at_exec e) (ln_host l))\<rparr>)
           | Answered \<Rightarrow>
               (case f (at_exec e) (ln_host l) of
                  (Inl err, h) \<Rightarrow> (Some err, l\<lparr>ln_host := h\<rparr>)
                | (Inr a, h) \<Rightarrow> (None, l\<lparr>ln_host := h, ln_result := Some a\<rparr>))))"

definition link_answer ::
    "('x attempt \<Rightarrow> error option) \<Rightarrow> ('h, 'x, 'a) link \<Rightarrow> error option \<times> ('h, 'x, 'a) link" where
  "link_answer sel l = (case ln_now l of None \<Rightarrow> (Some Canceled, l) | Some e \<Rightarrow> (sel e, l))"

definition link_ops :: "('x \<Rightarrow> 'h \<Rightarrow> 'a res \<times> 'h) \<Rightarrow> ('h, 'x, 'a) link retryOps" where
  "link_ops f = \<lparr>ro_prepare = link_prepare, ro_call = link_call f, ro_onRetry = None,
     ro_reset = (\<lambda>_. link_answer at_reset), ro_reacquire = link_answer at_reacquire,
     ro_sleep = (\<lambda>_. link_answer at_sleep)\<rparr>"

definition rpc ::
    "RetryPolicy \<Rightarrow> bool \<Rightarrow> ('x \<Rightarrow> 'h \<Rightarrow> 'a res \<times> 'h) \<Rightarrow> 'h \<Rightarrow> 'x attempt list \<Rightarrow> 'a res \<times> 'h" where
  "rpc policy pool f h attempts =
     (case withRetries policy pool (link_ops f)
             \<lparr>ln_host = h, ln_now = None, ln_coming = attempts, ln_result = None\<rparr> of
        (Some e, l) \<Rightarrow> (Inl e, ln_host l)
      | (None, l) \<Rightarrow>
          (case ln_result l of None \<Rightarrow> (Inl Canceled, ln_host l) | Some a \<Rightarrow> (Inr a, ln_host l)))"

subsection \<open>What the retries do\<close>

text \<open>\<open>ran f xs h h'\<close>: the call ran on the host once for each of \<open>xs\<close>, in that order.\<close>

definition ran :: "('x \<Rightarrow> 'h \<Rightarrow> 'a res \<times> 'h) \<Rightarrow> 'x list \<Rightarrow> 'h \<Rightarrow> 'h" where
  "ran f xs h = fold (\<lambda>x g. snd (f x g)) xs h"

lemma ran_simps [simp]: "ran f [] h = h" "ran f (x # xs) h = ran f xs (snd (f x h))"
  "ran f (xs @ [x]) h = snd (f x (ran f xs h))"
  by (simp_all add: ran_def)

lemma betweenAttempts_host:
  assumes "betweenAttempts policy pool (link_ops f) n e l = (r, l')"
  shows "ln_host l' = ln_host l \<and> ln_coming l' = ln_coming l \<and> ln_result l' = ln_result l"
  using assms
  by (auto simp: betweenAttempts_def recoverSession_def link_ops_def link_answer_def Let_def
      split: option.splits if_splits prod.splits)

lemma subseq_take_tl:
  assumes "subseq xs (map f (take 1 l))" and "subseq ys (map f (tl l))"
  shows "subseq (xs @ ys) (map f l)"
proof -
  have "map f l = map f (take 1 l) @ map f (tl l)" by (cases l) simp_all
  with list_emb_append_mono [OF assms] show ?thesis by simp
qed

lemma attemptOnce_host:
  assumes "attemptOnce (link_ops f) l = (out, l')"
  shows "\<exists>xs. length xs \<le> 1 \<and> ln_host l' = ran f xs (ln_host l) \<and>
    ln_coming l' = tl (ln_coming l) \<and> subseq xs (map at_exec (take 1 (ln_coming l))) \<and>
    (if out = CallDone
     then \<exists>x a. xs = [x] \<and> f x (ln_host l) = (Inr a, ln_host l') \<and> ln_result l' = Some a
     else ln_result l' = ln_result l)"
proof (cases "ln_coming l")
  case Nil
  with assms show ?thesis
    by (intro exI [of _ "[]"]) (auto simp: attemptOnce_def link_ops_def link_prepare_def)
next
  case (Cons e es)
  show ?thesis
  proof (cases "at_prepare e")
    case (Some p)
    with Cons assms show ?thesis
      by (intro exI [of _ "[]"]) (auto simp: attemptOnce_def link_ops_def link_prepare_def split: prod.splits if_splits)
  next
    case None
    show ?thesis
    proof (cases "at_delivery e")
      case (NotSent err)
      with Cons None assms show ?thesis
        by (intro exI [of _ "[]"]) (auto simp: attemptOnce_def link_ops_def link_prepare_def link_call_def)
    next
      case (LostReply err)
      with Cons None assms show ?thesis
        by (intro exI [of _ "[at_exec e]"]) (auto simp: attemptOnce_def link_ops_def link_prepare_def link_call_def)
    next
      case Answered
      obtain r h where "f (at_exec e) (ln_host l) = (r, h)" by force
      with Answered Cons None assms show ?thesis
        by (intro exI [of _ "[at_exec e]"], cases r)
          (auto simp: attemptOnce_def link_ops_def link_prepare_def link_call_def)
    qed
  qed
qed

lemma retryLoop_host:
  assumes "retryLoop policy pool (link_ops f) n left e l = (r, l')" and "ln_result l = None"
  shows "\<exists>xs. length xs \<le> left \<and> ln_host l' = ran f xs (ln_host l) \<and>
    subseq xs (map at_exec (ln_coming l)) \<and>
    (if r = None
     then \<exists>ys x a. xs = ys @ [x] \<and> f x (ran f ys (ln_host l)) = (Inr a, ln_host l') \<and> ln_result l' = Some a
     else ln_result l' = None)"
  using assms
proof (induction left arbitrary: n e l)
  case 0
  then show ?case by (intro exI [of _ "[]"]) auto
next
  case (Suc left)
  obtain out l1 where one: "attemptOnce (link_ops f) l = (out, l1)" by force
  from attemptOnce_host [OF one] obtain xs where xs: "length xs \<le> 1" "ln_host l1 = ran f xs (ln_host l)"
    "subseq xs (map at_exec (take 1 (ln_coming l)))" "ln_coming l1 = tl (ln_coming l)"
    "if out = CallDone then \<exists>x a. xs = [x] \<and> f x (ln_host l) = (Inr a, ln_host l1) \<and> ln_result l1 = Some a
     else ln_result l1 = ln_result l" by blast
  have xs': "subseq xs (map at_exec (ln_coming l))"
    using subseq_take_tl [OF xs(3), of "[]"] by simp
  show ?case
  proof (cases out)
    case CallDone
    with one Suc.prems have r: "r = None" "l' = l1" by simp_all
    from CallDone xs(5) obtain x a where x: "xs = [x]" "f x (ln_host l) = (Inr a, ln_host l1)"
      "ln_result l1 = Some a" by auto
    then have "\<exists>ys x a. xs = ys @ [x] \<and> f x (ran f ys (ln_host l)) = (Inr a, ln_host l') \<and> ln_result l' = Some a"
      unfolding r by (intro exI [of _ "[]"] exI [of _ x] exI [of _ a]) simp
    with r xs(1,2) xs' show ?thesis by (intro exI [of _ xs] conjI) simp_all
  next
    case (PolicyViolation v)
    with one Suc.prems have r: "r = Some v" "l' = l1" by simp_all
    with xs(1,2,5) xs' PolicyViolation Suc.prems(2) show ?thesis by (intro exI [of _ xs] conjI) simp_all
  next
    case (AttemptFailed err)
    with xs(5) Suc.prems(2) have res: "ln_result l1 = None" by simp
    show ?thesis
    proof (cases "left = 0")
      case True
      with one AttemptFailed Suc.prems have "r \<noteq> None" "l' = l1" by auto
      with xs(1,2) xs' res show ?thesis by (intro exI [of _ xs] conjI) simp_all
    next
      case False
      obtain b l2 where two: "betweenAttempts policy pool (link_ops f) n err l1 = (b, l2)" by force
      note l2 = betweenAttempts_host [OF two]
      show ?thesis
      proof (cases b)
        case (Inl stop)
        with one AttemptFailed two False Suc.prems have "r \<noteq> None" "l' = l2" by auto
        with xs(1,2) xs' res l2 show ?thesis by (intro exI [of _ xs] conjI) simp_all
      next
        case (Inr last)
        with one AttemptFailed two False Suc.prems have
          "retryLoop policy pool (link_ops f) (Suc n) left (Some last) l2 = (r, l')" by simp
        from Suc.IH [OF this, unfolded l2 [THEN conjunct1] l2 [THEN conjunct2, THEN conjunct1]
            l2 [THEN conjunct2, THEN conjunct2]] res obtain ys where ys: "length ys \<le> left"
          "ln_host l' = ran f ys (ln_host l1)" "subseq ys (map at_exec (ln_coming l1))"
          "if r = None
           then \<exists>zs x a. ys = zs @ [x] \<and> f x (ran f zs (ln_host l1)) = (Inr a, ln_host l') \<and> ln_result l' = Some a
           else ln_result l' = None" by blast
        have app: "ran f (xs @ zs) (ln_host l) = ran f zs (ln_host l1)" for zs
          using xs(2) by (simp add: ran_def)
        have "subseq (xs @ ys) (map at_exec (ln_coming l))"
          using subseq_take_tl [OF xs(3)] xs(4) ys(3) by simp
        moreover have "length (xs @ ys) \<le> Suc left" using xs(1) ys(1) by simp
        moreover have "if r = None
           then \<exists>zs x a. xs @ ys = zs @ [x] \<and> f x (ran f zs (ln_host l)) = (Inr a, ln_host l') \<and> ln_result l' = Some a
           else ln_result l' = None"
        proof (cases "r = None")
          case True
          with ys(4) obtain zs x a where "ys = zs @ [x]" "f x (ran f zs (ln_host l1)) = (Inr a, ln_host l')"
            "ln_result l' = Some a" by auto
          with True app [of zs] show ?thesis by (auto intro!: exI [of _ "xs @ zs"])
        qed (use ys(4) in auto)
        ultimately show ?thesis using ys(2) app [of ys] by (intro exI [of _ "xs @ ys"]) simp
      qed
    qed
  qed
qed

text \<open>C31: what a retried RPC does to the host. The call ran there at most \<open>MaxAttempts\<close> times, each
  time for another attempt of the link and in the order of the attempts, and nothing else changed the host's state; when the RPC succeeds, its
  result is that of the last run, and the state is the one that run left. So a call that is not
  idempotent may take effect several times, also before an RPC that succeeds.\<close>

theorem rpc_runs_on_host:
  assumes "rpc policy pool f h attempts = (r, h')"
  shows "\<exists>xs. length xs \<le> nat (ry_MaxAttempts (normalizeRetryPolicy policy)) \<and> h' = ran f xs h \<and>
    subseq xs (map at_exec attempts) \<and>
    (case r of Inl e \<Rightarrow> True | Inr a \<Rightarrow> \<exists>ys x. xs = ys @ [x] \<and> f x (ran f ys h) = (Inr a, h'))"
proof -
  let ?l = "\<lparr>ln_host = h, ln_now = None, ln_coming = attempts, ln_result = None\<rparr>"
  let ?p = "normalizeRetryPolicy policy"
  obtain q l' where loop: "retryLoop ?p pool (link_ops f) 0 (nat (ry_MaxAttempts ?p)) None ?l = (q, l')" by force
  from retryLoop_host [OF this] obtain xs where xs: "length xs \<le> nat (ry_MaxAttempts ?p)"
    "ln_host l' = ran f xs h" "subseq xs (map at_exec attempts)"
    "if q = None then \<exists>ys x a. xs = ys @ [x] \<and> f x (ran f ys h) = (Inr a, ln_host l') \<and> ln_result l' = Some a
     else ln_result l' = None" by (metis (no_types, lifting) link.select_convs(1,3,4))
  have h': "h' = ln_host l' \<and> (case r of Inl e \<Rightarrow> True | Inr a \<Rightarrow> q = None \<and> ln_result l' = Some a)"
    using assms loop xs(4) by (auto simp: rpc_def withRetries_def Let_def split: option.splits if_splits)
  have "case r of Inl e \<Rightarrow> True | Inr a \<Rightarrow> \<exists>ys x. xs = ys @ [x] \<and> f x (ran f ys h) = (Inr a, h')"
    using h' xs(4) by (cases r) auto
  with xs(1-3) h' show ?thesis by (intro exI [of _ xs] conjI) simp_all
qed

definition demo_attempt :: "delivery \<Rightarrow> nat attempt" where
  "demo_attempt d = \<lparr>at_prepare = None, at_exec = 0, at_delivery = d, at_reset = None, at_reacquire = None, at_sleep = None\<rparr>"

definition count_call :: "nat \<Rightarrow> nat \<Rightarrow> nat res \<times> nat" where
  "count_call x n = (Inr n, Suc n)"

lemma rpc_runs_on_host_witness:
  "rpc defaultRetryPolicy True count_call 5 [demo_attempt (LostReply Canceled), demo_attempt Answered] = (Inr 6, 7) \<and>
   (\<exists>ys x. count_call x (ran count_call ys 5) = (Inr 6, 7))"
proof -
  have e: "rpc defaultRetryPolicy True count_call 5 [demo_attempt (LostReply Canceled), demo_attempt Answered] = (Inr 6, 7)"
    by code_simp
  from rpc_runs_on_host [OF this] e show ?thesis by auto
qed

end
