(* ===== verification/OperationLease.thy ===== *)
theory OperationLease
  imports RpcRetry LeaseProperties
begin

text \<open>
  The provider's side of an operation lease (hostsession/manager.go and operation_tracking.go): the
  polling of \<open>Acquire\<close> until the lease is granted, refused or given up, the release, and the frame
  that all \<open>...Locked\<close> operations share. Every RPC is an \<open>rpc\<close> of theory RpcRetry that runs the
  journal of theory OperationJournal.
\<close>

subsection \<open>Parameters\<close>

record OperationMetadata =
  om_ModuleName :: string
  om_ResourceType :: string
  om_Action :: string
  om_Name :: string

definition toRPCLockSet :: "LockDescriptor list \<Rightarrow> LockDescriptor list" where
  "toRPCLockSet locks =
     (if locks = [] then []
      else map (\<lambda>l. \<lparr>lk_Key = lk_Key l, lk_Mode = lk_Mode l, lk_Source = lk_Source l\<rparr>) locks)"

definition leaseParams ::
    "TransportConfig \<Rightarrow> string \<Rightarrow> OperationMetadata \<Rightarrow> LockDescriptor list \<Rightarrow> int \<Rightarrow> OperationAcquireParams" where
  "leaseParams config requestID metadata locks hostLockTimeout = \<lparr>
     aq_RequestID = requestID, aq_HostKey = hostKeyForConfig config,
     aq_SessionKey = schedulerSessionKey config, aq_ModuleName = om_ModuleName metadata,
     aq_ResourceType = om_ResourceType metadata, aq_Action = om_Action metadata,
     aq_Name = om_Name metadata, aq_LockSet = toRPCLockSet locks,
     aq_TimeoutMs = go_quot hostLockTimeout 1000000\<rparr>"

definition releaseParams :: "string \<Rightarrow> string \<Rightarrow> error option \<Rightarrow> OperationReleaseParams" where
  "releaseParams hostKey operationID lastErr = \<lparr>rl_HostKey = hostKey, rl_OperationID = operationID,
     rl_Status = (case lastErr of None \<Rightarrow> ''completed'' | Some _ \<Rightarrow> ''failed''),
     rl_LastError = (case lastErr of None \<Rightarrow> [] | Some e \<Rightarrow> error_text e)\<rparr>"

subsection \<open>Release\<close>

definition releaseOperationLease ::
    "RetryPolicy \<Rightarrow> bool \<Rightarrow> string \<Rightarrow> string \<Rightarrow> error option \<Rightarrow> env attempt list \<Rightarrow> journal \<Rightarrow> error option \<times> journal" where
  "releaseOperationLease policy pool hostKey operationID lastErr attempts j =
     (if TrimSpace operationID = [] then (None, j)
      else (case rpc policy pool (\<lambda>E. Release E (releaseParams hostKey operationID lastErr)) j attempts of
              (Inl e, j1) \<Rightarrow> (Some e, j1)
            | (Inr _, j1) \<Rightarrow> (None, j1)))"

subsection \<open>The polling\<close>

text \<open>What the outside does in one round: to the acquire RPC (an executor runs it with its
  surroundings and its own context's error), the caller's context after it, whether the host lock
  timeout has passed, the sleep, and the release RPC should the round end in one.\<close>

record pollRound =
  pl_acquire :: "(env \<times> error option) attempt list"
  pl_ctx :: "error option"
  pl_elapsed :: int
  pl_sleep :: "error option"
  pl_release :: "env attempt list"

definition acquireRPC ::
    "RetryPolicy \<Rightarrow> bool \<Rightarrow> OperationAcquireParams \<Rightarrow> (env \<times> error option) attempt list \<Rightarrow> journal
      \<Rightarrow> (string \<times> bool) res \<times> journal" where
  "acquireRPC policy pool params attempts j = rpc policy pool (\<lambda>x. Acquire (fst x) (snd x) params) j attempts"

definition leaseError :: "error \<Rightarrow> error" where
  "leaseError e = Wrapf ''acquire host operation lease: '' e []"

definition giveUpError :: "error \<Rightarrow> error option \<Rightarrow> error" where
  "giveUpError err releaseErr =
     (case releaseErr of
        None \<Rightarrow> leaseError err
      | Some r \<Rightarrow> Wrapf ''acquire host operation lease: '' err (''; release queued lease: '' @ error_text r))"

definition timedOutError :: "string \<Rightarrow> error" where
  "timedOutError timeoutText = Errorf (''timed out waiting for host operation lease after '' @ timeoutText)"

text \<open>Why a round that was answered \<open>queued\<close> ends the polling, in the code's order.\<close>

definition stopReason :: "int \<Rightarrow> string \<Rightarrow> pollRound \<Rightarrow> error option" where
  "stopReason hostLockTimeout timeoutText r =
     (case pl_ctx r of
        Some e \<Rightarrow> Some e
      | None \<Rightarrow>
          if hostLockTimeout > 0 \<and> pl_elapsed r \<ge> hostLockTimeout then Some (timedOutError timeoutText)
          else pl_sleep r)"

text \<open>\<open>None\<close>: the rounds are used up, the provider is still waiting or was killed.\<close>

fun pollLease ::
    "RetryPolicy \<Rightarrow> bool \<Rightarrow> OperationAcquireParams \<Rightarrow> int \<Rightarrow> string \<Rightarrow> pollRound list \<Rightarrow> journal
      \<Rightarrow> (error + string) option \<times> journal" where
  "pollLease policy pool params tmo ttext [] j = (None, j)"
| "pollLease policy pool params tmo ttext (r # rs) j =
     (case acquireRPC policy pool params (pl_acquire r) j of
        (Inl e, j1) \<Rightarrow> (Some (Inl (leaseError e)), j1)
      | (Inr (operationID, granted), j1) \<Rightarrow>
          if granted then (Some (Inr operationID), j1)
          else
            (case stopReason tmo ttext r of
               Some err \<Rightarrow>
                 (let (releaseErr, j2) =
                    releaseOperationLease policy pool (aq_HostKey params) operationID (Some err) (pl_release r) j1
                  in (Some (Inl (giveUpError err releaseErr)), j2))
             | None \<Rightarrow> pollLease policy pool params tmo ttext rs j1))"

definition acquireOperationLease ::
    "RetryPolicy \<Rightarrow> bool \<Rightarrow> TransportConfig \<Rightarrow> string \<Rightarrow> OperationMetadata \<Rightarrow> LockDescriptor list \<Rightarrow> int \<Rightarrow> string
      \<Rightarrow> pollRound list \<Rightarrow> journal \<Rightarrow> (error + string) option \<times> journal" where
  "acquireOperationLease policy pool config requestID metadata locks hostLockTimeout timeoutText rounds j =
     pollLease policy pool (leaseParams config requestID metadata locks hostLockTimeout)
       hostLockTimeout timeoutText rounds j"

subsection \<open>The frame of the locked operations\<close>

text \<open>\<open>acquire\<close>, \<open>call\<close> and \<open>complete\<close> are the three steps; the operations report the release's
  failure beside the call's.\<close>

definition lockedCall ::
    "('w \<Rightarrow> (error + 'l) \<times> 'w) \<Rightarrow> ('w \<Rightarrow> ('r option \<times> error option) \<times> 'w) \<Rightarrow>
     ('l \<Rightarrow> error option \<Rightarrow> 'w \<Rightarrow> error option \<times> 'w) \<Rightarrow> 'w \<Rightarrow> ('r option \<times> error option) \<times> 'w" where
  "lockedCall acquire call complete w =
     (case acquire w of
        (Inl e, w1) \<Rightarrow> ((None, Some e), w1)
      | (Inr lease, w1) \<Rightarrow>
          (let ((result, callErr), w2) = call w1;
               (releaseErr, w3) = complete lease callErr w2
           in case releaseErr of
                None \<Rightarrow> ((result, callErr), w3)
              | Some r \<Rightarrow>
                  ((result, Some (case callErr of
                       None \<Rightarrow> Wrapf ''release operation lease: '' r []
                     | Some c \<Rightarrow> Wrapf [] c (''; release operation lease: '' @ error_text r))), w3)))"

subsection \<open>No operation is left queued\<close>


definition lease_dirs :: "error option \<times> journal" where
  "lease_dirs = ensureDirs env_a ''h'' empty_journal"
definition lease_queued :: "operationJournalEntry res \<times> journal" where
  "lease_queued = findOrCreateOperation env_a (demo_params [] ''a'') (snd lease_dirs)"
definition lease_active :: "bool res \<times> journal" where
  "lease_active = tryActivate env_a entry_a (snd lease_queued)"

lemma lease_run: "fst lease_dirs = None" "fst lease_queued = Inr entry_a" "fst lease_active = Inr True"
  by code_simp+

lemma lease_acquired:
  "Acquire env_a None (demo_params [] ''a'') empty_journal = (Inr (e_OperationID entry_a, True), snd lease_active)"
proof -
  obtain j1 j2 j3 where j: "ensureDirs env_a ''h'' empty_journal = (None, j1)"
    "findOrCreateOperation env_a (demo_params [] ''a'') j1 = (Inr entry_a, j2)"
    "tryActivate env_a entry_a j2 = (Inr True, j3)" "snd lease_active = j3"
    using lease_run unfolding lease_active_def lease_queued_def lease_dirs_def by (metis prod.collapse)
  have "aq_HostKey (demo_params [] ''a'') = ''h''" by (simp add: demo_params_def)
  with j demo_ids(3) show ?thesis by (simp add: Acquire_def)
qed

definition demo_round :: pollRound where
  "demo_round = \<lparr>pl_acquire = [\<lparr>at_prepare = None, at_exec = (env_a, None), at_delivery = Answered, at_reset = None,
     at_reacquire = None, at_sleep = None\<rparr>], pl_ctx = None, pl_elapsed = 0, pl_sleep = None, pl_release = []\<rparr>"

lemma lease_granted: "acquireRPC defaultRetryPolicy True (demo_params [] ''a'') (pl_acquire demo_round) empty_journal =
    (Inr (e_OperationID entry_a, True), snd lease_active)"
  by (simp add: acquireRPC_def rpc_def withRetries_def Let_def normalizeRetryPolicy_def defaultRetryPolicy_def
      demo_round_def numeral_3_eq_3 attemptOnce_def link_ops_def link_prepare_def link_call_def lease_acquired)


end
