(* ===== verification/HostCommands.thy ===== *)
theory HostCommands
  imports RpcRetry RebootJournal
begin

text \<open>
  Commands the provider runs on the target host: \<open>HostCommand\<close> of hostsession/manager.go, the helpers
  of hostsession/reboot_platform.go and the readiness checks of hostsession/host_readiness.go.

  A \<open>machine\<close> is what such code works on. \<open>m_host\<close> is the target: the reboot journal, the commands
  that ran there (newest last) and what the next commands will answer. The other fields say what the
  outside does: \<open>m_rpcs\<close> holds, for every coming RPC, what the link does to its attempts; \<open>m_profiles\<close>
  what the coming look-ups of the host profile find; \<open>m_answers\<close> the outcomes of the coming sleeps,
  resets, reconnects and bootstraps, in the order the code asks for them; \<open>m_clock\<close> the coming
  readings of the clock. When answers are used up the context is cancelled.
\<close>

record targetHost =
  th_store :: rebootStore
  th_log :: "HostCommandParams list"
  th_outputs :: "CommandResult list"

record machine =
  m_host :: targetHost
  m_policy :: RetryPolicy
  m_pool :: bool
  m_config :: TransportConfig
  m_rpcs :: "env attempt list list"
  m_profiles :: "HostProfile option list"
  m_answers :: "error option list"
  m_clock :: "int list"

type_synonym 'a act = "machine \<Rightarrow> 'a \<times> machine"

definition ret :: "'a \<Rightarrow> 'a act" where
  "ret a w = (a, w)"

definition bindA :: "'a act \<Rightarrow> ('a \<Rightarrow> 'b act) \<Rightarrow> 'b act" where
  "bindA m f w = (let (a, w1) = m w in f a w1)"

text \<open>Go's \<open>if err != nil { return err }\<close>.\<close>

definition bindR :: "'a res act \<Rightarrow> ('a \<Rightarrow> 'b res act) \<Rightarrow> 'b res act" where
  "bindR m f w = (case m w of (Inl e, w1) \<Rightarrow> (Inl e, w1) | (Inr a, w1) \<Rightarrow> f a w1)"

definition wrapErr :: "(error \<Rightarrow> error) \<Rightarrow> 'a res act \<Rightarrow> 'a res act" where
  "wrapErr g m w = (case m w of (Inl e, w1) \<Rightarrow> (Inl (g e), w1) | (Inr a, w1) \<Rightarrow> (Inr a, w1))"

lemma bindR_Inr: "bindR m f w = (Inr b, w') \<longleftrightarrow> (\<exists>a w1. m w = (Inr a, w1) \<and> f a w1 = (Inr b, w'))"
  by (auto simp: bindR_def split: prod.splits sum.splits)

lemma wrapErr_Inr [simp]: "wrapErr g m w = (Inr a, w') \<longleftrightarrow> m w = (Inr a, w')"
  by (auto simp: wrapErr_def split: prod.splits sum.splits)

lemma ret_simp [simp]: "ret a w = (b, w') \<longleftrightarrow> b = a \<and> w' = w"
  by (auto simp: ret_def)

subsection \<open>The outside\<close>

definition nextAnswer :: "error option act" where
  "nextAnswer w = (case m_answers w of [] \<Rightarrow> (Some Canceled, w) | a # as \<Rightarrow> (a, w\<lparr>m_answers := as\<rparr>))"

definition getHostProfile :: "HostProfile option act" where
  "getHostProfile w = (case m_profiles w of [] \<Rightarrow> (None, w) | p # ps \<Rightarrow> (p, w\<lparr>m_profiles := ps\<rparr>))"

definition callHost :: "(env \<Rightarrow> targetHost \<Rightarrow> 'a res \<times> targetHost) \<Rightarrow> 'a res act" where
  "callHost f w =
     (let (attempts, rest) = (case m_rpcs w of [] \<Rightarrow> ([], []) | a # as \<Rightarrow> (a, as));
          (r, h) = rpc (m_policy w) (m_pool w) f (m_host w) attempts
      in (r, w\<lparr>m_host := h, m_rpcs := rest\<rparr>))"

definition runOnHost :: "HostCommandParams \<Rightarrow> env \<Rightarrow> targetHost \<Rightarrow> CommandResult res \<times> targetHost" where
  "runOnHost params E h =
     (let h1 = h\<lparr>th_log := th_log h @ [params]\<rparr> in
      case th_outputs h of
        [] \<Rightarrow> (Inl (Errorf ''run command''), h1)
      | out # outs \<Rightarrow> (Inr out, h1\<lparr>th_outputs := outs\<rparr>))"

definition HostCommand :: "HostCommandParams \<Rightarrow> CommandResult res act" where
  "HostCommand params = wrapErr (\<lambda>e. Wrapf ''host.command: '' e []) (callHost (runOnHost params))"

definition become :: ExecutionContext where
  "become = \<lparr>ex_Become = True, ex_BecomeUser = []\<rparr>"

subsection \<open>Helpers of reboot_platform.go\<close>

definition commandResultDetail :: "CommandResult option \<Rightarrow> string" where
  "commandResultDetail result =
     (case result of
        None \<Rightarrow> ''unknown command failure''
      | Some r \<Rightarrow>
          let detail0 = TrimSpace (cr_Stderr r);
              detail = (if detail0 = [] then TrimSpace (cr_Stdout r) else detail0)
          in if detail = [] then ''exit status '' @ show_int (cr_ExitCode r)
             else ''exit status '' @ show_int (cr_ExitCode r) @ '': '' @ detail)"

definition runExecutorCommandResult :: "bool \<Rightarrow> string \<Rightarrow> string list \<Rightarrow> CommandResult res act" where
  "runExecutorCommandResult asRoot name args =
     HostCommand \<lparr>hc_Name = name, hc_Args = args, hc_Execution = (if asRoot then Some become else None)\<rparr>"

text \<open>The standard output is returned beside the error when the exit status is not 0.\<close>

definition runExecutorCommand :: "string \<Rightarrow> string list \<Rightarrow> (string \<times> error option) act" where
  "runExecutorCommand name args w =
     (case runExecutorCommandResult True name args w of
        (Inl e, w1) \<Rightarrow> (([], Some e), w1)
      | (Inr r, w1) \<Rightarrow>
          if cr_ExitCode r \<noteq> 0 then ((cr_Stdout r, Some (Errorf (commandResultDetail (Some r)))), w1)
          else ((cr_Stdout r, None), w1))"

definition bestEffortExecutorCommand :: "string \<Rightarrow> string list \<Rightarrow> string act" where
  "bestEffortExecutorCommand name args =
     bindA (runExecutorCommand name args)
       (\<lambda>(output, err). ret (if err \<noteq> None then [] else TrimSpace output))"

definition executorHasCommand :: "string \<Rightarrow> bool res act" where
  "executorHasCommand name =
     bindA getHostProfile (\<lambda>profile.
       case profile of
         Some p \<Rightarrow> ret (Inr (name \<in> set (hp_AvailableCmds p)))
       | None \<Rightarrow>
           bindR (runExecutorCommandResult False name (if name = ''systemctl'' then [''--version''] else [''--help'']))
             (\<lambda>result. ret (Inr (cr_ExitCode result \<noteq> -1))))"

fun firstID :: "string list \<Rightarrow> string" where
  "firstID [] = []"
| "firstID (l # ls) =
     (let line = TrimSpace l in
      if \<not> HasPrefix line ''ID='' then firstID ls
      else TrimSet [CHR 0x22, CHR 0x27] (TrimSpace (TrimPrefix line ''ID='')))"

definition parseOSReleaseID :: "string \<Rightarrow> string" where
  "parseOSReleaseID content = firstID (Split (CHR 0x0A) content)"

subsection \<open>host_readiness.go\<close>

definition runReadinessCommand :: "bool \<Rightarrow> string \<Rightarrow> string list \<Rightarrow> CommandResult res act" where
  "runReadinessCommand needRoot name args =
     HostCommand \<lparr>hc_Name = name, hc_Args = args, hc_Execution = (if needRoot then Some become else None)\<rparr>"

definition readinessTest :: "bool \<Rightarrow> string \<Rightarrow> string \<Rightarrow> bool res act" where
  "readinessTest needRoot testFlag path =
     bindR (runReadinessCommand needRoot ''test'' [testFlag, path]) (\<lambda>result.
       if cr_ExitCode result = 0 then ret (Inr True)
       else if cr_ExitCode result = 1 then ret (Inr False)
       else ret (Inl (Errorf (''test '' @ testFlag @ '' '' @ path @ '' failed: '' @ commandResultDetail (Some result)))))"

definition readinessSystemdAvailable :: "bool \<Rightarrow> bool res act" where
  "readinessSystemdAvailable needRoot =
     bindR (executorHasCommand ''systemctl'') (\<lambda>hasSystemctl.
       if \<not> hasSystemctl then ret (Inr False)
       else readinessTest needRoot ''-d'' ''/run/systemd/system'')"

definition lastLine :: "string list \<Rightarrow> string" where
  "lastLine ls = fold (\<lambda>l state. if TrimSpace l \<noteq> [] then TrimSpace l else state) ls []"

definition readinessCommandState :: "CommandResult option \<Rightarrow> string" where
  "readinessCommandState result =
     (case result of
        None \<Rightarrow> []
      | Some r \<Rightarrow>
          let text0 = TrimSpace (cr_Stdout r);
              text1 = (if text0 = [] then TrimSpace (cr_Stderr r) else text0)
          in ToLower (lastLine (Split (CHR 0x0A) (remove_char (CHR 0x0D) text1))))"

definition aptProcessRunning :: "string \<Rightarrow> bool" where
  "aptProcessRunning stdout \<longleftrightarrow>
     list_ex (\<lambda>l. TrimSpace l \<in> set [''apt'', ''apt-get'', ''dpkg'', ''unattended-upgrade'']) (Split (CHR 0x0A) stdout)"

definition cloudInitReportedDone :: "CommandResult option \<Rightarrow> bool" where
  "cloudInitReportedDone result =
     (case result of
        None \<Rightarrow> False
      | Some r \<Rightarrow>
          let status0 = ToLower (TrimSpace (cr_Stderr r));
              status = (if status0 = [] then ToLower (TrimSpace (cr_Stdout r)) else status0)
          in Contains status ''status: done'')"

text \<open>The blocker, or the empty string; the services are checked in the code's order.\<close>

fun serviceBlocker :: "bool \<Rightarrow> string list \<Rightarrow> string res act" where
  "serviceBlocker needRoot [] = ret (Inr [])"
| "serviceBlocker needRoot (service # services) =
     bindR (runReadinessCommand needRoot ''systemctl'' [''is-active'', service]) (\<lambda>result.
       let state = readinessCommandState (Some result) in
       if state \<in> set [''active'', ''activating'', ''reloading'']
       then ret (Inr (''service '' @ service @ '' is '' @ state))
       else serviceBlocker needRoot services)"

definition processBlocker :: "bool \<Rightarrow> string res act" where
  "processBlocker needRoot =
     bindR (runReadinessCommand needRoot ''ps'' [''-eo'', ''comm='']) (\<lambda>result.
       if cr_ExitCode result \<noteq> 0
       then ret (Inl (Errorf (''ps -eo comm= failed: '' @ commandResultDetail (Some result))))
       else if aptProcessRunning (cr_Stdout result) then ret (Inr ''package manager process is active'')
       else ret (Inr []))"

definition aptReadinessBlocker :: "bool \<Rightarrow> bool \<Rightarrow> string res act" where
  "aptReadinessBlocker needRoot systemdAvailable =
     bindR (if systemdAvailable then serviceBlocker needRoot [''apt-daily.service'', ''apt-daily-upgrade.service'']
            else ret (Inr []))
       (\<lambda>blocker. if blocker \<noteq> [] then ret (Inr blocker) else processBlocker needRoot)"

fun aptReadinessLoop :: "bool \<Rightarrow> bool \<Rightarrow> nat \<Rightarrow> unit res act" where
  "aptReadinessLoop needRoot systemdAvailable 0 = ret (Inr ())"
| "aptReadinessLoop needRoot systemdAvailable (Suc left) =
     bindR (aptReadinessBlocker needRoot systemdAvailable) (\<lambda>blocker.
       if blocker = [] then ret (Inr ())
       else if left = 0 then ret (Inl (Errorf (''apt is not ready after 10m: '' @ blocker)))
       else bindA nextAnswer (\<lambda>err.
         case err of Some e \<Rightarrow> ret (Inl e) | None \<Rightarrow> aptReadinessLoop needRoot systemdAvailable left))"

definition hostReadinessPollAttempts :: nat where "hostReadinessPollAttempts = 120"

definition waitForAptReadiness :: "bool \<Rightarrow> bool \<Rightarrow> unit res act" where
  "waitForAptReadiness needRoot systemdAvailable =
     aptReadinessLoop needRoot systemdAvailable hostReadinessPollAttempts"

definition readinessScope :: "bool \<Rightarrow> string" where
  "readinessScope needRoot = (if needRoot then ''privileged mutation'' else ''mutation'')"

definition checkFailed :: "bool \<Rightarrow> machine \<Rightarrow> error \<Rightarrow> error" where
  "checkFailed needRoot w e =
     Wrapf (''host '' @ Endpoint (m_config w) @ '' readiness check failed before '' @ readinessScope needRoot @ '': '') e []"

definition notReady :: "bool \<Rightarrow> string \<Rightarrow> machine \<Rightarrow> error" where
  "notReady needRoot why w =
     Errorf (''host '' @ Endpoint (m_config w) @ '' is not ready for '' @ readinessScope needRoot @ '': '' @ why)"

definition failNotReady :: "bool \<Rightarrow> string \<Rightarrow> 'a res act" where
  "failNotReady needRoot why w = (Inl (notReady needRoot why w), w)"

definition checked :: "bool \<Rightarrow> 'a res act \<Rightarrow> 'a res act" where
  "checked needRoot m w = wrapErr (checkFailed needRoot w) m w"

definition rootReadiness :: "bool \<Rightarrow> unit res act" where
  "rootReadiness needRoot =
     (if \<not> needRoot then ret (Inr ())
      else bindR (checked needRoot (HostCommand \<lparr>hc_Name = ''true'', hc_Args = [], hc_Execution = Some become\<rparr>))
        (\<lambda>result. if cr_ExitCode result \<noteq> 0
           then failNotReady needRoot (''sudo -n true failed: '' @ commandResultDetail (Some result))
           else ret (Inr ())))"

definition bootFinished :: string where "bootFinished = ''/var/lib/cloud/instance/boot-finished''"

definition cloudInitReadiness :: "bool \<Rightarrow> unit res act" where
  "cloudInitReadiness needRoot =
     bindR (checked needRoot (executorHasCommand ''cloud-init'')) (\<lambda>available.
       if \<not> available then ret (Inr ())
       else bindR (checked needRoot (runReadinessCommand needRoot ''cloud-init'' [''status'', ''--wait''])) (\<lambda>result.
         if cr_ExitCode result \<noteq> 0 \<and> \<not> cloudInitReportedDone (Some result)
         then failNotReady needRoot (commandResultDetail (Some result))
         else bindR (checked needRoot (readinessTest needRoot ''-e'' bootFinished)) (\<lambda>ok.
           if \<not> ok then failNotReady needRoot (''cloud-init boot-finished marker missing at '' @ bootFinished)
           else ret (Inr ()))))"

definition systemdReadiness :: "bool \<Rightarrow> bool res act" where
  "systemdReadiness needRoot =
     bindR (checked needRoot (readinessSystemdAvailable needRoot)) (\<lambda>available.
       if \<not> available then ret (Inr False)
       else bindR (checked needRoot (runReadinessCommand needRoot ''systemctl'' [''is-system-running'', ''--wait''])) (\<lambda>result.
         let state = readinessCommandState (Some result) in
         if state \<noteq> ''running'' \<and> state \<noteq> ''degraded''
         then failNotReady needRoot (''systemd is not ready: '' @ (if state = [] then ''unknown'' else state))
         else ret (Inr True)))"

definition ensureHostReady :: "bool \<Rightarrow> unit res act" where
  "ensureHostReady needRoot =
     bindR (rootReadiness needRoot) (\<lambda>_.
     bindR (cloudInitReadiness needRoot) (\<lambda>_.
     bindR (systemdReadiness needRoot) (\<lambda>systemdAvailable.
     bindR (checked needRoot (executorHasCommand ''apt-get'')) (\<lambda>aptAvailable w.
       if \<not> aptAvailable then (Inr (), w)
       else wrapErr (\<lambda>e. Wrapf (''host '' @ Endpoint (m_config w) @ '' is not ready for '' @ readinessScope needRoot @ '': '') e [])
              (waitForAptReadiness needRoot systemdAvailable) w))))"

subsection \<open>What readiness means\<close>

lemma aptReadinessBlocker_clear:
  assumes "aptReadinessBlocker needRoot systemd w = (Inr [], w')"
  shows "\<exists>w0. processBlocker needRoot w0 = (Inr [], w')"
  using assms by (auto simp: aptReadinessBlocker_def bindR_Inr split: if_splits)

lemma aptReadinessLoop_clear:
  assumes "aptReadinessLoop needRoot systemd left w = (Inr (), w')" and "0 < left"
  shows "\<exists>w0. aptReadinessBlocker needRoot systemd w0 = (Inr [], w')"
  using assms
proof (induction left arbitrary: w)
  case (Suc left)
  from Suc.prems(1) obtain blocker w1 where b: "aptReadinessBlocker needRoot systemd w = (Inr blocker, w1)"
    "(if blocker = [] then ret (Inr ()) else if left = 0 then ret (Inl (Errorf (''apt is not ready after 10m: '' @ blocker)))
      else bindA nextAnswer (\<lambda>err. case err of Some e \<Rightarrow> ret (Inl e) | None \<Rightarrow> aptReadinessLoop needRoot systemd left)) w1
     = (Inr (), w')"
    by (auto simp: bindR_Inr)
  show ?case
  proof (cases "blocker = []")
    case True
    with b show ?thesis by auto
  next
    case False
    with b(2) have left: "0 < left" by (cases left) auto
    obtain a w2 where "nextAnswer w1 = (a, w2)" by force
    with b(2) False left have "aptReadinessLoop needRoot systemd left w2 = (Inr (), w')"
      by (cases a) (auto simp: bindA_def)
    from Suc.IH [OF this left] show ?thesis .
  qed
qed simp

lemma processBlocker_clear:
  assumes "processBlocker needRoot w = (Inr [], w')"
  shows "\<exists>r. runReadinessCommand needRoot ''ps'' [''-eo'', ''comm=''] w = (Inr r, w') \<and> cr_ExitCode r = 0 \<and>
    \<not> aptProcessRunning (cr_Stdout r)"
  using assms by (auto simp: processBlocker_def bindR_Inr split: if_splits)

text \<open>What the host readiness check promises. It reports ready only if, for a privileged operation,
  its first command ran as root and succeeded, and its last look at the host either found no
  \<open>apt-get\<close> or was a process listing that succeeded and shows no package manager.\<close>

lemma ready_host_is_idle:
  assumes "ensureHostReady needRoot w = (Inr (), w')"
  shows "(needRoot \<longrightarrow> (\<exists>r w1. HostCommand \<lparr>hc_Name = ''true'', hc_Args = [], hc_Execution = Some become\<rparr> w = (Inr r, w1) \<and>
      cr_ExitCode r = 0)) \<and>
    ((\<exists>w0. executorHasCommand ''apt-get'' w0 = (Inr False, w')) \<or>
     (\<exists>w0 r. runReadinessCommand needRoot ''ps'' [''-eo'', ''comm=''] w0 = (Inr r, w') \<and> cr_ExitCode r = 0 \<and>
       \<not> aptProcessRunning (cr_Stdout r)))"
proof -
  from assms obtain w1 w2 w3 w4 systemd apt where steps: "rootReadiness needRoot w = (Inr (), w1)"
    "executorHasCommand ''apt-get'' w3 = (Inr apt, w4)"
    "if apt then waitForAptReadiness needRoot systemd w4 = (Inr (), w') else w' = w4"
    by (fastforce simp: ensureHostReady_def bindR_Inr checked_def split: if_splits)
  have "\<exists>r w1. HostCommand \<lparr>hc_Name = ''true'', hc_Args = [], hc_Execution = Some become\<rparr> w = (Inr r, w1) \<and>
      cr_ExitCode r = 0" if needRoot
    using steps(1) that by (auto simp: rootReadiness_def bindR_Inr checked_def failNotReady_def split: if_splits)
  moreover have "(\<exists>w0. executorHasCommand ''apt-get'' w0 = (Inr False, w')) \<or>
     (\<exists>w0 r. runReadinessCommand needRoot ''ps'' [''-eo'', ''comm=''] w0 = (Inr r, w') \<and> cr_ExitCode r = 0 \<and>
       \<not> aptProcessRunning (cr_Stdout r))"
  proof (cases apt)
    case True
    with steps(3) have "aptReadinessLoop needRoot systemd hostReadinessPollAttempts w4 = (Inr (), w')"
      by (simp add: waitForAptReadiness_def)
    from aptReadinessLoop_clear [OF this] aptReadinessBlocker_clear processBlocker_clear show ?thesis
      by (fastforce simp: hostReadinessPollAttempts_def)
  next
    case False
    with steps show ?thesis by auto
  qed
  ultimately show ?thesis by blast
qed

definition demo_ok :: "env attempt" where
  "demo_ok = \<lparr>at_prepare = None, at_exec = demo_E, at_delivery = Answered, at_reset = None, at_reacquire = None, at_sleep = None\<rparr>"

definition demo_out :: "string \<Rightarrow> CommandResult" where
  "demo_out s = \<lparr>cr_Stdout = s, cr_Stderr = [], cr_ExitCode = 0\<rparr>"

definition demo_profile :: HostProfile where
  "demo_profile = \<lparr>hp_Hostname = ''n'', hp_DistroID = ''ubuntu'', hp_DistroName = [], hp_DistroVersion = ''24.04'',
     hp_DistroFamily = ''debian'', hp_Kernel = [], hp_KernelVersion = [], hp_Arch = ''x86_64'', hp_InitSystem = [],
     hp_PackageMgr = ''apt'', hp_SELinux = False, hp_AppArmor = False, hp_AvailableCmds = [''apt-get'', ''reboot''],
     hp_Extra = []\<rparr>"

definition demo_machine :: "string list \<Rightarrow> machine" where
  "demo_machine outs = \<lparr>m_host = \<lparr>th_store = demo_store, th_log = [], th_outputs = map demo_out outs\<rparr>,
     m_policy = defaultRetryPolicy, m_pool = True, m_config = demo_config ''h'', m_rpcs = replicate 20 [demo_ok],
     m_profiles = replicate 9 (Some demo_profile), m_answers = replicate 9 None, m_clock = [1, 2, 3, 4, 5, 6]\<rparr>"

lemma ready_host_is_idle_witness:
  "fst (ensureHostReady True (demo_machine [[], ''dpkg'', ''bash''])) = Inr () \<and>
   (\<exists>r w1. HostCommand \<lparr>hc_Name = ''true'', hc_Args = [], hc_Execution = Some become\<rparr> (demo_machine [[], ''dpkg'', ''bash'']) =
      (Inr r, w1) \<and> cr_ExitCode r = 0)"
proof -
  have e: "fst (ensureHostReady True (demo_machine [[], ''dpkg'', ''bash''])) = Inr ()" by code_simp
  then have "ensureHostReady True (demo_machine [[], ''dpkg'', ''bash'']) =
      (Inr (), snd (ensureHostReady True (demo_machine [[], ''dpkg'', ''bash''])))" by (simp add: prod_eq_iff)
  from ready_host_is_idle [OF this] e show ?thesis by blast
qed

end
