(* ===== verification/RestartHost.thy ===== *)
theory RestartHost
  imports HostCommands
begin

text \<open>
  hostsession/restart_host.go, reboot_types.go and the platform of reboot_platform.go: the provider's
  side of a host reboot, a state machine over the phases recorded in the reboot journal of the target
  (theory RebootJournal), and its proof that the host came back rebooted.

  \<open>restartHostUnsafe\<close> runs on a \<open>machine\<close> (theory HostCommands). It is total: the waiting loop takes one
  clock reading per round, and when the readings are used up the provider was killed there, which
  is the result \<open>None\<close>.
\<close>

subsection \<open>Phases\<close>

definition rebootPhaseRank :: "string \<Rightarrow> int" where
  "rebootPhaseRank phase =
     (if phase = rebootPhasePlanned then 0
      else if phase = rebootPhasePrecheckComplete then 1
      else if phase = rebootPhaseTargetPrepared then 2
      else if phase = rebootPhaseRebootIssued then 3
      else if phase = rebootPhaseWaitingForReconnect then 4
      else if phase = rebootPhasePostReconnectValidated then 5
      else if phase = rebootPhaseExecutorRebootstrapped then 6
      else if phase = rebootPhaseCompleted then 7
      else if phase = rebootPhaseFailed then 8
      else -1)"

definition rebootPhaseLess :: "string \<Rightarrow> string \<Rightarrow> bool" where
  "rebootPhaseLess current target \<longleftrightarrow> rebootPhaseRank current < rebootPhaseRank target"

lemma phases_distinct:
  "distinct [rebootPhasePlanned, rebootPhasePrecheckComplete, rebootPhaseTargetPrepared, rebootPhaseRebootIssued,
     rebootPhaseWaitingForReconnect, rebootPhasePostReconnectValidated, rebootPhaseExecutorRebootstrapped,
     rebootPhaseCompleted, rebootPhaseFailed]"
  by (simp add: phase_defs)

lemma phase_ranks [simp]:
  "rebootPhaseRank rebootPhasePlanned = 0" "rebootPhaseRank rebootPhasePrecheckComplete = 1"
  "rebootPhaseRank rebootPhaseTargetPrepared = 2" "rebootPhaseRank rebootPhaseRebootIssued = 3"
  "rebootPhaseRank rebootPhaseWaitingForReconnect = 4" "rebootPhaseRank rebootPhasePostReconnectValidated = 5"
  "rebootPhaseRank rebootPhaseExecutorRebootstrapped = 6" "rebootPhaseRank rebootPhaseCompleted = 7"
  "rebootPhaseRank rebootPhaseFailed = 8"
  by (simp_all add: rebootPhaseRank_def phase_defs)

subsection \<open>Parameters and results\<close>

record RestartHostParams =
  rh_Name :: string
  rh_Reason :: string
  rh_RebootCommand :: string
  rh_Timeout :: int
  rh_Settle :: int
  rh_OperationType :: string

record RestartHostResult =
  rr_OperationID :: string
  rr_Phase :: string
  rr_StableHostID :: string
  rr_PreBootID :: string
  rr_PostBootID :: string
  rr_CompletedAt :: "int option"
  rr_LastError :: string
  rr_HostAddress :: string
  rr_Reason :: string
  rr_RebootCommand :: string

definition seconds :: "int \<Rightarrow> int" where "seconds n = n * 1000000000"

definition defaultRebootTimeout :: int where "defaultRebootTimeout = seconds 900"
definition defaultRebootSettle :: int where "defaultRebootSettle = seconds 15"
definition maxRebootReconnectAttempt :: int where "maxRebootReconnectAttempt = seconds 20"

definition normalizeRestartHostParams :: "RestartHostParams \<Rightarrow> RestartHostParams" where
  "normalizeRestartHostParams params =
     (let p1 = (if TrimSpace (rh_Name params) = [] then params\<lparr>rh_Name := ''restart-host''\<rparr> else params);
          p2 = (if TrimSpace (rh_Reason p1) = [] then p1\<lparr>rh_Reason := rh_Name p1\<rparr> else p1);
          p3 = (if rh_Timeout p2 \<le> 0 then p2\<lparr>rh_Timeout := defaultRebootTimeout\<rparr> else p2);
          p4 = (if rh_Settle p3 < 0 then p3\<lparr>rh_Settle := 0\<rparr> else p3);
          p5 = (if rh_Settle p4 = 0 then p4\<lparr>rh_Settle := defaultRebootSettle\<rparr> else p4);
          p6 = (if TrimSpace (rh_OperationType p5) = [] then p5\<lparr>rh_OperationType := ''action.restart_host''\<rparr> else p5)
      in p6\<lparr>rh_RebootCommand := TrimSpace (rh_RebootCommand p6)\<rparr>)"

definition rebootBarrierOperationName :: "string \<Rightarrow> string \<Rightarrow> string" where
  "rebootBarrierOperationName resourceID triggersHash =
     (let r0 = TrimSpace resourceID; t = TrimSpace triggersHash;
          r = (if r0 = [] then ''unknown'' else r0)
      in if t = [] then ''reboot-barrier:'' @ r else ''reboot-barrier:'' @ r @ '':'' @ t)"

record RebootBarrierParams =
  rb_ResourceID :: string
  rb_Reason :: string
  rb_TriggersHash :: string
  rb_RebootCommand :: string
  rb_Timeout :: int
  rb_Settle :: int

definition barrierParams :: "RebootBarrierParams \<Rightarrow> RestartHostParams" where
  "barrierParams p = \<lparr>rh_Name = rebootBarrierOperationName (rb_ResourceID p) (rb_TriggersHash p),
     rh_Reason = rb_Reason p, rh_RebootCommand = rb_RebootCommand p, rh_Timeout = rb_Timeout p,
     rh_Settle = rb_Settle p, rh_OperationType = ''resource.reboot_barrier''\<rparr>"

definition rebootResultFromEntry :: "RebootJournalEntry option \<Rightarrow> RestartHostResult option" where
  "rebootResultFromEntry entry = map_option (\<lambda>e. \<lparr>rr_OperationID = rj_OperationID e, rr_Phase = rj_Phase e,
     rr_StableHostID = rj_StableHostID e, rr_PreBootID = rj_PreBootID e, rr_PostBootID = rj_PostBootID e,
     rr_CompletedAt = rj_CompletedAt e, rr_LastError = rj_LastError e, rr_HostAddress = rj_HostAddress e,
     rr_Reason = rj_Reason e, rr_RebootCommand = rj_RebootCommand e\<rparr>) entry"

definition rebootTimeoutForEntry :: "RebootJournalEntry option \<Rightarrow> RestartHostParams \<Rightarrow> int" where
  "rebootTimeoutForEntry entry params =
     (case entry of
        Some e \<Rightarrow> if rj_TimeoutSeconds e > 0 then wrap64 (seconds (rj_TimeoutSeconds e))
                  else if rh_Timeout params > 0 then rh_Timeout params else defaultRebootTimeout
      | None \<Rightarrow> if rh_Timeout params > 0 then rh_Timeout params else defaultRebootTimeout)"

definition rebootSettleForEntry :: "RebootJournalEntry option \<Rightarrow> RestartHostParams \<Rightarrow> int" where
  "rebootSettleForEntry entry params =
     (case entry of
        Some e \<Rightarrow> if rj_SettleSeconds e > 0 then wrap64 (seconds (rj_SettleSeconds e))
                  else if rh_Settle params > 0 then rh_Settle params else defaultRebootSettle
      | None \<Rightarrow> if rh_Settle params > 0 then rh_Settle params else defaultRebootSettle)"

text \<open>Times are clock readings in nanoseconds; \<open>rj_UpdatedAt = 0\<close> stands for the zero time.\<close>

definition rebootReconnectDeadline :: "RebootJournalEntry option \<Rightarrow> int \<Rightarrow> int option" where
  "rebootReconnectDeadline entry timeout =
     (case entry of
        None \<Rightarrow> None
      | Some e \<Rightarrow>
          if timeout \<le> 0 \<or> rebootPhaseLess (rj_Phase e) rebootPhaseRebootIssued \<or> rj_UpdatedAt e = 0 then None
          else Some (rj_UpdatedAt e + timeout))"

text \<open>The deadline of one reconnect attempt, for a parent context with or without one.\<close>

definition rebootReconnectAttemptDeadline :: "int option \<Rightarrow> int \<Rightarrow> int \<Rightarrow> int" where
  "rebootReconnectAttemptDeadline parent deadline time =
     (let d = (case parent of Some p \<Rightarrow> if p < deadline then p else deadline | None \<Rightarrow> deadline);
          remaining = d - time
      in if remaining \<le> 0 then d
         else time + (if remaining > maxRebootReconnectAttempt then maxRebootReconnectAttempt else remaining))"

subsection \<open>Proof of the host\<close>

record hostProof =
  hp_MachineID :: string
  hp_BootID :: string
  hp_PHostname :: string
  hp_Distro :: string
  hp_PArch :: string

definition StableID :: "hostProof \<Rightarrow> string" where
  "StableID p = ''machine-id:'' @ hp_MachineID p @ ''|hostname:'' @ hp_PHostname p @ ''|distro:'' @ hp_Distro p @
     ''|arch:'' @ hp_PArch p"

definition errBootNotChanged :: error where "errBootNotChanged = Errorf ''boot id unchanged''"

definition isBootNotChanged :: "error option \<Rightarrow> bool" where
  "isBootNotChanged err =
     (case err of None \<Rightarrow> False | Some e \<Rightarrow> Contains (error_text e) (error_text errBootNotChanged))"

definition validateRebootProof :: "hostProof \<Rightarrow> hostProof \<Rightarrow> error option" where
  "validateRebootProof pre post =
     (if StableID pre \<noteq> StableID post then Some (Errorf ''stable host identity changed across reboot'')
      else if hp_BootID pre = hp_BootID post then Some errBootNotChanged
      else None)"

definition validateRebootTransition :: "string \<Rightarrow> string \<Rightarrow> hostProof \<Rightarrow> error option" where
  "validateRebootTransition stableHostID preBootID post =
     (if TrimSpace stableHostID = [] \<or> TrimSpace preBootID = [] then Some (Errorf ''missing reboot proof state'')
      else if StableID post \<noteq> stableHostID then Some (Errorf ''stable host identity changed across reboot'')
      else if hp_BootID post = preBootID then Some errBootNotChanged
      else None)"

definition ReadHostProof :: "hostProof res act" where
  "ReadHostProof =
     bindA getHostProfile (\<lambda>profile.
       let hostname = (case profile of None \<Rightarrow> [] | Some p \<Rightarrow> TrimSpace (hp_Hostname p));
           distro = (case profile of None \<Rightarrow> [] | Some p \<Rightarrow> TrimSpace (hp_DistroID p));
           arch = (case profile of None \<Rightarrow> [] | Some p \<Rightarrow> TrimSpace (hp_Arch p)) in
       bindA (bestEffortExecutorCommand ''cat'' [''/etc/machine-id'']) (\<lambda>machineID.
       bindA (bestEffortExecutorCommand ''cat'' [''/proc/sys/kernel/random/boot_id'']) (\<lambda>bootID.
       bindA (if hostname = [] then bestEffortExecutorCommand ''hostname'' [] else ret hostname) (\<lambda>hostname'.
       bindA (if distro = [] then bindA (bestEffortExecutorCommand ''cat'' [''/etc/os-release''])
                (\<lambda>content. ret (parseOSReleaseID content)) else ret distro) (\<lambda>distro'.
       bindA (if arch = [] then bestEffortExecutorCommand ''uname'' [''-m''] else ret arch) (\<lambda>arch'.
         if TrimSpace machineID = [] \<or> TrimSpace bootID = []
         then ret (Inl (Errorf ''incomplete host proof: machine-id or boot_id missing''))
         else ret (Inr \<lparr>hp_MachineID = machineID, hp_BootID = bootID, hp_PHostname = hostname', hp_Distro = distro',
                hp_PArch = arch'\<rparr>)))))))"

definition ReadHostIdentity :: "(string \<times> string) res act" where
  "ReadHostIdentity = bindR ReadHostProof (\<lambda>proof. ret (Inr (StableID proof, hp_BootID proof)))"

definition probeFile :: "string \<Rightarrow> error option act" where
  "probeFile path = bindA (runExecutorCommand ''test'' [''-r'', path])
     (\<lambda>(_, err). ret (map_option (\<lambda>e. Wrapf ''post-reboot readiness probe failed: '' e []) err))"

definition ProbeReady :: "error option act" where
  "ProbeReady =
     bindA (probeFile ''/proc/sys/kernel/random/boot_id'') (\<lambda>err.
       if err \<noteq> None then ret err else probeFile ''/etc/machine-id'')"

definition SelectRebootCommand :: "string res act" where
  "SelectRebootCommand =
     bindR (executorHasCommand ''systemctl'') (\<lambda>hasSystemctl.
       if hasSystemctl then ret (Inr ''systemctl reboot'')
       else bindR (executorHasCommand ''shutdown'') (\<lambda>hasShutdown.
         if hasShutdown then ret (Inr ''shutdown -r now'')
         else bindR (executorHasCommand ''reboot'') (\<lambda>hasReboot.
           if hasReboot then ret (Inr ''reboot'')
           else ret (Inl (Errorf ''no supported reboot command found on host'')))))"

subsection \<open>Journal RPCs\<close>

definition onStore :: "(env \<Rightarrow> rebootStore \<Rightarrow> 'a res \<times> rebootStore) \<Rightarrow> env \<Rightarrow> targetHost \<Rightarrow> 'a res \<times> targetHost" where
  "onStore f E h = (let (r, s) = f E (th_store h) in (r, h\<lparr>th_store := s\<rparr>))"

definition prepareRebootJournal :: "RestartHostParams \<Rightarrow> RebootJournalEntry res act" where
  "prepareRebootJournal params w =
     callHost (onStore (\<lambda>E. Prepare E \<lparr>rp_HostAddress = Endpoint (m_config w), rp_PName = rh_Name params,
        rp_Reason = rh_Reason params, rp_RebootCommand = rh_RebootCommand params,
        rp_TimeoutSeconds = go_quot (rh_Timeout params) 1000000000,
        rp_SettleSeconds = go_quot (rh_Settle params) 1000000000\<rparr>)) w"

definition errOf :: "'a res act \<Rightarrow> error option act" where
  "errOf m w = (case m w of (Inl e, w1) \<Rightarrow> (Some e, w1) | (Inr _, w1) \<Rightarrow> (None, w1))"

definition markRebootJournalPhase :: "RebootJournalMarkPhaseParams \<Rightarrow> error option act" where
  "markRebootJournalPhase params = errOf (callHost (onStore (\<lambda>E. MarkPhase E params)))"

definition markRebootJournalFailed :: "string \<Rightarrow> error option \<Rightarrow> error option act" where
  "markRebootJournalFailed operationID failure =
     errOf (callHost (onStore (\<lambda>E. MarkFailed E operationID (case failure of None \<Rightarrow> [] | Some e \<Rightarrow> error_text e))))"

definition markRebootJournalCompleted :: "string \<Rightarrow> string \<Rightarrow> error option act" where
  "markRebootJournalCompleted operationID postBootID =
     errOf (callHost (onStore (\<lambda>E. MarkCompleted E operationID postBootID)))"

definition phaseOnly :: "string \<Rightarrow> string \<Rightarrow> RebootJournalMarkPhaseParams" where
  "phaseOnly operationID phase = \<lparr>mp_OperationID = operationID, mp_Phase = phase, mp_StableHostID = [],
     mp_PreBootID = [], mp_PostBootID = [], mp_RebootCommand = []\<rparr>"

definition issueParams :: "string \<Rightarrow> HostCommandParams" where
  "issueParams rebootCommand = \<lparr>hc_Name = ''sh'',
     hc_Args = [''-lc'', ''nohup sh -lc '' @ shellQuote (''sleep 1; '' @ rebootCommand) @ '' >/dev/null 2>&1 &''],
     hc_Execution = Some become\<rparr>"

definition issueRebootCommand :: "string \<Rightarrow> error option act" where
  "issueRebootCommand rebootCommand =
     errOf (bindR (HostCommand (issueParams rebootCommand)) (\<lambda>result.
       if cr_ExitCode result \<noteq> 0
       then ret (Inl (Errorf (''issue reboot command failed: '' @ commandResultDetail (Some result))))
       else ret (Inr ())))"

subsection \<open>restartHostUnsafe\<close>

type_synonym rebootOutcome = "RestartHostResult option \<times> error option"

text \<open>\<open>None\<close>: the provider was killed. The local copy of the entry is passed along.\<close>

definition failReboot :: "RebootJournalEntry option \<Rightarrow> error \<Rightarrow> rebootOutcome option act" where
  "failReboot entry failure =
     (case entry of
        None \<Rightarrow> ret (Some (None, Some failure))
      | Some e \<Rightarrow>
          bindA (markRebootJournalFailed (rj_OperationID e) (Some failure)) (\<lambda>_.
            ret (Some (rebootResultFromEntry (Some (e\<lparr>rj_Phase := rebootPhaseFailed, rj_LastError := error_text failure\<rparr>)),
                       Some failure))))"

definition rebootEnds :: "RebootJournalEntry \<Rightarrow> error option \<Rightarrow> rebootOutcome option act" where
  "rebootEnds entry err = ret (Some (rebootResultFromEntry (Some entry), err))"

text \<open>One step of the code: mark the phase in the journal, return the error if that fails, else go on
  with the local entry updated.\<close>

definition marked ::
    "RebootJournalMarkPhaseParams \<Rightarrow> RebootJournalEntry \<Rightarrow> RebootJournalEntry \<Rightarrow>
     (RebootJournalEntry \<Rightarrow> rebootOutcome option act) \<Rightarrow> rebootOutcome option act" where
  "marked mp entry entry' next =
     bindA (markRebootJournalPhase mp) (\<lambda>err. if err \<noteq> None then rebootEnds entry err else next entry')"

definition sleepOr ::
    "RebootJournalEntry \<Rightarrow> rebootOutcome option act \<Rightarrow> rebootOutcome option act" where
  "sleepOr entry next =
     bindA nextAnswer (\<lambda>sleepErr. case sleepErr of Some e \<Rightarrow> failReboot (Some entry) e | None \<Rightarrow> next)"

text \<open>What follows a validated and ready host, from the phase on record.\<close>

definition readClock :: "int act" where
  "readClock w = (case m_clock w of [] \<Rightarrow> (0, w) | t # ts \<Rightarrow> (t, w\<lparr>m_clock := ts\<rparr>))"

definition finishReboot :: "RebootJournalEntry \<Rightarrow> string \<Rightarrow> rebootOutcome option act" where
  "finishReboot entry postBootID =
     (if \<not> rebootPhaseLess (rj_Phase entry) rebootPhaseCompleted then rebootEnds entry None
      else bindA (markRebootJournalCompleted (rj_OperationID entry) postBootID) (\<lambda>err.
        if err \<noteq> None then rebootEnds entry err
        else bindA readClock (\<lambda>time.
          rebootEnds (entry\<lparr>rj_Phase := rebootPhaseCompleted, rj_PostBootID := postBootID,
               rj_CompletedAt := Some time, rj_LastError := []\<rparr>) None)))"

definition rebootstrap :: "RebootJournalEntry \<Rightarrow> string \<Rightarrow> rebootOutcome option act" where
  "rebootstrap entry postBootID =
     (if \<not> rebootPhaseLess (rj_Phase entry) rebootPhaseExecutorRebootstrapped then finishReboot entry postBootID
      else bindA nextAnswer (\<lambda>err.
        case err of
          Some e \<Rightarrow> failReboot (Some entry) e
        | None \<Rightarrow> marked (phaseOnly (rj_OperationID entry) rebootPhaseExecutorRebootstrapped) entry
            (entry\<lparr>rj_Phase := rebootPhaseExecutorRebootstrapped\<rparr>) (\<lambda>e. finishReboot e postBootID)))"

definition settleReboot :: "RebootJournalEntry \<Rightarrow> int \<Rightarrow> string \<Rightarrow> rebootOutcome option act" where
  "settleReboot entry settle postBootID =
     (if rebootPhaseLess (rj_Phase entry) rebootPhaseExecutorRebootstrapped \<and> settle > 0
      then sleepOr entry (rebootstrap entry postBootID)
      else rebootstrap entry postBootID)"

definition hostReturned :: "RebootJournalEntry \<Rightarrow> int \<Rightarrow> hostProof \<Rightarrow> rebootOutcome option act" where
  "hostReturned entry settle postProof =
     (if rebootPhaseLess (rj_Phase entry) rebootPhasePostReconnectValidated
      then marked ((phaseOnly (rj_OperationID entry) rebootPhasePostReconnectValidated)\<lparr>mp_PostBootID := hp_BootID postProof\<rparr>)
             entry (entry\<lparr>rj_Phase := rebootPhasePostReconnectValidated, rj_PostBootID := hp_BootID postProof\<rparr>)
             (\<lambda>e. settleReboot e settle (hp_BootID postProof))
      else settleReboot entry settle (hp_BootID postProof))"

text \<open>The waiting loop; the number bounds the rounds by the clock readings that are left.\<close>

fun waitForHost ::
    "nat \<Rightarrow> RebootJournalEntry \<Rightarrow> string \<Rightarrow> string \<Rightarrow> int \<Rightarrow> int \<Rightarrow> rebootOutcome option act" where
  "waitForHost 0 entry hostid pre settle deadline = ret None"
| "waitForHost (Suc n) entry hostid pre settle deadline =
     (\<lambda>w. case m_clock w of
        [] \<Rightarrow> (None, w)
      | time # clock \<Rightarrow>
          (let w1 = w\<lparr>m_clock := clock\<rparr>;
               again = sleepOr entry (waitForHost n entry hostid pre settle deadline) in
           if \<not> time < deadline
           then failReboot (Some entry) (Errorf ''reboot timeout waiting for host to return and prove reboot'') w1
           else bindA nextAnswer (\<lambda>reconnectErr.
             if reconnectErr \<noteq> None then again
             else bindA ReadHostProof (\<lambda>postProof.
               case postProof of
                 Inl _ \<Rightarrow> again
               | Inr proof \<Rightarrow>
                   (case validateRebootTransition hostid pre proof of
                      Some err \<Rightarrow> if isBootNotChanged (Some err) then again else failReboot (Some entry) err
                    | None \<Rightarrow>
                        bindA ProbeReady (\<lambda>probeErr.
                          if probeErr \<noteq> None then again else hostReturned entry settle proof)))) w1))"

text \<open>\<open>deadline\<close> is the reboot context's deadline once one was set; \<open>ctxDeadline\<close> that of the
  caller's context, which it never exceeds.\<close>

definition withDeadline :: "int option \<Rightarrow> int \<Rightarrow> int" where
  "withDeadline ctxDeadline d = (case ctxDeadline of Some c \<Rightarrow> (if c < d then c else d) | None \<Rightarrow> d)"

definition effectiveDeadline :: "int option \<Rightarrow> int option \<Rightarrow> int option" where
  "effectiveDeadline ctxDeadline deadline =
     (case deadline of Some d \<Rightarrow> Some d | None \<Rightarrow> ctxDeadline)"

definition startWaiting ::
    "int option \<Rightarrow> RebootJournalEntry \<Rightarrow> string \<Rightarrow> string \<Rightarrow> int \<Rightarrow> int \<Rightarrow> int option \<Rightarrow> rebootOutcome option act" where
  "startWaiting ctxDeadline entry hostid pre timeout settle deadline w =
     (case effectiveDeadline ctxDeadline deadline of
        Some d \<Rightarrow> waitForHost (length (m_clock w)) entry hostid pre settle d w
      | None \<Rightarrow>
          (let (time, w1) = readClock w in
           waitForHost (length (m_clock w1)) entry hostid pre settle (time + timeout) w1))"

text \<open>From an issued reboot on: reset the session and record that the host is being waited for. The
  deadline is set if it was not, then \<open>resetSessionSafely\<close> runs, which may fail.\<close>

definition awaitReconnect ::
    "int option \<Rightarrow> RebootJournalEntry \<Rightarrow> string \<Rightarrow> string \<Rightarrow> int \<Rightarrow> int \<Rightarrow> int option \<Rightarrow> rebootOutcome option act" where
  "awaitReconnect ctxDeadline entry hostid pre timeout settle deadline =
     (if \<not> rebootPhaseLess (rj_Phase entry) rebootPhaseWaitingForReconnect
      then startWaiting ctxDeadline entry hostid pre timeout settle deadline
      else bindA (case deadline of
             Some d \<Rightarrow> ret (Some d)
           | None \<Rightarrow> bindA readClock (\<lambda>time. ret (Some (withDeadline ctxDeadline (time + timeout))))) (\<lambda>deadline'.
         bindA nextAnswer (\<lambda>resetErr.
           case resetErr of
             Some e \<Rightarrow> failReboot (Some entry) e
           | None \<Rightarrow> marked (phaseOnly (rj_OperationID entry) rebootPhaseWaitingForReconnect) entry
               (entry\<lparr>rj_Phase := rebootPhaseWaitingForReconnect\<rparr>)
               (\<lambda>e. startWaiting ctxDeadline e hostid pre timeout settle deadline'))))"

definition issueReboot ::
    "int option \<Rightarrow> RebootJournalEntry \<Rightarrow> string \<Rightarrow> string \<Rightarrow> string \<Rightarrow> int \<Rightarrow> int \<Rightarrow> int option \<Rightarrow> rebootOutcome option act" where
  "issueReboot ctxDeadline entry hostid pre rebootCommand timeout settle deadline =
     (if \<not> rebootPhaseLess (rj_Phase entry) rebootPhaseRebootIssued
      then awaitReconnect ctxDeadline entry hostid pre timeout settle deadline
      else marked ((phaseOnly (rj_OperationID entry) rebootPhaseRebootIssued)\<lparr>mp_RebootCommand := rebootCommand\<rparr>)
        entry (entry\<lparr>rj_Phase := rebootPhaseRebootIssued, rj_RebootCommand := rebootCommand\<rparr>) (\<lambda>entry'.
          bindA (issueRebootCommand rebootCommand) (\<lambda>err.
            case err of
              Some e \<Rightarrow> failReboot (Some entry') e
            | None \<Rightarrow> bindA readClock (\<lambda>time.
                awaitReconnect ctxDeadline entry' hostid pre timeout settle
                  (Some (withDeadline ctxDeadline (time + timeout)))))))"

definition prepareTarget ::
    "int option \<Rightarrow> RebootJournalEntry \<Rightarrow> string \<Rightarrow> string \<Rightarrow> string \<Rightarrow> int \<Rightarrow> int \<Rightarrow> int option \<Rightarrow> rebootOutcome option act" where
  "prepareTarget ctxDeadline entry hostid pre rebootCommand timeout settle deadline =
     (if hostid = [] \<or> pre = []
      then failReboot (Some entry) (Errorf (''reboot journal missing precheck proof for operation '' @ rj_OperationID entry))
      else if \<not> rebootPhaseLess (rj_Phase entry) rebootPhaseTargetPrepared
      then issueReboot ctxDeadline entry hostid pre rebootCommand timeout settle deadline
      else bindA (if rebootCommand = [] then SelectRebootCommand else ret (Inr rebootCommand)) (\<lambda>selected.
        case selected of
          Inl e \<Rightarrow> failReboot (Some entry) e
        | Inr cmd \<Rightarrow>
            marked ((phaseOnly (rj_OperationID entry) rebootPhaseTargetPrepared)\<lparr>mp_RebootCommand := cmd\<rparr>)
              entry (entry\<lparr>rj_Phase := rebootPhaseTargetPrepared, rj_RebootCommand := cmd\<rparr>) (\<lambda>entry'.
                issueReboot ctxDeadline entry' hostid pre cmd timeout settle deadline)))"

definition precheckHost ::
    "int option \<Rightarrow> RebootJournalEntry \<Rightarrow> string \<Rightarrow> int \<Rightarrow> int \<Rightarrow> int option \<Rightarrow> rebootOutcome option act" where
  "precheckHost ctxDeadline entry rebootCommand timeout settle deadline =
     (if \<not> rebootPhaseLess (rj_Phase entry) rebootPhasePrecheckComplete
      then prepareTarget ctxDeadline entry (TrimSpace (rj_StableHostID entry)) (TrimSpace (rj_PreBootID entry))
             rebootCommand timeout settle deadline
      else bindA ReadHostProof (\<lambda>preProof.
        case preProof of
          Inl e \<Rightarrow> failReboot (Some entry) e
        | Inr proof \<Rightarrow>
            marked ((phaseOnly (rj_OperationID entry) rebootPhasePrecheckComplete)
                \<lparr>mp_StableHostID := StableID proof, mp_PreBootID := hp_BootID proof\<rparr>)
              entry (entry\<lparr>rj_Phase := rebootPhasePrecheckComplete, rj_StableHostID := StableID proof,
                rj_PreBootID := hp_BootID proof\<rparr>) (\<lambda>entry'.
                prepareTarget ctxDeadline entry' (StableID proof) (hp_BootID proof) rebootCommand timeout settle deadline)))"

definition resumeReboot :: "int option \<Rightarrow> RestartHostParams \<Rightarrow> RebootJournalEntry \<Rightarrow> rebootOutcome option act" where
  "resumeReboot ctxDeadline params entry =
     (if rj_Phase entry = rebootPhaseCompleted then rebootEnds entry None
      else if rj_Phase entry = rebootPhaseFailed then
        rebootEnds entry (Some (Errorf (if rj_LastError entry \<noteq> [] then rj_LastError entry
                                        else ''previous reboot operation failed'')))
      else
        let timeout = rebootTimeoutForEntry (Some entry) params;
            settle = rebootSettleForEntry (Some entry) params;
            deadline = map_option (withDeadline ctxDeadline) (rebootReconnectDeadline (Some entry) timeout);
            command0 = TrimSpace (rj_RebootCommand entry);
            rebootCommand = (if command0 = [] then TrimSpace (rh_RebootCommand params) else command0)
        in precheckHost ctxDeadline entry rebootCommand timeout settle deadline)"

definition restartHostUnsafe :: "int option \<Rightarrow> RestartHostParams \<Rightarrow> rebootOutcome option act" where
  "restartHostUnsafe ctxDeadline params =
     bindA (prepareRebootJournal params) (\<lambda>prepared.
       case prepared of
         Inl e \<Rightarrow> ret (Some (None, Some (Wrapf ''prepare reboot journal: '' e [])))
       | Inr entry \<Rightarrow> resumeReboot ctxDeadline params entry)"

end
