(* ===== verification/RebootOnce.thy ===== *)
theory RebootOnce
  imports RestartHost
begin

text \<open>
  What theory RestartHost guarantees together with the reboot journal: the reboot command of an
  operation is sent by at most one run of the provider, only after the journal on the target says so,
  and a run that reports success has seen the same host with another boot id.

  The interface is the locale \<open>host_invariant\<close>: a predicate on the target that ordinary commands and
  the journal's marks keep. Its client lemma is that the waiting part of a reboot keeps it; it is
  interpreted on the number of reboot commands sent, on the journal's well-formedness and on
  \<open>issued_for\<close>.
\<close>

named_theorems keeps \<open>rules for the predicates an action keeps\<close>

subsection \<open>Predicates that an action keeps\<close>

definition keeps_host :: "(targetHost \<Rightarrow> bool) \<Rightarrow> 'a act \<Rightarrow> bool" where
  "keeps_host P m \<longleftrightarrow> (\<forall>w. P (m_host w) \<longrightarrow> P (m_host (snd (m w))))"

lemma keeps_hostD: "keeps_host P m \<Longrightarrow> P (m_host w) \<Longrightarrow> m w = (a, w') \<Longrightarrow> P (m_host w')"
  by (force simp: keeps_host_def)

lemma keeps_ret [keeps]: "keeps_host P (ret a)"
  by (simp add: keeps_host_def ret_def)

lemma keeps_bindA [keeps]: "keeps_host P m \<Longrightarrow> (\<And>a. keeps_host P (f a)) \<Longrightarrow> keeps_host P (bindA m f)"
  by (auto simp: keeps_host_def bindA_def Let_def split: prod.splits)

lemma keeps_bindR [keeps]: "keeps_host P m \<Longrightarrow> (\<And>a. keeps_host P (f a)) \<Longrightarrow> keeps_host P (bindR m f)"
  by (auto simp: keeps_host_def bindR_def split: prod.splits sum.splits)

lemma keeps_wrapErr [keeps]: "keeps_host P m \<Longrightarrow> keeps_host P (wrapErr g m)"
  by (auto simp: keeps_host_def wrapErr_def split: prod.splits sum.splits)

lemma keeps_errOf [keeps]: "keeps_host P m \<Longrightarrow> keeps_host P (errOf m)"
  by (auto simp: keeps_host_def errOf_def split: prod.splits sum.splits)

lemma keeps_outside [keeps]:
  "keeps_host P nextAnswer" "keeps_host P getHostProfile" "keeps_host P readClock"
  by (auto simp: keeps_host_def nextAnswer_def getHostProfile_def readClock_def split: list.splits)

lemma ran_keeps: "(\<And>x h. P h \<Longrightarrow> P (snd (f x h))) \<Longrightarrow> P h \<Longrightarrow> P (ran f xs h)"
  by (induction xs arbitrary: h) auto

lemma callHost_ran:
  assumes "callHost f w = (r, w')"
  shows "\<exists>xs. subseq xs (map at_exec (case m_rpcs w of [] \<Rightarrow> [] | a # as \<Rightarrow> a)) \<and>
    m_host w' = ran f xs (m_host w) \<and>
    (case r of Inl e \<Rightarrow> True | Inr a \<Rightarrow> \<exists>ys x. xs = ys @ [x] \<and> f x (ran f ys (m_host w)) = (Inr a, m_host w'))"
proof -
  let ?as = "case m_rpcs w of [] \<Rightarrow> [] | a # as \<Rightarrow> a"
  have "rpc (m_policy w) (m_pool w) f (m_host w) ?as = (r, m_host w')"
    using assms by (cases "m_rpcs w") (auto simp: callHost_def Let_def split: prod.splits)
  from rpc_runs_on_host [OF this] obtain xs where
    "m_host w' = ran f xs (m_host w)" "subseq xs (map at_exec ?as)"
    "case r of Inl e \<Rightarrow> True | Inr a \<Rightarrow> \<exists>ys x. xs = ys @ [x] \<and> f x (ran f ys (m_host w)) = (Inr a, m_host w')"
    by blast
  then show ?thesis by (intro exI [of _ xs] conjI)
qed

lemma keeps_callHost: "(\<And>x h. P h \<Longrightarrow> P (snd (f x h))) \<Longrightarrow> keeps_host P (callHost f)"
  unfolding keeps_host_def
proof (intro allI impI)
  fix w :: machine assume step: "\<And>x h. P h \<Longrightarrow> P (snd (f x h))" and P: "P (m_host w)"
  obtain r w' where c: "callHost f w = (r, w')" by force
  from callHost_ran [OF c] obtain xs where "m_host w' = ran f xs (m_host w)" by blast
  with ran_keeps [of P f, OF step P] c show "P (m_host (snd (callHost f w)))" by simp
qed

subsection \<open>The interface\<close>

text \<open>\<open>free i\<close>: the entry of the operation may be marked with any phase; the others only with one
  from \<open>reboot_issued\<close> on.\<close>

locale host_invariant =
  fixes P :: "targetHost \<Rightarrow> bool"
    and free :: "string \<Rightarrow> bool"
  assumes command: "P h \<Longrightarrow> hc_Name params \<noteq> ''sh'' \<Longrightarrow> P (snd (runOnHost params E h))"
    and mark: "P h \<Longrightarrow> free (mp_OperationID mp) \<or> 3 \<le> rebootPhaseRank (mp_Phase mp) \<Longrightarrow>
      P (snd (onStore (\<lambda>E. MarkPhase E mp) E h))"
    and mark_failed: "P h \<Longrightarrow> P (snd (onStore (\<lambda>E. MarkFailed E i e) E h))"
    and mark_completed: "P h \<Longrightarrow> P (snd (onStore (\<lambda>E. MarkCompleted E i b) E h))"
begin

lemma keeps_command: "hc_Name params \<noteq> ''sh'' \<Longrightarrow> keeps_host P (HostCommand params)"
  unfolding HostCommand_def by (intro keeps_wrapErr keeps_callHost command)

lemma keeps_result: "name \<noteq> ''sh'' \<Longrightarrow> keeps_host P (runExecutorCommandResult root name args)"
  unfolding runExecutorCommandResult_def by (rule keeps_command) simp

lemma keeps_executorCommand: "name \<noteq> ''sh'' \<Longrightarrow> keeps_host P (runExecutorCommand name args)"
  unfolding keeps_host_def runExecutorCommand_def
  by (auto split: prod.splits sum.splits) (metis keeps_hostD keeps_result)+

lemma keeps_bestEffort: "name \<noteq> ''sh'' \<Longrightarrow> keeps_host P (bestEffortExecutorCommand name args)"
  unfolding bestEffortExecutorCommand_def
  by (intro keeps_bindA keeps_executorCommand) (auto intro: keeps_ret split: prod.splits)

lemma keeps_hasCommand: "name \<noteq> ''sh'' \<Longrightarrow> keeps_host P (executorHasCommand name)"
  unfolding executorHasCommand_def
  by (intro keeps_bindA keeps_outside) (auto intro!: keeps keeps_result split: option.splits)

lemma keeps_ReadHostProof: "keeps_host P ReadHostProof"
  unfolding ReadHostProof_def Let_def
  by (intro keeps_bindA keeps_outside keeps_bestEffort)
    (auto intro!: keeps keeps_bestEffort)

lemma keeps_ProbeReady: "keeps_host P ProbeReady"
  unfolding ProbeReady_def probeFile_def
  by (auto intro!: keeps keeps_executorCommand split: prod.splits)

lemma keeps_Select: "keeps_host P SelectRebootCommand"
  unfolding SelectRebootCommand_def by (auto intro!: keeps keeps_hasCommand)

lemma keeps_markPhase:
  "free (mp_OperationID mp) \<or> 3 \<le> rebootPhaseRank (mp_Phase mp) \<Longrightarrow> keeps_host P (markRebootJournalPhase mp)"
  unfolding markRebootJournalPhase_def by (intro keeps_errOf keeps_callHost mark)

lemma keeps_failReboot: "keeps_host P (failReboot entry failure)"
  unfolding failReboot_def markRebootJournalFailed_def
  by (auto intro!: keeps keeps_callHost mark_failed split: option.splits)

lemma keeps_marked:
  assumes "free (mp_OperationID mp) \<or> 3 \<le> rebootPhaseRank (mp_Phase mp)" and "keeps_host P (next entry')"
  shows "keeps_host P (marked mp entry entry' next)"
  unfolding marked_def rebootEnds_def using assms by (auto intro!: keeps keeps_markPhase)

lemma keeps_sleepOr: "keeps_host P next \<Longrightarrow> keeps_host P (sleepOr entry next)"
  unfolding sleepOr_def by (auto intro!: keeps keeps_failReboot split: option.splits)

lemma keeps_finish: "keeps_host P (finishReboot entry b)"
  unfolding finishReboot_def markRebootJournalCompleted_def rebootEnds_def
  by (auto intro!: keeps keeps_callHost mark_completed)

lemma keeps_rebootstrap: "keeps_host P (rebootstrap entry b)"
  unfolding rebootstrap_def
  by (auto intro!: keeps keeps_finish keeps_failReboot keeps_marked simp: phaseOnly_def split: option.splits)

lemma keeps_settle: "keeps_host P (settleReboot entry settle b)"
  unfolding settleReboot_def by (auto intro!: keeps_sleepOr keeps_rebootstrap)

lemma keeps_hostReturned: "keeps_host P (hostReturned entry settle proof)"
  unfolding hostReturned_def by (auto intro!: keeps_marked keeps_settle simp: phaseOnly_def)

lemma keeps_wait: "keeps_host P (waitForHost n entry hostid pre settle deadline)"
proof (induction n)
  case (Suc n)
  note again = keeps_sleepOr [OF Suc.IH, of entry]
  have body: "keeps_host P (bindA nextAnswer (\<lambda>reconnectErr.
       if reconnectErr \<noteq> None then sleepOr entry (waitForHost n entry hostid pre settle deadline)
       else bindA ReadHostProof (\<lambda>postProof.
         case postProof of
           Inl _ \<Rightarrow> sleepOr entry (waitForHost n entry hostid pre settle deadline)
         | Inr proof \<Rightarrow>
             (case validateRebootTransition hostid pre proof of
                Some err \<Rightarrow> if isBootNotChanged (Some err) then sleepOr entry (waitForHost n entry hostid pre settle deadline)
                            else failReboot (Some entry) err
              | None \<Rightarrow>
                  bindA ProbeReady (\<lambda>probeErr.
                    if probeErr \<noteq> None then sleepOr entry (waitForHost n entry hostid pre settle deadline)
                    else hostReturned entry settle proof)))))"
    by (auto intro!: keeps keeps_ReadHostProof keeps_ProbeReady again keeps_failReboot keeps_hostReturned
        split: sum.splits option.splits)
  show ?case
    unfolding keeps_host_def
  proof (intro allI impI)
    fix w :: machine assume P: "P (m_host w)"
    show "P (m_host (snd (waitForHost (Suc n) entry hostid pre settle deadline w)))"
    proof (cases "m_clock w")
      case (Cons time clock)
      then show ?thesis
        using P keeps_failReboot [unfolded keeps_host_def] body [unfolded keeps_host_def] by (simp add: Let_def)
    qed (use P in simp)
  qed
qed (simp add: keeps_ret)

lemma keeps_startWaiting: "keeps_host P (startWaiting c entry hostid pre timeout settle deadline)"
  unfolding keeps_host_def startWaiting_def
  using keeps_wait [unfolded keeps_host_def]
  by (auto simp: readClock_def Let_def ret_def split: option.splits list.splits)

lemma keeps_awaitReconnect: "keeps_host P (awaitReconnect c entry hostid pre timeout settle deadline)"
  unfolding awaitReconnect_def
  by (auto intro!: keeps keeps_startWaiting keeps_failReboot keeps_marked simp: phaseOnly_def split: option.splits)

text \<open>A run that resumes an operation whose reboot was issued sends nothing and marks only later
  phases.\<close>

lemma keeps_resumed:
  assumes "3 \<le> rebootPhaseRank (rj_Phase entry)"
  shows "keeps_host P (resumeReboot c params entry)"
proof -
  have less: "rebootPhaseLess (rj_Phase entry) rebootPhasePrecheckComplete = False"
    "rebootPhaseLess (rj_Phase entry) rebootPhaseTargetPrepared = False"
    "rebootPhaseLess (rj_Phase entry) rebootPhaseRebootIssued = False"
    using assms by (simp_all add: rebootPhaseLess_def)
  have "keeps_host P (prepareTarget c entry hostid pre cmd timeout settle deadline)" for hostid pre cmd timeout settle deadline
    unfolding prepareTarget_def issueReboot_def less by (simp add: keeps_failReboot keeps_awaitReconnect)
  then show ?thesis
    unfolding resumeReboot_def precheckHost_def less rebootEnds_def Let_def by (simp add: keeps_ret)
qed

end

text \<open>A predicate that the reboot command keeps as well.\<close>

locale run_invariant = host_invariant +
  assumes any_command: "P h \<Longrightarrow> P (snd (runOnHost params E h))"
begin

lemma keeps_issue: "keeps_host P (issueRebootCommand cmd)"
  unfolding issueRebootCommand_def HostCommand_def
  by (auto intro!: keeps keeps_callHost any_command)

lemma keeps_issueReboot: "keeps_host P (issueReboot c entry hostid pre cmd timeout settle deadline)"
  unfolding issueReboot_def
  by (auto intro!: keeps keeps_failReboot keeps_awaitReconnect keeps_marked keeps_issue
      simp: phaseOnly_def split: option.splits)

lemma keeps_prepareTarget:
  "free (rj_OperationID entry) \<Longrightarrow> keeps_host P (prepareTarget c entry hostid pre cmd timeout settle deadline)"
  unfolding prepareTarget_def
  by (auto intro!: keeps keeps_failReboot keeps_issueReboot keeps_marked keeps_Select simp: phaseOnly_def split: sum.splits)

lemma keeps_run:
  assumes "free (rj_OperationID entry)"
  shows "keeps_host P (resumeReboot c params entry)"
  using assms unfolding resumeReboot_def precheckHost_def rebootEnds_def Let_def
  by (auto intro!: keeps keeps_failReboot keeps_marked keeps_prepareTarget keeps_ReadHostProof
      simp: phaseOnly_def split: sum.splits)

end

subsection \<open>On record as issued\<close>

definition issued_for :: "string \<Rightarrow> rebootStore \<Rightarrow> bool" where
  "issued_for i s \<longleftrightarrow>
     (\<exists>k e. rop_at s i = Some (Plain (Sealed k e)) \<and> 3 \<le> rebootPhaseRank (rj_Phase e)) \<and>
     (\<forall>fp k e. cur_at s fp = Some (Plain (Sealed k e)) \<longrightarrow> rj_OperationID e = i \<longrightarrow> 3 \<le> rebootPhaseRank (rj_Phase e))"

definition once :: "string \<Rightarrow> rebootStore \<Rightarrow> bool" where
  "once i s \<longleftrightarrow> store_ok s \<and> issued_for i s"

lemma issued_for_same: "same_files s s' \<Longrightarrow> issued_for i s' = issued_for i s"
  by (simp add: issued_for_def same_files_at)

lemma issued_for_put_op:
  assumes "issued_for i s" and "rop_at s' = (rop_at s)(j \<mapsto> Plain (Sealed k e))" and "cur_at s' = cur_at s"
    and "j \<noteq> i \<or> 3 \<le> rebootPhaseRank (rj_Phase e)"
  shows "issued_for i s'"
  using assms unfolding issued_for_def by (cases "j = i") auto

lemma issued_for_put_cur:
  assumes "issued_for i s" and cur: "cur_at s' = (cur_at s)(fp \<mapsto> Plain (Sealed k e))" and "rop_at s' = rop_at s"
    and "rj_OperationID e \<noteq> i \<or> 3 \<le> rebootPhaseRank (rj_Phase e)"
  shows "issued_for i s'"
proof -
  have "3 \<le> rebootPhaseRank (rj_Phase x)" if "cur_at s' fq = Some (Plain (Sealed kx x))" "rj_OperationID x = i" for fq kx x
  proof (cases "fq = fp")
    case True
    with that assms(4) show ?thesis by (simp add: cur)
  next
    case False
    with that assms(1) show ?thesis by (auto simp: cur issued_for_def)
  qed
  with assms(1,3) show ?thesis by (auto simp: issued_for_def)
qed

lemma issued_for_del_cur:
  "issued_for i s \<Longrightarrow> cur_at s' = (cur_at s)(fp := None) \<Longrightarrow> rop_at s' = rop_at s \<Longrightarrow> issued_for i s'"
  unfolding issued_for_def by (auto split: if_splits)

lemma removeRebootCurrent_issued: "issued_for i s \<Longrightarrow> issued_for i (snd (removeRebootCurrent fp s))"
  using removeRebootCurrent_at [of fp s "fst (removeRebootCurrent fp s)" "snd (removeRebootCurrent fp s)"]
    issued_for_del_cur issued_for_same by auto

lemma updateReboot_issued:
  assumes inv: "once i s" and up: "updateReboot E j mutate s = (r, s')"
    and same: "\<And>e. rj_OperationID (mutate e) = rj_OperationID e" "\<And>e. rj_Fingerprint (mutate e) = rj_Fingerprint e"
    and late: "j \<noteq> i \<or> (\<forall>e. 3 \<le> rebootPhaseRank (rj_Phase (mutate e)))"
  shows "once i s'"
proof -
  have ok: "store_ok s" and iss: "issued_for i s" using inv by (simp_all add: once_def)
  have ok': "store_ok s'" by (rule updateReboot_ok [OF ok up same])
  obtain r1 s1 where rd: "readRebootOperation E j s = (r1, s1)" by force
  note f1 = readRebootOperation_same [OF rd, THEN conjunct1]
  have iss1: "issued_for i s1" and ok1: "store_ok s1"
    using iss ok by (simp_all add: issued_for_same [OF f1] same_files_ok [OF f1])
  have "issued_for i s'"
  proof (cases r1)
    case (Inl e)
    with up rd iss1 show ?thesis by (simp add: updateReboot_def)
  next
    case (Inr e0)
    with readRebootOperation_same [OF rd] have "rop_at s1 j = Some (Plain (Sealed (journal_key E) e0))"
      by (simp add: same_files_at [OF f1])
    then have id0: "rj_OperationID e0 = j" using store_okD(1) [OF ok1] by blast
    let ?e = "(mutate e0)\<lparr>rj_UpdatedAt := now E\<rparr>"
    have e: "rj_OperationID ?e = j" "j \<noteq> i \<or> 3 \<le> rebootPhaseRank (rj_Phase ?e)"
      using id0 same late by auto
    obtain r2 s2 where w: "writeRebootOperation E j ?e s1 = (r2, s2)" by force
    from writeRebootOperation_at [OF w] show ?thesis
    proof
      assume "same_files s1 s2 \<and> r2 \<noteq> None"
      with up rd Inr w iss1 show ?thesis by (auto simp: updateReboot_def Let_def dest: issued_for_same)
    next
      assume *: "r2 = None \<and> rop_at s2 = (rop_at s1)(j \<mapsto> Plain (Sealed (journal_key E) ?e)) \<and> cur_at s2 = cur_at s1"
      have iss2: "issued_for i s2"
        by (rule issued_for_put_op [OF iss1 * [THEN conjunct2, THEN conjunct1] * [THEN conjunct2, THEN conjunct2] e(2)])
      obtain r3 s3 where d: "removeRebootCurrent (rj_Fingerprint ?e) s2 = (r3, s3)" by force
      obtain r4 s4 where c: "writeRebootCurrent E (rj_Fingerprint ?e) ?e s2 = (r4, s4)" by force
      have "issued_for i s3" using removeRebootCurrent_issued [OF iss2, of "rj_Fingerprint ?e"] d by simp
      moreover have "issued_for i s4" using writeRebootCurrent_at [OF c]
      proof
        assume "same_files s2 s4 \<and> r4 \<noteq> None"
        with iss2 show ?thesis using issued_for_same [of s2 s4] by blast
      next
        assume **: "r4 = None \<and> cur_at s4 = (cur_at s2)(rj_Fingerprint ?e \<mapsto> Plain (Sealed (journal_key E) ?e)) \<and>
          rop_at s4 = rop_at s2"
        show ?thesis
          by (rule issued_for_put_cur [OF iss2 ** [THEN conjunct2, THEN conjunct1] ** [THEN conjunct2, THEN conjunct2]])
            (use e in blast)
      qed
      moreover have "s' = s3 \<or> s' = s4"
        using up rd Inr w * c d by (cases r3; cases r4; simp add: updateReboot_def Let_def split: if_splits)
      ultimately show ?thesis by blast
    qed
  qed
  with ok' show ?thesis by (simp add: once_def)
qed

lemma createReboot_issued:
  assumes "issued_for i s" and "rop_at s (newRebootOperationID E) = None" and "createReboot E fp p s = (r, s')"
  shows "issued_for i s'"
proof -
  let ?e = "newRebootEntry E fp p"
  have ne: "newRebootOperationID E \<noteq> i" using assms(1,2) by (auto simp: issued_for_def)
  obtain r1 s1 where w1: "writeRebootOperation E (newRebootOperationID E) ?e s = (r1, s1)" by force
  obtain r2 s2 where w2: "writeRebootCurrent E fp ?e s1 = (r2, s2)" by force
  have 1: "issued_for i s1"
    using writeRebootOperation_at [OF w1] issued_for_put_op [OF assms(1), of s1 "newRebootOperationID E"] ne
      assms(1) issued_for_same by metis
  have "issued_for i s2"
    using writeRebootCurrent_at [OF w2] issued_for_put_cur [OF 1, of s2 _ _ ?e] ne 1 issued_for_same
    by (metis newRebootEntry_simps(1))
  with 1 assms(3) w1 w2 show ?thesis by (auto simp: createReboot_def Let_def split: option.splits)
qed

text \<open>Prepare keeps what is on record as issued, and never returns such an operation as one whose
  reboot is still to be issued.\<close>

lemma Prepare_issued:
  assumes inv: "once i s" and fresh: "rop_at s (newRebootOperationID E) = None"
    and pr: "Prepare E p s = (r, s')"
  shows "once i s' \<and> (\<forall>e. r = Inr e \<longrightarrow> rj_OperationID e = i \<longrightarrow> 3 \<le> rebootPhaseRank (rj_Phase e))"
proof -
  have ok: "store_ok s" and iss: "issued_for i s" using inv by (simp_all add: once_def)
  have ne: "newRebootOperationID E \<noteq> i" using iss fresh by (auto simp: issued_for_def)
  have ok': "store_ok s'" by (rule Prepare_ok [OF ok fresh pr])
  obtain r1 s1 where e1: "ensureRebootDirs s = (r1, s1)" by force
  note f1 = ensureRebootDirs_same [OF e1]
  have 1: "issued_for i s1" "rop_at s1 (newRebootOperationID E) = None"
    using iss fresh by (simp_all add: issued_for_same [OF f1] same_files_at [OF f1])
  obtain fp where fp: "rebootFingerprint E p = Inr fp" using rebootFingerprint_Inr by blast
  obtain r2 s2 where e2: "readRebootCurrent E fp s1 = (r2, s2)" by force
  note f2 = readRebootCurrent_same [OF e2, THEN conjunct1]
  have 2: "issued_for i s2" "rop_at s2 (newRebootOperationID E) = None"
    using 1 by (simp_all add: issued_for_same [OF f2] same_files_at [OF f2])
  have 3: "issued_for i (snd (removeRebootCurrent fp s2))"
    "rop_at (snd (removeRebootCurrent fp s2)) (newRebootOperationID E) = None"
    using removeRebootCurrent_issued 2 by (simp_all add: removeRebootCurrent_op)
  have found: "3 \<le> rebootPhaseRank (rj_Phase x)" if "r2 = Inr x" "rj_OperationID x = i" for x
    using that readRebootCurrent_same [OF e2] 1(1) by (auto simp: issued_for_def)
  have new: "rj_OperationID x \<noteq> i" if "createReboot E fp p t = (Inr x, t')" for t t' x
    using that ne by (auto simp: createReboot_def Let_def split: prod.splits option.splits)
  have "(s' = s1 \<and> (\<forall>x. r \<noteq> Inr x)) \<or> (s' = s2 \<and> r = r2) \<or> createReboot E fp p s2 = (r, s') \<or>
      createReboot E fp p (snd (removeRebootCurrent fp s2)) = (r, s')"
  proof (cases r1)
    case (Some e)
    with pr e1 have "r = Inl e \<and> s' = s1" by (simp add: Prepare_def)
    then show ?thesis by blast
  next
    case None
    with pr e1 fp e2 show ?thesis by (cases r2; simp add: Prepare_def split: if_splits)
  qed
  then consider "s' = s1 \<and> (\<forall>x. r \<noteq> Inr x)" | "s' = s2 \<and> r = r2"
    | "createReboot E fp p s2 = (r, s')" | "createReboot E fp p (snd (removeRebootCurrent fp s2)) = (r, s')"
    by blast
  then show ?thesis
  proof cases
    case 1
    with ok' \<open>issued_for i s1\<close> show ?thesis by (auto simp: once_def)
  next
    case 2
    with ok' \<open>issued_for i s2\<close> found show ?thesis by (auto simp: once_def)
  next
    case 3
    from createReboot_issued [OF 2 this] new [of s2] 3 ok' show ?thesis unfolding once_def by blast
  next
    case 4
    from createReboot_issued [OF 3 this] new [of "snd (removeRebootCurrent fp s2)"] 4 ok' show ?thesis
      unfolding once_def by blast
  qed
qed

text \<open>A mark that succeeds with \<open>reboot_issued\<close> puts the operation on record.\<close>

lemma markPhase_issued:
  assumes ok: "store_ok s" and mk: "MarkPhase E mp s = (Inr e, s')" and "mp_Phase mp = rebootPhaseRebootIssued"
  shows "once (mp_OperationID mp) s'"
proof -
  let ?i = "mp_OperationID mp"
  have ok': "store_ok s'"
    using updateReboot_ok [OF ok mk [unfolded MarkPhase_def]] by simp
  obtain r1 s1 where rd: "readRebootOperation E ?i s = (r1, s1)" by force
  with mk obtain e0 where r1: "r1 = Inr e0" by (cases r1) (auto simp: MarkPhase_def updateReboot_def)
  note f1 = readRebootOperation_same [OF rd, THEN conjunct1]
  let ?e = "(markPhase mp e0)\<lparr>rj_UpdatedAt := now E\<rparr>"
  obtain r2 s2 where w: "writeRebootOperation E ?i ?e s1 = (r2, s2)" by force
  have phase: "rj_Phase ?e = rebootPhaseRebootIssued" using assms(3) by (simp add: markPhase_def)
  then have nc: "rj_Phase ?e \<noteq> rebootPhaseCompleted" by (simp add: phase_defs)
  from mk rd r1 w have r2: "r2 = None" by (cases r2) (auto simp: MarkPhase_def updateReboot_def Let_def)
  obtain r4 s4 where c: "writeRebootCurrent E (rj_Fingerprint ?e) ?e s2 = (r4, s4)" by force
  from mk rd r1 w r2 c nc have r4: "r4 = None" "s' = s4"
    by (cases r4; simp add: MarkPhase_def updateReboot_def Let_def)+
  have op: "rop_at s' ?i = Some (Plain (Sealed (journal_key E) ?e))"
    and cur: "cur_at s' (rj_Fingerprint ?e) = Some (Plain (Sealed (journal_key E) ?e))"
    using writeRebootOperation_at [OF w] writeRebootCurrent_at [OF c] r2 r4 by auto
  have "3 \<le> rebootPhaseRank (rj_Phase x)" if x: "cur_at s' fp = Some (Plain (Sealed k x))" "rj_OperationID x = ?i" for fp k x
  proof -
    from store_okD(4) [OF ok' x(1)] x(2) op have "rj_Fingerprint ?e = fp" by auto
    with cur x(1) have "x = ?e" by auto
    with phase show ?thesis by simp
  qed
  with op phase ok' show ?thesis by (auto simp: once_def issued_for_def)
qed

subsection \<open>The interpretations\<close>

text \<open>The commands a restart sends under the name \<open>sh\<close>: only \<open>issueRebootCommand\<close> does.\<close>

definition rebootCommands :: "targetHost \<Rightarrow> HostCommandParams list" where
  "rebootCommands h = filter (\<lambda>p. hc_Name p = ''sh'') (th_log h)"

definition before_issue :: "HostCommandParams list \<Rightarrow> targetHost \<Rightarrow> bool" where
  "before_issue cs h \<longleftrightarrow> store_ok (th_store h) \<and> rebootCommands h = cs"

lemma runOnHost_store [simp]: "th_store (snd (runOnHost params E h)) = th_store h"
  by (simp add: runOnHost_def Let_def split: list.splits)

lemma runOnHost_log: "hc_Name params \<noteq> ''sh'' \<Longrightarrow> rebootCommands (snd (runOnHost params E h)) = rebootCommands h"
  by (simp add: rebootCommands_def runOnHost_def Let_def split: list.splits)

lemma onStore_parts [simp]:
  "th_store (snd (onStore f E h)) = snd (f E (th_store h))"
  "rebootCommands (snd (onStore f E h)) = rebootCommands h"
  by (simp_all add: onStore_def rebootCommands_def split: prod.splits)

lemma onStore_eq: "onStore f E h = (r, h') \<Longrightarrow> f E (th_store h) = (r, th_store h')"
  by (force simp: onStore_def split: prod.splits)

lemma updateReboot_once_snd:
  assumes "once i s" and "\<And>e. rj_OperationID (mutate e) = rj_OperationID e" "\<And>e. rj_Fingerprint (mutate e) = rj_Fingerprint e"
    and "j \<noteq> i \<or> (\<forall>e. 3 \<le> rebootPhaseRank (rj_Phase (mutate e)))"
  shows "once i (snd (updateReboot E j mutate s))"
  by (rule updateReboot_issued [OF assms(1) prod.collapse [symmetric] assms(2-4)])

lemma updateReboot_ok_snd:
  assumes "store_ok s" and "\<And>e. rj_OperationID (mutate e) = rj_OperationID e" "\<And>e. rj_Fingerprint (mutate e) = rj_Fingerprint e"
  shows "store_ok (snd (updateReboot E j mutate s))"
  by (rule updateReboot_ok [OF assms(1) prod.collapse [symmetric] assms(2-3)])

interpretation issued_runs: run_invariant "\<lambda>h. once i (th_store h)" "\<lambda>j. j \<noteq> i" for i
  by unfold_locales
    (auto simp: MarkPhase_def MarkFailed_def MarkCompleted_def markPhase_def markFailed_def markCompleted_def
      intro!: updateReboot_once_snd)

interpretation quiet_runs: host_invariant "before_issue cs" "\<lambda>j. True" for cs
  by unfold_locales
    (auto simp: before_issue_def runOnHost_log MarkPhase_def MarkFailed_def MarkCompleted_def
      intro!: updateReboot_ok_snd)

interpretation journal_runs: run_invariant "\<lambda>h. store_ok (th_store h)" "\<lambda>j. True"
  by unfold_locales (auto simp: MarkPhase_def MarkFailed_def MarkCompleted_def intro!: updateReboot_ok_snd)

subsection \<open>One run\<close>

text \<open>Pre- and postcondition of an action on the target.\<close>

definition leads :: "(targetHost \<Rightarrow> bool) \<Rightarrow> (targetHost \<Rightarrow> bool) \<Rightarrow> 'a act \<Rightarrow> bool" where
  "leads P Q m \<longleftrightarrow> (\<forall>w. P (m_host w) \<longrightarrow> Q (m_host (snd (m w))))"

lemma leads_bindA: "keeps_host P m \<Longrightarrow> (\<And>a. leads P Q (f a)) \<Longrightarrow> leads P Q (bindA m f)"
  by (auto simp: leads_def keeps_host_def bindA_def Let_def split: prod.splits)

lemma leads_keeps: "keeps_host P m \<Longrightarrow> (\<And>h. P h \<Longrightarrow> Q h) \<Longrightarrow> leads P Q m"
  by (auto simp: leads_def keeps_host_def)

definition quiet_or_issued :: "string \<Rightarrow> HostCommandParams list \<Rightarrow> targetHost \<Rightarrow> bool" where
  "quiet_or_issued j cs h \<longleftrightarrow> before_issue cs h \<or> once j (th_store h)"

lemma leads_quiet: "keeps_host (before_issue cs) m \<Longrightarrow> leads (before_issue cs) (quiet_or_issued j cs) m"
  by (rule leads_keeps) (auto simp: quiet_or_issued_def)

lemma leads_marked:
  assumes "leads (before_issue cs) (quiet_or_issued j cs) (next entry')"
  shows "leads (before_issue cs) (quiet_or_issued j cs) (marked mp entry entry' next)"
  unfolding marked_def rebootEnds_def
  by (rule leads_bindA [OF quiet_runs.keeps_markPhase]) (auto intro: leads_quiet keeps_ret assms)

text \<open>When the mark \<open>reboot_issued\<close> succeeds, the operation is on record as issued.\<close>

lemma issued_mark_recorded:
  assumes "store_ok (th_store (m_host w))" and "mp_Phase mp = rebootPhaseRebootIssued"
    and "markRebootJournalPhase mp w = (None, w')"
  shows "once (mp_OperationID mp) (th_store (m_host w'))"
proof -
  let ?f = "onStore (\<lambda>E. MarkPhase E mp)"
  obtain e where c: "callHost ?f w = (Inr e, w')"
    using assms(3) by (auto simp: markRebootJournalPhase_def errOf_def split: prod.splits sum.splits)
  from callHost_ran [OF c] obtain ys x where run: "?f x (ran ?f ys (m_host w)) = (Inr e, m_host w')" by auto
  have "store_ok (th_store (ran ?f ys (m_host w)))"
    by (rule ran_keeps) (use assms(1) in \<open>auto simp: MarkPhase_def intro: updateReboot_ok_snd\<close>)
  moreover have "MarkPhase x mp (th_store (ran ?f ys (m_host w))) = (Inr e, th_store (m_host w'))"
    using onStore_eq [OF run] .
  ultimately show ?thesis using markPhase_issued assms(2) by blast
qed

lemma issueReboot_leads:
  assumes "rj_OperationID entry = j"
  shows "leads (before_issue cs) (quiet_or_issued j cs) (issueReboot c entry hostid pre cmd timeout settle deadline)"
proof (cases "rebootPhaseLess (rj_Phase entry) rebootPhaseRebootIssued")
  case False
  then show ?thesis
    unfolding issueReboot_def by (simp add: leads_quiet quiet_runs.keeps_awaitReconnect)
next
  case True
  let ?mp = "(phaseOnly (rj_OperationID entry) rebootPhaseRebootIssued)\<lparr>mp_RebootCommand := cmd\<rparr>"
  show ?thesis
    unfolding leads_def
  proof (intro allI impI)
    fix w :: machine assume quiet: "before_issue cs (m_host w)"
    obtain err w1 where mk: "markRebootJournalPhase ?mp w = (err, w1)" by force
    show "quiet_or_issued j cs (m_host (snd (issueReboot c entry hostid pre cmd timeout settle deadline w)))"
    proof (cases err)
      case (Some e)
      have "before_issue cs (m_host w1)"
        using keeps_hostD [OF quiet_runs.keeps_markPhase quiet mk] by simp
      with Some mk True show ?thesis
        by (simp add: issueReboot_def marked_def bindA_def rebootEnds_def ret_def quiet_or_issued_def)
    next
      case None
      have "once j (th_store (m_host w1))"
        using issued_mark_recorded [OF _ _ mk [unfolded None]] quiet assms by (simp add: before_issue_def phaseOnly_def)
      moreover have "keeps_host (\<lambda>h. once j (th_store h))
          (bindA (issueRebootCommand cmd) (\<lambda>err. case err of
              Some e \<Rightarrow> failReboot (Some (entry\<lparr>rj_Phase := rebootPhaseRebootIssued, rj_RebootCommand := cmd\<rparr>)) e
            | None \<Rightarrow> bindA readClock (\<lambda>time.
                awaitReconnect c (entry\<lparr>rj_Phase := rebootPhaseRebootIssued, rj_RebootCommand := cmd\<rparr>) hostid pre timeout settle
                  (Some (withDeadline c (time + timeout))))))"
        by (auto intro!: keeps issued_runs.keeps_issue issued_runs.keeps_failReboot issued_runs.keeps_awaitReconnect
            split: option.splits)
      ultimately show ?thesis
        using mk None True unfolding keeps_host_def
        by (simp add: issueReboot_def marked_def bindA_def [of "markRebootJournalPhase _"] quiet_or_issued_def)
    qed
  qed
qed

lemma prepareTarget_leads:
  assumes "rj_OperationID entry = j"
  shows "leads (before_issue cs) (quiet_or_issued j cs) (prepareTarget c entry hostid pre cmd timeout settle deadline)"
  using assms unfolding prepareTarget_def
  by (auto intro!: leads_bindA leads_marked issueReboot_leads leads_quiet [OF quiet_runs.keeps_failReboot]
      quiet_runs.keeps_Select keeps split: sum.splits)

text \<open>A run of operation \<open>j\<close> sends no reboot command, or leaves the operation on record as issued.\<close>

lemma resumeReboot_leads:
  assumes "rj_OperationID entry = j"
  shows "leads (before_issue cs) (quiet_or_issued j cs) (resumeReboot c params entry)"
  using assms unfolding resumeReboot_def precheckHost_def rebootEnds_def Let_def
  by (auto intro!: leads_bindA leads_marked prepareTarget_leads leads_quiet [OF quiet_runs.keeps_failReboot]
      leads_quiet [OF keeps_ret] quiet_runs.keeps_ReadHostProof split: sum.splits)

subsection \<open>Preparing, with retries\<close>

definition fresh_ids :: "string list \<Rightarrow> rebootStore \<Rightarrow> bool" where
  "fresh_ids ids s \<longleftrightarrow> distinct ids \<and> (\<forall>i\<in>set ids. rop_at s i = None)"

lemma fresh_ids_subseq: "fresh_ids (map newRebootOperationID Es) s \<Longrightarrow> subseq xs Es \<Longrightarrow> fresh_ids (map newRebootOperationID xs) s"
  using subseq_map [of xs Es newRebootOperationID] unfolding fresh_ids_def
  by (auto simp: subseq_conv_nths distinct_nthsI dest: in_set_nthsD)

lemma createReboot_op:
  assumes "createReboot E fp p s = (r, s')" and "i \<noteq> newRebootOperationID E"
  shows "rop_at s' i = rop_at s i"
proof -
  let ?e = "newRebootEntry E fp p"
  obtain r1 s1 where w1: "writeRebootOperation E (newRebootOperationID E) ?e s = (r1, s1)" by force
  obtain r2 s2 where w2: "writeRebootCurrent E fp ?e s1 = (r2, s2)" by force
  have 1: "rop_at s1 i = rop_at s i"
    using writeRebootOperation_at [OF w1] same_files_at(1) [of s s1 i] assms(2) by auto
  have 2: "rop_at s2 i = rop_at s1 i"
    using writeRebootCurrent_at [OF w2] same_files_at(1) [of s1 s2 i] by auto
  have "s' = s1 \<or> s' = s2"
    using assms(1) w1 w2 by (cases r1; cases r2; simp add: createReboot_def Let_def)
  with 1 2 show ?thesis by metis
qed

lemma Prepare_op:
  assumes pr: "Prepare E p s = (r, s')" and ne: "i \<noteq> newRebootOperationID E"
  shows "rop_at s' i = rop_at s i"
proof -
  obtain r1 s1 where e1: "ensureRebootDirs s = (r1, s1)" by force
  obtain fp where fp: "rebootFingerprint E p = Inr fp" using rebootFingerprint_Inr by blast
  obtain r2 s2 where e2: "readRebootCurrent E fp s1 = (r2, s2)" by force
  have 1: "rop_at s1 i = rop_at s i" "rop_at s2 i = rop_at s1 i"
    using same_files_at(1) [OF ensureRebootDirs_same [OF e1]]
      same_files_at(1) [OF readRebootCurrent_same [OF e2, THEN conjunct1]] by simp_all
  have "s' = s1 \<or> s' = s2 \<or> createReboot E fp p s2 = (r, s') \<or>
      createReboot E fp p (snd (removeRebootCurrent fp s2)) = (r, s')"
  proof (cases r1)
    case None
    with pr e1 fp e2 show ?thesis by (cases r2; simp add: Prepare_def split: if_splits)
  qed (use pr e1 in \<open>simp add: Prepare_def\<close>)
  then show ?thesis
    using 1 createReboot_op [OF _ ne] removeRebootCurrent_op [of fp s2] by metis
qed

lemma Prepare_ran:
  assumes "fresh_ids (map newRebootOperationID xs) (th_store h)" and "store_ok (th_store h)"
  shows "store_ok (th_store (ran (onStore (\<lambda>E. Prepare E p)) xs h)) \<and>
    rebootCommands (ran (onStore (\<lambda>E. Prepare E p)) xs h) = rebootCommands h \<and>
    (once i (th_store h) \<longrightarrow> once i (th_store (ran (onStore (\<lambda>E. Prepare E p)) xs h)))"
  using assms
proof (induction xs arbitrary: h)
  case (Cons x xs)
  let ?h = "snd (onStore (\<lambda>E. Prepare E p) x h)"
  have st: "th_store ?h = snd (Prepare x p (th_store h))" by simp
  have fresh: "rop_at (th_store h) (newRebootOperationID x) = None" using Cons.prems by (simp add: fresh_ids_def)
  have ok: "store_ok (th_store ?h)" unfolding st
    by (rule Prepare_ok [OF Cons.prems(2) fresh prod.collapse [symmetric]])
  have keep: "once i (th_store h) \<longrightarrow> once i (th_store ?h)" unfolding st
    using Prepare_issued [OF _ fresh prod.collapse [symmetric]] by blast
  have "rop_at (snd (Prepare x p (th_store h))) j = rop_at (th_store h) j" if "j \<in> newRebootOperationID ` set xs" for j
  proof (rule Prepare_op [OF prod.collapse [symmetric]])
    have "newRebootOperationID x \<notin> newRebootOperationID ` set xs" using Cons.prems(1) by (simp add: fresh_ids_def)
    with that show "j \<noteq> newRebootOperationID x" by blast
  qed
  then have "fresh_ids (map newRebootOperationID xs) (th_store ?h)" unfolding st
    using Cons.prems(1) by (auto simp: fresh_ids_def)
  from Cons.IH [OF this ok] keep show ?case by simp
qed simp

lemma prepareRebootJournal_leads:
  assumes ok: "store_ok (th_store (m_host w))"
    and fresh: "fresh_ids (map (newRebootOperationID \<circ> at_exec) (case m_rpcs w of [] \<Rightarrow> [] | a # as \<Rightarrow> a)) (th_store (m_host w))"
    and run: "prepareRebootJournal params w = (r, w')"
  shows "before_issue (rebootCommands (m_host w)) (m_host w')"
    and "once i (th_store (m_host w)) \<Longrightarrow> once i (th_store (m_host w'))"
    and "once i (th_store (m_host w)) \<Longrightarrow> r = Inr e \<Longrightarrow> rj_OperationID e = i \<Longrightarrow> 3 \<le> rebootPhaseRank (rj_Phase e)"
proof -
  let ?Es = "map at_exec (case m_rpcs w of [] \<Rightarrow> [] | a # as \<Rightarrow> a)"
  obtain p where c: "callHost (onStore (\<lambda>E. Prepare E p)) w = (r, w')"
    using run by (simp add: prepareRebootJournal_def)
  let ?f = "onStore (\<lambda>E. Prepare E p)"
  from callHost_ran [OF c] obtain xs where xs: "subseq xs ?Es" "m_host w' = ran ?f xs (m_host w)"
    "case r of Inl e \<Rightarrow> True | Inr a \<Rightarrow> \<exists>ys x. xs = ys @ [x] \<and> ?f x (ran ?f ys (m_host w)) = (Inr a, m_host w')"
    by blast
  have f: "fresh_ids (map newRebootOperationID xs) (th_store (m_host w))"
    using fresh_ids_subseq [OF _ xs(1)] fresh by simp
  note all = Prepare_ran [OF f ok, of p i, folded xs(2)]
  show "before_issue (rebootCommands (m_host w)) (m_host w')" using all by (simp add: before_issue_def)
  show "once i (th_store (m_host w)) \<Longrightarrow> once i (th_store (m_host w'))" using all by blast
  assume once: "once i (th_store (m_host w))" and e: "r = Inr e" "rj_OperationID e = i"
  from xs(3) e obtain ys x where last: "xs = ys @ [x]" "?f x (ran ?f ys (m_host w)) = (Inr e, m_host w')" by auto
  have fy: "fresh_ids (map newRebootOperationID ys) (th_store (m_host w))" using f last(1) by (simp add: fresh_ids_def)
  have op: "rop_at (th_store (ran ?f zs h)) j = rop_at (th_store h) j"
    if "j \<notin> newRebootOperationID ` set zs" for j zs h
    using that by (induction zs arbitrary: h) (auto simp: Prepare_op [OF prod.collapse [symmetric]])
  have "rop_at (th_store (ran ?f ys (m_host w))) (newRebootOperationID x) = None"
    using f last(1) op [of "newRebootOperationID x" ys "m_host w"] by (auto simp: fresh_ids_def)
  moreover have "once i (th_store (ran ?f ys (m_host w)))" using Prepare_ran [OF fy ok, of p i] once by blast
  moreover note onStore_eq [OF last(2)]
  ultimately show "3 \<le> rebootPhaseRank (rj_Phase e)" using Prepare_issued e(2) by blast
qed

subsection \<open>All runs\<close>

text \<open>
  What can happen to a target over time: runs of the provider, one after the other (the lock set of a
  restart is exclusive, theory OperationLease), each on a link, with clocks and answers of its own;
  a run whose answers are used up is one that was killed there. Between runs the executor's file
  calls, the outputs of the commands and the log of other commands may change. The list records the
  operation of every run that sent a reboot command.
\<close>

inductive rebootRun :: "targetHost \<times> string list \<Rightarrow> targetHost \<times> string list \<Rightarrow> bool" where
  run: "m_host w = h \<Longrightarrow>
    fresh_ids (map (newRebootOperationID \<circ> at_exec) (case m_rpcs w of [] \<Rightarrow> [] | a # as \<Rightarrow> a)) (th_store h) \<Longrightarrow>
    prepareRebootJournal params w = (Inr entry, w1) \<Longrightarrow> resumeReboot c params entry w1 = (out, w2) \<Longrightarrow>
    sends = (if rebootCommands (m_host w2) = rebootCommands h then [] else [rj_OperationID entry]) \<Longrightarrow>
    rebootRun (h, sent) (m_host w2, sent @ sends)"
| no_run: "m_host w = h \<Longrightarrow>
    fresh_ids (map (newRebootOperationID \<circ> at_exec) (case m_rpcs w of [] \<Rightarrow> [] | a # as \<Rightarrow> a)) (th_store h) \<Longrightarrow>
    prepareRebootJournal params w = (Inl e, w1) \<Longrightarrow> rebootRun (h, sent) (m_host w1, sent)"
| other: "rs_operations (th_store h') = rs_operations (th_store h) \<Longrightarrow> rs_current (th_store h') = rs_current (th_store h) \<Longrightarrow>
    rebootRun (h, sent) (h', sent)"

definition newTarget :: "targetHost \<times> string list \<Rightarrow> bool" where
  "newTarget w \<longleftrightarrow> empty_store (th_store (fst w)) \<and> snd w = []"

definition recorded :: "targetHost \<times> string list \<Rightarrow> bool" where
  "recorded w \<longleftrightarrow> store_ok (th_store (fst w)) \<and> distinct (snd w) \<and> (\<forall>i\<in>set (snd w). once i (th_store (fst w)))"

lemma resumeReboot_once:
  assumes once: "once i (th_store (m_host w))" and late: "rj_OperationID entry = i \<Longrightarrow> 3 \<le> rebootPhaseRank (rj_Phase entry)"
    and run: "resumeReboot c params entry w = (out, w')"
  shows "once i (th_store (m_host w'))"
proof (cases "rj_OperationID entry = i")
  case True
  with keeps_hostD [OF issued_runs.keeps_resumed _ run] late once show ?thesis by blast
next
  case False
  with keeps_hostD [OF issued_runs.keeps_run _ run] once show ?thesis by blast
qed

lemma run_recorded:
  assumes rec: "recorded (m_host w, sent)"
    and fresh: "fresh_ids (map (newRebootOperationID \<circ> at_exec) (case m_rpcs w of [] \<Rightarrow> [] | a # as \<Rightarrow> a)) (th_store (m_host w))"
    and prep: "prepareRebootJournal params w = (Inr entry, w1)" and run: "resumeReboot c params entry w1 = (out, w2)"
  shows "recorded (m_host w2, sent @ (if rebootCommands (m_host w2) = rebootCommands (m_host w) then [] else [rj_OperationID entry]))"
proof -
  let ?j = "rj_OperationID entry" and ?cs = "rebootCommands (m_host w)"
  have ok: "store_ok (th_store (m_host w))" using rec by (simp add: recorded_def)
  note prepared = prepareRebootJournal_leads [OF ok fresh prep]
  have ok2: "store_ok (th_store (m_host w2))"
    using keeps_hostD [OF journal_runs.keeps_run _ run] prepared(1) by (simp add: before_issue_def)
  have old: "once i (th_store (m_host w2))" if "i \<in> set sent" for i
  proof -
    from rec that have i: "once i (th_store (m_host w))" by (simp add: recorded_def)
    show ?thesis by (rule resumeReboot_once [OF prepared(2) [OF i] prepared(3) [OF i refl] run])
  qed
  have "?j \<notin> set sent \<and> once ?j (th_store (m_host w2))" if sends: "rebootCommands (m_host w2) \<noteq> ?cs"
  proof
    have "quiet_or_issued ?j ?cs (m_host w2)"
      using resumeReboot_leads [of entry ?j ?cs c params] prepared(1) run unfolding leads_def by (metis snd_conv)
    with sends show "once ?j (th_store (m_host w2))" by (simp add: quiet_or_issued_def before_issue_def)
    show "?j \<notin> set sent"
    proof
      assume "?j \<in> set sent"
      then have "once ?j (th_store (m_host w))" using rec by (simp add: recorded_def)
      from prepared(3) [OF this refl refl] have "3 \<le> rebootPhaseRank (rj_Phase entry)" .
      from keeps_hostD [OF quiet_runs.keeps_resumed [OF this] prepared(1) run] sends
      show False by (simp add: before_issue_def)
    qed
  qed
  with old ok2 rec show ?thesis by (auto simp: recorded_def)
qed

interpretation reboot_runs: transition_system newTarget rebootRun recorded
proof unfold_locales
  fix w assume "newTarget w"
  then show "recorded w"
    by (auto simp: newTarget_def recorded_def empty_store_def store_ok_def rop_at_def cur_at_def)
next
  fix w w' assume rec: "recorded w" and "rebootRun w w'"
  from \<open>rebootRun w w'\<close> rec show "recorded w'"
  proof (induction rule: rebootRun.induct)
    case (run w h params entry w1 c out w2 sends sent)
    show ?case unfolding run(5) run(1) [symmetric]
      by (rule run_recorded [OF _ _ run(3,4)]) (use run(1,2,6) in simp_all)
  next
    case (no_run w h params e w1 sent)
    then have "store_ok (th_store (m_host w))" by (simp add: recorded_def)
    from prepareRebootJournal_leads [OF this] no_run show ?case by (simp add: recorded_def before_issue_def)
  next
    case (other h' h sent)
    then have "same_files (th_store h) (th_store h')" by (simp add: same_files_def)
    from same_files_ok [OF this] issued_for_same [OF this] other show ?case by (simp add: recorded_def once_def)
  qed
qed

text \<open>C25: one reboot per operation. Whatever runs of the provider a target sees, from an empty reboot
  journal on, no two of them send a reboot command for the same operation; and every operation one
  was sent for is on record, in the journal and in the current entry that a repeated request finds, with
  the phase \<open>reboot_issued\<close> or a later one.\<close>

theorem one_reboot_per_operation:
  assumes "newTarget w\<^sub>0" and "rebootRun\<^sup>*\<^sup>* w\<^sub>0 (h, sent)"
  shows "distinct sent \<and> (\<forall>i\<in>set sent. issued_for i (th_store h))"
  using reboot_runs.inv_reachable [OF assms] by (auto simp: recorded_def once_def)

definition demo_restart :: RestartHostParams where
  "demo_restart = \<lparr>rh_Name = ''n'', rh_Reason = ''r'', rh_RebootCommand = [], rh_Timeout = defaultRebootTimeout,
     rh_Settle = defaultRebootSettle, rh_OperationType = ''action.restart_host''\<rparr>"

definition demo_run :: machine where
  "demo_run = demo_machine [''m'', ''b1'', [], ''m'', ''b2'', [], []]"

lemma demo_run_ends:
  "case prepareRebootJournal demo_restart demo_run of
     (Inl e, w1) \<Rightarrow> False
   | (Inr entry, w1) \<Rightarrow> rj_OperationID entry = ''rand:61'' \<and>
       rebootCommands (m_host (snd (resumeReboot None demo_restart entry w1))) = [issueParams ''reboot'']"
  by code_simp

lemma one_reboot_per_operation_witness:
  "\<exists>h. rebootRun\<^sup>*\<^sup>* (m_host demo_run, []) (h, [''rand:61'']) \<and> issued_for ''rand:61'' (th_store h)"
proof -
  obtain entry w1 where p: "prepareRebootJournal demo_restart demo_run = (Inr entry, w1)"
    and id: "rj_OperationID entry = ''rand:61''"
    and sent: "rebootCommands (m_host (snd (resumeReboot None demo_restart entry w1))) = [issueParams ''reboot'']"
    using demo_run_ends by (auto split: prod.splits sum.splits)
  obtain out w2 where rn: "resumeReboot None demo_restart entry w1 = (out, w2)" by force
  have rpcs: "m_rpcs demo_run = [demo_ok] # replicate 19 [demo_ok]"
    by (simp add: demo_run_def demo_machine_def numeral_eq_Suc)
  have "rebootRun (m_host demo_run, []) (m_host w2, [] @ [''rand:61''])"
    by (rule rebootRun.run [OF refl _ p rn])
      (use id sent rn in \<open>simp_all add: rpcs, simp_all add: demo_run_def demo_machine_def fresh_ids_def demo_store_def
        rop_at_def rebootCommands_def\<close>)
  then have steps: "rebootRun\<^sup>*\<^sup>* (m_host demo_run, []) (m_host w2, [''rand:61''])" by simp
  have "newTarget (m_host demo_run, [])"
    by (simp add: newTarget_def demo_run_def demo_machine_def demo_store_def empty_store_def)
  from one_reboot_per_operation [OF this steps] steps show ?thesis by auto
qed

end
