(* ===== verification/RebootProof.thy ===== *)
theory RebootProof
  imports RebootOnce
begin

text \<open>
  What a restart that reports success has seen: the same host with another boot identifier, read on
  the target after the reboot command was sent, when this run sent it.

  \<open>host_order\<close> is the order of the target's history: the log of commands grows and the outputs of the
  commands are used up. It is kept by every action (an interpretation of the locale of theory
  RebootOnce), so that "after" is a statement on the target's state.
\<close>

subsection \<open>The history of the target\<close>

definition host_order :: "targetHost \<Rightarrow> targetHost \<Rightarrow> bool" where
  "host_order h h' \<longleftrightarrow> prefix (th_log h) (th_log h') \<and> suffix (th_outputs h') (th_outputs h)"

lemma host_order_refl [simp]: "host_order h h"
  by (simp add: host_order_def)

lemma host_order_trans: "host_order h h1 \<Longrightarrow> host_order h1 h2 \<Longrightarrow> host_order h h2"
  unfolding host_order_def using prefix_order.trans suffix_order.trans by blast

lemma onStore_order: "host_order h (snd (onStore f E g)) = host_order h g"
  by (simp add: onStore_def host_order_def split: prod.splits)

lemma runOnHost_order: "host_order h g \<Longrightarrow> host_order h (snd (runOnHost params E g))"
  by (auto simp: host_order_def runOnHost_def Let_def intro: prefix_prefix suffix_ConsD split: list.splits)

interpretation history: run_invariant "host_order h" "\<lambda>j. True" for h
  by unfold_locales (auto simp: onStore_order runOnHost_order)

lemma keeps_prepare: "keeps_host (host_order h) (prepareRebootJournal params)"
proof -
  have "keeps_host (host_order h) (callHost (onStore (\<lambda>E. Prepare E p)))" for p
    by (rule keeps_callHost) (simp add: onStore_order)
  then show ?thesis unfolding keeps_host_def prepareRebootJournal_def by blast
qed

lemma host_order_commands:
  "host_order h h' \<Longrightarrow> length (rebootCommands h) \<le> length (rebootCommands h')"
  by (auto simp: host_order_def rebootCommands_def elim!: prefixE)

text \<open>A command whose RPC succeeded is in the log.\<close>

lemma HostCommand_logged:
  assumes "HostCommand params w = (Inr r, w')" and "hc_Name params = ''sh''"
  shows "length (rebootCommands (m_host w)) < length (rebootCommands (m_host w'))"
proof -
  have "callHost (runOnHost params) w = (Inr r, w')" using assms(1) by (simp add: HostCommand_def)
  from callHost_ran [OF this] obtain ys x where
    last: "runOnHost params x (ran (runOnHost params) ys (m_host w)) = (Inr r, m_host w')" by auto
  have "host_order (m_host w) (ran (runOnHost params) ys (m_host w))"
    by (rule ran_keeps) (simp_all add: runOnHost_order)
  note le = host_order_commands [OF this]
  have "m_host w' = snd (runOnHost params x (ran (runOnHost params) ys (m_host w)))" using last by simp
  with le assms(2) show ?thesis
    by (simp add: runOnHost_def rebootCommands_def Let_def split: list.splits)
qed

subsection \<open>Actions that report success\<close>

text \<open>\<open>completed_as b e r\<close>: the result of the operation \<open>e\<close>, completed with the boot identifier \<open>b\<close>.\<close>

definition completed_as :: "string \<Rightarrow> RebootJournalEntry \<Rightarrow> RestartHostResult option \<Rightarrow> bool" where
  "completed_as b e r \<longleftrightarrow> (\<exists>x. r = Some x \<and> rr_Phase x = rebootPhaseCompleted \<and>
     rr_OperationID x = rj_OperationID e \<and> rr_StableHostID x = rj_StableHostID e \<and>
     rr_PreBootID x = rj_PreBootID e \<and> rr_PostBootID x = b)"

lemma completed_as_upd [simp]:
  "completed_as b (e\<lparr>rj_Phase := p\<rparr>) = completed_as b e"
  "completed_as b (e\<lparr>rj_Phase := p, rj_PostBootID := x\<rparr>) = completed_as b e"
  "completed_as b (e\<lparr>rj_Phase := p, rj_RebootCommand := c\<rparr>) = completed_as b e"
  by (intro ext, simp add: completed_as_def)+

definition succeeds :: "(machine \<Rightarrow> RestartHostResult option \<Rightarrow> machine \<Rightarrow> bool) \<Rightarrow> rebootOutcome option act \<Rightarrow> bool" where
  "succeeds Q m \<longleftrightarrow> (\<forall>w r w'. m w = (Some (r, None), w') \<longrightarrow> Q w r w')"

lemma succeedsD: "succeeds Q m \<Longrightarrow> m w = (Some (r, None), w') \<Longrightarrow> Q w r w'"
  by (simp add: succeeds_def)

definition finishes :: "string \<Rightarrow> RebootJournalEntry \<Rightarrow> rebootOutcome option act \<Rightarrow> bool" where
  "finishes b e m \<longleftrightarrow> succeeds (\<lambda>w r w'. completed_as b e r) m"

lemma finishes_upd [simp]:
  "finishes b (e\<lparr>rj_Phase := p\<rparr>) = finishes b e"
  "finishes b (e\<lparr>rj_Phase := p, rj_PostBootID := x\<rparr>) = finishes b e"
  by (intro ext, simp add: finishes_def)+

lemma finishes_bindA: "(\<And>a. finishes b e (f a)) \<Longrightarrow> finishes b e (bindA m f)"
  by (auto simp: finishes_def succeeds_def bindA_def split: prod.splits)

lemma failReboot_fails [simp]: "failReboot e x w \<noteq> (Some (r, None), w')"
  by (auto simp: failReboot_def bindA_def ret_def split: option.splits prod.splits)

lemma succeeds_fail [simp]: "succeeds Q (failReboot e x)"
  by (simp add: succeeds_def)

lemma succeeds_ends [simp]: "err \<noteq> None \<Longrightarrow> succeeds Q (rebootEnds e err)"
  by (auto simp: succeeds_def rebootEnds_def)

lemma finishes_fail [simp]: "finishes b e (failReboot x y)"
  by (simp add: finishes_def)

lemma finishes_marked: "finishes b e (next e') \<Longrightarrow> finishes b e (marked mp e0 e' next)"
  unfolding marked_def by (rule finishes_bindA) (simp add: finishes_def)

lemma finishes_finish:
  assumes "rebootPhaseRank (rj_Phase e) < 7"
  shows "finishes b e (finishReboot e b)"
proof -
  have "finishes b e (rebootEnds (e\<lparr>rj_Phase := rebootPhaseCompleted, rj_PostBootID := b,
      rj_CompletedAt := Some t, rj_LastError := []\<rparr>) None)" for t
    by (auto simp: finishes_def succeeds_def rebootEnds_def completed_as_def rebootResultFromEntry_def)
  with assms show ?thesis
    unfolding finishReboot_def by (auto simp: rebootPhaseLess_def finishes_def [of _ _ "rebootEnds _ (Some _)"]
        intro!: finishes_bindA)
qed

lemma finishes_rebootstrap:
  assumes "rebootPhaseRank (rj_Phase e) < 7"
  shows "finishes b e (rebootstrap e b)"
  using finishes_finish [OF assms, of b]
    finishes_finish [of "e\<lparr>rj_Phase := rebootPhaseExecutorRebootstrapped\<rparr>" b]
  unfolding rebootstrap_def
  by (auto intro!: finishes_bindA finishes_marked split: option.splits)

lemma finishes_settle:
  assumes "rebootPhaseRank (rj_Phase e) < 7"
  shows "finishes b e (settleReboot e settle b)"
  using finishes_rebootstrap [OF assms, of b] unfolding settleReboot_def sleepOr_def
  by (auto intro!: finishes_bindA split: option.splits)

lemma finishes_hostReturned:
  assumes "rebootPhaseRank (rj_Phase e) < 7"
  shows "finishes (hp_BootID proof) e (hostReturned e settle proof)"
  using finishes_settle [OF assms, of "hp_BootID proof"]
    finishes_settle [of "e\<lparr>rj_Phase := rebootPhasePostReconnectValidated, rj_PostBootID := hp_BootID proof\<rparr>" "hp_BootID proof"]
  unfolding hostReturned_def by (auto intro!: finishes_marked)

subsection \<open>The proof that was read\<close>

text \<open>From \<open>w\<close> to \<open>w'\<close> a proof of the host was read that differs from the recorded one in the boot
  identifier only; if \<open>sent\<close>, a reboot command had been sent by then.\<close>

definition proven :: "bool \<Rightarrow> string \<Rightarrow> string \<Rightarrow> RebootJournalEntry \<Rightarrow> machine \<Rightarrow> RestartHostResult option \<Rightarrow> machine \<Rightarrow> bool" where
  "proven sent hostid pre e w r w' \<longleftrightarrow> (\<exists>proof w0 w1.
     host_order (m_host w) (m_host w0) \<and> ReadHostProof w0 = (Inr proof, w1) \<and> host_order (m_host w1) (m_host w') \<and>
     (sent \<longrightarrow> length (rebootCommands (m_host w)) < length (rebootCommands (m_host w0))) \<and>
     validateRebootTransition hostid pre proof = None \<and> completed_as (hp_BootID proof) e r)"

lemma proven_upd [simp]:
  "proven sent hostid pre (e\<lparr>rj_Phase := p\<rparr>) = proven sent hostid pre e"
  "proven sent hostid pre (e\<lparr>rj_Phase := p, rj_RebootCommand := c\<rparr>) = proven sent hostid pre e"
  by (intro ext, simp add: proven_def)+

lemma proven_before:
  assumes "proven sent hostid pre e w1 r w'" and "host_order (m_host w) (m_host w1)"
  shows "proven sent hostid pre e w r w'"
proof -
  have "length (rebootCommands (m_host w)) \<le> length (rebootCommands (m_host w1))"
    by (rule host_order_commands [OF assms(2)])
  with assms show ?thesis unfolding proven_def by (meson host_order_trans le_less_trans)
qed

lemma proves_bindA:
  assumes m: "\<And>h. keeps_host (host_order h) m" and f: "\<And>a. succeeds (proven sent hostid pre e) (f a)"
  shows "succeeds (proven sent hostid pre e) (bindA m f)"
  unfolding succeeds_def
proof (intro allI impI)
  fix w r w' assume run: "bindA m f w = (Some (r, None), w')"
  obtain a w1 where 1: "m w = (a, w1)" by force
  with run have "f a w1 = (Some (r, None), w')" by (simp add: bindA_def)
  from succeedsD [OF f this] keeps_hostD [OF m host_order_refl 1]
  show "proven sent hostid pre e w r w'" by (rule proven_before)
qed

lemma proves_marked:
  assumes "succeeds (proven sent hostid pre e) (next e')"
  shows "succeeds (proven sent hostid pre e) (marked mp e0 e' next)"
  unfolding marked_def by (rule proves_bindA [OF history.keeps_markPhase]) (auto simp: assms)

lemma proves_sleepOr:
  "succeeds (proven sent hostid pre e) next \<Longrightarrow> succeeds (proven sent hostid pre e) (sleepOr e0 next)"
  unfolding sleepOr_def by (rule proves_bindA [OF keeps_outside(1)]) (auto split: option.splits)

lemma proves_None [simp]: "succeeds Q (ret None)"
  by (simp add: succeeds_def)

lemma proves_returned:
  assumes "rebootPhaseRank (rj_Phase e) < 7" and "ReadHostProof w = (Inr proof, w1)"
    and "validateRebootTransition hostid pre proof = None"
    and "bindA ProbeReady (\<lambda>probeErr. if probeErr \<noteq> None then again else hostReturned e settle proof) w1 = (Some (r, None), w')"
    and again: "succeeds (proven False hostid pre e) again"
  shows "proven False hostid pre e w r w'"
proof -
  obtain p w2 where p: "ProbeReady w1 = (p, w2)" by force
  note o1 = keeps_hostD [OF history.keeps_ReadHostProof host_order_refl assms(2)]
  note o2 = keeps_hostD [OF history.keeps_ProbeReady host_order_refl p]
  show ?thesis
  proof (cases p)
    case (Some x)
    with assms(4) p have "again w2 = (Some (r, None), w')" by (simp add: bindA_def)
    from proven_before [OF succeedsD [OF again this] host_order_trans [OF o1 o2]] show ?thesis .
  next
    case None
    with assms(4) p have h: "hostReturned e settle proof w2 = (Some (r, None), w')" by (simp add: bindA_def)
    from keeps_hostD [OF history.keeps_hostReturned o2 h] have "host_order (m_host w1) (m_host w')" .
    moreover have "completed_as (hp_BootID proof) e r"
      using finishes_hostReturned [OF assms(1), of "proof" settle] h by (auto simp: finishes_def succeeds_def)
    ultimately show ?thesis using assms(2,3) host_order_refl unfolding proven_def by blast
  qed
qed

lemma proves_wait:
  assumes "rebootPhaseRank (rj_Phase e) < 7"
  shows "succeeds (proven False hostid pre e) (waitForHost n e hostid pre settle deadline)"
proof (induction n)
  case (Suc n)
  let ?again = "sleepOr e (waitForHost n e hostid pre settle deadline)"
  have again: "succeeds (proven False hostid pre e) ?again" by (rule proves_sleepOr [OF Suc.IH])
  let ?read = "bindA ReadHostProof (\<lambda>postProof. case postProof of Inl _ \<Rightarrow> ?again
      | Inr proof \<Rightarrow> (case validateRebootTransition hostid pre proof of
           Some err \<Rightarrow> if isBootNotChanged (Some err) then ?again else failReboot (Some e) err
         | None \<Rightarrow> bindA ProbeReady (\<lambda>probeErr. if probeErr \<noteq> None then ?again else hostReturned e settle proof)))"
  have read: "succeeds (proven False hostid pre e) ?read"
    unfolding succeeds_def
  proof (intro allI impI)
    fix w r w' assume run: "?read w = (Some (r, None), w')"
    obtain p w1 where p: "ReadHostProof w = (p, w1)" by force
    note o1 = keeps_hostD [OF history.keeps_ReadHostProof host_order_refl p]
    have *: "proven False hostid pre e w r w'" if "?again w1 = (Some (r, None), w')"
      by (rule proven_before [OF succeedsD [OF again that] o1])
    show "proven False hostid pre e w r w'"
    proof (cases p)
      case (Inl x)
      with run p * show ?thesis by (simp add: bindA_def)
    next
      case (Inr pf)
      show ?thesis
      proof (cases "validateRebootTransition hostid pre pf")
        case None
        with run p Inr show ?thesis
          by (intro proves_returned [OF assms p [unfolded Inr] None _ again]) (simp add: bindA_def [of ReadHostProof])
      next
        case (Some err)
        with run p Inr * show ?thesis
          by (auto simp: bindA_def [of ReadHostProof] split: if_splits)
      qed
    qed
  qed
  have body: "succeeds (proven False hostid pre e) (bindA nextAnswer (\<lambda>reconnectErr. if reconnectErr \<noteq> None then ?again else ?read))"
    by (rule proves_bindA [OF keeps_outside(1)]) (simp add: again read)
  show ?case
    unfolding succeeds_def
  proof (intro allI impI)
    fix w r w' assume run: "waitForHost (Suc n) e hostid pre settle deadline w = (Some (r, None), w')"
    then obtain time clock where c: "m_clock w = time # clock" by (cases "m_clock w") auto
    with run have "time < deadline" by (auto simp: Let_def split: if_splits)
    with run c have "bindA nextAnswer (\<lambda>reconnectErr. if reconnectErr \<noteq> None then ?again else ?read)
        (w\<lparr>m_clock := clock\<rparr>) = (Some (r, None), w')" by (simp add: Let_def)
    then have "proven False hostid pre e (w\<lparr>m_clock := clock\<rparr>) r w'" by (rule succeedsD [OF body])
    then show "proven False hostid pre e w r w'" by (rule proven_before) simp
  qed
qed simp

lemma proves_startWaiting:
  assumes "rebootPhaseRank (rj_Phase e) < 7"
  shows "succeeds (proven False hostid pre e) (startWaiting c e hostid pre timeout settle deadline)"
  unfolding succeeds_def
proof (intro allI impI)
  fix w r w' assume run: "startWaiting c e hostid pre timeout settle deadline w = (Some (r, None), w')"
  note wait = succeedsD [OF proves_wait [OF assms]]
  show "proven False hostid pre e w r w'"
  proof (cases "effectiveDeadline c deadline")
    case (Some d)
    with run wait show ?thesis by (simp add: startWaiting_def)
  next
    case None
    obtain time w1 where t: "readClock w = (time, w1)" by force
    with None run have "waitForHost (length (m_clock w1)) e hostid pre settle (time + timeout) w1 = (Some (r, None), w')"
      by (simp add: startWaiting_def)
    note p = wait [OF this]
    have "m_host w1 = m_host w" using t by (auto simp: readClock_def split: list.splits)
    then show ?thesis using proven_before [OF p, of w] by simp
  qed
qed

lemma proves_await:
  assumes "rebootPhaseRank (rj_Phase e) < 7"
  shows "succeeds (proven False hostid pre e) (awaitReconnect c e hostid pre timeout settle deadline)"
proof -
  let ?e = "e\<lparr>rj_Phase := rebootPhaseWaitingForReconnect\<rparr>"
  have wait: "succeeds (proven False hostid pre e) (startWaiting c ?e hostid pre timeout settle d)" for d
    using proves_startWaiting [of ?e hostid pre c timeout settle d] by simp
  show ?thesis
    unfolding awaitReconnect_def
    by (auto intro!: proves_startWaiting [OF assms] proves_bindA proves_marked wait keeps split: option.splits)
qed

lemma issue_sends:
  assumes "issueRebootCommand cmd w = (None, w')"
  shows "length (rebootCommands (m_host w)) < length (rebootCommands (m_host w'))"
proof -
  obtain r where "HostCommand (issueParams cmd) w = (Inr r, w')"
    using assms by (auto simp: issueRebootCommand_def errOf_def bindR_def ret_def split: prod.splits sum.splits if_splits)
  from HostCommand_logged [OF this] show ?thesis by (simp add: issueParams_def)
qed

lemma proves_issue:
  assumes "rebootPhaseRank (rj_Phase e) < 7"
  shows "succeeds (proven (rebootPhaseRank (rj_Phase e) < 3) hostid pre e)
    (issueReboot c e hostid pre cmd timeout settle deadline)"
proof (cases "rebootPhaseRank (rj_Phase e) < 3")
  case False
  with proves_await [of e hostid pre c timeout settle deadline] assms show ?thesis
    by (simp add: issueReboot_def rebootPhaseLess_def)
next
  case True
  let ?e = "e\<lparr>rj_Phase := rebootPhaseRebootIssued, rj_RebootCommand := cmd\<rparr>"
  let ?rest = "bindA readClock (\<lambda>time. awaitReconnect c ?e hostid pre timeout settle (Some (withDeadline c (time + timeout))))"
  have rest: "succeeds (proven False hostid pre e) ?rest"
    using proves_await [of ?e hostid pre c timeout settle] by (auto intro!: proves_bindA keeps)
  have "succeeds (proven True hostid pre e)
     (bindA (issueRebootCommand cmd) (\<lambda>err. case err of Some x \<Rightarrow> failReboot (Some ?e) x | None \<Rightarrow> ?rest))"
    unfolding succeeds_def
  proof (intro allI impI)
    fix w r w' assume run: "bindA (issueRebootCommand cmd) (\<lambda>err. case err of Some x \<Rightarrow> failReboot (Some ?e) x | None \<Rightarrow> ?rest) w =
      (Some (r, None), w')"
    obtain err w1 where i: "issueRebootCommand cmd w = (err, w1)" by force
    with run have "err = None" by (cases err) (auto simp: bindA_def [of "issueRebootCommand _"])
    with run i have rest1: "?rest w1 = (Some (r, None), w')" by (simp add: bindA_def [of "issueRebootCommand _"])
    from issue_sends i \<open>err = None\<close> have sent: "length (rebootCommands (m_host w)) < length (rebootCommands (m_host w1))" by blast
    have ord: "host_order (m_host w) (m_host w1)"
      using keeps_hostD [OF history.keeps_issue host_order_refl i] .
    from succeedsD [OF rest rest1] obtain pf w0 w2 where
      "host_order (m_host w1) (m_host w0)" "ReadHostProof w0 = (Inr pf, w2)" "host_order (m_host w2) (m_host w')"
      "validateRebootTransition hostid pre pf = None" "completed_as (hp_BootID pf) e r"
      unfolding proven_def by blast
    with ord sent host_order_commands [of "m_host w1" "m_host w0"] show "proven True hostid pre e w r w'"
      unfolding proven_def by (meson host_order_trans less_le_trans)
  qed
  then show ?thesis
    using True unfolding issueReboot_def by (simp add: rebootPhaseLess_def proves_marked)
qed

text \<open>The identifiers the proof was compared with are those of the result, as recorded or trimmed.\<close>

definition same_id :: "string \<Rightarrow> string \<Rightarrow> bool" where
  "same_id a b \<longleftrightarrow> a = b \<or> a = TrimSpace b"

definition proven_reboot :: "bool \<Rightarrow> machine \<Rightarrow> RestartHostResult option \<Rightarrow> machine \<Rightarrow> bool" where
  "proven_reboot sent w r w' \<longleftrightarrow> (\<exists>x pre proof w0 w1. r = Some x \<and> rr_Phase x = rebootPhaseCompleted \<and>
     host_order (m_host w) (m_host w0) \<and> ReadHostProof w0 = (Inr proof, w1) \<and> host_order (m_host w1) (m_host w') \<and>
     (sent \<longrightarrow> length (rebootCommands (m_host w)) < length (rebootCommands (m_host w0))) \<and>
     same_id (StableID proof) (rr_StableHostID x) \<and> same_id pre (rr_PreBootID x) \<and> TrimSpace pre \<noteq> [] \<and>
     hp_BootID proof \<noteq> pre \<and> rr_PostBootID x = hp_BootID proof)"

lemma proven_is_reboot:
  assumes "proven sent hostid pre e w r w'" and "same_id hostid (rj_StableHostID e)" "same_id pre (rj_PreBootID e)"
  shows "proven_reboot sent w r w'"
proof -
  from assms(1) obtain pf w0 w1 where p: "host_order (m_host w) (m_host w0)" "ReadHostProof w0 = (Inr pf, w1)"
    "host_order (m_host w1) (m_host w')" "sent \<longrightarrow> length (rebootCommands (m_host w)) < length (rebootCommands (m_host w0))"
    "validateRebootTransition hostid pre pf = None" "completed_as (hp_BootID pf) e r" unfolding proven_def by blast
  from p(5) have "StableID pf = hostid" "hp_BootID pf \<noteq> pre" "TrimSpace pre \<noteq> []"
    by (auto simp: validateRebootTransition_def split: if_splits)
  with p assms(2,3) show ?thesis unfolding proven_reboot_def completed_as_def by metis
qed

lemma proven_reboot_before:
  assumes "proven_reboot sent w1 r w'" and "host_order (m_host w) (m_host w1)"
  shows "proven_reboot sent w r w'"
proof -
  have le: "length (rebootCommands (m_host w)) \<le> length (rebootCommands (m_host w1))"
    by (rule host_order_commands [OF assms(2)])
  have "host_order (m_host w) h" if "host_order (m_host w1) h" for h by (rule host_order_trans [OF assms(2) that])
  moreover have "length (rebootCommands (m_host w)) < n" if "length (rebootCommands (m_host w1)) < n" for n
    using le that by simp
  ultimately show ?thesis using assms(1) unfolding proven_reboot_def by blast
qed

lemma reboot_bindA:
  assumes m: "\<And>h. keeps_host (host_order h) m" and f: "\<And>a. succeeds (proven_reboot sent) (f a)"
  shows "succeeds (proven_reboot sent) (bindA m f)"
  unfolding succeeds_def
proof (intro allI impI)
  fix w r w' assume run: "bindA m f w = (Some (r, None), w')"
  obtain a w1 where 1: "m w = (a, w1)" by force
  with run have "f a w1 = (Some (r, None), w')" by (simp add: bindA_def)
  from succeedsD [OF f this] keeps_hostD [OF m host_order_refl 1]
  show "proven_reboot sent w r w'" by (rule proven_reboot_before)
qed

lemma reboot_marked:
  assumes "succeeds (proven_reboot sent) (next e')"
  shows "succeeds (proven_reboot sent) (marked mp e0 e' next)"
  unfolding marked_def by (rule reboot_bindA [OF history.keeps_markPhase]) (auto simp: assms)

lemma reboot_issue:
  assumes "rebootPhaseRank (rj_Phase e) < 7" and "same_id hostid (rj_StableHostID e)" "same_id pre (rj_PreBootID e)"
    and "sent \<longrightarrow> rebootPhaseRank (rj_Phase e) < 3"
  shows "succeeds (proven_reboot sent) (issueReboot c e hostid pre cmd timeout settle deadline)"
proof -
  have "proven_reboot sent w r w'" if "issueReboot c e hostid pre cmd timeout settle deadline w = (Some (r, None), w')" for w r w'
  proof -
    from succeedsD [OF proves_issue [OF assms(1)] that]
    have "proven (rebootPhaseRank (rj_Phase e) < 3) hostid pre e w r w'" .
    with assms(4) have "proven sent hostid pre e w r w'" unfolding proven_def by blast
    from proven_is_reboot [OF this assms(2,3)] show ?thesis .
  qed
  then show ?thesis by (simp add: succeeds_def)
qed

lemma reboot_prepare:
  assumes "rebootPhaseRank (rj_Phase e) < 7" and "same_id hostid (rj_StableHostID e)" "same_id pre (rj_PreBootID e)"
    and "sent \<longrightarrow> rebootPhaseRank (rj_Phase e) < 3"
  shows "succeeds (proven_reboot sent) (prepareTarget c e hostid pre cmd timeout settle deadline)"
proof -
  have later: "succeeds (proven_reboot sent) (issueReboot c (e\<lparr>rj_Phase := rebootPhaseTargetPrepared, rj_RebootCommand := x\<rparr>)
      hostid pre x timeout settle deadline)" for x
    by (rule reboot_issue) (use assms in auto)
  show ?thesis
    unfolding prepareTarget_def
    by (auto intro!: reboot_issue [OF assms] reboot_bindA reboot_marked later history.keeps_Select keeps
        split: sum.splits)
qed

lemma reboot_resume:
  assumes "sent \<longrightarrow> rebootPhaseRank (rj_Phase e) < 3" and "rj_Phase e \<noteq> rebootPhaseCompleted"
  shows "succeeds (proven_reboot sent) (resumeReboot c params e)"
proof (cases "rj_Phase e = rebootPhaseFailed")
  case False
  with assms(2) have early: "rebootPhaseRank (rj_Phase e) < 7" by (auto simp: rebootPhaseRank_def)
  have checked: "succeeds (proven_reboot sent) (prepareTarget c (e\<lparr>rj_Phase := rebootPhasePrecheckComplete,
      rj_StableHostID := sid, rj_PreBootID := pre\<rparr>) sid pre cmd timeout settle deadline)" for sid pre cmd timeout settle deadline
    by (rule reboot_prepare) (auto simp: same_id_def)
  have "succeeds (proven_reboot sent) (prepareTarget c e (TrimSpace (rj_StableHostID e)) (TrimSpace (rj_PreBootID e))
      cmd timeout settle deadline)" for cmd timeout settle deadline
    by (rule reboot_prepare) (use early assms in \<open>auto simp: same_id_def\<close>)
  with False assms(2) checked show ?thesis
    unfolding resumeReboot_def precheckHost_def Let_def
    by (auto intro!: reboot_bindA reboot_marked history.keeps_ReadHostProof split: sum.splits)
qed (use assms(2) in \<open>auto simp: resumeReboot_def\<close>)

subsection \<open>A restart that succeeds\<close>

lemma Prepare_not_completed:
  assumes "Prepare E p s = (Inr e, s')"
  shows "rj_Phase e \<noteq> rebootPhaseCompleted"
proof -
  have new: "rj_Phase x = rebootPhasePlanned" if "createReboot E fp p t = (Inr x, t')" for fp t x t'
    using that by (auto simp: createReboot_def Let_def split: prod.splits option.splits)
  have old: "\<not> resumable rebootPhaseCompleted" by (simp add: resumable_def phase_defs)
  obtain r1 s1 where e1: "ensureRebootDirs s = (r1, s1)" by force
  obtain fp where fp: "rebootFingerprint E p = Inr fp" using rebootFingerprint_Inr by blast
  obtain r2 s2 where e2: "readRebootCurrent E fp s1 = (r2, s2)" by force
  have "r1 = None" using assms e1 by (cases r1) (simp_all add: Prepare_def)
  with assms e1 fp e2 new old show ?thesis
    by (cases r2; fastforce simp: Prepare_def split: if_splits)
qed

text \<open>C26: a restart that reports success saw the host rebooted. When the restart returns a result and
  no error, the operation is completed, and after it began a proof of the host was read that
  has the recorded stable identity and another boot identifier than the one recorded before, which is
  the result's post-boot identifier. If the journal did not already have the reboot as issued, a
  reboot command ran on the target before that proof was read.\<close>

theorem restart_success_is_proven:
  assumes "restartHostUnsafe c params w = (Some (r, None), w')"
  shows "\<exists>entry w1. prepareRebootJournal params w = (Inr entry, w1) \<and>
    proven_reboot (rebootPhaseRank (rj_Phase entry) < 3) w r w'"
proof -
  obtain q w1 where prep: "prepareRebootJournal params w = (q, w1)" by force
  with assms obtain entry where q: "q = Inr entry"
    by (cases q) (auto simp: restartHostUnsafe_def bindA_def)
  with assms prep have run: "resumeReboot c params entry w1 = (Some (r, None), w')"
    by (simp add: restartHostUnsafe_def bindA_def)
  obtain p where c: "callHost (onStore (\<lambda>E. Prepare E p)) w = (Inr entry, w1)"
    using prep q by (simp add: prepareRebootJournal_def)
  from callHost_ran [OF c] obtain x ys where
    "onStore (\<lambda>E. Prepare E p) x (ran (onStore (\<lambda>E. Prepare E p)) ys (m_host w)) = (Inr entry, m_host w1)" by auto
  from Prepare_not_completed [OF onStore_eq [OF this]] have nc: "rj_Phase entry \<noteq> rebootPhaseCompleted" .
  have order: "host_order (m_host w) (m_host w1)" by (rule keeps_hostD [OF keeps_prepare host_order_refl prep])
  have "proven_reboot (rebootPhaseRank (rj_Phase entry) < 3) w1 r w'"
    by (rule succeedsD [OF reboot_resume run]) (use nc in simp_all)
  from proven_reboot_before [OF this order] prep q show ?thesis by blast
qed

lemma restart_success_is_proven_witness:
  "\<exists>r w'. restartHostUnsafe None demo_restart demo_run = (Some (r, None), w') \<and>
    (\<exists>entry w1. prepareRebootJournal demo_restart demo_run = (Inr entry, w1) \<and>
      proven_reboot (rebootPhaseRank (rj_Phase entry) < 3) demo_run r w')"
proof -
  have "(case fst (restartHostUnsafe None demo_restart demo_run) of Some (r, None) \<Rightarrow> True | _ \<Rightarrow> False)" by code_simp
  then obtain r w' where run: "restartHostUnsafe None demo_restart demo_run = (Some (r, None), w')"
    by (cases "restartHostUnsafe None demo_restart demo_run") (auto split: option.splits)
  from run restart_success_is_proven [OF run] show ?thesis by blast
qed

text \<open>One run can send the command more than once: when the reply of the first attempt is lost the
  RPC is retried, and the target runs the command again.\<close>

definition demo_lost :: "env attempt" where
  "demo_lost = \<lparr>at_prepare = None, at_exec = demo_E, at_delivery = LostReply DeadlineExceeded, at_reset = None,
     at_reacquire = None, at_sleep = None\<rparr>"


text \<open>The surroundings of the executor that another provider process starts: the journal key is random
  for every process (\<open>newJournalKey\<close>).\<close>

definition other_provider :: env where
  "other_provider = demo_E\<lparr>journal_key := ''k2'', random_bytes := ''b''\<rparr>"

text \<open>Another provider does not see an issued reboot. After the operation of a request was marked
  \<open>reboot_issued\<close>, the same request made under another journal key starts a new, planned operation
  instead of resuming it.\<close>

lemma other_key_forgets_reboot:
  "case Prepare demo_E demo_reboot demo_store of
     (Inr e, s1) \<Rightarrow>
       (case MarkPhase demo_E demo_mark s1 of
          (Inr e2, s2) \<Rightarrow> rj_Phase e2 = rebootPhaseRebootIssued \<and>
            (case Prepare other_provider demo_reboot s2 of
               (Inr e3, s3) \<Rightarrow> rj_OperationID e3 \<noteq> rj_OperationID e2 \<and> rj_Phase e3 = rebootPhasePlanned
             | _ \<Rightarrow> False)
        | _ \<Rightarrow> False)
   | _ \<Rightarrow> False"
  by code_simp

end
