(* ===== verification/RebootWait.thy ===== *)
theory RebootWait
  imports RestartHost
begin

text \<open>
  The waiting loop of restartHostUnsafe (restart_host.go) ends: a round reads the clock once, so the
  loop is over at the latest when the clock reads the deadline, whatever the host answers.
\<close>

text \<open>Actions that do not read the clock, and actions with an outcome.\<close>

definition keepsClock :: "'a act \<Rightarrow> bool" where
  "keepsClock m \<longleftrightarrow> (\<forall>w. m_clock (snd (m w)) = m_clock w)"

definition endsWithin :: "nat \<Rightarrow> 'a option act \<Rightarrow> bool" where
  "endsWithin k m \<longleftrightarrow> (\<forall>w. fst (m w) \<noteq> None \<and> length (m_clock w) \<le> length (m_clock (snd (m w))) + k)"

lemma keepsClock_ret [simp]: "keepsClock (ret a)"
  by (simp add: keepsClock_def ret_def)

lemma keepsClock_bindA: "keepsClock m \<Longrightarrow> (\<And>a. keepsClock (f a)) \<Longrightarrow> keepsClock (bindA m f)"
  by (simp add: keepsClock_def bindA_def split: prod.split) (metis snd_conv)

lemma keepsClock_bindR: "keepsClock m \<Longrightarrow> (\<And>a. keepsClock (f a)) \<Longrightarrow> keepsClock (bindR m f)"
  by (simp add: keepsClock_def bindR_def split: prod.split sum.split) (metis snd_conv)

lemma keepsClock_wrapErr: "keepsClock m \<Longrightarrow> keepsClock (wrapErr g m)"
  by (simp add: keepsClock_def wrapErr_def split: prod.split sum.split) (metis snd_conv)

lemma keepsClock_errOf: "keepsClock m \<Longrightarrow> keepsClock (errOf m)"
  by (simp add: keepsClock_def errOf_def split: prod.split sum.split) (metis snd_conv)

lemma keepsClock_nextAnswer [simp]: "keepsClock nextAnswer"
  by (simp add: keepsClock_def nextAnswer_def split: list.split)

lemma keepsClock_getHostProfile [simp]: "keepsClock getHostProfile"
  by (simp add: keepsClock_def getHostProfile_def split: list.split)

lemma keepsClock_callHost [simp]: "keepsClock (callHost f)"
  by (simp add: keepsClock_def callHost_def Let_def split: prod.split)

lemma keepsClock_command [simp]: "keepsClock (runExecutorCommand name args)"
proof -
  have "keepsClock (runExecutorCommandResult True name args)"
    by (simp add: runExecutorCommandResult_def HostCommand_def keepsClock_wrapErr)
  then show ?thesis
    by (simp add: keepsClock_def runExecutorCommand_def split: prod.split sum.split) (metis snd_conv)
qed

lemma keepsClock_bestEffort [simp]: "keepsClock (bestEffortExecutorCommand name args)"
  unfolding bestEffortExecutorCommand_def by (rule keepsClock_bindA) (auto split: prod.split)

lemma keepsClock_ReadHostProof [simp]: "keepsClock ReadHostProof"
  unfolding ReadHostProof_def Let_def
  by (intro keepsClock_bindA) (auto intro: keepsClock_bindA)

lemma keepsClock_ProbeReady [simp]: "keepsClock ProbeReady"
proof -
  have "keepsClock (probeFile p)" for p
    unfolding probeFile_def by (rule keepsClock_bindA) (auto split: prod.split)
  then show ?thesis unfolding ProbeReady_def by (intro keepsClock_bindA) auto
qed

lemma endsWithin_ret [simp]: "endsWithin k (ret (Some a))"
  by (simp add: endsWithin_def ret_def)

lemma endsWithin_mono: "endsWithin k m \<Longrightarrow> k \<le> l \<Longrightarrow> endsWithin l m"
  unfolding endsWithin_def by (meson add_left_mono le_trans)

lemma endsWithin_bindA: "keepsClock m \<Longrightarrow> (\<And>a. endsWithin k (f a)) \<Longrightarrow> endsWithin k (bindA m f)"
  by (simp add: endsWithin_def keepsClock_def bindA_def split: prod.split) (metis snd_conv)

lemma endsWithin_failReboot [simp]: "endsWithin k (failReboot entry err)"
  by (cases entry) (auto simp: failReboot_def markRebootJournalFailed_def intro!: endsWithin_bindA keepsClock_errOf)

lemma endsWithin_rebootEnds [simp]: "endsWithin k (rebootEnds entry err)"
  by (simp add: rebootEnds_def)

lemma endsWithin_marked: "(\<And>e. endsWithin k (f e)) \<Longrightarrow> endsWithin k (marked mp entry entry' f)"
  by (auto simp: marked_def markRebootJournalPhase_def intro!: endsWithin_bindA keepsClock_errOf)

lemma endsWithin_readClock: "(\<And>t. endsWithin 0 (f t)) \<Longrightarrow> endsWithin (Suc 0) (bindA readClock f)"
  unfolding endsWithin_def
proof
  fix w
  assume f: "\<And>t. \<forall>w. fst (f t w) \<noteq> None \<and> length (m_clock w) \<le> length (m_clock (snd (f t w))) + 0"
  obtain t v where r: "readClock w = (t, v)" by (cases "readClock w")
  then have "length (m_clock w) \<le> length (m_clock v) + 1"
    by (cases "m_clock w") (auto simp: readClock_def)
  moreover have "fst (f t v) \<noteq> None" "length (m_clock v) \<le> length (m_clock (snd (f t v)))" using f [of t] by auto
  ultimately show "fst (bindA readClock f w) \<noteq> None \<and>
      length (m_clock w) \<le> length (m_clock (snd (bindA readClock f w))) + Suc 0"
    unfolding bindA_def r by simp
qed

subsection \<open>After the host is back\<close>

lemma endsWithin_sleepOr: "endsWithin k m \<Longrightarrow> endsWithin k (sleepOr entry m)"
  unfolding sleepOr_def by (rule endsWithin_bindA) (auto split: option.split)

lemma endsWithin_finish: "endsWithin (Suc 0) (finishReboot entry boot)"
proof -
  have "keepsClock (markRebootJournalCompleted i b)" for i b
    by (simp add: markRebootJournalCompleted_def keepsClock_errOf)
  then show ?thesis
    unfolding finishReboot_def
    by (auto intro!: endsWithin_bindA [of "markRebootJournalCompleted _ _"] endsWithin_readClock)
qed

lemma endsWithin_hostReturned: "endsWithin (Suc 0) (hostReturned entry settle proof)"
proof -
  have r: "endsWithin (Suc 0) (rebootstrap e b)" for e b
    unfolding rebootstrap_def
    by (auto split: option.split intro!: endsWithin_bindA endsWithin_marked endsWithin_finish)
  have "endsWithin (Suc 0) (settleReboot e settle b)" for e b
    unfolding settleReboot_def using r endsWithin_sleepOr by auto
  then show ?thesis unfolding hostReturned_def by (auto intro!: endsWithin_marked)
qed

subsection \<open>The loop\<close>

text \<open>What the loop may do with the rest of the clock once a round has not ended it.\<close>

definition endsBy :: "int \<Rightarrow> 'a option act \<Rightarrow> machine \<Rightarrow> bool" where
  "endsBy deadline m w \<longleftrightarrow>
     fst (m w) \<noteq> None \<and>
     length (m_clock w) \<le> length (m_clock (snd (m w))) + length (takeWhile (\<lambda>t. t < deadline) (m_clock w)) + 2"

lemma endsBy_within: "endsWithin 2 m \<Longrightarrow> endsBy deadline m w"
  unfolding endsWithin_def endsBy_def by (auto dest!: spec [of _ w])

lemma endsBy_bindA: "keepsClock m \<Longrightarrow> (\<And>a v. m_clock v = m_clock w \<Longrightarrow> endsBy d (f a) v) \<Longrightarrow> endsBy d (bindA m f) w"
  by (cases "m w") (simp add: keepsClock_def bindA_def endsBy_def, metis snd_conv)

text \<open>One round, before the deadline.\<close>

definition waitAfterProof ::
    "rebootOutcome option act \<Rightarrow> RebootJournalEntry \<Rightarrow> string \<Rightarrow> string \<Rightarrow> int \<Rightarrow> hostProof res \<Rightarrow> rebootOutcome option act" where
  "waitAfterProof again entry hostid pre settle postProof =
     (case postProof of
        Inl _ \<Rightarrow> again
      | Inr proof \<Rightarrow>
          (case validateRebootTransition hostid pre proof of
             Some err \<Rightarrow> if isBootNotChanged (Some err) then again else failReboot (Some entry) err
           | None \<Rightarrow>
               bindA ProbeReady (\<lambda>probeErr.
                 if probeErr \<noteq> None then again else hostReturned entry settle proof)))"

definition waitRound ::
    "rebootOutcome option act \<Rightarrow> RebootJournalEntry \<Rightarrow> string \<Rightarrow> string \<Rightarrow> int \<Rightarrow> rebootOutcome option act" where
  "waitRound again entry hostid pre settle =
     bindA nextAnswer (\<lambda>reconnectErr.
       if reconnectErr \<noteq> None then again
       else bindA ReadHostProof (waitAfterProof again entry hostid pre settle))"

lemma endsBy_waitRound:
  assumes a: "\<And>v. m_clock v = m_clock w \<Longrightarrow> endsBy d again v"
  shows "endsBy d (waitRound again entry hostid pre settle) w"
  unfolding waitRound_def
proof (rule endsBy_bindA)
  fix r and v :: machine assume v: "m_clock v = m_clock w"
  have h: "endsBy d (hostReturned entry settle p) u" for p and u :: machine
    by (rule endsBy_within) (rule endsWithin_mono [OF endsWithin_hostReturned], simp)
  have "endsBy d (bindA ReadHostProof (waitAfterProof again entry hostid pre settle)) v"
  proof (rule endsBy_bindA)
    fix q :: "hostProof res" and u :: machine assume u: "m_clock u = m_clock v"
    have "endsBy d (bindA ProbeReady (\<lambda>e. if e \<noteq> None then again else hostReturned entry settle p)) u" for p
      by (rule endsBy_bindA) (use a h u v in auto)
    then show "endsBy d (waitAfterProof again entry hostid pre settle q) u"
      using a u v by (simp add: waitAfterProof_def endsBy_within split: sum.split option.split)
  qed simp
  then show "endsBy d (if r \<noteq> None then again else bindA ReadHostProof (waitAfterProof again entry hostid pre settle)) v"
    using a [OF v] by simp
qed simp

lemma waitForHost_endsBy:
  "length (m_clock w) = n \<Longrightarrow> \<exists>t \<in> set (m_clock w). deadline \<le> t \<Longrightarrow>
   endsBy deadline (waitForHost n entry hostid pre settle deadline) w"
proof (induction n arbitrary: w)
  case 0
  then show ?case by simp
next
  case (Suc n)
  then obtain time clock where c: "m_clock w = time # clock" "length clock = n"
    by (cases "m_clock w") auto
  define again where "again = sleepOr entry (waitForHost n entry hostid pre settle deadline)"
  define round where "round = waitRound again entry hostid pre settle"
  let ?w1 = "w\<lparr>m_clock := clock\<rparr>"
  have step: "waitForHost (Suc n) entry hostid pre settle deadline w =
      (if \<not> time < deadline
       then failReboot (Some entry) (Errorf ''reboot timeout waiting for host to return and prove reboot'') ?w1
       else round ?w1)"
    by (simp only: waitForHost.simps c(1) list.case Let_def round_def again_def waitRound_def waitAfterProof_def [abs_def])
  show ?case
  proof (cases "time < deadline")
    case False
    let ?f = "failReboot (Some entry) (Errorf ''reboot timeout waiting for host to return and prove reboot'')"
    have "endsWithin 0 ?f" by simp
    then have "fst (?f ?w1) \<noteq> None \<and> length (m_clock ?w1) \<le> length (m_clock (snd (?f ?w1))) + 0"
      unfolding endsWithin_def by (rule spec)
    then have "fst (?f ?w1) \<noteq> None" "length clock \<le> length (m_clock (snd (?f ?w1)))" by simp_all
    with False show ?thesis unfolding endsBy_def step by (simp only: if_True not_False_eq_True c(1)) simp
  next
    case True
    have ex: "\<exists>t \<in> set clock. deadline \<le> t" using Suc.prems(2) True c(1) by auto
    have a: "endsBy deadline again v" if "m_clock v = clock" for v
      unfolding again_def sleepOr_def
    proof (rule endsBy_bindA)
      fix a and u :: machine assume "m_clock u = m_clock v"
      then have "endsBy deadline (waitForHost n entry hostid pre settle deadline) u"
        using Suc.IH [of u] that c(2) ex by simp
      then show "endsBy deadline (case a of None \<Rightarrow> waitForHost n entry hostid pre settle deadline
          | Some e \<Rightarrow> failReboot (Some entry) e) u"
        by (cases a) (simp_all add: endsBy_within)
    qed simp
    have "endsBy deadline round ?w1"
      unfolding round_def by (rule endsBy_waitRound) (simp add: a)
    then show ?thesis using True unfolding endsBy_def step by (simp add: c(1))
  qed
qed

text \<open>C27: Waiting for a host to return ends, whatever the host, its commands and the pauses answer: once
  the clock reads the deadline the wait has an outcome, and it has read the clock at most twice more
  than the number of readings before the deadline.\<close>

theorem waiting_ends:
  assumes "\<exists>t \<in> set (m_clock w). deadline \<le> t"
  shows "\<exists>outcome w'. waitForHost (length (m_clock w)) entry hostid pre settle deadline w = (Some outcome, w') \<and>
    length (m_clock w) \<le> length (m_clock w') + length (takeWhile (\<lambda>t. t < deadline) (m_clock w)) + 2"
  using waitForHost_endsBy [OF refl assms, of entry hostid pre settle]
  by (cases "waitForHost (length (m_clock w)) entry hostid pre settle deadline w") (auto simp: endsBy_def)

definition demo_waiting :: machine where
  "demo_waiting = (demo_machine [])\<lparr>m_clock := [5, 9, 12], m_answers := [Some Canceled, None, None, None]\<rparr>"

definition demo_issued :: RebootJournalEntry where
  "demo_issued = \<lparr>rj_OperationID = ''op'', rj_Fingerprint = ''fp'', rj_HostAddress = ''h'', rj_Name = ''n'', rj_Reason = [],
     rj_RebootCommand = ''reboot'', rj_Phase = rebootPhaseWaitingForReconnect, rj_StableHostID = ''id'', rj_PreBootID = ''b1'',
     rj_PostBootID = [], rj_TimeoutSeconds = 5, rj_SettleSeconds = 0, rj_RequestedAt = 1, rj_UpdatedAt = 2,
     rj_CompletedAt = None, rj_LastError = []\<rparr>"

theorem waiting_ends_witness:
  "\<exists>outcome w'. waitForHost (length (m_clock demo_waiting)) demo_issued ''id'' ''b1'' 0 10 demo_waiting = (Some outcome, w') \<and>
    length (m_clock demo_waiting) \<le> length (m_clock w') + length (takeWhile (\<lambda>t. t < 10) (m_clock demo_waiting)) + 2"
  by (rule waiting_ends) (simp add: demo_waiting_def)

end
