(* ===== verification/SessionRuntime.thy ===== *)
theory SessionRuntime
  imports Prelude
begin

text \<open>
  hostsession/session_runtime.go and its use in hostsession/manager.go: the counter of the calls in
  progress on a session, the single leader of a reset, of an executor bootstrap and of a readiness
  check, and the session's bootstrap mutex.

  The operations of \<open>sessionRuntime\<close> are functions on its fields; one that waits on the condition
  variable is split into its decision (\<open>None\<close> or \<open>Wait\<close>: go on waiting) and its effect. \<open>sessionStep\<close>
  interleaves the threads that run \<open>prepareClientForAction\<close>, \<open>ensureExecutorForAction\<close>,
  \<open>EnsureExecutorWithReconnect\<close>, \<open>withRetries\<close>, \<open>resetSessionSafely\<close> and \<open>EnsureHostReady\<close>, one
  critical section at a time.
\<close>

subsection \<open>session_runtime.go\<close>

record sessionRuntime =
  activeCalls :: nat
  resetInProgress :: bool
  lastResetErr :: "error option"
  ensureInProgress :: bool
  lastEnsureErr :: "error option"
  hostReady :: bool
  hostReadyRoot :: bool
  readyInProgress :: bool
  lastReadyErr :: "error option"

definition newSessionRuntime :: sessionRuntime where
  "newSessionRuntime = \<lparr>activeCalls = 0, resetInProgress = False, lastResetErr = None,
     ensureInProgress = False, lastEnsureErr = None, hostReady = False, hostReadyRoot = False,
     readyInProgress = False, lastReadyErr = None\<rparr>"

text \<open>\<open>None\<close>: a reset is in progress, the caller waits.\<close>

definition acquireCall :: "sessionRuntime \<Rightarrow> sessionRuntime option" where
  "acquireCall r = (if resetInProgress r then None else Some (r\<lparr>activeCalls := activeCalls r + 1\<rparr>))"

definition releaseCall :: "sessionRuntime \<Rightarrow> sessionRuntime" where
  "releaseCall r = (if activeCalls r > 0 then r\<lparr>activeCalls := activeCalls r - 1\<rparr> else r)"

definition reserveCall :: "sessionRuntime \<Rightarrow> sessionRuntime" where
  "reserveCall r = r\<lparr>activeCalls := activeCalls r + 1\<rparr>"

definition beginReset :: "sessionRuntime \<Rightarrow> sessionRuntime option" where
  "beginReset r = (if resetInProgress r then None else Some (r\<lparr>resetInProgress := True, lastResetErr := None\<rparr>))"

definition finishReset :: "error option \<Rightarrow> sessionRuntime \<Rightarrow> sessionRuntime" where
  "finishReset err r = r\<lparr>lastResetErr := err, resetInProgress := False\<rparr>"

definition beginEnsure :: "sessionRuntime \<Rightarrow> sessionRuntime option" where
  "beginEnsure r = (if ensureInProgress r then None else Some (r\<lparr>ensureInProgress := True, lastEnsureErr := None\<rparr>))"

definition finishEnsure :: "error option \<Rightarrow> sessionRuntime \<Rightarrow> sessionRuntime" where
  "finishEnsure err r = r\<lparr>lastEnsureErr := err, ensureInProgress := False\<rparr>"

definition readinessSatisfied :: "bool \<Rightarrow> sessionRuntime \<Rightarrow> bool" where
  "readinessSatisfied needRoot r = (if needRoot then hostReadyRoot r else hostReady r)"

datatype readinessEntry = WaitForCheck | Answer "error option" | Lead sessionRuntime

text \<open>The loop of \<open>beginReadinessCheck\<close>; \<open>waited\<close>: the caller has waited for another's check.\<close>

definition beginReadinessCheck :: "bool \<Rightarrow> bool \<Rightarrow> sessionRuntime \<Rightarrow> readinessEntry" where
  "beginReadinessCheck waited needRoot r =
     (if readyInProgress r then WaitForCheck
      else if readinessSatisfied needRoot r then Answer None
      else if waited \<and> lastReadyErr r \<noteq> None then Answer (lastReadyErr r)
      else Lead (r\<lparr>readyInProgress := True, lastReadyErr := None\<rparr>))"

definition finishReadiness :: "error option \<Rightarrow> bool \<Rightarrow> sessionRuntime \<Rightarrow> sessionRuntime" where
  "finishReadiness err rootValidated r =
     (let r1 = (case err of
                  None \<Rightarrow> (let r0 = r\<lparr>hostReady := True\<rparr>;
                              r0' = (if rootValidated then r0\<lparr>hostReadyRoot := True\<rparr> else r0)
                          in r0'\<lparr>lastReadyErr := None\<rparr>)
                | Some e \<Rightarrow> r\<lparr>lastReadyErr := Some e\<rparr>)
      in r1\<lparr>readyInProgress := False\<rparr>)"

definition clearReadiness :: "sessionRuntime \<Rightarrow> sessionRuntime" where
  "clearReadiness r = r\<lparr>hostReady := False, hostReadyRoot := False, readyInProgress := False, lastReadyErr := None\<rparr>"

subsection \<open>The threads of a session\<close>

text \<open>Where a thread is. The flag of the reset places is \<open>bootstrapHeld\<close>.\<close>

datatype place =
    Idle
  | Entering
  | Bootstrapping
  | Reserved
  | Calling
  | Cleanup
  | ResetStart bool
  | ResetWait bool
  | ResetLock
  | Draining bool
  | Tearing bool
  | Unlocking bool "error option"
  | Finishing bool "error option"
  | ReadyStart bool bool
  | Checking bool

text \<open>\<open>sw_mu\<close> is the thread that holds the bootstrap mutex; \<open>sw_stdio\<close>: the session has the streams of
  a running executor.\<close>

record sessionWorld =
  sw_rt :: sessionRuntime
  sw_mu :: "nat option"
  sw_stdio :: bool
  sw_places :: "place list"

definition at_place :: "sessionWorld \<Rightarrow> nat \<Rightarrow> place \<Rightarrow> bool" where
  "at_place w i p \<longleftrightarrow> i < length (sw_places w) \<and> sw_places w ! i = p"

definition goto :: "nat \<Rightarrow> place \<Rightarrow> sessionWorld \<Rightarrow> sessionWorld" where
  "goto i p w = w\<lparr>sw_places := (sw_places w)[i := p]\<rparr>"

text \<open>\<open>EnsureExecutor\<close> resets a session that has no streams before it starts an executor.\<close>

definition ensureResets :: "sessionWorld \<Rightarrow> sessionWorld" where
  "ensureResets w = (if sw_stdio w then w else w\<lparr>sw_rt := clearReadiness (sw_rt w)\<rparr>)"

text \<open>\<open>resetSession\<close>: the streams are closed.\<close>

definition resetSession :: "sessionWorld \<Rightarrow> sessionWorld" where
  "resetSession w = w\<lparr>sw_rt := clearReadiness (sw_rt w), sw_stdio := False\<rparr>"

definition afterReset :: "bool \<Rightarrow> place" where
  "afterReset bootstrapHeld = (if bootstrapHeld then Cleanup else Idle)"

text \<open>The steps. With \<open>cancels\<close> false no context is cancelled.\<close>

inductive sessionStep :: "bool \<Rightarrow> sessionWorld \<Rightarrow> sessionWorld \<Rightarrow> bool" for cancels :: bool where
  enter: "at_place w i Idle \<Longrightarrow> sessionStep cancels w (goto i Entering w)"
| lock: "at_place w i Entering \<Longrightarrow> sw_mu w = None \<Longrightarrow>
    sessionStep cancels w (goto i Bootstrapping (w\<lparr>sw_mu := Some i\<rparr>))"
| reserve: "at_place w i Bootstrapping \<Longrightarrow>
    sessionStep cancels w (goto i Reserved ((ensureResets w)\<lparr>sw_rt := reserveCall (sw_rt (ensureResets w)), sw_stdio := True\<rparr>))"
| ensured: "at_place w i Bootstrapping \<Longrightarrow>
    sessionStep cancels w (goto i Idle ((ensureResets w)\<lparr>sw_stdio := True, sw_mu := None\<rparr>))"
| bootstrap_failed: "at_place w i Bootstrapping \<Longrightarrow>
    sessionStep cancels w (goto i (ResetStart True) ((ensureResets w)\<lparr>sw_stdio := sw_stdio w \<or> started\<rparr>))"
| no_client: "at_place w i Reserved \<Longrightarrow>
    sessionStep cancels w (goto i (ResetStart True) (w\<lparr>sw_rt := releaseCall (sw_rt w)\<rparr>))"
| call: "at_place w i Reserved \<Longrightarrow> sessionStep cancels w (goto i Calling (w\<lparr>sw_mu := None\<rparr>))"
| call_done: "at_place w i Calling \<Longrightarrow> sessionStep cancels w (goto i Idle (w\<lparr>sw_rt := releaseCall (sw_rt w)\<rparr>))"
| call_failed: "at_place w i Calling \<Longrightarrow>
    sessionStep cancels w (goto i (ResetStart False) (w\<lparr>sw_rt := releaseCall (sw_rt w)\<rparr>))"
| reset: "at_place w i Idle \<Longrightarrow> sessionStep cancels w (goto i (ResetStart False) w)"
| lead: "at_place w i (ResetStart held) \<Longrightarrow> beginReset (sw_rt w) = Some r \<Longrightarrow>
    sessionStep cancels w (goto i (if held then Draining True else ResetLock) (w\<lparr>sw_rt := r\<rparr>))"
| follow: "at_place w i (ResetStart held) \<Longrightarrow> beginReset (sw_rt w) = None \<Longrightarrow>
    sessionStep cancels w (goto i (ResetWait held) w)"
| followed: "at_place w i (ResetWait held) \<Longrightarrow> \<not> resetInProgress (sw_rt w) \<Longrightarrow>
    sessionStep cancels w (goto i (afterReset held) w)"
| follow_cancelled: "cancels \<Longrightarrow> at_place w i (ResetWait held) \<Longrightarrow> sessionStep cancels w (goto i (afterReset held) w)"
| reset_lock: "at_place w i ResetLock \<Longrightarrow> sw_mu w = None \<Longrightarrow>
    sessionStep cancels w (goto i (Draining False) (w\<lparr>sw_mu := Some i\<rparr>))"
| drained: "at_place w i (Draining held) \<Longrightarrow> activeCalls (sw_rt w) = 0 \<Longrightarrow>
    sessionStep cancels w (goto i (Tearing held) w)"
| drain_cancelled: "cancels \<Longrightarrow> at_place w i (Draining held) \<Longrightarrow>
    sessionStep cancels w (goto i (Unlocking held (Some Canceled)) w)"
| tear: "at_place w i (Tearing held) \<Longrightarrow> sessionStep cancels w (goto i (Unlocking held reconnectErr) (resetSession w))"
| unlock: "at_place w i (Unlocking held err) \<Longrightarrow>
    sessionStep cancels w (goto i (Finishing held err) (if held then w else w\<lparr>sw_mu := None\<rparr>))"
| finish: "at_place w i (Finishing held err) \<Longrightarrow>
    sessionStep cancels w (goto i (afterReset held) (w\<lparr>sw_rt := finishReset err (sw_rt w)\<rparr>))"
| cleanup: "at_place w i Cleanup \<Longrightarrow> sessionStep cancels w (goto i Idle (w\<lparr>sw_mu := None\<rparr>))"
| ensure_again: "at_place w i Cleanup \<Longrightarrow> sessionStep cancels w (goto i Bootstrapping w)"
| ready: "at_place w i Idle \<Longrightarrow> sessionStep cancels w (goto i (ReadyStart root False) w)"
| ready_wait: "at_place w i (ReadyStart root waited) \<Longrightarrow> beginReadinessCheck waited root (sw_rt w) = WaitForCheck \<Longrightarrow>
    sessionStep cancels w (goto i (ReadyStart root True) w)"
| ready_answer: "at_place w i (ReadyStart root waited) \<Longrightarrow> beginReadinessCheck waited root (sw_rt w) = Answer e \<Longrightarrow>
    sessionStep cancels w (goto i Idle w)"
| ready_lead: "at_place w i (ReadyStart root waited) \<Longrightarrow> beginReadinessCheck waited root (sw_rt w) = Lead r \<Longrightarrow>
    sessionStep cancels w (goto i (Checking root) (w\<lparr>sw_rt := r\<rparr>))"
| ready_cancelled: "cancels \<Longrightarrow> at_place w i (ReadyStart root True) \<Longrightarrow> sessionStep cancels w (goto i Idle w)"
| checked: "at_place w i (Checking root) \<Longrightarrow>
    sessionStep cancels w (goto i Idle (w\<lparr>sw_rt := finishReadiness err root (sw_rt w)\<rparr>))"

definition newSession :: "sessionWorld \<Rightarrow> bool" where
  "newSession w \<longleftrightarrow> sw_rt w = newSessionRuntime \<and> sw_mu w = None \<and> \<not> sw_stdio w \<and>
     (\<forall>p \<in> set (sw_places w). p = Idle)"

subsection \<open>The invariant\<close>

fun holds :: "place \<Rightarrow> bool" where
  "holds Bootstrapping = True" | "holds Reserved = True" | "holds Cleanup = True"
| "holds (ResetStart held) = held" | "holds (ResetWait held) = held"
| "holds (Draining held) = True" | "holds (Tearing held) = True" | "holds (Unlocking held err) = True"
| "holds (Finishing held err) = held"
| "holds _ = False"

fun counted :: "place \<Rightarrow> bool" where
  "counted Reserved = True" | "counted Calling = True" | "counted _ = False"

fun leading :: "place \<Rightarrow> bool" where
  "leading ResetLock = True" | "leading (Draining held) = True" | "leading (Tearing held) = True"
| "leading (Unlocking held err) = True" | "leading (Finishing held err) = True"
| "leading _ = False"

definition num :: "(place \<Rightarrow> bool) \<Rightarrow> sessionWorld \<Rightarrow> nat" where
  "num P w = length (filter P (sw_places w))"

definition session_inv :: "sessionWorld \<Rightarrow> bool" where
  "session_inv w \<longleftrightarrow>
     (\<forall>i < length (sw_places w). holds (sw_places w ! i) \<longleftrightarrow> sw_mu w = Some i) \<and>
     num counted w = activeCalls (sw_rt w) \<and>
     num leading w = (if resetInProgress (sw_rt w) then 1 else 0) \<and>
     (0 < activeCalls (sw_rt w) \<longrightarrow> sw_stdio w) \<and>
     ((\<exists>i held. at_place w i (Tearing held)) \<longrightarrow> activeCalls (sw_rt w) = 0)"

lemma length_filter_upd:
  "i < length xs \<Longrightarrow>
    length (filter P (xs[i := x])) + (if P (xs ! i) then 1 else 0) = length (filter P xs) + (if P x then 1 else 0)"
proof (induction xs arbitrary: i)
  case (Cons y ys)
  then show ?case by (cases i) auto
qed simp

lemma goto_simps [simp]:
  "sw_rt (goto i p w) = sw_rt w" "sw_mu (goto i p w) = sw_mu w" "sw_stdio (goto i p w) = sw_stdio w"
  "sw_places (goto i p w) = (sw_places w)[i := p]"
  by (simp_all add: goto_def)

lemma num_goto:
  "at_place w i q \<Longrightarrow> num P (goto i p w) + (if P q then 1 else 0) = num P w + (if P p then 1 else 0)"
  using length_filter_upd [of i "sw_places w" P p] by (auto simp: num_def at_place_def)

lemma num_same [simp]: "num P (w\<lparr>sw_rt := r\<rparr>) = num P w" "num P (w\<lparr>sw_mu := m\<rparr>) = num P w"
  "num P (w\<lparr>sw_stdio := b\<rparr>) = num P w"
  by (simp_all add: num_def)

lemma at_same [simp]: "at_place (w\<lparr>sw_rt := r\<rparr>) = at_place w" "at_place (w\<lparr>sw_mu := m\<rparr>) = at_place w"
  "at_place (w\<lparr>sw_stdio := b\<rparr>) = at_place w"
  by (simp_all add: at_place_def fun_eq_iff)

lemma at_goto: "at_place w i q \<Longrightarrow> at_place (goto i p w) j x \<longleftrightarrow> (if j = i then x = p else at_place w j x)"
  by (auto simp: at_place_def)

lemma num_pos: "at_place w i p \<Longrightarrow> P p \<Longrightarrow> 0 < num P w"
  by (auto simp: num_def at_place_def filter_empty_conv intro: nth_mem)

text \<open>How the runtime's operations act on the fields of the invariant.\<close>

lemma runtime_simps [simp]:
  "activeCalls (releaseCall r) = activeCalls r - 1" "activeCalls (reserveCall r) = activeCalls r + 1"
  "activeCalls (clearReadiness r) = activeCalls r" "activeCalls (finishReset err r) = activeCalls r"
  "activeCalls (finishReadiness err root r) = activeCalls r"
  "resetInProgress (releaseCall r) = resetInProgress r" "resetInProgress (reserveCall r) = resetInProgress r"
  "resetInProgress (clearReadiness r) = resetInProgress r" "resetInProgress (finishReset err r) = False"
  "resetInProgress (finishReadiness err root r) = resetInProgress r"
  by (simp_all add: releaseCall_def reserveCall_def clearReadiness_def finishReset_def finishReadiness_def Let_def
      split: option.splits)

lemma ensureResets_simps [simp]:
  "activeCalls (sw_rt (ensureResets w)) = activeCalls (sw_rt w)"
  "resetInProgress (sw_rt (ensureResets w)) = resetInProgress (sw_rt w)"
  "sw_mu (ensureResets w) = sw_mu w" "sw_stdio (ensureResets w) = sw_stdio w" "sw_places (ensureResets w) = sw_places w"
  "at_place (ensureResets w) = at_place w" "num P (ensureResets w) = num P w"
  by (simp_all add: ensureResets_def)

lemma beginReset_Some: "beginReset r = Some r' \<longleftrightarrow> \<not> resetInProgress r \<and> r' = r\<lparr>resetInProgress := True, lastResetErr := None\<rparr>"
  by (auto simp: beginReset_def)

lemma beginReset_None: "beginReset r = None \<longleftrightarrow> resetInProgress r"
  by (simp add: beginReset_def)

lemma readiness_Lead: "beginReadinessCheck waited root r = Lead r' \<Longrightarrow> activeCalls r' = activeCalls r \<and> resetInProgress r' = resetInProgress r"
  by (auto simp: beginReadinessCheck_def split: if_splits)

text \<open>One step moves one thread: what is left to check.\<close>

lemma session_inv_move:
  assumes inv: "session_inv w" and i: "at_place w i q" and pl: "sw_places w' = (sw_places w)[i := p]"
    and mu: "sw_mu w' = (if holds p then Some i else if holds q then None else sw_mu w)"
    and enter: "holds p \<and> \<not> holds q \<Longrightarrow> sw_mu w = None"
    and calls: "activeCalls (sw_rt w') + (if counted q then 1 else 0) = activeCalls (sw_rt w) + (if counted p then 1 else 0)"
    and reset: "(if resetInProgress (sw_rt w') then 1 else 0) + (if leading q then 1 else 0) =
      (if resetInProgress (sw_rt w) then 1 else 0) + (if leading p then 1 else (0 :: nat))"
    and stdio: "0 < activeCalls (sw_rt w') \<Longrightarrow> sw_stdio w'"
    and tear: "(\<exists>held. p = Tearing held) \<Longrightarrow> activeCalls (sw_rt w') = 0"
    and counts: "counted p \<and> \<not> counted q \<Longrightarrow> holds q"
  shows "session_inv w'"
proof -
  have len: "i < length (sw_places w)" "sw_places w ! i = q" using i by (simp_all add: at_place_def)
  have mut: "holds (sw_places w ! j) \<longleftrightarrow> sw_mu w = Some j" if "j < length (sw_places w)" for j
    using inv that by (simp add: session_inv_def)
  have "holds (sw_places w' ! j) \<longleftrightarrow> sw_mu w' = Some j" if "j < length (sw_places w)" for j
  proof (cases "j = i")
    case True
    then show ?thesis using mu mut [OF len(1)] len by (auto simp: pl)
  next
    case False
    then show ?thesis using mut [OF that] mut [OF len(1)] mu len enter that by (auto simp: pl)
  qed
  moreover have n: "num P w' + (if P q then 1 else 0) = num P w + (if P p then 1 else 0)" for P
    using length_filter_upd [OF len(1), of P p] len(2) by (simp add: num_def pl)
  have "num counted w' = activeCalls (sw_rt w')"
    using n [of counted] calls inv by (auto simp: session_inv_def split: if_splits)
  moreover have "num leading w' = (if resetInProgress (sw_rt w') then 1 else 0)"
    using n [of leading] reset inv by (auto simp: session_inv_def split: if_splits)
  moreover have "activeCalls (sw_rt w') = 0" if t: "at_place w' j (Tearing held)" for j held
  proof (cases "j = i")
    case True
    with t tear len show ?thesis by (auto simp: at_place_def pl)
  next
    case False
    with t have at: "at_place w j (Tearing held)" by (simp add: at_place_def pl)
    with inv have none: "activeCalls (sw_rt w) = 0" unfolding session_inv_def by blast
    have "sw_mu w = Some j" using at mut by (force simp: at_place_def)
    with mut [OF len(1)] len(2) False have "\<not> holds q" by auto
    with counts none calls show ?thesis by (auto split: if_splits)
  qed
  ultimately show ?thesis using stdio unfolding session_inv_def pl length_list_update by blast
qed

lemma session_invD:
  assumes "session_inv w"
  shows "at_place w i p \<Longrightarrow> holds p \<longleftrightarrow> sw_mu w = Some i"
    and "at_place w i p \<Longrightarrow> counted p \<Longrightarrow> 0 < activeCalls (sw_rt w)"
    and "at_place w i p \<Longrightarrow> leading p \<Longrightarrow> resetInProgress (sw_rt w)"
    and "0 < activeCalls (sw_rt w) \<Longrightarrow> sw_stdio w"
    and "at_place w i (Tearing held) \<Longrightarrow> activeCalls (sw_rt w) = 0"
  using assms num_pos [of w i p counted] num_pos [of w i p leading] unfolding session_inv_def
  by (auto simp: at_place_def split: if_splits)

lemma session_inv_step:
  assumes inv: "session_inv w" and i: "at_place w i q" and pl: "sw_places w' = (sw_places w)[i := p]"
    and rest: "(holds q \<longleftrightarrow> sw_mu w = Some i) \<Longrightarrow> (counted q \<longrightarrow> 0 < activeCalls (sw_rt w)) \<Longrightarrow>
      (leading q \<longrightarrow> resetInProgress (sw_rt w)) \<Longrightarrow> (0 < activeCalls (sw_rt w) \<longrightarrow> sw_stdio w) \<Longrightarrow>
      ((\<exists>held. q = Tearing held) \<longrightarrow> activeCalls (sw_rt w) = 0) \<Longrightarrow>
      sw_mu w' = (if holds p then Some i else if holds q then None else sw_mu w) \<and>
      (holds p \<and> \<not> holds q \<longrightarrow> sw_mu w = None) \<and>
      activeCalls (sw_rt w') + (if counted q then 1 else 0) = activeCalls (sw_rt w) + (if counted p then 1 else 0) \<and>
      (if resetInProgress (sw_rt w') then 1 else 0) + (if leading q then 1 else 0) =
        (if resetInProgress (sw_rt w) then 1 else 0) + (if leading p then 1 else (0 :: nat)) \<and>
      (0 < activeCalls (sw_rt w') \<longrightarrow> sw_stdio w') \<and>
      ((\<exists>held. p = Tearing held) \<longrightarrow> activeCalls (sw_rt w') = 0) \<and>
      (counted p \<and> \<not> counted q \<longrightarrow> holds q)"
  shows "session_inv w'"
proof -
  have q: "counted q \<longrightarrow> 0 < activeCalls (sw_rt w)" "leading q \<longrightarrow> resetInProgress (sw_rt w)"
    "0 < activeCalls (sw_rt w) \<longrightarrow> sw_stdio w" "(\<exists>held. q = Tearing held) \<longrightarrow> activeCalls (sw_rt w) = 0"
    using session_invD(2,3) [OF inv i] session_invD(4) [OF inv] session_invD(5) [OF inv] i by blast+
  from rest [OF session_invD(1) [OF inv i] q] show ?thesis
    by (intro session_inv_move [OF inv i pl]) blast+
qed

lemma sessionStep_inv: "sessionStep c w w' \<Longrightarrow> session_inv w \<Longrightarrow> session_inv w'"
proof (induction rule: sessionStep.induct)
  case (lead w i held r)
  show ?case
    by (rule session_inv_step [OF lead(3,1), where p = "if held then Draining True else ResetLock"])
      (use lead(2) in \<open>auto simp: beginReset_Some\<close>)
next
  case (tear w i held reconnectErr)
  show ?case by (rule session_inv_step [OF tear(2,1), where p = "Unlocking held reconnectErr"]) (auto simp: resetSession_def)
next
  case (unlock w i held err)
  show ?case
    by (rule session_inv_step [OF unlock(2,1), where p = "Finishing held err"]; cases held) auto
next
  case (ready_lead w i root waited r)
  from readiness_Lead [OF ready_lead(2)] show ?case
    by (intro session_inv_step [OF ready_lead(3,1), where p = "Checking root"]) auto
qed ((rule session_inv_step, assumption, assumption, simp, (auto simp: afterReset_def beginReset_None split: if_splits)[1])+)

interpretation session_threads: transition_system newSession "sessionStep c" session_inv for c
proof unfold_locales
  fix w assume "newSession w"
  then have new: "sw_rt w = newSessionRuntime" "sw_mu w = None" and idle: "\<forall>p \<in> set (sw_places w). p = Idle"
    by (simp_all add: newSession_def)
  from idle have "sw_places w ! i = Idle" if "i < length (sw_places w)" for i using that nth_mem by blast
  moreover from idle have "num P w = 0" if "\<not> P Idle" for P using that by (auto simp: num_def filter_empty_conv)
  ultimately show "session_inv w" using new by (simp add: session_inv_def newSessionRuntime_def)
next
  fix w w' assume "session_inv w" "sessionStep c w w'"
  then show "session_inv w'" using sessionStep_inv by blast
qed

subsection \<open>Calls and resets\<close>

text \<open>C8: a reset never closes the streams under a call. In every state that any number of threads can
  reach, with or without cancelled contexts, a session with a call in progress has its executor's
  streams, the call is counted, and no thread is past the point from which a reset closes them.\<close>

theorem reset_never_under_call:
  assumes "newSession w\<^sub>0" and "(sessionStep cancels)\<^sup>*\<^sup>* w\<^sub>0 w" and "at_place w i Calling"
  shows "sw_stdio w \<and> 0 < activeCalls (sw_rt w) \<and> \<not> (\<exists>j held. at_place w j (Tearing held))"
proof -
  have inv: "session_inv w" by (rule session_threads.inv_reachable [OF assms(1,2)])
  from session_invD(2) [OF inv assms(3)] session_invD(4,5) [OF inv] show ?thesis by auto
qed

subsection \<open>Two threads that wait for each other\<close>

lemma at_unique: "at_place w i p \<Longrightarrow> at_place w i q \<Longrightarrow> p = q"
  by (simp add: at_place_def)

lemma stays: "at_place w i p \<Longrightarrow> at_place w k q \<Longrightarrow> k \<noteq> i \<Longrightarrow> at_place (goto k x w') i p \<longleftrightarrow> at_place w' i p"
  by (auto simp: at_place_def)

lemma deadlock_step:
  assumes "sessionStep False w w'" and inv: "session_inv w" and i: "at_place w i ResetLock" and j: "at_place w j (ResetWait True)"
  shows "at_place w' i ResetLock \<and> at_place w' j (ResetWait True)"
proof -
  have mu: "sw_mu w = Some j" using session_invD(1) [OF inv j] by simp
  have prog: "resetInProgress (sw_rt w)" using session_invD(3) [OF inv i] by simp
  have others: "at_place (goto k x v) i ResetLock \<and> at_place (goto k x v) j (ResetWait True)"
    if "at_place w k q" "q \<noteq> ResetLock" "q \<noteq> ResetWait True" "sw_places v = sw_places w" for k q x v
    using that i j by (auto simp: at_place_def nth_list_update)
  from assms(1) show ?thesis
  proof (cases rule: sessionStep.cases)
    case (reset_lock k)
    with mu show ?thesis by simp
  next
    case (followed k held)
    with prog show ?thesis by simp
  next
    case (follow_cancelled k held)
    then show ?thesis by simp
  next
    case (drain_cancelled k held)
    then show ?thesis by simp
  next
    case (ready_cancelled k root)
    then show ?thesis by simp
  qed (erule ssubst, rule others, assumption, simp, simp, simp add: resetSession_def)+
qed

text \<open>C36: a reset can deadlock with a bootstrap. Whenever one thread leads a reset and waits for the
  bootstrap mutex while the thread that holds the mutex (its bootstrap failed) waits for that reset,
  both wait for ever: no step of any thread of the session moves either of them, unless a context is
  cancelled.\<close>

theorem reset_deadlock:
  assumes "newSession w\<^sub>0" and "(sessionStep cancels)\<^sup>*\<^sup>* w\<^sub>0 w"
    and "at_place w i ResetLock" and "at_place w j (ResetWait True)" and "(sessionStep False)\<^sup>*\<^sup>* w w'"
  shows "at_place w' i ResetLock \<and> at_place w' j (ResetWait True)"
proof -
  have inv: "session_inv w" by (rule session_threads.inv_reachable [OF assms(1,2)])
  from assms(5) have "session_inv w' \<and> at_place w' i ResetLock \<and> at_place w' j (ResetWait True)"
  proof (induction rule: rtranclp_induct)
    case base
    with inv assms(3,4) show ?case by blast
  next
    case (step v u)
    with deadlock_step [OF step(2)] sessionStep_inv [OF step(2)] show ?case by blast
  qed
  then show ?thesis by blast
qed

definition demo_threads :: sessionWorld where
  "demo_threads = \<lparr>sw_rt = newSessionRuntime, sw_mu = None, sw_stdio = False, sw_places = [Idle, Idle]\<rparr>"

definition sessionState :: "nat \<Rightarrow> bool \<Rightarrow> bool \<Rightarrow> nat option \<Rightarrow> bool \<Rightarrow> place list \<Rightarrow> sessionWorld" where
  "sessionState calls resetting checking mu stdio places =
     \<lparr>sw_rt = newSessionRuntime\<lparr>activeCalls := calls, resetInProgress := resetting, readyInProgress := checking\<rparr>,
       sw_mu = mu, sw_stdio = stdio, sw_places = places\<rparr>"

lemmas eval_state = sessionState_def at_place_def goto_def ensureResets_def reserveCall_def releaseCall_def
  clearReadiness_def beginReset_def beginReadinessCheck_def readinessSatisfied_def newSessionRuntime_def demo_threads_def

lemma step_to: "sessionStep c w v \<Longrightarrow> v = w' \<Longrightarrow> sessionStep c w w'"
  by simp

lemma demo_called: "(sessionStep False)\<^sup>*\<^sup>* demo_threads (sessionState 1 False False None True [Calling, Idle])"
proof -
  have "sessionStep False demo_threads (sessionState 0 False False None False [Entering, Idle])"
    by (rule step_to [OF sessionStep.enter [where i = 0]]) (simp_all add: eval_state)
  moreover have "sessionStep False (sessionState 0 False False None False [Entering, Idle])
      (sessionState 0 False False (Some 0) False [Bootstrapping, Idle])"
    by (rule step_to [OF sessionStep.lock [where i = 0]]) (simp_all add: eval_state)
  moreover have "sessionStep False (sessionState 0 False False (Some 0) False [Bootstrapping, Idle])
      (sessionState 1 False False (Some 0) True [Reserved, Idle])"
    by (rule step_to [OF sessionStep.reserve [where i = 0]]) (simp_all add: eval_state)
  moreover have "sessionStep False (sessionState 1 False False (Some 0) True [Reserved, Idle])
      (sessionState 1 False False None True [Calling, Idle])"
    by (rule step_to [OF sessionStep.call [where i = 0]]) (simp_all add: eval_state)
  ultimately show ?thesis by (meson converse_rtranclp_into_rtranclp rtranclp.rtrancl_refl)
qed

lemma demo_deadlocks: "(sessionStep False)\<^sup>*\<^sup>* demo_threads (sessionState 0 True False (Some 1) True [ResetLock, ResetWait True])"
proof -
  have "sessionStep False (sessionState 1 False False None True [Calling, Idle])
      (sessionState 1 False False None True [Calling, Entering])"
    by (rule step_to [OF sessionStep.enter [where i = 1]]) (simp_all add: eval_state)
  moreover have "sessionStep False (sessionState 1 False False None True [Calling, Entering])
      (sessionState 1 False False (Some 1) True [Calling, Bootstrapping])"
    by (rule step_to [OF sessionStep.lock [where i = 1]]) (simp_all add: eval_state)
  moreover have "sessionStep False (sessionState 1 False False (Some 1) True [Calling, Bootstrapping])
      (sessionState 0 False False (Some 1) True [ResetStart False, Bootstrapping])"
    by (rule step_to [OF sessionStep.call_failed [where i = 0]]) (simp_all add: eval_state)
  moreover have "sessionStep False (sessionState 0 False False (Some 1) True [ResetStart False, Bootstrapping])
      (sessionState 0 True False (Some 1) True [ResetLock, Bootstrapping])"
    by (rule step_to [OF sessionStep.lead [where i = 0 and held = False]]) (simp_all add: eval_state)
  moreover have "sessionStep False (sessionState 0 True False (Some 1) True [ResetLock, Bootstrapping])
      (sessionState 0 True False (Some 1) True [ResetLock, ResetStart True])"
    by (rule step_to [OF sessionStep.bootstrap_failed [where i = 1 and started = False]]) (simp_all add: eval_state)
  moreover have "sessionStep False (sessionState 0 True False (Some 1) True [ResetLock, ResetStart True])
      (sessionState 0 True False (Some 1) True [ResetLock, ResetWait True])"
    by (rule step_to [OF sessionStep.follow [where i = 1 and held = True]]) (simp_all add: eval_state)
  ultimately show ?thesis using demo_called by (meson converse_rtranclp_into_rtranclp rtranclp.rtrancl_refl rtranclp_trans)
qed

lemma demo_threads_new: "newSession demo_threads"
  by (simp add: newSession_def demo_threads_def)

lemma reset_never_under_call_witness:
  "\<exists>w. (sessionStep False)\<^sup>*\<^sup>* demo_threads w \<and> at_place w 0 Calling \<and> sw_stdio w"
proof -
  have "at_place (sessionState 1 False False None True [Calling, Idle]) 0 Calling"
    by (simp add: sessionState_def at_place_def)
  with reset_never_under_call [OF demo_threads_new demo_called this] demo_called show ?thesis by blast
qed

lemma reset_deadlock_witness:
  "\<exists>w. (sessionStep False)\<^sup>*\<^sup>* demo_threads w \<and> at_place w 0 ResetLock \<and> at_place w 1 (ResetWait True)"
proof -
  let ?w = "sessionState 0 True False (Some 1) True [ResetLock, ResetWait True]"
  have "at_place ?w 0 ResetLock" "at_place ?w 1 (ResetWait True)" by (simp_all add: sessionState_def at_place_def)
  from reset_deadlock [OF demo_threads_new demo_deadlocks this rtranclp.rtrancl_refl] demo_deadlocks show ?thesis by blast
qed

subsection \<open>Two readiness checks at once\<close>

definition three_threads :: sessionWorld where
  "three_threads = sessionState 0 False False None False [Idle, Idle, Idle]"

text \<open>A readiness check is not single-flight. The first executor bootstrap of a session clears the
  readiness state, with it the mark of the check in progress, so a second caller starts a readiness
  check of the same host while the first one still runs.\<close>

theorem readiness_checks_overlap:
  "\<exists>w. (sessionStep False)\<^sup>*\<^sup>* three_threads w \<and> at_place w 0 (Checking True) \<and> at_place w 2 (Checking True)"
proof -
  let ?s = sessionState
  have "sessionStep False three_threads (?s 0 False False None False [ReadyStart True False, Idle, Idle])"
    by (rule step_to [OF sessionStep.ready [where i = 0]]) (simp_all add: three_threads_def eval_state)
  moreover have "sessionStep False (?s 0 False False None False [ReadyStart True False, Idle, Idle])
      (?s 0 False True None False [Checking True, Idle, Idle])"
    by (rule step_to [OF sessionStep.ready_lead [where i = 0 and root = True and waited = False]]) (simp_all add: eval_state)
  moreover have "sessionStep False (?s 0 False True None False [Checking True, Idle, Idle])
      (?s 0 False True None False [Checking True, Entering, Idle])"
    by (rule step_to [OF sessionStep.enter [where i = 1]]) (simp_all add: eval_state)
  moreover have "sessionStep False (?s 0 False True None False [Checking True, Entering, Idle])
      (?s 0 False True (Some 1) False [Checking True, Bootstrapping, Idle])"
    by (rule step_to [OF sessionStep.lock [where i = 1]]) (simp_all add: eval_state)
  moreover have "sessionStep False (?s 0 False True (Some 1) False [Checking True, Bootstrapping, Idle])
      (?s 1 False False (Some 1) True [Checking True, Reserved, Idle])"
    by (rule step_to [OF sessionStep.reserve [where i = 1]]) (simp_all add: eval_state)
  moreover have "sessionStep False (?s 1 False False (Some 1) True [Checking True, Reserved, Idle])
      (?s 1 False False (Some 1) True [Checking True, Reserved, ReadyStart True False])"
    by (rule step_to [OF sessionStep.ready [where i = 2]]) (simp_all add: eval_state)
  moreover have "sessionStep False (?s 1 False False (Some 1) True [Checking True, Reserved, ReadyStart True False])
      (?s 1 False True (Some 1) True [Checking True, Reserved, Checking True])"
    by (rule step_to [OF sessionStep.ready_lead [where i = 2 and root = True and waited = False]]) (simp_all add: eval_state)
  moreover have "at_place (?s 1 False True (Some 1) True [Checking True, Reserved, Checking True]) 0 (Checking True)"
    "at_place (?s 1 False True (Some 1) True [Checking True, Reserved, Checking True]) 2 (Checking True)"
    by (simp_all add: eval_state)
  ultimately show ?thesis by (meson converse_rtranclp_into_rtranclp rtranclp.rtrancl_refl)
qed

end
