(* ===== verification/SupportPolicy.thy ===== *)
theory SupportPolicy
  imports GoPath GoText HostRpc
begin

text \<open>
  supportpolicy/policy.go: which hosts a provider accepts. A policy is checked on the host profile the
  executor discovers (hostsession/manager.go \<open>discover\<close>), and a violation ends the retries of a call
  (theory RpcRetry). A Go map is an association list; a missing key gives the empty list.
\<close>

record Policy =
  po_ID :: string
  po_AllowAny :: bool
  po_AllowedDistroIDs :: "string list"
  po_AllowedVersionByDistro :: "(string \<times> string list) list"
  po_AllowedPackageManagers :: "string list"

record ViolationError =
  ve_PolicyID :: string
  ve_Message :: string

definition violationText :: "ViolationError \<Rightarrow> string" where
  "violationText e =
     (if TrimSpace (ve_PolicyID e) = [] then ve_Message e
      else ''support policy '' @ go_quote (ve_PolicyID e) @ '' rejected host: '' @ ve_Message e)"

definition normalName :: "string \<Rightarrow> string" where
  "normalName s = ToLower (TrimSpace s)"

definition containsString :: "string list \<Rightarrow> string \<Rightarrow> bool" where
  "containsString xs target \<longleftrightarrow> list_ex (\<lambda>x. normalName x = normalName target) xs"

definition hasAnyPrefix :: "string \<Rightarrow> string list \<Rightarrow> bool" where
  "hasAnyPrefix v pres \<longleftrightarrow> list_ex (HasPrefix (TrimSpace v)) pres"

definition sortedStrings :: "string list \<Rightarrow> string list" where
  "sortedStrings xs = sort xs"

definition emptyIfUnknown :: "string \<Rightarrow> string" where
  "emptyIfUnknown s = (if TrimSpace s = [] then ''unknown'' else s)"

definition allowedVersions :: "Policy \<Rightarrow> string \<Rightarrow> string list" where
  "allowedVersions p distro = (case map_of (po_AllowedVersionByDistro p) distro of None \<Rightarrow> [] | Some vs \<Rightarrow> vs)"

definition policyCheck :: "Policy \<Rightarrow> HostProfile \<Rightarrow> ViolationError option" where
  "policyCheck p profile =
     (if po_AllowAny p then None
      else let distro = ToLower (TrimSpace (hp_DistroID profile)) in
        if \<not> containsString (po_AllowedDistroIDs p) distro
        then Some \<lparr>ve_PolicyID = po_ID p, ve_Message = ''distro '' @ go_quote (emptyIfUnknown distro) @
               '' is unsupported; allowed distros: '' @ joinWith '', '' (sortedStrings (po_AllowedDistroIDs p))\<rparr>
        else let pres = allowedVersions p distro; version = TrimSpace (hp_DistroVersion profile) in
          if pres \<noteq> [] \<and> \<not> hasAnyPrefix version pres
          then Some \<lparr>ve_PolicyID = po_ID p, ve_Message = ''distro version '' @ go_quote (emptyIfUnknown version) @
                 '' for '' @ distro @ '' is unsupported; allowed versions: '' @ joinWith '', '' pres\<rparr>
          else let packageMgr = ToLower (TrimSpace (hp_PackageMgr profile)) in
            if po_AllowedPackageManagers p \<noteq> [] \<and> \<not> containsString (po_AllowedPackageManagers p) packageMgr
            then Some \<lparr>ve_PolicyID = po_ID p, ve_Message = ''package manager '' @ go_quote (emptyIfUnknown packageMgr) @
                   '' is unsupported; allowed package managers: '' @
                   joinWith '', '' (sortedStrings (po_AllowedPackageManagers p))\<rparr>
            else None)"

definition policies :: "(string \<times> Policy) list" where
  "policies = [
     (''internal-only'', \<lparr>po_ID = ''internal-only'', po_AllowAny = True, po_AllowedDistroIDs = [],
        po_AllowedVersionByDistro = [], po_AllowedPackageManagers = []\<rparr>),
     (''debian-direct'', \<lparr>po_ID = ''debian-direct'', po_AllowAny = False, po_AllowedDistroIDs = [''debian''],
        po_AllowedVersionByDistro = [(''debian'', [''12''])], po_AllowedPackageManagers = [''apt'']\<rparr>),
     (''ubuntu-beta'', \<lparr>po_ID = ''ubuntu-beta'', po_AllowAny = False, po_AllowedDistroIDs = [''ubuntu''],
        po_AllowedVersionByDistro = [(''ubuntu'', [''22.04'', ''24.04''])], po_AllowedPackageManagers = [''apt'']\<rparr>),
     (''rocky-beta'', \<lparr>po_ID = ''rocky-beta'', po_AllowAny = False, po_AllowedDistroIDs = [''rocky''],
        po_AllowedVersionByDistro = [(''rocky'', [''8'', ''9''])], po_AllowedPackageManagers = [''dnf'', ''yum'']\<rparr>),
     (''rhel-beta'', \<lparr>po_ID = ''rhel-beta'', po_AllowAny = False, po_AllowedDistroIDs = [''rhel''],
        po_AllowedVersionByDistro = [(''rhel'', [''8'', ''9''])], po_AllowedPackageManagers = [''dnf'', ''yum'']\<rparr>)]"

definition ResolvePolicy :: "string \<Rightarrow> Policy res" where
  "ResolvePolicy i =
     (let i' = TrimSpace i in
      if i' = [] then Inr \<lparr>po_ID = ''unspecified'', po_AllowAny = True, po_AllowedDistroIDs = [],
             po_AllowedVersionByDistro = [], po_AllowedPackageManagers = []\<rparr>
      else (case map_of policies i' of
              None \<Rightarrow> Inl (Errorf (''unknown support policy '' @ go_quote i'))
            | Some p \<Rightarrow> Inr p))"

subsection \<open>What a named policy accepts\<close>

lemma policyCheck_None:
  "policyCheck p profile = None \<longleftrightarrow> po_AllowAny p \<or>
     (let d = normalName (hp_DistroID profile) in
      containsString (po_AllowedDistroIDs p) d \<and>
      (allowedVersions p d = [] \<or> hasAnyPrefix (TrimSpace (hp_DistroVersion profile)) (allowedVersions p d)) \<and>
      (po_AllowedPackageManagers p = [] \<or> containsString (po_AllowedPackageManagers p) (normalName (hp_PackageMgr profile))))"
  by (auto simp: policyCheck_def Let_def normalName_def)

text \<open>The keys of the table are their policies' identifiers, and every policy with a list of distros has
  version prefixes for each of them.\<close>

lemma policies_table:
  "list_all (\<lambda>(i, p). po_ID p = i \<and> TrimSpace i = i \<and> i \<noteq> [] \<and>
     (po_AllowAny p \<or> (po_AllowedDistroIDs p \<noteq> [] \<and> po_AllowedPackageManagers p \<noteq> [] \<and>
        list_all (\<lambda>d. allowedVersions p (normalName d) \<noteq> [] \<and> normalName d = d) (po_AllowedDistroIDs p)))) policies"
  by code_simp

subsection \<open>Normal names\<close>

lemma normalName_idem: "normalName (normalName s) = normalName s"
  by (simp add: normalName_def TrimSpace_lower TrimSpace_idem ToLower_idem)

text \<open>What a resolved policy guarantees of an accepted host. Either the policy accepts any host, or
  the host's distro is one of the policy's, its version starts with a version the policy allows for
  that distro, and its package manager is one of the policy's; conversely such a host is accepted.\<close>

theorem policy_accepts:
  assumes "ResolvePolicy i = Inr p"
  shows "policyCheck p h = None \<longleftrightarrow> po_AllowAny p \<or>
    (\<exists>d \<in> set (po_AllowedDistroIDs p). normalName (hp_DistroID h) = d \<and>
       (\<exists>v \<in> set (allowedVersions p d). HasPrefix (TrimSpace (hp_DistroVersion h)) v) \<and>
       (\<exists>m \<in> set (po_AllowedPackageManagers p). normalName m = normalName (hp_PackageMgr h)))"
proof (cases "po_AllowAny p")
  case False
  with assms have "(TrimSpace i, p) \<in> set policies"
    by (auto simp: ResolvePolicy_def Let_def split: if_splits option.splits dest: map_of_SomeD)
  with policies_table False have table: "po_AllowedDistroIDs p \<noteq> []" "po_AllowedPackageManagers p \<noteq> []"
    "\<And>d. d \<in> set (po_AllowedDistroIDs p) \<Longrightarrow> allowedVersions p d \<noteq> [] \<and> normalName d = d"
    by (force simp: list_all_iff)+
  have "containsString (po_AllowedDistroIDs p) (normalName s) \<longleftrightarrow> normalName s \<in> set (po_AllowedDistroIDs p)" for s
    using table(3) by (force simp: containsString_def list_ex_iff normalName_idem)
  with False table(2,3) show ?thesis
    unfolding policyCheck_None Let_def
    by (auto simp: hasAnyPrefix_def list_ex_iff TrimSpace_idem containsString_def [of "po_AllowedPackageManagers p"]
        normalName_idem)
qed (simp add: policyCheck_def)

definition demo_ubuntu :: HostProfile where
  "demo_ubuntu = \<lparr>hp_Hostname = [], hp_DistroID = '' Ubuntu'', hp_DistroName = [], hp_DistroVersion = ''24.04.1'',
     hp_DistroFamily = [], hp_Kernel = [], hp_KernelVersion = [], hp_Arch = [], hp_InitSystem = [],
     hp_PackageMgr = ''apt'', hp_SELinux = False, hp_AppArmor = False, hp_AvailableCmds = [], hp_Extra = []\<rparr>"

lemma policy_accepts_witness:
  "\<exists>p. ResolvePolicy ''ubuntu-beta'' = Inr p \<and> policyCheck p demo_ubuntu = None \<and> \<not> po_AllowAny p \<and>
     (\<exists>d \<in> set (po_AllowedDistroIDs p). normalName (hp_DistroID demo_ubuntu) = d)"
proof -
  have "case ResolvePolicy ''ubuntu-beta'' of Inl e \<Rightarrow> False
      | Inr p \<Rightarrow> policyCheck p demo_ubuntu = None \<and> \<not> po_AllowAny p" by code_simp
  then obtain p where p: "ResolvePolicy ''ubuntu-beta'' = Inr p" "policyCheck p demo_ubuntu = None" "\<not> po_AllowAny p"
    by (auto split: sum.splits)
  with policy_accepts [OF p(1), of demo_ubuntu] show ?thesis by blast
qed

end
