(* ===== verification/Crontab.thy ===== *)
theory Crontab
  imports GoText GoPath
begin

text \<open>
  guest/sdk/crontab/crontab.go: a user's crontab as a list of lines, its parser and its printer. Both
  are total; the error results of the code are always nil.
\<close>

record CrontabLine =
  cl_Raw :: string
  cl_IsBlank :: bool
  cl_IsComment :: bool
  cl_IsEnv :: bool
  cl_Comment :: string
  cl_Special :: string
  cl_Minute :: string
  cl_Hour :: string
  cl_DayOfMonth :: string
  cl_Month :: string
  cl_DayOfWeek :: string
  cl_Command :: string

definition emptyLine :: CrontabLine where
  "emptyLine = \<lparr>cl_Raw = [], cl_IsBlank = False, cl_IsComment = False, cl_IsEnv = False, cl_Comment = [],
     cl_Special = [], cl_Minute = [], cl_Hour = [], cl_DayOfMonth = [], cl_Month = [], cl_DayOfWeek = [],
     cl_Command = []\<rparr>"

text \<open>\<open>strings.Fields\<close>: the maximal runs of bytes at which no white space rune starts.\<close>

fun wordPrefix :: "string \<Rightarrow> string" where
  "wordPrefix [] = []"
| "wordPrefix (c # s) = (if space_at_start (c # s) > 0 then [] else c # wordPrefix s)"

lemma wordPrefix_length: "length (wordPrefix s) \<le> length s"
  by (induction s) auto

lemma trim_by_length: "length (trim_by sp s) \<le> length s"
  using trim_by_suffix [of s sp] by (metis le_add2 length_append)

function Fields :: "string \<Rightarrow> string list" where
  "Fields s =
     (let t = trim_by space_at_start s in
      if t = [] then [] else wordPrefix t # Fields (drop (length (wordPrefix t)) t))"
  by pat_completeness auto
termination
proof (relation "measure length")
  fix s t :: string assume t: "t = trim_by space_at_start s" and ne: "t \<noteq> []"
  with trim_by_fixed [of space_at_start s] have "space_at_start t = 0" by auto
  with ne have "wordPrefix t \<noteq> []" by (cases t) auto
  then have "length t - length (wordPrefix t) < length t" using ne by (simp add: diff_less)
  then show "(drop (length (wordPrefix t)) t, s) \<in> measure length"
    using trim_by_length [of space_at_start s] t by simp
qed simp

declare Fields.simps [simp del]

definition isSpace :: "char \<Rightarrow> bool" where
  "isSpace ch \<longleftrightarrow> ch = CHR 0x20 \<or> ch = CHR 0x09"

text \<open>The first \<open>n\<close> fields and what follows them.\<close>

fun scheduleFields :: "nat \<Rightarrow> string \<Rightarrow> (string list \<times> string) option" where
  "scheduleFields 0 s = Some ([], s)"
| "scheduleFields (Suc n) s =
     (let t = dropWhile isSpace s in
      if t = [] then None
      else map_option (\<lambda>(fs, rest). (takeWhile (\<lambda>c. \<not> isSpace c) t # fs, rest))
             (scheduleFields n (dropWhile (\<lambda>c. \<not> isSpace c) t)))"

definition splitSchedule :: "string \<Rightarrow> (string list \<times> string) option" where
  "splitSchedule line =
     (case scheduleFields 5 line of
        None \<Rightarrow> None
      | Some (fs, rest) \<Rightarrow>
          let command = TrimSpace (dropWhile isSpace rest) in
          if dropWhile isSpace rest = [] \<or> command = [] then None else Some (fs, command))"

definition identStart :: "char \<Rightarrow> bool" where
  "identStart ch \<longleftrightarrow> ch = CHR ''_'' \<or> (CHR ''A'' \<le> ch \<and> ch \<le> CHR ''Z'') \<or> (CHR ''a'' \<le> ch \<and> ch \<le> CHR ''z'')"

fun identRest :: "string \<Rightarrow> bool" where
  "identRest [] = True"
| "identRest (ch # s) = ((identStart ch \<or> (CHR ''0'' \<le> ch \<and> ch \<le> CHR ''9'')) \<and> identRest s)"

fun isIdent :: "string \<Rightarrow> bool" where
  "isIdent [] = False"
| "isIdent (ch # s) = (identStart ch \<and> identRest s)"

definition isEnvAssignment :: "string \<Rightarrow> bool" where
  "isEnvAssignment line =
     (case Cut (CHR ''='') line of
        None \<Rightarrow> False
      | Some (before, _) \<Rightarrow> before \<noteq> [] \<and> isIdent (TrimSpace before))"

definition parseLine :: "string \<Rightarrow> CrontabLine" where
  "parseLine line =
     (let trimmed = TrimSpace line in
      if trimmed = [] then emptyLine\<lparr>cl_IsBlank := True, cl_Raw := line\<rparr>
      else if HasPrefix trimmed ''#'' then emptyLine\<lparr>cl_IsComment := True, cl_Comment := trimmed, cl_Raw := line\<rparr>
      else if isEnvAssignment trimmed then emptyLine\<lparr>cl_IsEnv := True, cl_Raw := line\<rparr>
      else if HasPrefix trimmed ''@'' then
        (let fs = Fields trimmed in
         if length fs < 2 then emptyLine\<lparr>cl_Raw := line\<rparr>
         else emptyLine\<lparr>cl_Special := ToLower (hd fs), cl_Command := TrimSpace (drop (length (hd fs)) trimmed)\<rparr>)
      else
        (case splitSchedule trimmed of
           None \<Rightarrow> emptyLine\<lparr>cl_Raw := line\<rparr>
         | Some (fs, command) \<Rightarrow>
             emptyLine\<lparr>cl_Minute := fs ! 0, cl_Hour := fs ! 1, cl_DayOfMonth := fs ! 2,
               cl_Month := fs ! 3, cl_DayOfWeek := fs ! 4, cl_Command := command\<rparr>))"

definition splitConfigLines :: "string \<Rightarrow> string list" where
  "splitConfigLines content =
     (if content = [] then []
      else let lines = Split (CHR 0x0A) content in if last lines = [] then butlast lines else lines)"

definition Parse :: "string \<Rightarrow> CrontabLine list" where
  "Parse content = map parseLine (splitConfigLines content)"

definition commentText :: "CrontabLine \<Rightarrow> string" where
  "commentText l =
     (let comment = (if TrimSpace (cl_Comment l) = [] then ''#'' else TrimSpace (cl_Comment l))
      in if HasPrefix comment ''#'' then comment else ''# '' @ comment)"

definition serializeLine :: "CrontabLine \<Rightarrow> string" where
  "serializeLine l =
     (if cl_IsBlank l then cl_Raw l
      else if cl_IsComment l then (if cl_Raw l \<noteq> [] then cl_Raw l else commentText l)
      else if cl_IsEnv l \<or> cl_Raw l \<noteq> [] then cl_Raw l
      else if cl_Special l \<noteq> [] then ToLower (TrimSpace (cl_Special l)) @ '' '' @ TrimSpace (cl_Command l)
      else joinWith '' '' [TrimSpace (cl_Minute l), TrimSpace (cl_Hour l), TrimSpace (cl_DayOfMonth l),
             TrimSpace (cl_Month l), TrimSpace (cl_DayOfWeek l), TrimSpace (cl_Command l)])"

definition Serialize :: "CrontabLine list \<Rightarrow> string" where
  "Serialize lines =
     (if lines = [] then [] else joinWith [CHR 0x0A] (map serializeLine lines) @ [CHR 0x0A])"

subsection \<open>Plain lines\<close>

text \<open>A line is plain when its only white space is spaces and tabs.\<close>

fun plain :: "string \<Rightarrow> bool" where
  "plain [] = True"
| "plain (c # s) = ((space_at_start (c # s) > 0 \<longrightarrow> isSpace c) \<and> plain s)"

lemma isSpace_start: "isSpace c \<Longrightarrow> space_at_start (c # s) = 1"
  by (auto simp: isSpace_def ascii_space_def)

lemma plain_start: "plain s \<Longrightarrow> space_at_start s > 0 \<longleftrightarrow> s \<noteq> [] \<and> isSpace (hd s)"
proof (cases s)
  case (Cons c t)
  assume "plain s"
  with Cons have "space_at_start s > 0 \<longrightarrow> isSpace c" by (simp del: space_at_start.simps)
  with isSpace_start [of c t] Cons show ?thesis by (auto simp del: space_at_start.simps)
qed simp

lemma plain_suffix: "plain (u @ v) \<Longrightarrow> plain v"
  by (induction u) auto

lemma plain_prefix: "plain (u @ v) \<Longrightarrow> plain u"
proof (induction u)
  case (Cons c u)
  then have "space_at_start (c # u @ v) > 0 \<longrightarrow> isSpace c" "plain u" by auto
  with space_at_start_append [of "c # u" v] show ?case by auto
qed simp

lemma plain_join: "plain a \<Longrightarrow> plain b \<Longrightarrow> plain (a @ CHR 0x20 # b)"
proof (induction a)
  case Nil
  then show ?case by (simp add: isSpace_def)
next
  case (Cons c a)
  have "space_at_start (c # a) > 0" if sp: "space_at_start (c # a @ CHR 0x20 # b) > 0"
  proof (cases a)
    case Nil
    with sp show ?thesis by (auto simp: space2_def space3_def split: if_splits list.splits)
  next
    case (Cons y z)
    with sp show ?thesis by (cases z) (auto simp: space3_def split: if_splits list.splits)
  qed
  with Cons show ?case by auto
qed

lemma plain_lower [simp]: "plain (map ascii_lower s) = plain s"
proof (induction s)
  case (Cons c s)
  have "isSpace (ascii_lower c) = isSpace c" by (simp add: isSpace_def ascii_lower_eq)
  with Cons space_at_lower(1) [of "c # s"] show ?case by simp
qed simp

lemma plain_end:
  assumes "plain (rev s)" and "space_at_end s > 0"
  shows "isSpace (hd s)"
proof (cases s)
  case (Cons a t)
  then show ?thesis
  proof (cases "ascii_space a")
    case True
    have "plain [a]" using plain_suffix [of "rev t" "[a]"] assms(1) Cons by simp
    with True Cons show ?thesis by simp
  next
    case False
    with assms(2) Cons obtain b u where t: "t = b # u" by (auto split: list.splits)
    show ?thesis
    proof (cases "space2 b a")
      case True
      have "plain [b, a]" using plain_suffix [of "rev u" "[b, a]"] assms(1) Cons t by simp
      with True show ?thesis by (auto simp: space2_def isSpace_def ascii_space_def)
    next
      case n2: False
      with False assms(2) Cons t obtain c v where u: "u = c # v" "space3 c b a" by (auto split: list.splits if_splits)
      have "plain [c, b, a]" using plain_suffix [of "rev v" "[c, b, a]"] assms(1) Cons t u by simp
      with u(2) show ?thesis by (auto simp: space3_def space2_def isSpace_def ascii_space_def)
    qed
  qed
qed (use assms in simp)

lemma trim_start_plain: "plain s \<Longrightarrow> trim_by space_at_start s = dropWhile isSpace s"
proof (induction s)
  case (Cons c s)
  show ?case
  proof (cases "isSpace c")
    case True
    with Cons isSpace_start [OF True] show ?thesis by (simp add: trim_by.simps [of space_at_start "c # s"])
  next
    case False
    with plain_start [OF Cons.prems] show ?thesis by (simp add: trim_by_keep)
  qed
qed simp

lemma trim_end_plain: "plain (rev s) \<Longrightarrow> trim_by space_at_end s = dropWhile isSpace s"
proof (induction s)
  case (Cons c s)
  have p: "plain (rev s)" using plain_prefix Cons.prems by simp
  show ?case
  proof (cases "isSpace c")
    case True
    then have "space_at_end (c # s) = 1" by (auto simp: isSpace_def ascii_space_def)
    with Cons.IH [OF p] True show ?thesis by (simp add: trim_by.simps [of space_at_end "c # s"])
  next
    case False
    with plain_end [OF Cons.prems] have "space_at_end (c # s) = 0" by (metis list.sel(1) neq0_conv)
    with False show ?thesis by (simp add: trim_by_keep)
  qed
qed simp

definition trimmed :: "string \<Rightarrow> bool" where
  "trimmed s \<longleftrightarrow> s \<noteq> [] \<longrightarrow> \<not> isSpace (hd s) \<and> \<not> isSpace (last s)"

lemma plain_drop: "plain s \<Longrightarrow> plain (dropWhile isSpace s)"
  by (metis plain_suffix takeWhile_dropWhile_id)

lemma TrimSpace_plain:
  assumes "plain s"
  shows "TrimSpace s = rev (dropWhile isSpace (rev (dropWhile isSpace s)))"
  using trim_end_plain [of "rev (dropWhile isSpace s)"] plain_drop [OF assms]
  by (simp add: TrimSpace_def trim_start_plain [OF assms])

lemma TrimSpace_trimmed: "plain s \<Longrightarrow> trimmed (TrimSpace s)"
proof -
  assume p: "plain s"
  define d where "d = dropWhile isSpace s"
  have t: "TrimSpace s = rev (dropWhile isSpace (rev d))" using TrimSpace_plain [OF p] by (simp add: d_def)
  show ?thesis
    unfolding trimmed_def
  proof
    assume "TrimSpace s \<noteq> []"
    then have e: "dropWhile isSpace (rev d) \<noteq> []" by (simp add: t)
    then have d: "d \<noteq> []" by auto
    then have h: "\<not> isSpace (hd d)" unfolding d_def by (rule dropWhile_hd)
    have "last (dropWhile isSpace (rev d)) = hd d"
      using dropWhile_append_last [of "rev d" isSpace] d h by (simp add: last_rev)
    with h dropWhile_hd [OF e] e show "\<not> isSpace (hd (TrimSpace s)) \<and> \<not> isSpace (last (TrimSpace s))"
      by (simp add: t hd_rev last_rev)
  qed
qed

lemma dropWhile_keep: "xs = [] \<or> \<not> P (hd xs) \<Longrightarrow> dropWhile P xs = xs"
  by (cases xs) auto

lemma TrimSpace_fixed: "plain s \<Longrightarrow> trimmed s \<Longrightarrow> TrimSpace s = s"
  by (cases "s = []") (simp_all add: TrimSpace_plain trimmed_def dropWhile_keep hd_rev)

lemma plain_Trim: "plain s \<Longrightarrow> plain (TrimSpace s)"
  by (metis TrimSpace_sublist plain_prefix plain_suffix)

lemma plain_newline: "plain s \<Longrightarrow> CHR 0x0A \<notin> set s"
proof (induction s)
  case (Cons c s)
  have "isSpace c" if "c = CHR 0x0A"
    using Cons.prems that by (auto simp: ascii_space_def)
  with Cons show ?case by (auto simp: isSpace_def simp del: space_at_start.simps)
qed simp

lemma trimmed_join: "a \<noteq> [] \<Longrightarrow> b \<noteq> [] \<Longrightarrow> \<not> isSpace (hd a) \<Longrightarrow> trimmed b \<Longrightarrow> trimmed (a @ x @ b)"
  by (cases a) (auto simp: trimmed_def)

lemma TrimSpace_lead: "plain s \<Longrightarrow> s \<noteq> [] \<Longrightarrow> \<not> isSpace (hd s) \<Longrightarrow> TrimSpace s \<noteq> [] \<and> hd (TrimSpace s) = hd s"
  using dropWhile_append_last [of "rev s" isSpace] by (simp add: TrimSpace_plain dropWhile_keep last_rev hd_rev)

text \<open>A word is a non-empty run of characters that are neither space nor tab.\<close>

definition isWord :: "string \<Rightarrow> bool" where
  "isWord w \<longleftrightarrow> w \<noteq> [] \<and> (\<forall>c \<in> set w. \<not> isSpace c)"

lemma isWord_trimmed: "isWord w \<Longrightarrow> trimmed w"
  by (auto simp: isWord_def trimmed_def)

lemma isWord_hd: "isWord w \<Longrightarrow> w \<noteq> [] \<and> \<not> isSpace (hd w)"
  by (auto simp: isWord_def)

lemma isIdent_no_space: "isIdent s \<Longrightarrow> c \<in> set s \<Longrightarrow> \<not> isSpace c"
proof -
  have start: "identStart c \<Longrightarrow> \<not> isSpace c" for c
    by (auto simp: identStart_def isSpace_def)
  have rest: "identRest s \<Longrightarrow> c \<in> set s \<Longrightarrow> \<not> isSpace c" for s
    by (induction s) (auto dest: start simp: isSpace_def)
  assume "isIdent s" "c \<in> set s"
  then show ?thesis using start rest by (cases s) auto
qed

subsection \<open>Reading a printed line again\<close>

lemma Cut_None: "Cut c s = None \<longleftrightarrow> c \<notin> set s"
  by (induction s) auto

lemma Cut_left: "c \<notin> set w \<Longrightarrow> Cut c (w @ s) = map_option (\<lambda>(a, b). (w @ a, b)) (Cut c s)"
  by (induction w; cases "Cut c s") auto

text \<open>Whether a line is an assignment depends on its first word and the character after the blanks
  that follow it.\<close>

definition envShape :: "string \<Rightarrow> char \<Rightarrow> bool" where
  "envShape w c =
     (case Cut (CHR ''='') w of
        None \<Rightarrow> isIdent w \<and> c = CHR ''=''
      | Some (a, _) \<Rightarrow> a \<noteq> [] \<and> isIdent (TrimSpace a))"

lemma spaced_not_ident:
  assumes "plain (w @ ws @ b)" and "isWord w" and "ws \<noteq> []" "\<forall>c \<in> set ws. isSpace c" and "b \<noteq> []" "\<not> isSpace (hd b)"
  shows "\<not> isIdent (TrimSpace (w @ ws @ b))"
proof
  assume id: "isIdent (TrimSpace (w @ ws @ b))"
  have "dropWhile isSpace (w @ ws @ b) = w @ ws @ b" using isWord_hd [OF assms(2)] by (auto intro: dropWhile_keep)
  then have t: "TrimSpace (w @ ws @ b) = rev (dropWhile isSpace (rev b @ rev ws @ rev w))"
    using TrimSpace_plain [OF assms(1)] by simp
  have "hd b \<in> set (rev b)" using assms(5) by simp
  then have "dropWhile isSpace (rev b @ rev ws @ rev w) = dropWhile isSpace (rev b) @ rev ws @ rev w"
    using assms(6) by (rule dropWhile_append1)
  then have "hd ws \<in> set (TrimSpace (w @ ws @ b))" using assms(3) by (simp add: t)
  then have "\<not> isSpace (hd ws)" by (rule isIdent_no_space [OF id])
  then show False using assms(3,4) hd_in_set by blast
qed

lemma env_words:
  assumes p: "plain (w @ ws @ f)" and w: "isWord w" and ws: "ws \<noteq> []" "\<forall>c \<in> set ws. isSpace c"
    and f: "f \<noteq> []" "\<not> isSpace (hd f)"
  shows "isEnvAssignment (w @ ws @ f) = envShape w (hd f)"
proof (cases "Cut (CHR ''='') w")
  case (Some ab)
  then obtain a b where ab: "Cut (CHR ''='') w = Some (a, b)" by (cases ab) auto
  have "w = a @ CHR ''='' # b" "CHR ''='' \<notin> set a" using Cut_Some [OF ab] by auto
  then have "Cut (CHR ''='') (w @ ws @ f) = Some (a, b @ ws @ f)"
    using Cut_append [of "CHR ''=''" a "b @ ws @ f"] by simp
  then have "isEnvAssignment (w @ ws @ f) = (a \<noteq> [] \<and> isIdent (TrimSpace a))"
    by (simp only: isEnvAssignment_def option.case prod.case)
  moreover have "envShape w (hd f) = (a \<noteq> [] \<and> isIdent (TrimSpace a))"
    by (simp only: envShape_def ab option.case prod.case)
  ultimately show ?thesis by simp
next
  case None
  then have nw: "CHR ''='' \<notin> set w" by (simp add: Cut_None)
  have "\<not> isSpace (CHR ''='')" by (simp add: isSpace_def)
  with ws(2) have nws: "CHR ''='' \<notin> set ws" by blast
  have cut: "Cut (CHR ''='') (w @ ws @ f) = map_option (\<lambda>(a, b). (w @ ws @ a, b)) (Cut (CHR ''='') f)"
    using Cut_left [of "CHR ''=''" "w @ ws" f] nw nws by simp
  show ?thesis
  proof (cases "Cut (CHR ''='') f")
    case n: None
    then have "CHR ''='' \<noteq> hd f" using f(1) by (auto simp: Cut_None)
    with n cut None show ?thesis by (auto simp: isEnvAssignment_def envShape_def)
  next
    case (Some ab)
    then obtain a b where ab: "Cut (CHR ''='') f = Some (a, b)" by (cases ab) auto
    have fa: "f = a @ CHR ''='' # b" using Cut_Some [OF ab] by simp
    have env: "isEnvAssignment (w @ ws @ f) = isIdent (TrimSpace (w @ ws @ a))"
      using cut ab isWord_hd [OF w] by (simp add: isEnvAssignment_def)
    have pa: "plain (w @ ws @ a)" using plain_prefix [of "w @ ws @ a" "CHR ''='' # b"] p fa by simp
    show ?thesis
    proof (cases "a = []")
      case True
      have "TrimSpace (w @ ws) = rev (dropWhile isSpace (rev ws @ rev w))"
        using TrimSpace_plain [of "w @ ws"] pa True isWord_hd [OF w] by (simp add: dropWhile_keep)
      also have "dropWhile isSpace (rev ws @ rev w) = dropWhile isSpace (rev w)"
        using ws(2) by (intro dropWhile_append2) auto
      also have "rev (dropWhile isSpace (rev w)) = w" using isWord_trimmed [OF w] isWord_hd [OF w]
        by (simp add: dropWhile_keep hd_rev trimmed_def)
      finally show ?thesis using env True None fa by (simp add: envShape_def)
    next
      case False
      then have ha: "hd a = hd f" "hd f \<noteq> CHR ''=''" using fa Cut_Some [OF ab] by (cases a; force)+
      have "\<not> isIdent (TrimSpace (w @ ws @ a))"
        by (rule spaced_not_ident [OF pa w ws False]) (use f(2) ha in simp)
      with env None ha show ?thesis by (simp add: envShape_def)
    qed
  qed
qed

lemma env_special: "plain s \<Longrightarrow> s \<noteq> [] \<Longrightarrow> hd s = CHR ''@'' \<Longrightarrow> \<not> isEnvAssignment s"
proof
  assume s: "plain s" "s \<noteq> []" "hd s = CHR ''@''" "isEnvAssignment s"
  then obtain a b where ab: "Cut (CHR ''='') s = Some (a, b)" "a \<noteq> []" "isIdent (TrimSpace a)"
    by (auto simp: isEnvAssignment_def split: option.splits)
  from Cut_Some [OF ab(1)] have e: "s = a @ CHR ''='' # b" by simp
  have pa: "plain a" using s(1) unfolding e by (rule plain_prefix)
  have "hd a = CHR ''@''" using s(3) ab(2) e by (cases a) auto
  then have "TrimSpace a \<noteq> [] \<and> hd (TrimSpace a) = CHR ''@''"
    using TrimSpace_lead [OF pa ab(2)] by (simp add: isSpace_def)
  with ab(3) show False by (cases "TrimSpace a") (auto simp: identStart_def)
qed

text \<open>The words of a plain line.\<close>

lemma wordPrefix_plain: "plain s \<Longrightarrow> wordPrefix s = takeWhile (\<lambda>c. \<not> isSpace c) s"
proof (induction s)
  case (Cons c s)
  then have "plain s" by simp
  with Cons.IH plain_start [OF Cons.prems] show ?case by (simp del: space_at_start.simps)
qed simp

lemma Fields_plain:
  assumes "plain s" "s \<noteq> []" "\<not> isSpace (hd s)"
  shows "Fields s = takeWhile (\<lambda>c. \<not> isSpace c) s # Fields (dropWhile (\<lambda>c. \<not> isSpace c) s)"
proof -
  have "trim_by space_at_start s = s" using assms by (simp add: trim_start_plain dropWhile_keep)
  then show ?thesis
    using assms(2) by (simp add: Fields.simps [of s] Let_def wordPrefix_plain [OF assms(1)] dropWhile_eq_drop)
qed

lemma Fields_none: "plain s \<Longrightarrow> Fields s = [] \<longleftrightarrow> TrimSpace s = []"
proof -
  assume p: "plain s"
  have "Fields s = [] \<longleftrightarrow> dropWhile isSpace s = []"
    by (simp add: Fields.simps [of s] Let_def trim_start_plain [OF p])
  moreover have "TrimSpace s = [] \<longleftrightarrow> dropWhile isSpace s = []"
    using TrimSpace_plain [OF p] dropWhile_append_last [of "rev (dropWhile isSpace s)" isSpace]
      dropWhile_hd [of isSpace s] by (cases "dropWhile isSpace s = []") (simp_all add: last_rev del: dropWhile_eq_Nil_conv)
  ultimately show ?thesis by simp
qed

lemma takeWhile_word: "isWord w \<Longrightarrow> takeWhile (\<lambda>c. \<not> isSpace c) (w @ CHR '' '' # s) = w"
  "isWord w \<Longrightarrow> dropWhile (\<lambda>c. \<not> isSpace c) (w @ CHR '' '' # s) = CHR '' '' # s"
  by (auto simp: isWord_def takeWhile_append2 dropWhile_append2 isSpace_def)

lemma takeWhile_isWord: "s \<noteq> [] \<Longrightarrow> \<not> isSpace (hd s) \<Longrightarrow> isWord (takeWhile (\<lambda>c. \<not> isSpace c) s)"
  by (cases s) (auto simp: isWord_def dest: set_takeWhileD)

text \<open>What \<open>scheduleFields\<close> takes apart is words with blanks between them.\<close>

lemma scheduleFields_Some:
  "scheduleFields n s = Some (fs, rest) \<Longrightarrow> plain s \<Longrightarrow>
     length fs = n \<and> (\<forall>f \<in> set fs. isWord f \<and> plain f) \<and> plain rest \<and>
     (n > 0 \<longrightarrow> rest = [] \<or> isSpace (hd rest))"
proof (induction n arbitrary: s fs rest)
  case (Suc n)
  define t where "t = dropWhile isSpace s"
  let ?w = "takeWhile (\<lambda>c. \<not> isSpace c) t" and ?d = "dropWhile (\<lambda>c. \<not> isSpace c) t"
  have pt: "plain t" using Suc.prems(2) by (simp add: t_def plain_drop)
  have split: "t = ?w @ ?d" by simp
  have pw: "plain ?w" "plain ?d" using pt plain_prefix [of ?w ?d] plain_suffix [of ?w ?d] by auto
  from Suc.prems(1) obtain fs' where t: "t \<noteq> []" and fs': "scheduleFields n ?d = Some (fs', rest)" "fs = ?w # fs'"
    by (auto simp: t_def [symmetric] Let_def split: if_splits)
  have "\<not> isSpace (hd t)" using t unfolding t_def by (rule dropWhile_hd)
  with t have w: "isWord ?w" by (rule takeWhile_isWord)
  have d: "?d = [] \<or> isSpace (hd ?d)" using dropWhile_hd [of "\<lambda>c. \<not> isSpace c" t] by auto
  from Suc.IH [OF fs'(1) pw(2)] fs' w pw d show ?case by (cases n) auto
qed simp

lemma scheduleFields_words:
  "\<forall>f \<in> set fs. isWord f \<Longrightarrow> r \<noteq> [] \<Longrightarrow>
   scheduleFields (length fs) (joinWith '' '' (fs @ [r])) = Some (fs, if fs = [] then r else CHR '' '' # r)"
proof (induction fs)
  case (Cons f fs)
  let ?j = "joinWith '' '' (fs @ [r])"
  have j: "joinWith '' '' ((f # fs) @ [r]) = f @ CHR '' '' # ?j" by (cases fs) auto
  have f: "isWord f" using Cons.prems by simp
  have t: "dropWhile isSpace (f @ CHR '' '' # ?j) = f @ CHR '' '' # ?j"
    using isWord_hd [OF f] by (auto intro: dropWhile_keep)
  have sp: "scheduleFields m (CHR '' '' # x) = scheduleFields m x" if "m > 0" for m x
    using that by (cases m) (auto simp: isSpace_def)
  have "scheduleFields (length fs) (CHR '' '' # ?j) = Some (fs, CHR '' '' # r)"
    using Cons sp [of "length fs" ?j] by (cases "fs = []") auto
  with f show ?case by (simp only: j) (simp add: t takeWhile_word Let_def)
qed simp

subsection \<open>Printing and reading\<close>

lemma splitSchedule_words:
  assumes "splitSchedule t = Some (fs, cmd)" and p: "plain t" "trimmed t"
  shows "length fs = 5 \<and> (\<forall>f \<in> set fs. isWord f \<and> plain f) \<and> cmd \<noteq> [] \<and> plain cmd \<and> trimmed cmd"
proof -
  from assms(1) obtain rest where sf: "scheduleFields 5 t = Some (fs, rest)"
    and c: "cmd = TrimSpace (dropWhile isSpace rest)" "cmd \<noteq> []"
    by (auto simp: splitSchedule_def Let_def split: option.splits if_splits)
  from scheduleFields_Some [OF sf p(1)] have "plain (dropWhile isSpace rest)" by (simp add: plain_drop)
  then have "plain cmd" "trimmed cmd" using c(1) by (simp_all add: plain_Trim TrimSpace_trimmed)
  with scheduleFields_Some [OF sf p(1)] c(2) show ?thesis by blast
qed

lemma splitSchedule_joined:
  assumes "length fs = 5" "\<forall>f \<in> set fs. isWord f" "cmd \<noteq> []" "plain cmd" "trimmed cmd"
  shows "splitSchedule (joinWith '' '' (fs @ [cmd])) = Some (fs, cmd)"
proof -
  have "dropWhile isSpace (CHR '' '' # cmd) = cmd"
    using assms(3,5) by (auto simp: isSpace_def dropWhile_keep trimmed_def)
  moreover have "scheduleFields 5 (joinWith '' '' (fs @ [cmd])) = Some (fs, CHR '' '' # cmd)"
    using scheduleFields_words [OF assms(2,3)] assms(1) by auto
  ultimately show ?thesis
    using TrimSpace_fixed [OF assms(4,5)] assms(3) by (simp add: splitSchedule_def del: dropWhile.simps dropWhile_eq_Nil_conv)
qed

lemma joined_plain:
  assumes "\<forall>f \<in> set fs. isWord f \<and> plain f" "cmd \<noteq> []" "plain cmd" "trimmed cmd" "fs \<noteq> []"
  shows "plain (joinWith '' '' (fs @ [cmd])) \<and> trimmed (joinWith '' '' (fs @ [cmd]))"
  using assms(1,5)
proof (induction fs)
  case (Cons f fs)
  have f: "isWord f" "plain f" using Cons.prems by auto
  let ?j = "joinWith '' '' (fs @ [cmd])"
  have j: "joinWith '' '' ((f # fs) @ [cmd]) = f @ '' '' @ ?j" by (cases fs) auto
  have "plain ?j \<and> trimmed ?j \<and> ?j \<noteq> []"
  proof (cases "fs = []")
    case True
    with assms(2-4) show ?thesis by simp
  next
    case False
    then obtain g gs where "fs = g # gs" by (cases fs) auto
    with Cons.IH Cons.prems False isWord_hd [of g] show ?thesis by (cases gs) auto
  qed
  with f isWord_hd [OF f(1)] trimmed_join [of f ?j "'' ''"] plain_join [of f ?j] show ?case
    by (simp only: j) simp
qed simp

lemma hd_joined: "f \<noteq> [] \<Longrightarrow> hd (joinWith sep (f # gs)) = hd f"
  by (cases gs) auto

lemma HasPrefix_hd: "HasPrefix s [c] \<longleftrightarrow> s \<noteq> [] \<and> hd s = c"
  by (cases s) (auto simp: HasPrefix_def)

lemma scheduleFields_step:
  "scheduleFields (Suc n) s = Some (fs, rest) \<longleftrightarrow>
     dropWhile isSpace s \<noteq> [] \<and> (\<exists>gs. fs = takeWhile (\<lambda>c. \<not> isSpace c) (dropWhile isSpace s) # gs \<and>
       scheduleFields n (dropWhile (\<lambda>c. \<not> isSpace c) (dropWhile isSpace s)) = Some (gs, rest))"
  by (auto simp: Let_def simp del: dropWhile_eq_Nil_conv)

lemma first_word:
  assumes "plain t" "scheduleFields 5 t = Some (fs, rest)" "t \<noteq> []" "\<not> isSpace (hd t)"
  obtains w ws f g gs where "t = w @ ws @ f" "isWord w" "ws \<noteq> []" "\<forall>c \<in> set ws. isSpace c"
    "f \<noteq> []" "\<not> isSpace (hd f)" "fs = w # g # gs" "hd f = hd g" "g \<noteq> []"
proof -
  define w d where "w = takeWhile (\<lambda>c. \<not> isSpace c) t" and "d = dropWhile (\<lambda>c. \<not> isSpace c) t"
  define ws f where "ws = takeWhile isSpace d" and "f = dropWhile isSpace d"
  define g where "g = takeWhile (\<lambda>c. \<not> isSpace c) f"
  have t: "dropWhile isSpace t = t" using assms(3,4) by (simp add: dropWhile_keep)
  from assms(2,3) obtain fs' where fs': "scheduleFields 4 d = Some (fs', rest)" "fs = w # fs'"
    using scheduleFields_step [of 4 t fs rest] by (auto simp: t w_def d_def)
  then obtain gs where gs: "f \<noteq> []" "fs' = g # gs"
    using scheduleFields_step [of 3 d fs' rest] by (auto simp: f_def g_def)
  have hf: "\<not> isSpace (hd f)" using gs(1) unfolding f_def by (rule dropWhile_hd)
  then have g: "hd g = hd f" "g \<noteq> []" using gs(1) by (cases f; simp add: g_def)+
  have "d \<noteq> []" using gs(1) by (auto simp: f_def)
  then have "isSpace (hd d)" using dropWhile_hd [of "\<lambda>c. \<not> isSpace c" t] by (simp add: d_def)
  then have 1: "ws \<noteq> []" using \<open>d \<noteq> []\<close> by (cases d) (auto simp: ws_def)
  have 2: "\<forall>c \<in> set ws. isSpace c" unfolding ws_def using set_takeWhileD by metis
  have 3: "t = w @ ws @ f" by (simp add: w_def ws_def f_def d_def)
  have 4: "isWord w" using takeWhile_isWord [OF assms(3,4)] by (simp add: w_def)
  have 5: "fs = w # g # gs" by (simp add: fs'(2) gs(2))
  show ?thesis by (rule that [OF 3 4 1 2 gs(1) hf 5 g(1) [symmetric] g(2)])
qed

lemma read_job:
  assumes fs: "length fs = 5" "\<forall>f \<in> set fs. isWord f \<and> plain f"
    and cmd: "cmd \<noteq> []" "plain cmd" "trimmed cmd"
    and s: "s = joinWith '' '' (fs @ [cmd])"
    and no: "\<not> HasPrefix s ''#''" "\<not> HasPrefix s ''@''" "\<not> isEnvAssignment s"
  shows "plain s \<and> parseLine s = emptyLine\<lparr>cl_Minute := fs ! 0, cl_Hour := fs ! 1, cl_DayOfMonth := fs ! 2,
      cl_Month := fs ! 3, cl_DayOfWeek := fs ! 4, cl_Command := cmd\<rparr>"
proof -
  have ne: "fs \<noteq> []" using fs(1) by auto
  have ps: "plain s" "trimmed s" using joined_plain [OF fs(2) cmd ne] by (auto simp: s)
  have ts: "TrimSpace s = s" using ps by (rule TrimSpace_fixed)
  have "s \<noteq> []" unfolding s joinWith_snoc using ne by simp
  moreover have "splitSchedule s = Some (fs, cmd)"
    unfolding s by (rule splitSchedule_joined) (use fs cmd in auto)
  ultimately show ?thesis using ts ps(1) no by (simp add: parseLine_def [of s] Let_def)
qed

lemma parse_job:
  assumes "plain l" and "TrimSpace l = t" "t \<noteq> []" "\<not> HasPrefix t ''#''" "\<not> isEnvAssignment t" "\<not> HasPrefix t ''@''"
    and "splitSchedule t = Some (fs, cmd)"
  shows "plain (serializeLine (parseLine l)) \<and> parseLine (serializeLine (parseLine l)) = parseLine l"
proof -
  have pt: "plain t" "trimmed t" using assms(1,2) plain_Trim TrimSpace_trimmed by auto
  note sp = splitSchedule_words [OF assms(7) pt]
  then obtain f0 f1 f2 f3 f4 where fs: "fs = [f0, f1, f2, f3, f4]"
    by (auto simp: numeral_eq_Suc length_Suc_conv)
  let ?s = "joinWith '' '' (fs @ [cmd])"
  have fixed: "TrimSpace f = f" if "f \<in> set fs" for f
    using that sp by (intro TrimSpace_fixed) (auto intro: isWord_trimmed)
  have cfix: "TrimSpace cmd = cmd" using sp by (blast intro: TrimSpace_fixed)
  have job: "parseLine l = emptyLine\<lparr>cl_Minute := f0, cl_Hour := f1, cl_DayOfMonth := f2, cl_Month := f3,
      cl_DayOfWeek := f4, cl_Command := cmd\<rparr>"
    using assms(2-) by (simp add: parseLine_def Let_def fs)
  have ser: "serializeLine (parseLine l) = ?s"
    using fixed cfix by (simp add: job serializeLine_def emptyLine_def fs)
  have ps: "plain ?s" using joined_plain [of fs cmd] sp by (auto simp: fs)
  have w0: "isWord f0" "isWord f1" using sp by (auto simp: fs)
  have hds: "hd ?s = hd f0" using isWord_hd [OF w0(1)] by (simp_all add: fs)
  have thd: "\<not> isSpace (hd t)" using pt(2) assms(3) by (simp add: trimmed_def)
  from assms(7) obtain rest where sf: "scheduleFields 5 t = Some (fs, rest)"
    by (auto simp: splitSchedule_def Let_def split: option.splits if_splits)
  from first_word [OF pt(1) sf assms(3) thd] obtain ws f
    where w: "t = f0 @ ws @ f" "ws \<noteq> []" "\<forall>c \<in> set ws. isSpace c" "f \<noteq> []" "\<not> isSpace (hd f)" "hd f = hd f1"
    by (metis fs list.inject)
  have "isEnvAssignment t = envShape f0 (hd f1)"
    using env_words [of f0 ws f] w pt(1) w0(1) by metis
  moreover have "isEnvAssignment ?s = envShape f0 (hd f1)"
    using env_words [of f0 "'' ''" "joinWith '' '' ([f1, f2, f3, f4] @ [cmd])"] ps w0 isWord_hd [OF w0(2)]
    by (simp add: fs isSpace_def)
  ultimately have env: "\<not> isEnvAssignment ?s" using assms(5) by simp
  have "hd t = hd f0" using w(1) isWord_hd [OF w0(1)] by simp
  then have pre: "\<not> HasPrefix ?s ''#''" "\<not> HasPrefix ?s ''@''"
    using assms(3,4,6) hds by (simp_all add: HasPrefix_hd)
  have "parseLine ?s = parseLine l"
    using read_job [OF _ _ _ _ _ refl pre env] sp unfolding job by (simp add: fs)
  with ser ps show ?thesis by (simp only: simp_thms)
qed

lemma read_special:
  assumes v: "isWord v" "plain v" "hd v = CHR ''@''" and c: "cmd \<noteq> []" "plain cmd" "trimmed cmd"
  shows "plain (v @ '' '' @ cmd) \<and>
    parseLine (v @ '' '' @ cmd) = emptyLine\<lparr>cl_Special := ToLower v, cl_Command := cmd\<rparr>"
proof -
  define s where "s = v @ '' '' @ cmd"
  have ps: "plain s" "trimmed s" "s \<noteq> []" "hd s = CHR ''@''"
    using plain_join [OF v(2) c(2)] trimmed_join [of v cmd "'' ''"] isWord_hd [OF v(1)] c v(3) by (simp_all add: s_def)
  have ts: "TrimSpace s = s" by (rule TrimSpace_fixed [OF ps(1,2)])
  have "takeWhile (\<lambda>c. \<not> isSpace c) s = v" "dropWhile (\<lambda>c. \<not> isSpace c) s = '' '' @ cmd"
    using takeWhile_word [OF v(1)] by (simp_all add: s_def)
  moreover have "\<not> isSpace (hd s)" by (simp add: ps(4) isSpace_def)
  ultimately have fs: "Fields s = v # Fields ('' '' @ cmd)" using Fields_plain [OF ps(1,3)] by simp
  have pc: "plain ('' '' @ cmd)" using c(2) by (simp add: isSpace_def)
  have "dropWhile isSpace ('' '' @ cmd) = cmd" using c(1,3) by (simp add: isSpace_def dropWhile_keep trimmed_def)
  then have tc: "TrimSpace ('' '' @ cmd) = cmd"
    using TrimSpace_plain [OF pc] TrimSpace_plain [OF c(2)] TrimSpace_fixed [OF c(2,3)] c(1,3)
    by (simp add: dropWhile_keep trimmed_def)
  have "Fields ('' '' @ cmd) \<noteq> []" using Fields_none [OF pc] tc c(1) by simp
  then have len: "\<not> length (Fields s) < 2" using fs by (cases "Fields ('' '' @ cmd)") auto
  have "drop (length v) s = '' '' @ cmd" by (simp add: s_def)
  then have cmd: "TrimSpace (drop (length v) s) = cmd" using tc by simp
  have pre: "\<not> HasPrefix s ''#''" "HasPrefix s ''@''" using ps(3,4) by (simp_all add: HasPrefix_hd)
  have "parseLine s = emptyLine\<lparr>cl_Special := ToLower v, cl_Command := cmd\<rparr>"
    using ts ps(3) pre env_special [OF ps(1,3,4)] len fs cmd
    by (simp add: parseLine_def [of s] Let_def)
  with ps(1) show ?thesis by (simp only: s_def simp_thms)
qed

lemma parse_special:
  assumes "plain l" and "TrimSpace l = t" "HasPrefix t ''@''" and "2 \<le> length (Fields t)"
    and "parseLine l = emptyLine\<lparr>cl_Special := ToLower (hd (Fields t)),
           cl_Command := TrimSpace (drop (length (hd (Fields t))) t)\<rparr>"
  shows "plain (serializeLine (parseLine l)) \<and> parseLine (serializeLine (parseLine l)) = parseLine l"
proof -
  define w d where "w = takeWhile (\<lambda>c. \<not> isSpace c) t" and "d = dropWhile (\<lambda>c. \<not> isSpace c) t"
  define v cmd where "v = ToLower w" and "cmd = TrimSpace d"
  have pt: "plain t" "trimmed t" using assms(1,2) plain_Trim TrimSpace_trimmed by auto
  have t: "t \<noteq> []" "hd t = CHR ''@''" using assms(3) by (auto simp: HasPrefix_hd)
  have nsp: "\<not> isSpace (hd t)" by (simp add: t(2) isSpace_def)
  have f: "Fields t = w # Fields d" using Fields_plain [OF pt(1) t(1) nsp] by (simp add: w_def d_def)
  have td: "t = w @ d" by (simp add: w_def d_def)
  have pd: "plain w" "plain d" using pt(1) plain_prefix [of w d] plain_suffix [of w d] td by auto
  have "Fields d \<noteq> []" using assms(4) f by auto
  then have c: "cmd \<noteq> []" "plain cmd" "trimmed cmd"
    using Fields_none [OF pd(2)] pd(2) by (auto simp: cmd_def plain_Trim TrimSpace_trimmed)
  have dr: "drop (length w) t = d" by (simp add: td)
  have pl: "parseLine l = emptyLine\<lparr>cl_Special := v, cl_Command := cmd\<rparr>"
    using assms(5) by (simp only: f list.sel dr v_def cmd_def)
  have ww: "isWord w" using takeWhile_isWord [OF t(1) nsp] by (simp add: w_def)
  have low: "isSpace (ascii_lower x) = isSpace x" for x by (simp add: isSpace_def ascii_lower_eq)
  have v: "isWord v" "plain v" using ww pd(1) by (auto simp: v_def ToLower_def isWord_def low)
  have "hd w = CHR ''@''" using t(2) td isWord_hd [OF ww] by simp
  then have hv: "hd v = CHR ''@''" using isWord_hd [OF ww] by (simp add: v_def ToLower_def hd_map ascii_lower_def)
  have tv: "TrimSpace v = v" "TrimSpace cmd = cmd"
    using v isWord_trimmed c by (auto intro: TrimSpace_fixed)
  have lv: "ToLower v = v" by (simp add: v_def ToLower_idem)
  have "serializeLine (parseLine l) = v @ '' '' @ cmd"
    using isWord_hd [OF v(1)] tv by (simp add: pl serializeLine_def emptyLine_def lv)
  with read_special [OF v hv c] show ?thesis by (simp only: lv pl simp_thms)
qed

lemma parse_serialize_line:
  assumes "plain l"
  shows "plain (serializeLine (parseLine l)) \<and> parseLine (serializeLine (parseLine l)) = parseLine l"
proof -
  define t where "t = TrimSpace l"
  have raw: ?thesis if "serializeLine (parseLine l) = l" using that assms by simp
  have ne: "l \<noteq> []" if "t \<noteq> []" using that by (auto simp: t_def)
  consider "t = []" | "t \<noteq> []" "HasPrefix t ''#''" | "t \<noteq> []" "\<not> HasPrefix t ''#''" "isEnvAssignment t"
    | "t \<noteq> []" "\<not> HasPrefix t ''#''" "\<not> isEnvAssignment t" "HasPrefix t ''@''" "length (Fields t) < 2"
    | "t \<noteq> []" "\<not> HasPrefix t ''#''" "\<not> isEnvAssignment t" "HasPrefix t ''@''" "2 \<le> length (Fields t)"
    | "t \<noteq> []" "\<not> HasPrefix t ''#''" "\<not> isEnvAssignment t" "\<not> HasPrefix t ''@''" "splitSchedule t = None"
    | fs cmd where "t \<noteq> []" "\<not> HasPrefix t ''#''" "\<not> isEnvAssignment t" "\<not> HasPrefix t ''@''"
        "splitSchedule t = Some (fs, cmd)"
    by (metis linorder_not_less not_None_eq prod.exhaust)
  then show ?thesis
  proof cases
    case 5
    then have "parseLine l = emptyLine\<lparr>cl_Special := ToLower (hd (Fields t)),
           cl_Command := TrimSpace (drop (length (hd (Fields t))) t)\<rparr>"
      by (simp add: parseLine_def Let_def flip: t_def)
    with parse_special [OF assms t_def [symmetric]] 5 show ?thesis by simp
  next
    case 7
    then show ?thesis using parse_job [OF assms t_def [symmetric]] by simp
  qed (rule raw, use ne in \<open>simp add: parseLine_def serializeLine_def emptyLine_def Let_def flip: t_def\<close>)+
qed

text \<open>Reading a crontab and printing it again gives text that reads back as the same lines, when
  the only white space in it is spaces, tabs and the line ends.\<close>

lemma parse_serialize:
  assumes "\<forall>l \<in> set (splitConfigLines content). plain l"
  shows "Parse (Serialize (Parse content)) = Parse content"
proof (cases "content = []")
  case True
  then show ?thesis by (simp add: Parse_def splitConfigLines_def Serialize_def)
next
  case False
  let ?out = "map serializeLine (Parse content)"
  have again: "map parseLine ?out = Parse content"
    using assms parse_serialize_line by (simp add: Parse_def)
  show ?thesis
  proof (cases "Parse content = []")
    case True
    then show ?thesis by (simp add: Serialize_def Parse_def [of "[]"] splitConfigLines_def)
  next
    case ne: False
    have "\<forall>s \<in> set ?out. CHR 0x0A \<notin> set s"
      using assms parse_serialize_line plain_newline by (auto simp: Parse_def)
    then have "Split (CHR 0x0A) (joinWith [CHR 0x0A] (?out @ [[]])) = ?out @ [[]]"
      by (intro Split_joinWith) auto
    moreover have out: "Serialize (Parse content) = joinWith [CHR 0x0A] (?out @ [[]])"
      using ne by (simp add: Serialize_def joinWith_snoc)
    moreover have "Serialize (Parse content) \<noteq> []" using ne by (simp add: Serialize_def)
    ultimately have "splitConfigLines (Serialize (Parse content)) = ?out"
      by (simp add: splitConfigLines_def)
    with again show ?thesis by (simp add: Parse_def)
  qed
qed

definition demo_crontab :: string where
  "demo_crontab = ''MAILTO=ops'' @ [CHR 0x0A] @ ''  */5 * *  * * /bin/true  x'' @ [CHR 0x0A, CHR 0x0A] @ ''@Daily /opt/b''"

lemma demo_crontab_plain: "\<forall>l \<in> set (splitConfigLines demo_crontab). plain l"
  by code_simp

lemma parse_serialize_witness:
  "Parse (Serialize (Parse demo_crontab)) = Parse demo_crontab"
  by (rule parse_serialize [OF demo_crontab_plain])

end
