(* ===== verification/StateValues.thy ===== *)
theory StateValues
  imports GoText
begin

text \<open>
  guest/sdk/types.go: the values a resource's state is made of and how a guest reads them.

  \<open>val\<close> has a constructor for every dynamic type of Go the code switches on: the two kinds of
  string list and of map it tells apart, \<open>json.Number\<close> by its text, a \<open>float64\<close> by the integers
  \<open>m\<close> and \<open>e\<close> of its exact value \<open>m * 2 ^ e\<close>, and \<open>VOther\<close> for a value of any other type. A nil
  slice or a nil \<open>StateData\<close> is \<open>None\<close>. A map is the list of its entries, read with \<open>map_of\<close>; reading
  a nil map and an empty one is the same.
\<close>

datatype val =
    VNil
  | VBool bool
  | VInt int
  | VInt64 int
  | VFloat int int
  | VNumber string
  | VStr string
  | VStrs "string list option"
  | VList "val list option"
  | VStrMap "(string \<times> string) list"
  | VMap "(string \<times> val) list"
  | VState "(string \<times> val) list option"
  | VOther string

type_synonym StateData = "(string \<times> val) list"

text \<open>\<open>int64(f)\<close> and \<open>int(f)\<close> drop the fraction; out of range the language leaves the result to the
  machine, here that of amd64.\<close>

definition float_int :: "int \<Rightarrow> int \<Rightarrow> int" where
  "float_int m e =
     (let v = (if 0 \<le> e then m * 2 ^ nat e else go_quot m (2 ^ nat (- e))) in
      if - (2 ^ 63) \<le> v \<and> v < 2 ^ 63 then v else - (2 ^ 63))"

definition GetString :: "StateData \<Rightarrow> string \<Rightarrow> string" where
  "GetString s key = (case map_of s key of Some (VStr str) \<Rightarrow> str | _ \<Rightarrow> [])"

definition GetInt :: "StateData \<Rightarrow> string \<Rightarrow> int" where
  "GetInt s key =
     (case map_of s key of
        Some (VFloat m e) \<Rightarrow> float_int m e | Some (VInt n) \<Rightarrow> n | Some (VInt64 n) \<Rightarrow> n | _ \<Rightarrow> 0)"

definition GetBool :: "StateData \<Rightarrow> string \<Rightarrow> bool" where
  "GetBool s key = (case map_of s key of Some (VBool b) \<Rightarrow> b | _ \<Rightarrow> False)"

definition strings_only :: "val list \<Rightarrow> string list" where
  "strings_only vs = concat (map (\<lambda>v. case v of VStr s \<Rightarrow> [s] | _ \<Rightarrow> []) vs)"

text \<open>A nil slice of type \<open>[]string\<close> is copied into an empty one.\<close>

definition GetStringList :: "StateData \<Rightarrow> string \<Rightarrow> string list option" where
  "GetStringList s key =
     (case map_of s key of
        Some (VStrs xs) \<Rightarrow> Some (case xs of None \<Rightarrow> [] | Some l \<Rightarrow> l)
      | Some (VList vs) \<Rightarrow> Some (case vs of None \<Rightarrow> [] | Some l \<Rightarrow> strings_only l)
      | _ \<Rightarrow> None)"

definition string_entries :: "(string \<times> val) list \<Rightarrow> (string \<times> string) list" where
  "string_entries es = concat (map (\<lambda>(k, v). case v of VStr s \<Rightarrow> [(k, s)] | _ \<Rightarrow> []) es)"

definition GetMap :: "StateData \<Rightarrow> string \<Rightarrow> (string \<times> string) list option" where
  "GetMap s key =
     (case map_of s key of
        Some (VStrMap m) \<Rightarrow> Some m
      | Some (VMap es) \<Rightarrow> Some (string_entries es)
      | _ \<Rightarrow> None)"

text \<open>What a response is made of before it is encoded: only untyped lists and maps. Values of the
  types the code reaches through \<open>reflect\<close> are left as they are.\<close>

fun normalizeJSONValue :: "val \<Rightarrow> val" where
  "normalizeJSONValue (VState None) = VNil"
| "normalizeJSONValue (VState (Some es)) = VState (Some (map (\<lambda>(k, v). (k, normalizeJSONValue v)) es))"
| "normalizeJSONValue (VMap es) = VMap (map (\<lambda>(k, v). (k, normalizeJSONValue v)) es)"
| "normalizeJSONValue (VStrMap es) = VMap (map (\<lambda>(k, v). (k, VStr v)) es)"
| "normalizeJSONValue (VList None) = VNil"
| "normalizeJSONValue (VList (Some vs)) = VList (Some (map normalizeJSONValue vs))"
| "normalizeJSONValue (VStrs None) = VNil"
| "normalizeJSONValue (VStrs (Some ss)) = VList (Some (map VStr ss))"
| "normalizeJSONValue v = v"

definition normalizeStateDataForJSON :: "StateData option \<Rightarrow> StateData option" where
  "normalizeStateDataForJSON st = map_option (map (\<lambda>(k, v). (k, normalizeJSONValue v))) st"

end
