(* ===== verification/CrontabEntries.thy ===== *)
theory CrontabEntries
  imports Crontab StateValues
begin

text \<open>
  guest/packs/linux/files_config/crontab.go: the crontab entries a configuration manages. An entry is
  a marker comment that carries its name and the job line after it. The first part works on the lines
  of one crontab; the second is the resource, over the \<open>crontab\<close> program of the host.
\<close>

definition crontabManagedMarkerPrefix :: string where
  "crontabManagedMarkerPrefix = ''# tf-linux-provider: crontab_entry name=''"

record cronSchedule =
  cs_Canonical :: string
  cs_Special :: string
  cs_Minute :: string
  cs_Hour :: string
  cs_DayOfMonth :: string
  cs_Month :: string
  cs_DayOfWeek :: string

definition emptySchedule :: cronSchedule where
  "emptySchedule = \<lparr>cs_Canonical = [], cs_Special = [], cs_Minute = [], cs_Hour = [], cs_DayOfMonth = [],
     cs_Month = [], cs_DayOfWeek = []\<rparr>"

record desiredCrontabEntry =
  de_Name :: string
  de_User :: string
  de_Command :: string
  de_Schedule :: cronSchedule
  de_Line :: CrontabLine

record managedCrontabBlock =
  mb_MarkerIndex :: nat
  mb_JobIndex :: int
  mb_HasJob :: bool
  mb_Line :: CrontabLine

subsection \<open>Schedules\<close>

definition nameChar :: "char \<Rightarrow> bool" where
  "nameChar ch \<longleftrightarrow> (CHR ''a'' \<le> ch \<and> ch \<le> CHR ''z'') \<or> (CHR ''A'' \<le> ch \<and> ch \<le> CHR ''Z'') \<or>
     (CHR ''0'' \<le> ch \<and> ch \<le> CHR ''9'') \<or> ch = CHR ''.'' \<or> ch = CHR ''_'' \<or> ch = CHR ''-''"

definition isValidCrontabResourceName :: "string \<Rightarrow> bool" where
  "isValidCrontabResourceName value \<longleftrightarrow> value \<noteq> [] \<and> list_all nameChar value"

definition ContainsAny :: "string \<Rightarrow> string \<Rightarrow> bool" where
  "ContainsAny s chars \<longleftrightarrow> list_ex (\<lambda>c. c \<in> set chars) s"

definition containsLineBreak :: "string \<Rightarrow> bool" where
  "containsLineBreak value = ContainsAny value [CHR 0x0D, CHR 0x0A]"

definition parseCronScheduleFields :: "string \<Rightarrow> string \<Rightarrow> string \<Rightarrow> string \<Rightarrow> string \<Rightarrow> cronSchedule res" where
  "parseCronScheduleFields minute hour dayOfMonth month dayOfWeek =
     (let fs = map TrimSpace [minute, hour, dayOfMonth, month, dayOfWeek] in
      case find (\<lambda>f. f = [] \<or> ContainsAny f [CHR 0x20, CHR 0x09, CHR 0x0D, CHR 0x0A]) fs of
        Some f \<Rightarrow>
          Inl (Errorf (if f = [] then ''cron fields must not be empty''
                       else ''cron fields must not contain whitespace, got '' @ go_quote f))
      | None \<Rightarrow>
          Inr \<lparr>cs_Canonical = joinWith '' '' fs, cs_Special = [], cs_Minute = fs ! 0, cs_Hour = fs ! 1,
               cs_DayOfMonth = fs ! 2, cs_Month = fs ! 3, cs_DayOfWeek = fs ! 4\<rparr>)"

definition parseCronScheduleString :: "string \<Rightarrow> cronSchedule res" where
  "parseCronScheduleString text0 =
     (let value = TrimSpace text0; fs = Fields value in
      if value = [] then Inl (Errorf ''schedule must not be empty'')
      else if HasPrefix value ''@'' then
        (if length fs \<noteq> 1 then Inl (Errorf (''special schedules must be a single @token, got '' @ go_quote value))
         else let token = ToLower (fs ! 0) in
           if length token < 2 then Inl (Errorf (''invalid special schedule '' @ go_quote value))
           else Inr (emptySchedule\<lparr>cs_Canonical := token, cs_Special := token\<rparr>))
      else if length fs \<noteq> 5 then
        Inl (Errorf (''schedule must be a five-field cron expression or @special token, got '' @ go_quote value))
      else parseCronScheduleFields (fs ! 0) (fs ! 1) (fs ! 2) (fs ! 3) (fs ! 4))"

definition scheduleFromConfig :: "StateData \<Rightarrow> cronSchedule res" where
  "scheduleFromConfig state =
     (let scheduleText = TrimSpace (GetString state ''schedule'');
          vs = map (\<lambda>k. TrimSpace (GetString state k)) [''minute'', ''hour'', ''day_of_month'', ''month'', ''day_of_week''];
          fieldCount = length (filter (\<lambda>v. v \<noteq> []) vs) in
      if scheduleText \<noteq> [] \<and> fieldCount > 0 then
        Inl (Errorf ''schedule is mutually exclusive with minute, hour, day_of_month, month, and day_of_week'')
      else if scheduleText \<noteq> [] then parseCronScheduleString scheduleText
      else if fieldCount = 0 then Inl (Errorf ''exactly one schedule form must be configured'')
      else if fieldCount \<noteq> 5 then
        Inl (Errorf ''minute, hour, day_of_month, month, and day_of_week must all be set together'')
      else parseCronScheduleFields (vs ! 0) (vs ! 1) (vs ! 2) (vs ! 3) (vs ! 4))"

definition scheduleLine :: "cronSchedule \<Rightarrow> string \<Rightarrow> CrontabLine" where
  "scheduleLine s command =
     (let line = emptyLine\<lparr>cl_Command := TrimSpace command\<rparr> in
      if cs_Special s \<noteq> [] then line\<lparr>cl_Special := cs_Special s\<rparr>
      else line\<lparr>cl_Minute := cs_Minute s, cl_Hour := cs_Hour s, cl_DayOfMonth := cs_DayOfMonth s,
        cl_Month := cs_Month s, cl_DayOfWeek := cs_DayOfWeek s\<rparr>)"

definition scheduleFromCrontabLine :: "CrontabLine \<Rightarrow> cronSchedule" where
  "scheduleFromCrontabLine line =
     (if TrimSpace (cl_Special line) \<noteq> [] then
        (let special = ToLower (TrimSpace (cl_Special line)) in
         emptySchedule\<lparr>cs_Canonical := special, cs_Special := special\<rparr>)
      else
        \<lparr>cs_Canonical = joinWith '' '' [TrimSpace (cl_Minute line), TrimSpace (cl_Hour line),
           TrimSpace (cl_DayOfMonth line), TrimSpace (cl_Month line), TrimSpace (cl_DayOfWeek line)],
         cs_Special = [],
         cs_Minute = TrimSpace (cl_Minute line),
         cs_Hour = TrimSpace (cl_Hour line),
         cs_DayOfMonth = TrimSpace (cl_DayOfMonth line),
         cs_Month = TrimSpace (cl_Month line),
         cs_DayOfWeek = TrimSpace (cl_DayOfWeek line)\<rparr>)"

definition desiredCrontabFromState :: "StateData \<Rightarrow> desiredCrontabEntry res" where
  "desiredCrontabFromState state =
     (let name = TrimSpace (GetString state ''name'');
          user = TrimSpace (GetString state ''user'');
          command = TrimSpace (GetString state ''command'') in
      if \<not> isValidCrontabResourceName name then
        Inl (Errorf (''name must match [A-Za-z0-9._-]+, got '' @ go_quote name))
      else if user = [] then Inl (Errorf ''user must not be empty'')
      else if containsLineBreak user then Inl (Errorf ''user must not contain newlines'')
      else if command = [] then Inl (Errorf ''command must not be empty'')
      else if containsLineBreak command then Inl (Errorf ''command must not contain newlines'')
      else case scheduleFromConfig state of
        Inl e \<Rightarrow> Inl e
      | Inr schedule \<Rightarrow>
          Inr \<lparr>de_Name = name, de_User = user, de_Command = command, de_Schedule = schedule,
               de_Line = scheduleLine schedule command\<rparr>)"

definition crontabEntryID :: "string \<Rightarrow> string \<Rightarrow> string" where
  "crontabEntryID user name = TrimSpace user @ ''/'' @ TrimSpace name"

definition crontabState :: "string \<Rightarrow> string \<Rightarrow> string \<Rightarrow> cronSchedule \<Rightarrow> StateData res" where
  "crontabState name user command schedule =
     (if name = [] \<or> user = [] \<or> command = [] \<or> cs_Canonical schedule = [] then
        Inl (Errorf ''missing required crontab state values'')
      else Inr
        ([(''id'', VStr (crontabEntryID user name)), (''name'', VStr name), (''user'', VStr user),
          (''command'', VStr command), (''schedule'', VStr (cs_Canonical schedule))] @
         (if cs_Special schedule = [] then
            [(''minute'', VStr (cs_Minute schedule)), (''hour'', VStr (cs_Hour schedule)),
             (''day_of_month'', VStr (cs_DayOfMonth schedule)), (''month'', VStr (cs_Month schedule)),
             (''day_of_week'', VStr (cs_DayOfWeek schedule))]
          else [])))"

definition desiredState :: "desiredCrontabEntry \<Rightarrow> StateData" where
  "desiredState d =
     (case crontabState (de_Name d) (de_User d) (de_Command d) (de_Schedule d) of
        Inl _ \<Rightarrow>
          [(''id'', VStr (crontabEntryID (de_User d) (de_Name d))), (''name'', VStr (de_Name d)),
           (''user'', VStr (de_User d)), (''command'', VStr (de_Command d)),
           (''schedule'', VStr (cs_Canonical (de_Schedule d)))]
      | Inr state \<Rightarrow> state)"

subsection \<open>Managed entries among the lines of a crontab\<close>

definition managedCrontabMarker :: "string \<Rightarrow> CrontabLine" where
  "managedCrontabMarker name =
     emptyLine\<lparr>cl_IsComment := True, cl_Comment := crontabManagedMarkerPrefix @ name\<rparr>"

definition managedCrontabName :: "CrontabLine \<Rightarrow> string option" where
  "managedCrontabName line =
     (if \<not> cl_IsComment line then None
      else
        let comment = (if TrimSpace (cl_Comment line) = [] then TrimSpace (cl_Raw line) else TrimSpace (cl_Comment line));
            name = TrimSpace (TrimPrefix comment crontabManagedMarkerPrefix)
        in if \<not> HasPrefix comment crontabManagedMarkerPrefix then None
           else if \<not> isValidCrontabResourceName name then None else Some name)"

definition isCrontabJobLine :: "CrontabLine \<Rightarrow> bool" where
  "isCrontabJobLine line \<longleftrightarrow>
     TrimSpace (cl_Command line) \<noteq> [] \<and>
     (TrimSpace (cl_Special line) \<noteq> [] \<or>
      TrimSpace (cl_Minute line) \<noteq> [] \<and> TrimSpace (cl_Hour line) \<noteq> [] \<and> TrimSpace (cl_DayOfMonth line) \<noteq> [] \<and>
      TrimSpace (cl_Month line) \<noteq> [] \<and> TrimSpace (cl_DayOfWeek line) \<noteq> [])"

text \<open>The loop of \<open>findManagedCrontabBlock\<close> from index \<open>i\<close> on; \<open>b\<close> is the block found so far.\<close>

fun findBlockFrom :: "nat \<Rightarrow> CrontabLine list \<Rightarrow> string \<Rightarrow> managedCrontabBlock option \<Rightarrow> managedCrontabBlock option res" where
  "findBlockFrom i [] name b = Inr b"
| "findBlockFrom i (line # rest) name b =
     (if managedCrontabName line \<noteq> Some name then findBlockFrom (Suc i) rest name b
      else if b \<noteq> None then Inl (Errorf (''multiple managed crontab markers found for '' @ go_quote name))
      else findBlockFrom (Suc i) rest name (Some
        (if rest \<noteq> [] \<and> isCrontabJobLine (hd rest) then
           \<lparr>mb_MarkerIndex = i, mb_JobIndex = int i + 1, mb_HasJob = True, mb_Line = hd rest\<rparr>
         else \<lparr>mb_MarkerIndex = i, mb_JobIndex = - 1, mb_HasJob = False, mb_Line = emptyLine\<rparr>)))"

definition findManagedCrontabBlock :: "CrontabLine list \<Rightarrow> string \<Rightarrow> managedCrontabBlock option res" where
  "findManagedCrontabBlock lines name = findBlockFrom 0 lines name None"

definition sameCrontabCommand :: "CrontabLine \<Rightarrow> CrontabLine \<Rightarrow> bool" where
  "sameCrontabCommand left right \<longleftrightarrow>
     TrimSpace (cl_Command left) = TrimSpace (cl_Command right) \<and>
     cs_Canonical (scheduleFromCrontabLine left) = cs_Canonical (scheduleFromCrontabLine right)"

definition exactUnmanagedCrontabMatches :: "CrontabLine list \<Rightarrow> CrontabLine \<Rightarrow> nat list" where
  "exactUnmanagedCrontabMatches lines desired =
     filter (\<lambda>i. isCrontabJobLine (lines ! i) \<and> \<not> (i > 0 \<and> managedCrontabName (lines ! (i - 1)) \<noteq> None) \<and>
       sameCrontabCommand (lines ! i) desired) [0..<length lines]"

definition importRequiredError :: "string \<Rightarrow> string \<Rightarrow> error" where
  "importRequiredError kind target =
     Errorf (kind @ '' '' @ go_quote target @ '' already exists; import it before managing with terraform'')"

definition createOrAdoptManagedCrontabEntry :: "CrontabLine list \<Rightarrow> desiredCrontabEntry \<Rightarrow> CrontabLine list res" where
  "createOrAdoptManagedCrontabEntry lines desired =
     (case findManagedCrontabBlock lines (de_Name desired) of
        Inl e \<Rightarrow> Inl e
      | Inr (Some _) \<Rightarrow> Inl (importRequiredError ''crontab entry'' (crontabEntryID (de_User desired) (de_Name desired)))
      | Inr None \<Rightarrow>
          (case exactUnmanagedCrontabMatches lines (de_Line desired) of
             [] \<Rightarrow> Inr (lines @ [managedCrontabMarker (de_Name desired), de_Line desired])
           | [index] \<Rightarrow> Inr (take index lines @ [managedCrontabMarker (de_Name desired)] @ drop index lines)
           | _ \<Rightarrow> Inl (Errorf (''multiple unmanaged crontab entries already match '' @ go_quote (de_Name desired) @
                     '' for user '' @ go_quote (de_User desired)))))"

text \<open>The copying loops of \<open>updateManagedCrontabEntry\<close> and \<open>removeManagedCrontabEntry\<close>: what is put in
  the place of the marker and, when there is one, of its job.\<close>

definition replaceBlock :: "managedCrontabBlock \<Rightarrow> CrontabLine list \<Rightarrow> CrontabLine list \<Rightarrow> CrontabLine list" where
  "replaceBlock block new lines =
     take (mb_MarkerIndex block) lines @ new @
     drop (Suc (if mb_HasJob block then nat (mb_JobIndex block) else mb_MarkerIndex block)) lines"

definition notFoundDuringUpdate :: "string \<Rightarrow> error" where
  "notFoundDuringUpdate name = Errorf (''managed crontab entry '' @ go_quote name @ '' not found during update'')"

definition updateManagedCrontabEntry :: "CrontabLine list \<Rightarrow> string \<Rightarrow> CrontabLine \<Rightarrow> CrontabLine list res" where
  "updateManagedCrontabEntry lines name desired =
     (case findManagedCrontabBlock lines name of
        Inl e \<Rightarrow> Inl e
      | Inr None \<Rightarrow> Inl (notFoundDuringUpdate name)
      | Inr (Some block) \<Rightarrow> Inr (replaceBlock block [managedCrontabMarker name, desired] lines))"

definition removeManagedCrontabEntry :: "CrontabLine list \<Rightarrow> string \<Rightarrow> (CrontabLine list \<times> bool) res" where
  "removeManagedCrontabEntry lines name =
     (case findManagedCrontabBlock lines name of
        Inl e \<Rightarrow> Inl e
      | Inr None \<Rightarrow> Inr (lines, False)
      | Inr (Some block) \<Rightarrow> Inr (replaceBlock block [] lines, True))"

subsection \<open>The crontab program\<close>

record CmdResult =
  cr_Stdout :: string
  cr_Stderr :: string
  cr_ExitCode :: int

text \<open>What the resource asks of the host: whether the command exists, to run it with arguments, and to
  keep a temporary file.\<close>

record 's cronHost =
  ch_hasCommand :: "'s \<Rightarrow> bool res"
  ch_exec :: "string list \<Rightarrow> 's \<Rightarrow> CmdResult res \<times> 's"
  ch_writeTemp :: "string \<Rightarrow> string \<Rightarrow> 's \<Rightarrow> string res \<times> 's"
  ch_cleanup :: "string \<Rightarrow> 's \<Rightarrow> 's"

definition ToUpper :: "string \<Rightarrow> string" where
  "ToUpper s = map (\<lambda>c. if 97 \<le> (of_char c :: nat) \<and> (of_char c :: nat) \<le> 122 then char_of ((of_char c :: nat) - 32) else c) s"

fun dropCR :: "string \<Rightarrow> string" where
  "dropCR [] = []"
| "dropCR [c] = [c]"
| "dropCR (a # b # s) = (if a = CHR 0x0D \<and> b = CHR 0x0A then b # dropCR s else a # dropCR (b # s))"

definition isReadHeader :: "string \<Rightarrow> bool" where
  "isReadHeader line \<longleftrightarrow>
     HasPrefix (TrimSpace line) ''#'' \<and> Contains (ToUpper (TrimSpace line)) ''DO NOT EDIT THIS FILE''"

definition stripCrontabReadHeaders :: "string \<Rightarrow> string" where
  "stripCrontabReadHeaders content =
     joinWith [CHR 0x0A] (filter (\<lambda>l. \<not> isReadHeader l) (Split (CHR 0x0A) (dropCR content)))"

definition isNoCrontabResult :: "CmdResult \<Rightarrow> bool" where
  "isNoCrontabResult result =
     Contains (ToLower (TrimSpace (cr_Stderr result @ [CHR 0x0A] @ cr_Stdout result))) ''no crontab for''"

definition crontabResultMessage :: "CmdResult \<Rightarrow> string" where
  "crontabResultMessage result =
     (let message = TrimSpace (cr_Stderr result) in if message = [] then TrimSpace (cr_Stdout result) else message)"

definition sanitizeCrontabTempToken :: "string \<Rightarrow> string" where
  "sanitizeCrontabTempToken text0 =
     (let value = TrimSpace text0 in
      if value = [] then ''unknown'' else map (\<lambda>ch. if nameChar ch then ch else CHR ''_'') value)"

definition ensureCrontabCommand :: "'s cronHost \<Rightarrow> 's \<Rightarrow> error option" where
  "ensureCrontabCommand H s =
     (case ch_hasCommand H s of
        Inl e \<Rightarrow> Some (Wrapf ''check for crontab command: '' e [])
      | Inr True \<Rightarrow> None
      | Inr False \<Rightarrow> Some (Errorf (''crontab command not found; install a cron implementation such as the '' @
          ''Debian/Ubuntu cron package before managing crontab entries'')))"

definition exitText :: "string \<Rightarrow> string \<Rightarrow> CmdResult \<Rightarrow> error" where
  "exitText what user result =
     Errorf (what @ '' crontab for '' @ go_quote user @ '' failed (exit '' @ show_int (cr_ExitCode result) @ ''): '' @
       crontabResultMessage result)"

definition readUserCrontabLines :: "'s cronHost \<Rightarrow> string \<Rightarrow> 's \<Rightarrow> CrontabLine list res \<times> 's" where
  "readUserCrontabLines H user s =
     (case ensureCrontabCommand H s of
        Some e \<Rightarrow> (Inl e, s)
      | None \<Rightarrow>
          (case ch_exec H [''-u'', user, ''-l''] s of
             (Inl e, s) \<Rightarrow> (Inl (Wrapf (''read crontab for '' @ go_quote user @ '': '') e []), s)
           | (Inr result, s) \<Rightarrow>
               (if cr_ExitCode result \<noteq> 0 then
                  (if isNoCrontabResult result then Inr [] else Inl (exitText ''read'' user result), s)
                else (Inr (Parse (stripCrontabReadHeaders (cr_Stdout result))), s))))"

definition removeUserCrontab :: "'s cronHost \<Rightarrow> string \<Rightarrow> 's \<Rightarrow> error option \<times> 's" where
  "removeUserCrontab H user s =
     (case ch_exec H [''-u'', user, ''-r''] s of
        (Inl e, s) \<Rightarrow> (Some (Wrapf (''remove crontab for '' @ go_quote user @ '': '') e []), s)
      | (Inr result, s) \<Rightarrow>
          (if cr_ExitCode result \<noteq> 0 \<and> \<not> isNoCrontabResult result then Some (exitText ''remove'' user result) else None, s))"

definition installCrontab :: "'s cronHost \<Rightarrow> string \<Rightarrow> string \<Rightarrow> 's \<Rightarrow> error option \<times> 's" where
  "installCrontab H user tmpPath s =
     (case ch_exec H [''-u'', user, tmpPath] s of
        (Inl e, s) \<Rightarrow> (Some (Wrapf (''install crontab for '' @ go_quote user @ '': '') e []), s)
      | (Inr result, s) \<Rightarrow> (if cr_ExitCode result \<noteq> 0 then Some (exitText ''install'' user result) else None, s))"

definition writeUserCrontabLines :: "'s cronHost \<Rightarrow> string \<Rightarrow> CrontabLine list \<Rightarrow> 's \<Rightarrow> error option \<times> 's" where
  "writeUserCrontabLines H user lines s =
     (case ensureCrontabCommand H s of
        Some e \<Rightarrow> (Some e, s)
      | None \<Rightarrow>
          if TrimSpace (Serialize lines) = [] then removeUserCrontab H user s
          else
            (case ch_writeTemp H (''tf-linux-provider-crontab-'' @ sanitizeCrontabTempToken user) (Serialize lines) s of
               (Inl e, s) \<Rightarrow> (Some (Wrapf (''write temp crontab for '' @ go_quote user @ '': '') e []), s)
             | (Inr tmpPath, s) \<Rightarrow>
                 (let (err, s) = installCrontab H user tmpPath s in (err, ch_cleanup H tmpPath s))))"

subsection \<open>The resource\<close>

definition crontabValidate :: "StateData \<Rightarrow> error option" where
  "crontabValidate config = (case desiredCrontabFromState config of Inl e \<Rightarrow> Some e | Inr _ \<Rightarrow> None)"

definition crontabRead :: "'s cronHost \<Rightarrow> StateData \<Rightarrow> 's \<Rightarrow> StateData option res \<times> 's" where
  "crontabRead H state s =
     (let name = TrimSpace (GetString state ''name''); user = TrimSpace (GetString state ''user'') in
      if name = [] \<or> user = [] then (Inr None, s)
      else case readUserCrontabLines H user s of
        (Inl e, s) \<Rightarrow> (Inl e, s)
      | (Inr lines, s) \<Rightarrow>
          (case findManagedCrontabBlock lines name of
             Inl e \<Rightarrow> Inl e
           | Inr None \<Rightarrow> Inr None
           | Inr (Some block) \<Rightarrow>
               if \<not> mb_HasJob block then Inr None
               else map_sum id Some
                 (crontabState name user (TrimSpace (cl_Command (mb_Line block))) (scheduleFromCrontabLine (mb_Line block))), s))"

definition crontabCreate :: "'s cronHost \<Rightarrow> StateData \<Rightarrow> 's \<Rightarrow> StateData res \<times> 's" where
  "crontabCreate H plan s =
     (case desiredCrontabFromState plan of
        Inl e \<Rightarrow> (Inl e, s)
      | Inr desired \<Rightarrow>
          (case readUserCrontabLines H (de_User desired) s of
             (Inl e, s) \<Rightarrow> (Inl e, s)
           | (Inr lines, s) \<Rightarrow>
               (case createOrAdoptManagedCrontabEntry lines desired of
                  Inl e \<Rightarrow> (Inl e, s)
                | Inr updated \<Rightarrow>
                    (case writeUserCrontabLines H (de_User desired) updated s of
                       (Some e, s) \<Rightarrow> (Inl e, s)
                     | (None, s) \<Rightarrow> (Inr (desiredState desired), s)))))"

text \<open>The lines an update in one crontab leaves, when it keeps the entry's name and when it does not.\<close>

definition updatedLines :: "CrontabLine list \<Rightarrow> string \<Rightarrow> desiredCrontabEntry \<Rightarrow> CrontabLine list res" where
  "updatedLines lines priorName desired =
     (if priorName = de_Name desired then
        (case updateManagedCrontabEntry lines (de_Name desired) (de_Line desired) of
           Inl e \<Rightarrow>
             if Contains (error_text e) ''not found during update'' then createOrAdoptManagedCrontabEntry lines desired
             else Inl e
         | Inr updated \<Rightarrow> Inr updated)
      else
        (case removeManagedCrontabEntry lines priorName of
           Inl e \<Rightarrow> Inl e
         | Inr (pruned, _) \<Rightarrow> createOrAdoptManagedCrontabEntry pruned desired))"

definition crontabUpdateSameUser :: "'s cronHost \<Rightarrow> string \<Rightarrow> desiredCrontabEntry \<Rightarrow> 's \<Rightarrow> StateData res \<times> 's" where
  "crontabUpdateSameUser H priorName desired s =
     (case readUserCrontabLines H (de_User desired) s of
        (Inl e, s) \<Rightarrow> (Inl e, s)
      | (Inr lines, s) \<Rightarrow>
          (case updatedLines lines priorName desired of
             Inl e \<Rightarrow> (Inl e, s)
           | Inr updated \<Rightarrow>
               (case writeUserCrontabLines H (de_User desired) updated s of
                  (Some e, s) \<Rightarrow> (Inl e, s)
                | (None, s) \<Rightarrow> (Inr (desiredState desired), s))))"

definition crontabMoveUser :: "'s cronHost \<Rightarrow> string \<Rightarrow> string \<Rightarrow> desiredCrontabEntry \<Rightarrow> 's \<Rightarrow> StateData res \<times> 's" where
  "crontabMoveUser H priorUser priorName desired s =
     (case readUserCrontabLines H priorUser s of
        (Inl e, s) \<Rightarrow> (Inl e, s)
      | (Inr oldLines, s) \<Rightarrow>
          (case removeManagedCrontabEntry oldLines priorName of
             Inl e \<Rightarrow> (Inl e, s)
           | Inr (prunedOld, removedOld) \<Rightarrow>
               (case readUserCrontabLines H (de_User desired) s of
                  (Inl e, s) \<Rightarrow> (Inl e, s)
                | (Inr newLines, s) \<Rightarrow>
                    (case createOrAdoptManagedCrontabEntry newLines desired of
                       Inl e \<Rightarrow> (Inl e, s)
                     | Inr updatedNew \<Rightarrow>
                         (case writeUserCrontabLines H (de_User desired) updatedNew s of
                            (Some e, s) \<Rightarrow> (Inl e, s)
                          | (None, s) \<Rightarrow>
                              if removedOld then
                                (case writeUserCrontabLines H priorUser prunedOld s of
                                   (Some e, s) \<Rightarrow> (Inl e, s)
                                 | (None, s) \<Rightarrow> (Inr (desiredState desired), s))
                              else (Inr (desiredState desired), s))))))"

definition crontabUpdate :: "'s cronHost \<Rightarrow> StateData \<Rightarrow> StateData \<Rightarrow> 's \<Rightarrow> StateData res \<times> 's" where
  "crontabUpdate H prior plan s =
     (case desiredCrontabFromState plan of
        Inl e \<Rightarrow> (Inl e, s)
      | Inr desired \<Rightarrow>
          let priorName = TrimSpace (GetString prior ''name''); priorUser = TrimSpace (GetString prior ''user'') in
          if priorName = [] \<or> priorUser = [] then
            (Inl (Errorf ''prior state is missing required crontab identity''), s)
          else if priorUser = de_User desired then crontabUpdateSameUser H priorName desired s
          else crontabMoveUser H priorUser priorName desired s)"

definition crontabDelete :: "'s cronHost \<Rightarrow> StateData \<Rightarrow> 's \<Rightarrow> error option \<times> 's" where
  "crontabDelete H state s =
     (let name = TrimSpace (GetString state ''name''); user = TrimSpace (GetString state ''user'') in
      if name = [] \<or> user = [] then (None, s)
      else case readUserCrontabLines H user s of
        (Inl e, s) \<Rightarrow> (Some e, s)
      | (Inr lines, s) \<Rightarrow>
          (case removeManagedCrontabEntry lines name of
             Inl e \<Rightarrow> (Some e, s)
           | Inr (updated, removed) \<Rightarrow> if \<not> removed then (None, s) else writeUserCrontabLines H user updated s))"

definition crontabImportState :: "'s cronHost \<Rightarrow> string \<Rightarrow> 's \<Rightarrow> StateData res \<times> 's" where
  "crontabImportState H entryId s =
     (case Cut (CHR ''/'') (TrimSpace entryId) of
        None \<Rightarrow> (Inl (Errorf (''import ID must be in the format \"user/name\", got '' @ go_quote entryId)), s)
      | Some (user, name) \<Rightarrow>
          if TrimSpace user = [] \<or> TrimSpace name = [] then
            (Inl (Errorf (''import ID must be in the format \"user/name\", got '' @ go_quote entryId)), s)
          else case crontabRead H [(''user'', VStr user), (''name'', VStr name)] s of
            (Inl e, s) \<Rightarrow> (Inl e, s)
          | (Inr None, s) \<Rightarrow>
              (Inl (Errorf (''managed crontab entry '' @ go_quote name @ '' for user '' @ go_quote user @ '' not found'')), s)
          | (Inr (Some state), s) \<Rightarrow> (Inr state, s))"

subsection \<open>The entries as a map\<close>

text \<open>The markers of a list of lines with the job line each is followed by; \<open>nxt\<close> is the line after
  the list.\<close>

definition jobAfter :: "CrontabLine option \<Rightarrow> CrontabLine option" where
  "jobAfter nxt = (case nxt of Some l \<Rightarrow> if isCrontabJobLine l then Some l else None | None \<Rightarrow> None)"

definition headLine :: "CrontabLine list \<Rightarrow> CrontabLine option \<Rightarrow> CrontabLine option" where
  "headLine ls nxt = (case ls of [] \<Rightarrow> nxt | l # _ \<Rightarrow> Some l)"

fun entriesTill :: "CrontabLine list \<Rightarrow> CrontabLine option \<Rightarrow> (string \<times> CrontabLine option) list" where
  "entriesTill [] nxt = []"
| "entriesTill (l # ls) nxt =
     (case managedCrontabName l of
        None \<Rightarrow> entriesTill ls nxt
      | Some n \<Rightarrow> (n, jobAfter (headLine ls nxt)) # entriesTill ls nxt)"

text \<open>No line is a marker and a job at once (no parsed line is), the markers' names differ, and every
  marker has its job.\<close>

definition plainMarkers :: "CrontabLine list \<Rightarrow> bool" where
  "plainMarkers lines \<longleftrightarrow> (\<forall>l \<in> set lines. managedCrontabName l \<noteq> None \<longrightarrow> \<not> isCrontabJobLine l)"

definition wellManaged :: "CrontabLine list \<Rightarrow> bool" where
  "wellManaged lines \<longleftrightarrow> plainMarkers lines \<and> distinct (map fst (entriesTill lines None)) \<and>
     (\<forall>e \<in> set (entriesTill lines None). snd e \<noteq> None)"

definition jobKey :: "CrontabLine \<Rightarrow> string \<times> string" where
  "jobKey l = (TrimSpace (cl_Command l), cs_Canonical (scheduleFromCrontabLine l))"

definition entryMap :: "(string \<times> CrontabLine option) list \<Rightarrow> string \<Rightarrow> (string \<times> string) option" where
  "entryMap es name = (case map_of es name of Some (Some l) \<Rightarrow> Some (jobKey l) | _ \<Rightarrow> None)"

definition entries :: "CrontabLine list \<Rightarrow> string \<Rightarrow> (string \<times> string) option" where
  "entries lines = entryMap (entriesTill lines None)"

lemma headLine_simps [simp]: "headLine [] n = n" "headLine (l # ls) n = Some l"
  "headLine (u @ v) n = headLine u (headLine v n)"
  by (simp_all add: headLine_def split: list.split)

lemma entriesTill_append: "entriesTill (u @ v) n = entriesTill u (headLine v n) @ entriesTill v n"
  by (induction u) (auto split: option.splits)

lemma entriesTill_job: "jobAfter n = jobAfter n' \<Longrightarrow> entriesTill u n = entriesTill u n'"
proof (induction u)
  case (Cons l u)
  then show ?case by (cases u) (auto split: option.splits)
qed simp

lemma names_till: "fst ` set (entriesTill u n) = {m. \<exists>l \<in> set u. managedCrontabName l = Some m}"
  by (induction u) (auto split: option.splits)

definition blockAt :: "nat \<Rightarrow> CrontabLine option \<Rightarrow> managedCrontabBlock" where
  "blockAt i job =
     (case job of
        Some l \<Rightarrow> \<lparr>mb_MarkerIndex = i, mb_JobIndex = int i + 1, mb_HasJob = True, mb_Line = l\<rparr>
      | None \<Rightarrow> \<lparr>mb_MarkerIndex = i, mb_JobIndex = - 1, mb_HasJob = False, mb_Line = emptyLine\<rparr>)"

lemma findBlockFrom_skip:
  "\<forall>l \<in> set u. managedCrontabName l \<noteq> Some name \<Longrightarrow>
   findBlockFrom i (u @ v) name b = findBlockFrom (i + length u) v name b"
  by (induction u arbitrary: i) auto

lemma findBlock_marker:
  assumes "\<forall>l \<in> set u. managedCrontabName l \<noteq> Some name" "managedCrontabName m = Some name"
    and "\<forall>l \<in> set v. managedCrontabName l \<noteq> Some name"
  shows "findManagedCrontabBlock (u @ m # v) name = Inr (Some (blockAt (length u) (jobAfter (headLine v None))))"
proof -
  have "findBlockFrom j v name (Some b) = Inr (Some b)" for j b
    using findBlockFrom_skip [OF assms(3), of j "[]"] by simp
  then show ?thesis
    using findBlockFrom_skip [OF assms(1), of 0 "m # v"] assms(2)
    by (cases v) (auto simp: findManagedCrontabBlock_def blockAt_def jobAfter_def)
qed

lemma findBlock_none:
  assumes "\<forall>l \<in> set u. managedCrontabName l \<noteq> Some name"
  shows "findManagedCrontabBlock u name = Inr None"
  using findBlockFrom_skip [OF assms, of 0 "[]"] by (simp add: findManagedCrontabBlock_def)

lemma findBlock_split:
  assumes "distinct (map fst (entriesTill lines None))" "name \<in> fst ` set (entriesTill lines None)"
  obtains u m v where "lines = u @ m # v" "managedCrontabName m = Some name"
    "\<forall>l \<in> set u. managedCrontabName l \<noteq> Some name" "\<forall>l \<in> set v. managedCrontabName l \<noteq> Some name"
proof -
  from assms(2) obtain l where "l \<in> set lines" "managedCrontabName l = Some name" by (auto simp: names_till)
  then obtain u m v where s: "lines = u @ m # v" "managedCrontabName m = Some name"
    "\<forall>l \<in> set u. managedCrontabName l \<noteq> Some name"
    using split_list_first_prop [of lines "\<lambda>l. managedCrontabName l = Some name"] by blast
  have "name \<notin> fst ` set (entriesTill v None)"
    using assms(1) s(2) by (simp add: s(1) entriesTill_append)
  then have "\<forall>l \<in> set v. managedCrontabName l \<noteq> Some name" by (auto simp: names_till)
  with s show ?thesis by (rule that)
qed

lemma entriesTill_any:
  "u = [] \<or> managedCrontabName (last u) = None \<Longrightarrow> entriesTill u n = entriesTill u n'"
proof (induction u)
  case (Cons l u)
  then show ?case by (cases u) (auto split: option.splits)
qed simp

lemma last_not_marker:
  "\<forall>e \<in> set (entriesTill u n). snd e \<noteq> None \<Longrightarrow> jobAfter n = None \<Longrightarrow> u = [] \<or> managedCrontabName (last u) = None"
proof (induction u)
  case (Cons l u)
  then show ?case by (cases u) (auto split: option.splits)
qed simp

lemma job_not_marker: "plainMarkers lines \<Longrightarrow> l \<in> set lines \<Longrightarrow> isCrontabJobLine l \<Longrightarrow> managedCrontabName l = None"
  by (auto simp: plainMarkers_def)

lemma entryMap_insert:
  assumes "name \<notin> fst ` set (A @ B)"
  shows "entryMap (A @ (name, Some l) # B) = (entryMap (A @ B))(name \<mapsto> jobKey l)"
proof
  fix k
  show "entryMap (A @ (name, Some l) # B) k = ((entryMap (A @ B))(name \<mapsto> jobKey l)) k"
  proof (cases "k = name")
    case True
    have "name \<notin> fst ` set A" using assms by (simp add: image_Un)
    then have "map_of A name = None" by (simp only: map_of_eq_None_iff not_False_eq_True)
    with True show ?thesis by (simp add: entryMap_def map_add_def)
  next
    case False
    then show ?thesis by (cases "map_of A k") (simp_all add: entryMap_def map_add_def)
  qed
qed

lemma entryMap_absent: "name \<notin> fst ` set es \<Longrightarrow> entryMap es name = None"
  using map_of_eq_None_iff [of es name] by (simp add: entryMap_def)

lemma entryMap_present:
  "\<forall>e \<in> set es. snd e \<noteq> None \<Longrightarrow> name \<in> fst ` set es \<Longrightarrow> entryMap es name \<noteq> None"
  by (induction es) (auto simp: entryMap_def)

text \<open>A well managed crontab around the entry of a name.\<close>

lemma wellManaged_split:
  assumes wm: "wellManaged lines" and n: "name \<in> fst ` set (entriesTill lines None)"
  obtains u m j w where "lines = u @ m # j # w" "managedCrontabName m = Some name" "isCrontabJobLine j"
    "findManagedCrontabBlock lines name = Inr (Some (blockAt (length u) (Some j)))"
    "u = [] \<or> managedCrontabName (last u) = None" "name \<notin> fst ` set (entriesTill (u @ w) None)"
    "entriesTill lines None = entriesTill u None @ (name, Some j) # entriesTill w None"
proof -
  from wm have d: "distinct (map fst (entriesTill lines None))"
    and jobs: "\<forall>e \<in> set (entriesTill lines None). snd e \<noteq> None" and p: "plainMarkers lines"
    by (auto simp: wellManaged_def)
  from findBlock_split [OF d n] obtain u m v where s: "lines = u @ m # v" "managedCrontabName m = Some name"
    and u: "\<forall>l \<in> set u. managedCrontabName l \<noteq> Some name" and v: "\<forall>l \<in> set v. managedCrontabName l \<noteq> Some name" .
  have e: "entriesTill lines None = entriesTill u (Some m) @ (name, jobAfter (headLine v None)) # entriesTill v None"
    using s(2) by (simp add: s(1) entriesTill_append)
  with jobs have "jobAfter (headLine v None) \<noteq> None" by auto
  then obtain j w where w: "v = j # w" "isCrontabJobLine j"
    by (cases v) (auto simp: jobAfter_def split: if_splits)
  have ja: "jobAfter (headLine v None) = Some j" by (simp add: w jobAfter_def)
  have "\<not> isCrontabJobLine m" using p s by (auto simp: plainMarkers_def)
  then have "jobAfter (Some m) = None" by (simp add: jobAfter_def)
  then have lu: "u = [] \<or> managedCrontabName (last u) = None"
    using last_not_marker [of u "Some m"] jobs e by auto
  have jm: "managedCrontabName j = None" using job_not_marker [OF p, of j] w s(1) by simp
  have e': "entriesTill lines None = entriesTill u None @ (name, Some j) # entriesTill w None"
    using e ja jm entriesTill_any [OF lu, of "Some m" None] by (simp add: w(1))
  have "name \<notin> fst ` set (entriesTill (u @ w) None)"
    using u v w(1) by (auto simp: names_till)
  with findBlock_marker [OF u s(2) v] s w lu e' ja show ?thesis by (intro that) auto
qed

lemma replaceBlock_split: "replaceBlock (blockAt (length u) (Some j)) new (u @ m # j # w) = u @ new @ w"
  by (simp add: replaceBlock_def blockAt_def nat_add_distrib)

lemma wellManaged_names:
  assumes "wellManaged lines"
  shows "name \<in> fst ` set (entriesTill lines None) \<longleftrightarrow> name \<in> dom (entries lines)"
  using assms entryMap_present [of "entriesTill lines None" name] entryMap_absent [of name "entriesTill lines None"]
  unfolding entries_def wellManaged_def by (metis domIff)

lemma findBlock_absent:
  assumes "name \<notin> fst ` set (entriesTill lines None)"
  shows "findManagedCrontabBlock lines name = Inr None"
  using assms by (intro findBlock_none) (auto simp: names_till)

subsection \<open>Every operation does its work on the map\<close>

text \<open>A marker that is written reads back as the marker of its name; a job line is not a marker.\<close>

definition writtenJob :: "CrontabLine \<Rightarrow> bool" where
  "writtenJob l \<longleftrightarrow> isCrontabJobLine l \<and> \<not> cl_IsComment l"

definition writtenName :: "string \<Rightarrow> bool" where
  "writtenName name \<longleftrightarrow> managedCrontabName (managedCrontabMarker name) = Some name"

lemma marker_facts:
  "writtenJob l \<Longrightarrow> managedCrontabName l = None"
  "\<not> isCrontabJobLine (managedCrontabMarker name)"
  "jobAfter (Some (managedCrontabMarker name)) = None"
  "writtenJob l \<Longrightarrow> jobAfter (Some l) = Some l"
  by (simp_all add: writtenJob_def managedCrontabName_def isCrontabJobLine_def managedCrontabMarker_def
    emptyLine_def jobAfter_def)

lemma plainMarkers_append: "plainMarkers (u @ v) \<longleftrightarrow> plainMarkers u \<and> plainMarkers v"
  by (auto simp: plainMarkers_def)

lemma plainMarkers_written: "plainMarkers [managedCrontabMarker name]" "writtenJob l \<Longrightarrow> plainMarkers [l]"
  by (simp_all add: plainMarkers_def marker_facts)

text \<open>Putting an entry between lines that do not end in a marker.\<close>

lemma put_entry:
  assumes u: "u = [] \<or> managedCrontabName (last u) = None" and p: "plainMarkers (u @ l # w)"
    and l: "isCrontabJobLine l" and n: "writtenName name"
    and fresh: "name \<notin> fst ` set (entriesTill (u @ w) None)"
    and rest: "distinct (map fst (entriesTill u None @ entriesTill w None))"
      "\<forall>e \<in> set (entriesTill u None @ entriesTill w None). snd e \<noteq> None"
  shows "wellManaged (u @ managedCrontabMarker name # l # w) \<and>
     entries (u @ managedCrontabMarker name # l # w) =
       (entryMap (entriesTill u None @ entriesTill w None))(name \<mapsto> jobKey l)"
proof -
  let ?m = "managedCrontabMarker name"
  have lm: "managedCrontabName l = None" using job_not_marker [OF p, of l] l by simp
  have e: "entriesTill (u @ ?m # l # w) None = entriesTill u None @ (name, Some l) # entriesTill w None"
    using n l lm entriesTill_any [OF u, of "Some ?m" None]
    by (simp add: entriesTill_append writtenName_def jobAfter_def)
  have names: "fst ` set (entriesTill (u @ w) None) = fst ` set (entriesTill u None @ entriesTill w None)"
    by (auto simp: names_till image_Un)
  have "plainMarkers (u @ ?m # l # w)"
    using p plainMarkers_written(1) [of name] plainMarkers_append [of u "[?m] @ [l] @ w"] plainMarkers_append
    by (metis append_Cons append_Nil)
  moreover have "distinct (map fst (entriesTill (u @ ?m # l # w) None))"
    using rest(1) fresh unfolding e names by auto
  moreover have "\<forall>x \<in> set (entriesTill (u @ ?m # l # w) None). snd x \<noteq> None"
    using rest(2) unfolding e by auto
  moreover have "entries (u @ ?m # l # w) = (entryMap (entriesTill u None @ entriesTill w None))(name \<mapsto> jobKey l)"
    unfolding entries_def e by (rule entryMap_insert) (use fresh names in simp)
  ultimately show ?thesis by (simp add: wellManaged_def)
qed

lemma update_refines:
  assumes wm: "wellManaged lines" and l: "writtenJob l" "writtenName name"
    and up: "updateManagedCrontabEntry lines name l = Inr out"
  shows "wellManaged out \<and> name \<in> dom (entries lines) \<and> entries out = (entries lines)(name \<mapsto> jobKey l)"
proof -
  have n: "name \<in> fst ` set (entriesTill lines None)"
  proof (rule ccontr)
    assume "\<not> ?thesis"
    from findBlock_absent [OF this] up show False by (simp add: updateManagedCrontabEntry_def)
  qed
  from wellManaged_split [OF wm n] obtain u m j w where s: "lines = u @ m # j # w" "isCrontabJobLine j"
    and find: "findManagedCrontabBlock lines name = Inr (Some (blockAt (length u) (Some j)))"
    and lu: "u = [] \<or> managedCrontabName (last u) = None" and fresh: "name \<notin> fst ` set (entriesTill (u @ w) None)"
    and e: "entriesTill lines None = entriesTill u None @ (name, Some j) # entriesTill w None" by metis
  have out: "out = u @ managedCrontabMarker name # l # w"
    using up find replaceBlock_split [of u j _ m w] by (simp add: updateManagedCrontabEntry_def s(1))
  have p: "plainMarkers (u @ l # w)"
    using wm plainMarkers_written(2) [OF l(1)] by (auto simp: wellManaged_def plainMarkers_def s(1))
  have "distinct (map fst (entriesTill u None @ entriesTill w None))"
    "\<forall>x \<in> set (entriesTill u None @ entriesTill w None). snd x \<noteq> None"
    using wm e by (auto simp: wellManaged_def)
  from put_entry [OF lu p _ l(2) fresh this] l(1)
  have "wellManaged out \<and> entries out = (entryMap (entriesTill u None @ entriesTill w None))(name \<mapsto> jobKey l)"
    by (simp add: out writtenJob_def)
  moreover have "name \<notin> fst ` set (entriesTill u None @ entriesTill w None)"
    using fresh by (auto simp: names_till image_Un)
  then have "entries lines = (entryMap (entriesTill u None @ entriesTill w None))(name \<mapsto> jobKey j)"
    unfolding entries_def e by (rule entryMap_insert)
  ultimately show ?thesis by simp
qed

lemma remove_refines:
  assumes wm: "wellManaged lines" and rm: "removeManagedCrontabEntry lines name = Inr (out, removed)"
  shows "wellManaged out \<and> entries out = (entries lines)(name := None) \<and> (removed \<longleftrightarrow> name \<in> dom (entries lines))"
proof (cases "name \<in> fst ` set (entriesTill lines None)")
  case False
  then have "out = lines" "\<not> removed" using rm findBlock_absent [OF False] by (auto simp: removeManagedCrontabEntry_def)
  moreover have "name \<notin> dom (entries lines)" using wellManaged_names [OF wm] False by blast
  ultimately show ?thesis using wm by (auto simp: domIff)
next
  case n: True
  from wellManaged_split [OF wm n] obtain u m j w where s: "lines = u @ m # j # w"
    and find: "findManagedCrontabBlock lines name = Inr (Some (blockAt (length u) (Some j)))"
    and lu: "u = [] \<or> managedCrontabName (last u) = None" and fresh: "name \<notin> fst ` set (entriesTill (u @ w) None)"
    and e: "entriesTill lines None = entriesTill u None @ (name, Some j) # entriesTill w None" by metis
  have out: "out = u @ w" "removed"
    using rm find replaceBlock_split [of u j "[]" m w] by (simp_all add: removeManagedCrontabEntry_def s)
  have eo: "entriesTill out None = entriesTill u None @ entriesTill w None"
    using entriesTill_any [OF lu, of "headLine w None" None] by (simp add: out(1) entriesTill_append)
  have fr: "name \<notin> fst ` set (entriesTill u None @ entriesTill w None)"
    using fresh by (auto simp: names_till image_Un)
  have "entries lines = (entryMap (entriesTill u None @ entriesTill w None))(name \<mapsto> jobKey j)"
    unfolding entries_def e by (rule entryMap_insert [OF fr])
  moreover have "entryMap (entriesTill u None @ entriesTill w None) name = None"
    by (rule entryMap_absent [OF fr])
  ultimately have "entries out = (entries lines)(name := None)" "name \<in> dom (entries lines)"
    by (auto simp: entries_def eo)
  moreover have "plainMarkers out" using wm by (auto simp: wellManaged_def plainMarkers_def s out(1))
  with wm e have "wellManaged out" by (auto simp: wellManaged_def eo)
  ultimately show ?thesis using out(2) by simp
qed

lemma exact_match:
  assumes "index \<in> set (exactUnmanagedCrontabMatches lines desired)"
  obtains u l w where "lines = u @ l # w" "length u = index" "isCrontabJobLine l" "sameCrontabCommand l desired"
    "u = [] \<or> managedCrontabName (last u) = None"
proof -
  have i: "index < length lines" "isCrontabJobLine (lines ! index)" "sameCrontabCommand (lines ! index) desired"
    "index = 0 \<or> managedCrontabName (lines ! (index - 1)) = None"
    using assms by (auto simp: exactUnmanagedCrontabMatches_def)
  have "lines = take index lines @ lines ! index # drop (Suc index) lines" using i(1) by (simp add: id_take_nth_drop)
  moreover have "take index lines = [] \<or> managedCrontabName (last (take index lines)) = None"
  proof (cases "index = 0")
    case False
    with i(1) have "take index lines \<noteq> []" by auto
    then have "last (take index lines) = lines ! (index - 1)" using i(1) by (simp add: last_conv_nth min_def)
    with i(4) False show ?thesis by simp
  qed simp
  moreover have "length (take index lines) = index" using i(1) by simp
  ultimately show ?thesis using i(2,3) by (intro that) auto
qed

lemma create_refines:
  assumes wm: "wellManaged lines" and d: "writtenJob (de_Line d)" "writtenName (de_Name d)"
    and cr: "createOrAdoptManagedCrontabEntry lines d = Inr out"
  shows "wellManaged out \<and> de_Name d \<notin> dom (entries lines) \<and>
     entries out = (entries lines)(de_Name d \<mapsto> jobKey (de_Line d))"
proof -
  let ?n = "de_Name d" and ?m = "managedCrontabMarker (de_Name d)" and ?l = "de_Line d"
  have f: "findManagedCrontabBlock lines ?n = Inr None"
    using cr by (auto simp: createOrAdoptManagedCrontabEntry_def split: sum.splits option.splits)
  have n: "?n \<notin> fst ` set (entriesTill lines None)"
  proof
    assume "?n \<in> fst ` set (entriesTill lines None)"
    from wellManaged_split [OF wm this] f show False by (metis option.distinct(1) sum.inject(2))
  qed
  have p: "plainMarkers lines" and ds: "distinct (map fst (entriesTill lines None))"
    and js: "\<forall>x \<in> set (entriesTill lines None). snd x \<noteq> None"
    using wm by (auto simp: wellManaged_def)
  have nd: "?n \<notin> dom (entries lines)" using wellManaged_names [OF wm] n by blast
  consider "out = lines @ [?m, ?l]" | index where "exactUnmanagedCrontabMatches lines ?l = [index]"
      "out = take index lines @ [?m] @ drop index lines"
    using cr f by (auto simp: createOrAdoptManagedCrontabEntry_def split: list.splits)
  then show ?thesis
  proof cases
    case 1
    have "lines = [] \<or> managedCrontabName (last lines) = None"
      by (rule last_not_marker [OF js]) (simp add: jobAfter_def)
    moreover have "plainMarkers (lines @ [?l])"
      using p plainMarkers_written(2) [OF d(1)] by (simp add: plainMarkers_append)
    ultimately have "wellManaged (lines @ ?m # ?l # []) \<and>
        entries (lines @ ?m # ?l # []) = (entryMap (entriesTill lines None @ entriesTill [] None))(?n \<mapsto> jobKey ?l)"
      using d n ds js by (intro put_entry) (simp_all add: writtenJob_def)
    with 1 nd show ?thesis by (simp add: entries_def)
  next
    case 2
    then have "index \<in> set (exactUnmanagedCrontabMatches lines ?l)" by simp
    from exact_match [OF this] obtain u l w where s: "lines = u @ l # w" "length u = index" "isCrontabJobLine l"
      and same: "sameCrontabCommand l ?l" and lu: "u = [] \<or> managedCrontabName (last u) = None" .
    have lm: "managedCrontabName l = None" using job_not_marker [OF p _ s(3)] s(1) by simp
    have e: "entriesTill lines None = entriesTill u None @ entriesTill w None"
      using entriesTill_any [OF lu, of "Some l" None] lm by (simp add: s(1) entriesTill_append)
    have "?n \<notin> fst ` set (entriesTill (u @ w) None)" using n by (auto simp: names_till s(1))
    from put_entry [OF lu p [unfolded s(1)] s(3) d(2) this ds [unfolded e] js [unfolded e]]
    have "wellManaged (u @ ?m # l # w) \<and>
        entries (u @ ?m # l # w) = (entryMap (entriesTill u None @ entriesTill w None))(?n \<mapsto> jobKey l)" .
    moreover have "out = u @ ?m # l # w" using 2(2) s(2) by (simp add: s(1))
    moreover have "jobKey l = jobKey ?l" using same by (simp add: sameCrontabCommand_def jobKey_def)
    ultimately show ?thesis using nd by (simp add: entries_def e)
  qed
qed

text \<open>The operations on the lines and on the map.\<close>

datatype crontabOp =
    CreateEntry desiredCrontabEntry
  | UpdateEntry string CrontabLine
  | RemoveEntry string

primrec legalOp :: "crontabOp \<Rightarrow> bool" where
  "legalOp (CreateEntry d) = (writtenJob (de_Line d) \<and> writtenName (de_Name d))"
| "legalOp (UpdateEntry name l) = (writtenJob l \<and> writtenName name)"
| "legalOp (RemoveEntry name) = True"

definition okValue :: "'a res \<Rightarrow> 'a option" where
  "okValue r = (case r of Inl _ \<Rightarrow> None | Inr v \<Rightarrow> Some v)"

primrec lineOp :: "crontabOp \<Rightarrow> CrontabLine list \<Rightarrow> CrontabLine list option" where
  "lineOp (CreateEntry d) lines = okValue (createOrAdoptManagedCrontabEntry lines d)"
| "lineOp (UpdateEntry name l) lines = okValue (updateManagedCrontabEntry lines name l)"
| "lineOp (RemoveEntry name) lines = okValue (map_sum id fst (removeManagedCrontabEntry lines name))"

primrec mapOp :: "crontabOp \<Rightarrow> (string \<Rightarrow> (string \<times> string) option) \<Rightarrow> (string \<Rightarrow> (string \<times> string) option) option" where
  "mapOp (CreateEntry d) m =
     (if m (de_Name d) \<noteq> None then None else Some (m(de_Name d \<mapsto> jobKey (de_Line d))))"
| "mapOp (UpdateEntry name l) m = (if m name = None then None else Some (m(name \<mapsto> jobKey l)))"
| "mapOp (RemoveEntry name) m = Some (m(name := None))"

lemma okValue_Some: "okValue r = Some v \<longleftrightarrow> r = Inr v"
  by (cases r) (auto simp: okValue_def)

lemma lineOp_refines:
  assumes "wellManaged s" "legalOp x" "lineOp x s = Some t"
  shows "wellManaged t \<and> mapOp x (entries s) = Some (entries t)"
proof (cases x)
  case (CreateEntry d)
  with assms create_refines [of s d t] show ?thesis by (auto simp: okValue_Some)
next
  case (UpdateEntry name l)
  with assms update_refines [of s l name t] show ?thesis by (auto simp: okValue_Some)
next
  case (RemoveEntry name)
  with assms(3) obtain removed where "removeManagedCrontabEntry s name = Inr (t, removed)"
    by (cases "removeManagedCrontabEntry s name") (auto simp: okValue_Some)
  with RemoveEntry remove_refines [OF assms(1)] show ?thesis by auto
qed

interpretation managed_crontab: refined_ops entries wellManaged legalOp lineOp mapOp
  by unfold_locales (use lineOp_refines in blast)+

subsection \<open>What a configuration and a crontab file give\<close>

lemma nameChar_plain: "nameChar c \<Longrightarrow> \<not> ascii_space c \<and> (of_char c :: nat) < 128"
  by (auto simp: nameChar_def ascii_space_def less_eq_char_def)

lemma nameChar_end: "nameChar c \<Longrightarrow> space_at_end (c # s) = 0"
proof -
  assume "nameChar c"
  from nameChar_plain [OF this] have "\<not> ascii_space c" "(of_char c :: nat) < 128" by auto
  then have "\<not> space2 b c" "\<not> space3 a b c" for a b by (auto simp: space2_def space3_def)
  with \<open>\<not> ascii_space c\<close> show ?thesis by (simp split: list.split)
qed

lemma nameChar_start: "nameChar c \<Longrightarrow> space_at_start (c # s) = 0"
proof -
  assume "nameChar c"
  from nameChar_plain [OF this] have "\<not> ascii_space c" "(of_char c :: nat) < 128" by auto
  then have "\<not> space2 c b" "\<not> space3 c a b" for a b by (auto simp: space2_def space3_def)
  with \<open>\<not> ascii_space c\<close> show ?thesis by (simp split: list.split)
qed

lemma valid_name_end: "isValidCrontabResourceName name \<Longrightarrow> space_at_end (rev name @ s) = 0"
proof -
  assume v: "isValidCrontabResourceName name"
  then obtain c r where "rev name = c # r" by (cases "rev name") (auto simp: isValidCrontabResourceName_def)
  moreover from this have "c \<in> set name" by (metis list.set_intros(1) set_rev)
  ultimately show ?thesis using v nameChar_end by (auto simp: isValidCrontabResourceName_def list_all_iff)
qed

lemma valid_name_trimmed: "isValidCrontabResourceName name \<Longrightarrow> TrimSpace name = name"
proof (rule TrimSpace_keep)
  assume v: "isValidCrontabResourceName name"
  then show "space_at_start name = 0"
    using nameChar_start by (cases name) (auto simp: isValidCrontabResourceName_def)
  show "space_at_end (rev name) = 0" using valid_name_end [OF v, of "[]"] by simp
qed

lemma valid_name_written: "isValidCrontabResourceName name \<Longrightarrow> writtenName name"
proof -
  assume v: "isValidCrontabResourceName name"
  let ?p = crontabManagedMarkerPrefix
  have "TrimSpace (?p @ name) = ?p @ name"
  proof (rule TrimSpace_keep)
    show "space_at_start (?p @ name) = 0" by (simp add: crontabManagedMarkerPrefix_def ascii_space_def space2_def space3_def)
    show "space_at_end (rev (?p @ name)) = 0" using valid_name_end [OF v] by simp
  qed
  moreover have "?p @ name \<noteq> []" using v by (simp add: isValidCrontabResourceName_def)
  ultimately show ?thesis using v valid_name_trimmed [OF v]
    by (simp add: writtenName_def managedCrontabName_def managedCrontabMarker_def emptyLine_def HasPrefix_def TrimPrefix_def)
qed

lemma parsed_plainMarkers: "plainMarkers (Parse content)"
proof -
  have "\<not> isCrontabJobLine (parseLine l)" if "cl_IsComment (parseLine l)" for l
    using that by (auto simp: parseLine_def emptyLine_def isCrontabJobLine_def Let_def split: if_splits option.splits)
  then show ?thesis by (auto simp: plainMarkers_def Parse_def managedCrontabName_def)
qed

lemma scheduleFields_job:
  assumes "parseCronScheduleFields a b c d e = Inr s" "TrimSpace command \<noteq> []"
  shows "writtenJob (scheduleLine s command)"
proof -
  have s: "cs_Minute s = TrimSpace a" "cs_Hour s = TrimSpace b" "cs_DayOfMonth s = TrimSpace c"
    "cs_Month s = TrimSpace d" "cs_DayOfWeek s = TrimSpace e" "cs_Special s = []"
    and ne: "TrimSpace a \<noteq> []" "TrimSpace b \<noteq> []" "TrimSpace c \<noteq> []" "TrimSpace d \<noteq> []" "TrimSpace e \<noteq> []"
    using assms(1) by (auto simp: parseCronScheduleFields_def Let_def split: option.splits if_splits)
  then show ?thesis
    using assms(2) by (simp add: writtenJob_def isCrontabJobLine_def scheduleLine_def emptyLine_def TrimSpace_idem)
qed

text \<open>Trimming keeps every ASCII character that is not white space.\<close>

lemma trim_by_solid:
  assumes "\<And>s. c \<notin> set (take (sp s) s)"
  shows "c \<in> set s \<Longrightarrow> c \<in> set (trim_by sp s)"
  using assms
proof (induction sp s rule: trim_by.induct)
  case (1 sp s)
  show ?case
  proof (cases "s = [] \<or> sp s = 0")
    case True
    then show ?thesis using "1.prems" by (simp add: trim_by.simps [of sp s])
  next
    case False
    have "c \<in> set (drop (sp s) s)"
      using "1.prems"(1) "1.prems"(2) [of s] set_append [of "take (sp s) s" "drop (sp s) s"]
      by (simp only: append_take_drop_id) blast
    with "1.IH" [OF False] "1.prems"(2) False show ?thesis by (simp add: trim_by.simps [of sp s])
  qed
qed

lemma at_not_space: "CHR ''@'' \<notin> set (take (space_at_start s) s)" "CHR ''@'' \<notin> set (take (space_at_end s) s)"
  by (cases s rule: space_at_start.cases;
      auto simp: ascii_space_def space2_def space3_def numeral_eq_Suc split: list.splits if_splits)+

lemma hash_not_space: "CHR ''#'' \<notin> set (take (space_at_start s) s)" "CHR ''#'' \<notin> set (take (space_at_end s) s)"
  by (cases s rule: space_at_start.cases;
      auto simp: ascii_space_def space2_def space3_def numeral_eq_Suc split: list.splits if_splits)+

lemma solid_not_space:
  "c \<in> {CHR ''@'', CHR ''#''} \<Longrightarrow> c \<notin> set (take (space_at_start s) s)"
  "c \<in> {CHR ''@'', CHR ''#''} \<Longrightarrow> c \<notin> set (take (space_at_end s) s)"
  using at_not_space hash_not_space by (metis insertE singletonD)+

lemma TrimSpace_solid: "c \<in> {CHR ''@'', CHR ''#''} \<Longrightarrow> c \<in> set s \<Longrightarrow> c \<in> set (TrimSpace s)"
  using trim_by_solid [of c space_at_start s] trim_by_solid [of c space_at_end "rev (trim_by space_at_start s)"]
    solid_not_space [of c] by (simp add: TrimSpace_def)

lemma special_token:
  assumes "TrimSpace value = value" "HasPrefix value ''@''"
  shows "\<exists>t. Fields value ! 0 = CHR ''@'' # t \<and> Fields value ! 0 = wordPrefix value"
proof -
  from assms(2) obtain s where v: "value = CHR ''@'' # s" by (cases "value") (auto simp: HasPrefix_def)
  have z: "space_at_start (CHR ''@'' # t) = 0" for t
    by (auto simp: ascii_space_def space2_def space3_def split: list.split)
  have "trim_by space_at_start value = value" unfolding v by (rule trim_by_keep) (rule z)
  then have "Fields value ! 0 = wordPrefix value" by (subst Fields.simps) (simp add: v)
  moreover have "wordPrefix value = CHR ''@'' # wordPrefix s" by (simp only: v wordPrefix.simps z) simp
  ultimately show ?thesis by simp
qed

lemma scheduleString_job:
  assumes "parseCronScheduleString text0 = Inr s" "TrimSpace command \<noteq> []"
  shows "writtenJob (scheduleLine s command)"
proof (cases "HasPrefix (TrimSpace text0) ''@''")
  case True
  let ?v = "TrimSpace text0"
  have s: "s = emptySchedule\<lparr>cs_Canonical := ToLower (Fields ?v ! 0), cs_Special := ToLower (Fields ?v ! 0)\<rparr>"
    using assms(1) True by (auto simp: parseCronScheduleString_def Let_def split: if_splits)
  from special_token [OF TrimSpace_idem True] obtain t where "Fields ?v ! 0 = CHR ''@'' # t" by blast
  then have "CHR ''@'' \<in> set (Fields ?v ! 0)" by simp
  then have "CHR ''@'' \<in> set (ToLower (Fields ?v ! 0))"
    by (force simp: ToLower_def ascii_lower_def image_iff intro: bexI [where x = "CHR ''@''"])
  then have "CHR ''@'' \<in> set (TrimSpace (cs_Special s))" "cs_Special s \<noteq> []"
    by (auto simp: s emptySchedule_def TrimSpace_solid)
  then have "TrimSpace (cs_Special s) \<noteq> []" "cs_Special s \<noteq> []" by auto
  then show ?thesis using assms(2)
    by (simp add: writtenJob_def isCrontabJobLine_def scheduleLine_def emptyLine_def TrimSpace_idem)
next
  case False
  with assms(1) have "parseCronScheduleFields (Fields (TrimSpace text0) ! 0) (Fields (TrimSpace text0) ! 1)
      (Fields (TrimSpace text0) ! 2) (Fields (TrimSpace text0) ! 3) (Fields (TrimSpace text0) ! 4) = Inr s"
    by (simp add: parseCronScheduleString_def Let_def split: if_splits)
  then show ?thesis using assms(2) by (rule scheduleFields_job)
qed

lemma desired_legal:
  assumes "desiredCrontabFromState state = Inr d"
  shows "legalOp (CreateEntry d)"
proof -
  let ?c = "TrimSpace (GetString state ''command'')"
  obtain s where s: "scheduleFromConfig state = Inr s" "de_Line d = scheduleLine s ?c" "?c \<noteq> []"
    and n: "isValidCrontabResourceName (de_Name d)"
    using assms by (auto simp: desiredCrontabFromState_def Let_def split: if_splits sum.splits)
  have c: "TrimSpace ?c \<noteq> []" using s(3) by (simp add: TrimSpace_idem)
  have "(\<exists>t. parseCronScheduleString t = Inr s) \<or> (\<exists>a b c d e. parseCronScheduleFields a b c d e = Inr s)"
    using s(1) by (auto simp: scheduleFromConfig_def Let_def split: if_splits)
  then have "writtenJob (de_Line d)"
    using s(2) scheduleString_job [OF _ c] scheduleFields_job [OF _ c] by metis
  with n show ?thesis by (simp add: valid_name_written)
qed

text \<open>A look-up finds the entry of the map.\<close>

lemma find_reads_map:
  assumes "wellManaged lines"
  shows "(case findManagedCrontabBlock lines name of
            Inl e \<Rightarrow> False
          | Inr None \<Rightarrow> entries lines name = None
          | Inr (Some b) \<Rightarrow> mb_HasJob b \<and> entries lines name = Some (jobKey (mb_Line b)))"
proof (cases "name \<in> fst ` set (entriesTill lines None)")
  case False
  then show ?thesis using findBlock_absent [OF False] wellManaged_names [OF assms, of name] by (auto simp: domIff)
next
  case True
  from wellManaged_split [OF assms True] obtain u j w
    where f: "findManagedCrontabBlock lines name = Inr (Some (blockAt (length u) (Some j)))"
    and fresh: "name \<notin> fst ` set (entriesTill (u @ w) None)"
    and e: "entriesTill lines None = entriesTill u None @ (name, Some j) # entriesTill w None" by metis
  have "name \<notin> fst ` set (entriesTill u None @ entriesTill w None)" using fresh by (auto simp: names_till image_Un)
  then have "entries lines = (entryMap (entriesTill u None @ entriesTill w None))(name \<mapsto> jobKey j)"
    unfolding entries_def e by (rule entryMap_insert)
  with f show ?thesis by (simp add: blockAt_def)
qed

text \<open>C9: The managed entries of a crontab are a map from names to jobs. Any sequence of creating,
  updating and removing entries that succeeds on its lines keeps every name's marker with its own job
  and does on that map exactly what it says, touching no other entry.\<close>

theorem crontab_refines_map:
  assumes "wellManaged lines" and "list_all legalOp ops" and "run_ops lineOp ops lines = Some out"
  shows "wellManaged out \<and> run_ops mapOp ops (entries lines) = Some (entries out)"
  using assms by (rule managed_crontab.run_refines)

definition demo_plan :: StateData where
  "demo_plan = [(''name'', VStr ''b''), (''user'', VStr ''tf''), (''command'', VStr ''/b''), (''schedule'', VStr ''0 2 * * *'')]"

definition demo_job :: CrontabLine where
  "demo_job = emptyLine\<lparr>cl_Minute := ''0'', cl_Hour := ''2'', cl_DayOfMonth := ''*'', cl_Month := ''*'', cl_DayOfWeek := ''*'',
     cl_Command := ''/b''\<rparr>"

definition demo_daily :: CrontabLine where
  "demo_daily = emptyLine\<lparr>cl_Special := ''@daily'', cl_Command := ''/c''\<rparr>"

definition demo_desired :: desiredCrontabEntry where
  "demo_desired = \<lparr>de_Name = ''b'', de_User = ''tf'', de_Command = ''/b'',
     de_Schedule = emptySchedule\<lparr>cs_Canonical := ''0 2 * * *'', cs_Minute := ''0'', cs_Hour := ''2'', cs_DayOfMonth := ''*'',
       cs_Month := ''*'', cs_DayOfWeek := ''*''\<rparr>, de_Line = demo_job\<rparr>"

lemma demo_desired: "desiredCrontabFromState demo_plan = Inr demo_desired"
  by code_simp

definition demo_ops :: "crontabOp list" where
  "demo_ops = [CreateEntry demo_desired, UpdateEntry ''b'' demo_daily, RemoveEntry ''x'']"

lemma demo_run:
  "list_all legalOp demo_ops" "wellManaged [demo_job]"
  "run_ops lineOp demo_ops [demo_job] = Some [managedCrontabMarker ''b'', demo_daily]"
  by code_simp+

theorem crontab_refines_map_witness:
  "wellManaged [managedCrontabMarker ''b'', demo_daily] \<and>
   run_ops mapOp demo_ops (entries [demo_job]) = Some (entries [managedCrontabMarker ''b'', demo_daily])"
  by (rule crontab_refines_map [OF demo_run(2,1,3)])

subsection \<open>A marker without its job\<close>

lemma entry_id_trimmed:
  assumes "TrimSpace user = user" "user \<noteq> []" "isValidCrontabResourceName name"
  shows "TrimSpace (user @ ''/'' @ name) = user @ ''/'' @ name"
proof (rule TrimSpace_keep)
  have "space_at_end (rev name @ rev (user @ ''/'')) = 0" by (rule valid_name_end [OF assms(3)])
  then show "space_at_end (rev (user @ ''/'' @ name)) = 0" by simp
  show "space_at_start (user @ ''/'' @ name) = 0"
  proof (cases user)
    case (Cons a v)
    with TrimSpace_start [OF assms(1,2)] show ?thesis
      by (cases v; cases "tl v") (auto simp: space2_def space3_def split: if_splits list.splits)
  qed (use assms(2) in simp)
qed

text \<open>When the job line after an entry's marker was deleted by hand, the entry reads as gone, yet
  creating it again is refused because it must be imported first, and importing it fails because it is
  not found.\<close>

lemma orphan_marker_stuck:
  assumes d: "desiredCrontabFromState plan = Inr d"
    and read: "readUserCrontabLines H (de_User d) s = (Inr lines, s')"
    and orphan: "findManagedCrontabBlock lines (de_Name d) = Inr (Some block)" "\<not> mb_HasJob block"
    and slash: "CHR ''/'' \<notin> set (de_User d)"
  shows "crontabRead H plan s = (Inr None, s') \<and>
    crontabCreate H plan s = (Inl (importRequiredError ''crontab entry'' (crontabEntryID (de_User d) (de_Name d))), s') \<and>
    crontabImportState H (crontabEntryID (de_User d) (de_Name d)) s =
      (Inl (Errorf (''managed crontab entry '' @ go_quote (de_Name d) @ '' for user '' @ go_quote (de_User d) @ '' not found'')), s')"
proof -
  have n: "de_Name d = TrimSpace (GetString plan ''name'')" "de_User d = TrimSpace (GetString plan ''user'')"
    "isValidCrontabResourceName (de_Name d)" "de_User d \<noteq> []"
    using d by (auto simp: desiredCrontabFromState_def Let_def split: if_splits sum.splits)
  have ne: "de_Name d \<noteq> []" using n(3) by (auto simp: isValidCrontabResourceName_def)
  have rd: "crontabRead H p s = (Inr None, s')"
    if "TrimSpace (GetString p ''name'') = de_Name d" "TrimSpace (GetString p ''user'') = de_User d" for p
    using that n(4) ne read orphan by (simp add: crontabRead_def)
  have tr: "TrimSpace (de_Name d) = de_Name d" "TrimSpace (de_User d) = de_User d"
    using n(1,2) TrimSpace_idem by metis+
  have un: "TrimSpace (de_User d @ ''/'' @ de_Name d) = de_User d @ ''/'' @ de_Name d"
    by (rule entry_id_trimmed [OF tr(2) n(4,3)])
  have "Cut (CHR ''/'') (de_User d @ CHR ''/'' # de_Name d) = Some (de_User d, de_Name d)"
    using slash by (rule Cut_append)
  moreover have "crontabRead H [(''user'', VStr (de_User d)), (''name'', VStr (de_Name d))] s = (Inr None, s')"
    by (rule rd) (simp_all add: GetString_def tr)
  ultimately have "crontabImportState H (crontabEntryID (de_User d) (de_Name d)) s =
      (Inl (Errorf (''managed crontab entry '' @ go_quote (de_Name d) @ '' for user '' @ go_quote (de_User d) @ '' not found'')), s')"
    using un ne n(4) tr by (simp add: crontabImportState_def crontabEntryID_def)
  moreover have "crontabCreate H plan s =
      (Inl (importRequiredError ''crontab entry'' (crontabEntryID (de_User d) (de_Name d))), s')"
    using d read orphan by (simp add: crontabCreate_def createOrAdoptManagedCrontabEntry_def)
  moreover have "crontabRead H plan s = (Inr None, s')" by (rule rd) (simp_all add: n(1,2))
  ultimately show ?thesis by blast
qed

definition demo_orphanHost :: "unit cronHost" where
  "demo_orphanHost =
     \<lparr>ch_hasCommand = (\<lambda>_. Inr True),
      ch_exec = (\<lambda>_ s. (Inr \<lparr>cr_Stdout = crontabManagedMarkerPrefix @ ''b'' @ [CHR 0x0A], cr_Stderr = [], cr_ExitCode = 0\<rparr>, s)),
      ch_writeTemp = (\<lambda>_ _ s. (Inr ''/tmp/x'', s)), ch_cleanup = (\<lambda>_ s. s)\<rparr>"

definition demo_orphan :: CrontabLine where
  "demo_orphan = parseLine (crontabManagedMarkerPrefix @ ''b'')"

lemma demo_orphan_read:
  "readUserCrontabLines demo_orphanHost (de_User demo_desired) () = (Inr [demo_orphan], ())"
  "findManagedCrontabBlock [demo_orphan] (de_Name demo_desired) = Inr (Some (blockAt 0 None))"
  "\<not> mb_HasJob (blockAt 0 None)" "CHR ''/'' \<notin> set (de_User demo_desired)"
  by code_simp+

lemma orphan_marker_stuck_witness:
  "crontabRead demo_orphanHost demo_plan () = (Inr None, ()) \<and>
   crontabCreate demo_orphanHost demo_plan () =
     (Inl (importRequiredError ''crontab entry'' (crontabEntryID (de_User demo_desired) (de_Name demo_desired))), ())"
  using orphan_marker_stuck [OF demo_desired demo_orphan_read(1,2,3,4)] by blast

text \<open>Deleting an entry between a marker that lost its job and a job nobody manages makes that job
  the entry of the other marker: the next deletion of the other entry removes it from the crontab.\<close>

lemma orphan_adopts_unmanaged_job:
  "let lines = [managedCrontabMarker ''a'', managedCrontabMarker ''b'', demo_job, demo_daily];
       rest = [managedCrontabMarker ''a'', demo_daily]
   in map_sum id (map_option mb_HasJob) (findManagedCrontabBlock lines ''a'') = Inr (Some False) \<and>
      removeManagedCrontabEntry lines ''b'' = Inr (rest, True) \<and>
      map_sum id (map_option mb_Line) (findManagedCrontabBlock rest ''a'') = Inr (Some demo_daily) \<and>
      removeManagedCrontabEntry rest ''a'' = Inr ([], True)"
  by code_simp

end
