(* ===== verification/CrontabHost.thy ===== *)
theory CrontabHost
  imports CrontabEntries
begin

text \<open>
  guest/packs/linux/files_config/crontab.go over a host: what the resource writes is what it reads
  again. The \<open>crontab\<close> program and the temporary file are external; \<open>crontab_program\<close> states what
  they do to the users' crontabs.
\<close>

text \<open>\<open>tab\<close> is a user's crontab, \<open>file\<close> the contents of a temporary file.\<close>

definition crontab_program ::
    "'s cronHost \<Rightarrow> ('s \<Rightarrow> string \<Rightarrow> string option) \<Rightarrow> ('s \<Rightarrow> string \<Rightarrow> string option) \<Rightarrow> bool" where
  "crontab_program H tab file \<longleftrightarrow>
     (\<forall>s. ch_hasCommand H s = Inr True) \<and>
     (\<forall>s u. \<exists>s' out. ch_exec H [''-u'', u, ''-l''] s = (Inr out, s') \<and> tab s' = tab s \<and>
        (case tab s u of
           Some c \<Rightarrow> cr_ExitCode out = 0 \<and> cr_Stdout out = c
         | None \<Rightarrow> cr_ExitCode out \<noteq> 0 \<and> isNoCrontabResult out)) \<and>
     (\<forall>s p c. \<exists>path s'. ch_writeTemp H p c s = (Inr path, s') \<and> tab s' = tab s \<and> file s' path = Some c \<and>
        path \<noteq> ''-l'' \<and> path \<noteq> ''-r'') \<and>
     (\<forall>s u path c. file s path = Some c \<longrightarrow> path \<noteq> ''-l'' \<longrightarrow> path \<noteq> ''-r'' \<longrightarrow>
        (\<exists>s' out. ch_exec H [''-u'', u, path] s = (Inr out, s') \<and> cr_ExitCode out = 0 \<and> tab s' = (tab s)(u \<mapsto> c))) \<and>
     (\<forall>s u. \<exists>s' out. ch_exec H [''-u'', u, ''-r''] s = (Inr out, s') \<and> cr_ExitCode out = 0 \<and> tab s' = (tab s)(u := None)) \<and>
     (\<forall>s path. tab (ch_cleanup H path s) = tab s)"

subsection \<open>Lines that read back\<close>

text \<open>A line whose printed form is read as a line that plays the same part: the same marker, a job with
  the same key, or neither.\<close>

definition rereads :: "CrontabLine \<Rightarrow> bool" where
  "rereads l \<longleftrightarrow>
     plain (serializeLine l) \<and> \<not> isReadHeader (serializeLine l) \<and>
     managedCrontabName (parseLine (serializeLine l)) = managedCrontabName l \<and>
     isCrontabJobLine (parseLine (serializeLine l)) = isCrontabJobLine l \<and>
     (isCrontabJobLine l \<longrightarrow> jobKey (parseLine (serializeLine l)) = jobKey l)"

lemma comment_prefix: "HasPrefix (TrimSpace s) ''#'' \<longleftrightarrow> cl_IsComment (parseLine s)"
  by (auto simp: parseLine_def emptyLine_def Let_def HasPrefix_def split: option.splits)

lemma comment_raw: "cl_IsComment (parseLine s) \<Longrightarrow> serializeLine (parseLine s) = s"
  by (auto simp: parseLine_def serializeLine_def emptyLine_def Let_def split: option.splits if_splits)

lemma rereads_parsed: "plain x \<Longrightarrow> \<not> isReadHeader x \<Longrightarrow> rereads (parseLine x)"
proof -
  assume x: "plain x" "\<not> isReadHeader x"
  note p = parse_serialize_line [OF x(1)]
  have "\<not> isReadHeader (serializeLine (parseLine x))"
    using x(2) p comment_prefix [of "serializeLine (parseLine x)"] comment_raw [of x]
    by (metis isReadHeader_def)
  with p show ?thesis by (simp add: rereads_def)
qed

text \<open>The marker is never taken for the header of \<open>crontab -l\<close>: it has too few spaces.\<close>

lemma Contains_split: "Contains s p \<Longrightarrow> \<exists>a b. s = a @ p @ b"
proof (induction s)
  case Nil
  then show ?case by (auto intro: exI [of _ "[]"])
next
  case (Cons c s)
  show ?case
  proof (cases "HasPrefix (c # s) p")
    case True
    then have "c # s = [] @ p @ drop (length p) (c # s)" by (metis HasPrefix_def append_Nil append_take_drop_id)
    then show ?thesis by blast
  next
    case False
    with Cons obtain a b where "s = a @ p @ b" by auto
    then have "c # s = (c # a) @ p @ b" by simp
    then show ?thesis by blast
  qed
qed

definition spaces :: "string \<Rightarrow> nat" where
  "spaces s = length (filter (\<lambda>c. c = CHR '' '') s)"

lemma spaces_Contains: "Contains s p \<Longrightarrow> spaces p \<le> spaces s"
  using Contains_split by (fastforce simp: spaces_def)

lemma spaces_ToUpper: "spaces (ToUpper s) = spaces s"
proof -
  have "(char_of ((of_char c :: nat) - 32) :: char) \<noteq> CHR '' ''" if "97 \<le> (of_char c :: nat)" "(of_char c :: nat) \<le> 122" for c :: char
  proof
    assume "(char_of ((of_char c :: nat) - 32) :: char) = CHR '' ''"
    then have "(of_char (char_of ((of_char c :: nat) - 32) :: char) :: nat) = 32" by simp
    with that show False by simp
  qed
  then have "(if 97 \<le> (of_char c :: nat) \<and> (of_char c :: nat) \<le> 122 then char_of ((of_char c :: nat) - 32) else c) = CHR '' ''
      \<longleftrightarrow> c = CHR '' ''" for c :: char by auto
  then show ?thesis by (simp add: spaces_def ToUpper_def filter_map comp_def)
qed

lemma nameChar_facts: "nameChar c \<Longrightarrow> c \<noteq> CHR '' ''" "nameChar c \<Longrightarrow> \<not> isSpace c"
  by (auto simp: nameChar_def isSpace_def)

lemma plain_name: "list_all nameChar s \<Longrightarrow> plain s"
  by (induction s) (simp_all add: nameChar_start del: space_at_start.simps)

lemma plain_prefix_name: "list_all nameChar s \<Longrightarrow> plain (crontabManagedMarkerPrefix @ s)"
proof -
  assume "list_all nameChar s"
  then have "plain s" by (rule plain_name)
  then show ?thesis
    by (auto simp: crontabManagedMarkerPrefix_def ascii_space_def space2_def space3_def isSpace_def split: list.split)
qed

lemma rereads_marker:
  assumes v: "isValidCrontabResourceName name"
  shows "rereads (managedCrontabMarker name)"
proof -
  let ?t = "crontabManagedMarkerPrefix @ name" and ?m = "managedCrontabMarker name"
  have w: "writtenName name" by (rule valid_name_written [OF v])
  have tt: "TrimSpace ?t = ?t"
  proof (rule TrimSpace_keep)
    show "space_at_start ?t = 0" by (simp add: crontabManagedMarkerPrefix_def ascii_space_def space2_def space3_def)
    show "space_at_end (rev ?t) = 0" using valid_name_end [OF v] by simp
  qed
  have pre: "HasPrefix ?t ''#''" "crontabManagedMarkerPrefix \<noteq> []" by (simp_all add: crontabManagedMarkerPrefix_def HasPrefix_def)
  have ser: "serializeLine ?m = ?t"
    using tt pre by (simp add: serializeLine_def managedCrontabMarker_def emptyLine_def commentText_def)
  have par: "parseLine ?t = emptyLine\<lparr>cl_IsComment := True, cl_Comment := ?t, cl_Raw := ?t\<rparr>"
    using tt pre by (simp add: parseLine_def Let_def)
  have "managedCrontabName (parseLine ?t) = managedCrontabName ?m"
    using tt pre(2) by (simp add: par managedCrontabName_def managedCrontabMarker_def emptyLine_def)
  moreover have "\<not> isReadHeader ?t"
  proof
    assume "isReadHeader ?t"
    then have "Contains (ToUpper ?t) ''DO NOT EDIT THIS FILE''" by (simp add: isReadHeader_def tt)
    from spaces_Contains [OF this] have "spaces ''DO NOT EDIT THIS FILE'' \<le> spaces ?t" by (simp only: spaces_ToUpper)
    moreover have "spaces name = 0"
      using v nameChar_facts(1) by (auto simp: spaces_def isValidCrontabResourceName_def list_all_iff filter_empty_conv)
    ultimately show False by (simp add: spaces_def crontabManagedMarkerPrefix_def)
  qed
  moreover have "plain ?t" using v by (simp add: isValidCrontabResourceName_def plain_prefix_name)
  moreover have "\<not> isCrontabJobLine (parseLine ?t)" by (simp add: par isCrontabJobLine_def emptyLine_def)
  ultimately show ?thesis using marker_facts(2) [of name] by (simp add: rereads_def ser)
qed

subsection \<open>A crontab that reads back\<close>

lemma Split_other: "c \<notin> set s \<Longrightarrow> Split c s = [s]"
  by (induction s) auto

lemma dropCR_id: "CHR 0x0D \<notin> set s \<Longrightarrow> dropCR s = s"
  by (induction s rule: dropCR.induct) auto

lemma plain_CR: "plain s \<Longrightarrow> CHR 0x0D \<notin> set s"
proof (induction s)
  case (Cons c s)
  have "isSpace c" if "c = CHR 0x0D"
    using Cons.prems that by (auto simp: ascii_space_def)
  with Cons show ?case by (auto simp: isSpace_def simp del: space_at_start.simps)
qed simp

lemma set_joinWith: "set (joinWith sep xs) \<subseteq> set sep \<union> \<Union> (set (map set xs))"
  by (induction xs rule: induct_list012) auto

text \<open>The text that is installed is read as the printed lines.\<close>

lemma reread_lines:
  assumes "lines \<noteq> []" "\<forall>l \<in> set lines. rereads l"
  shows "Parse (stripCrontabReadHeaders (Serialize lines)) = map (\<lambda>l. parseLine (serializeLine l)) lines"
proof -
  let ?out = "map serializeLine lines"
  have pl: "\<forall>x \<in> set ?out. plain x \<and> \<not> isReadHeader x" using assms(2) by (auto simp: rereads_def)
  have ser: "Serialize lines = joinWith [CHR 0x0A] (?out @ [[]])"
    using assms(1) by (simp add: Serialize_def joinWith_snoc)
  have nl: "\<forall>x \<in> set (?out @ [[]]). CHR 0x0A \<notin> set x" using pl plain_newline by auto
  have sp: "Split (CHR 0x0A) (Serialize lines) = ?out @ [[]]"
    unfolding ser by (rule Split_joinWith) (use nl in auto)
  have "CHR 0x0D \<notin> set (Serialize lines)"
    using set_joinWith [of "[CHR 0x0A]" "?out @ [[]]"] pl plain_CR unfolding ser by fastforce
  then have "dropCR (Serialize lines) = Serialize lines" by (rule dropCR_id)
  moreover have "filter (\<lambda>l. \<not> isReadHeader l) (?out @ [[]]) = ?out @ [[]]"
    by (rule filter_id_conv_ball) (use pl in \<open>auto simp: isReadHeader_def HasPrefix_def\<close>)
  ultimately have strip: "stripCrontabReadHeaders (Serialize lines) = Serialize lines"
    by (simp only: stripCrontabReadHeaders_def sp) (simp only: ser)
  have "Serialize lines \<noteq> []" using assms(1) by (simp add: Serialize_def)
  then have "splitConfigLines (Serialize lines) = ?out" by (simp add: splitConfigLines_def sp)
  then show ?thesis by (simp add: strip Parse_def)
qed

lemma stripped_headers: "l \<in> set (splitConfigLines (stripCrontabReadHeaders c)) \<Longrightarrow> \<not> isReadHeader l"
proof -
  let ?ls = "filter (\<lambda>l. \<not> isReadHeader l) (Split (CHR 0x0A) (dropCR c))"
  assume l: "l \<in> set (splitConfigLines (stripCrontabReadHeaders c))"
  have "Split (CHR 0x0A) (joinWith [CHR 0x0A] ?ls) = (if ?ls = [] then [[]] else ?ls)"
    using Split_joinWith [of ?ls "CHR 0x0A"] Split_no_sep by auto
  then have "l \<in> set ?ls \<or> l = []"
    using l by (auto simp: splitConfigLines_def stripCrontabReadHeaders_def Let_def split: if_splits dest: in_set_butlastD)
  then show ?thesis by (auto simp: isReadHeader_def HasPrefix_def)
qed

lemma read_rereads:
  "\<forall>l \<in> set (splitConfigLines (stripCrontabReadHeaders c)). plain l \<Longrightarrow>
   \<forall>l \<in> set (Parse (stripCrontabReadHeaders c)). rereads l"
  using stripped_headers by (auto simp: Parse_def intro!: rereads_parsed)

text \<open>An entry whose schedule and command are plain and whose job line cron does not take for a comment,
  a special schedule or an assignment.\<close>

definition cronSafe :: "desiredCrontabEntry \<Rightarrow> bool" where
  "cronSafe d \<longleftrightarrow>
     (let c = cs_Canonical (de_Schedule d) in
      plain c \<and> plain (de_Command d) \<and>
      (cs_Special (de_Schedule d) = [] \<longrightarrow>
         \<not> HasPrefix c ''#'' \<and> \<not> HasPrefix c ''@'' \<and> \<not> isEnvAssignment (c @ '' '' @ de_Command d)))"

lemma wordPrefix_no_space: "c \<in> set (wordPrefix s) \<Longrightarrow> \<not> isSpace c"
proof (induction s)
  case (Cons x s)
  then show ?case using isSpace_start [of x s] by (auto simp del: space_at_start.simps split: if_splits)
qed simp

lemma plain_joined_parts: "plain (joinWith '' '' fs) \<Longrightarrow> \<forall>f \<in> set fs. plain f"
proof (induction fs rule: induct_list012)
  case (3 x y zs)
  from 3(3) have p: "plain (x @ '' '' @ joinWith '' '' (y # zs))" by simp
  have "plain x" using p by (rule plain_prefix)
  moreover have "plain (joinWith '' '' (y # zs))"
    using plain_suffix [of "x @ '' ''"] p by (metis append_assoc)
  ultimately show ?case using 3(2) by simp
qed simp_all

text \<open>What the checks of the configuration leave: five words, or one that starts with \<open>@\<close>.\<close>

lemma parsed_fields:
  assumes "parseCronScheduleFields a b c d e = Inr s"
  shows "\<exists>fs. length fs = 5 \<and> (\<forall>f \<in> set fs. isWord f) \<and> cs_Canonical s = joinWith '' '' fs \<and> cs_Special s = [] \<and>
    cs_Minute s = fs ! 0 \<and> cs_Hour s = fs ! 1 \<and> cs_DayOfMonth s = fs ! 2 \<and> cs_Month s = fs ! 3 \<and> cs_DayOfWeek s = fs ! 4 \<and>
    (\<forall>f \<in> set fs. TrimSpace f = f)"
proof -
  let ?fs = "map TrimSpace [a, b, c, d, e]"
  have f: "find (\<lambda>f. f = [] \<or> ContainsAny f [CHR 0x20, CHR 0x09, CHR 0x0D, CHR 0x0A]) ?fs = None"
    using assms by (auto simp: parseCronScheduleFields_def Let_def simp del: list.map split: option.splits)
  have "isWord f" if "f \<noteq> []" "\<not> ContainsAny f [CHR 0x20, CHR 0x09, CHR 0x0D, CHR 0x0A]" for f
    using that by (auto simp: isWord_def ContainsAny_def list_ex_iff isSpace_def)
  with f have "\<forall>f \<in> set ?fs. isWord f" unfolding find_None_iff by blast
  moreover have "\<forall>f \<in> set ?fs. TrimSpace f = f" by (simp add: TrimSpace_idem)
  moreover have "s = \<lparr>cs_Canonical = joinWith '' '' ?fs, cs_Special = [], cs_Minute = ?fs ! 0, cs_Hour = ?fs ! 1,
      cs_DayOfMonth = ?fs ! 2, cs_Month = ?fs ! 3, cs_DayOfWeek = ?fs ! 4\<rparr>"
    using assms f by (simp only: parseCronScheduleFields_def Let_def option.case sum.inject)
  moreover have "length ?fs = 5" by simp
  moreover obtain fs where "fs = ?fs" by blast
  ultimately show ?thesis by (intro exI [of _ fs]) (simp only: cronSchedule.simps simp_thms)
qed

lemma parsed_string:
  assumes "parseCronScheduleString text0 = Inr s"
  shows "(\<exists>v. isWord v \<and> hd v = CHR ''@'' \<and> ToLower v = v \<and> s = emptySchedule\<lparr>cs_Canonical := v, cs_Special := v\<rparr>) \<or>
    (\<exists>a b c d e. parseCronScheduleFields a b c d e = Inr s)"
proof (cases "HasPrefix (TrimSpace text0) ''@''")
  case True
  let ?w = "Fields (TrimSpace text0) ! 0"
  have s: "s = emptySchedule\<lparr>cs_Canonical := ToLower ?w, cs_Special := ToLower ?w\<rparr>"
    using assms True by (auto simp: parseCronScheduleString_def Let_def split: if_splits)
  from special_token [OF TrimSpace_idem True] obtain t where t: "?w = CHR ''@'' # t" "?w = wordPrefix (TrimSpace text0)"
    by blast
  have low: "isSpace (ascii_lower x) = isSpace x" for x by (simp add: isSpace_def ascii_lower_eq)
  have "\<forall>c \<in> set ?w. \<not> isSpace c" using wordPrefix_no_space t(2) by metis
  then have "isWord (ToLower ?w)" using t(1) by (auto simp: isWord_def ToLower_def low)
  moreover have "hd (ToLower ?w) = CHR ''@''" unfolding t(1) by (simp add: ToLower_def ascii_lower_def)
  ultimately show ?thesis using s ToLower_idem by blast
next
  case False
  with assms have "parseCronScheduleFields (Fields (TrimSpace text0) ! 0) (Fields (TrimSpace text0) ! 1)
      (Fields (TrimSpace text0) ! 2) (Fields (TrimSpace text0) ! 3) (Fields (TrimSpace text0) ! 4) = Inr s"
    by (simp add: parseCronScheduleString_def Let_def split: if_splits)
  then show ?thesis by blast
qed

lemma rereads_same: "plain (serializeLine l) \<Longrightarrow> parseLine (serializeLine l) = l \<Longrightarrow> \<not> cl_IsComment l \<Longrightarrow> rereads l"
  using comment_prefix [of "serializeLine l"] by (simp add: rereads_def isReadHeader_def)

lemma desired_shape:
  assumes "desiredCrontabFromState state = Inr d"
  shows "isValidCrontabResourceName (de_Name d)" "TrimSpace (de_Name d) = de_Name d"
    "TrimSpace (de_User d) = de_User d" "de_User d \<noteq> []" "TrimSpace (de_Command d) = de_Command d" "de_Command d \<noteq> []"
    "de_Line d = scheduleLine (de_Schedule d) (de_Command d)"
    "(\<exists>t. parseCronScheduleString t = Inr (de_Schedule d)) \<or>
     (\<exists>a b c e f. parseCronScheduleFields a b c e f = Inr (de_Schedule d))"
proof -
  obtain s where s: "scheduleFromConfig state = Inr s" and
    d: "d = \<lparr>de_Name = TrimSpace (GetString state ''name''), de_User = TrimSpace (GetString state ''user''),
      de_Command = TrimSpace (GetString state ''command''), de_Schedule = s,
      de_Line = scheduleLine s (TrimSpace (GetString state ''command''))\<rparr>"
    and n: "isValidCrontabResourceName (TrimSpace (GetString state ''name''))"
      "TrimSpace (GetString state ''user'') \<noteq> []" "TrimSpace (GetString state ''command'') \<noteq> []"
    using assms by (auto simp: desiredCrontabFromState_def Let_def split: if_splits sum.splits)
  show "isValidCrontabResourceName (de_Name d)" "TrimSpace (de_Name d) = de_Name d"
    "TrimSpace (de_User d) = de_User d" "de_User d \<noteq> []" "TrimSpace (de_Command d) = de_Command d" "de_Command d \<noteq> []"
    "de_Line d = scheduleLine (de_Schedule d) (de_Command d)"
    using n by (simp_all add: d TrimSpace_idem)
  show "(\<exists>t. parseCronScheduleString t = Inr (de_Schedule d)) \<or>
     (\<exists>a b c e f. parseCronScheduleFields a b c e f = Inr (de_Schedule d))"
    using s by (auto simp: d scheduleFromConfig_def Let_def split: if_splits)
qed

lemma rereads_fields:
  assumes fs: "length fs = 5" "\<forall>f \<in> set fs. isWord f" "\<forall>f \<in> set fs. TrimSpace f = f" "plain (joinWith '' '' fs)"
    and cmd: "cmd \<noteq> []" "plain cmd" "TrimSpace cmd = cmd"
    and no: "\<not> HasPrefix (joinWith '' '' fs) ''#''" "\<not> HasPrefix (joinWith '' '' fs) ''@''"
      "\<not> isEnvAssignment (joinWith '' '' fs @ '' '' @ cmd)"
    and l: "l = emptyLine\<lparr>cl_Minute := fs ! 0, cl_Hour := fs ! 1, cl_DayOfMonth := fs ! 2, cl_Month := fs ! 3,
      cl_DayOfWeek := fs ! 4, cl_Command := cmd\<rparr>"
  shows "rereads l"
proof -
  let ?s = "joinWith '' '' (fs @ [cmd])"
  have ne: "fs \<noteq> []" using fs(1) by auto
  have s: "?s = joinWith '' '' fs @ '' '' @ cmd" using ne by (simp add: joinWith_snoc)
  have tc: "trimmed cmd" using TrimSpace_trimmed [OF cmd(2)] cmd(3) by simp
  obtain f gs where f: "fs = f # gs" "isWord f" using ne fs(2) by (cases fs) auto
  then have jn: "joinWith '' '' fs \<noteq> []" using isWord_hd [of f] by (cases gs) auto
  have pre: "HasPrefix ?s [c] = HasPrefix (joinWith '' '' fs) [c]" for c
    using jn by (simp add: s HasPrefix_hd)
  have words: "\<forall>f \<in> set fs. isWord f \<and> plain f" using fs(2) plain_joined_parts [OF fs(4)] by blast
  have "plain ?s \<and> parseLine ?s = l"
    unfolding l by (rule read_job [OF fs(1) words cmd(1,2) tc refl])
      (use no in \<open>simp_all only: pre s [symmetric] simp_thms\<close>)
  moreover have "serializeLine l = ?s"
  proof -
    obtain f0 f1 f2 f3 f4 where e: "fs = [f0, f1, f2, f3, f4]" using fs(1) by (auto simp: numeral_eq_Suc length_Suc_conv)
    show ?thesis using fs(3) cmd(3) by (simp add: l e serializeLine_def emptyLine_def)
  qed
  moreover have "\<not> cl_IsComment l" by (simp add: l emptyLine_def)
  ultimately show ?thesis by (intro rereads_same) simp_all
qed

lemma rereads_desired:
  assumes d: "desiredCrontabFromState state = Inr d" and safe: "cronSafe d"
  shows "rereads (de_Line d)"
proof -
  note sh = desired_shape [OF d]
  let ?s = "de_Schedule d" and ?cmd = "de_Command d"
  have sf: "plain (cs_Canonical ?s)" "plain ?cmd" "cs_Special ?s = [] \<Longrightarrow> \<not> HasPrefix (cs_Canonical ?s) ''#'' \<and>
      \<not> HasPrefix (cs_Canonical ?s) ''@'' \<and> \<not> isEnvAssignment (cs_Canonical ?s @ '' '' @ ?cmd)"
    using safe by (auto simp: cronSafe_def Let_def)
  have tc: "trimmed ?cmd" using TrimSpace_trimmed [OF sf(2)] sh(5) by simp
  consider v where "isWord v" "hd v = CHR ''@''" "ToLower v = v" "?s = emptySchedule\<lparr>cs_Canonical := v, cs_Special := v\<rparr>"
    | a b c e f where "parseCronScheduleFields a b c e f = Inr ?s"
    using sh(8) parsed_string by blast
  then show ?thesis
  proof cases
    case 1
    have pv: "plain v" using sf(1) by (simp add: 1(4) emptySchedule_def)
    have l: "de_Line d = emptyLine\<lparr>cl_Special := v, cl_Command := ?cmd\<rparr>"
      using isWord_hd [OF 1(1)] sh(5) by (simp add: sh(7) 1(4) scheduleLine_def emptyLine_def emptySchedule_def)
    have "TrimSpace v = v" by (rule TrimSpace_fixed [OF pv isWord_trimmed [OF 1(1)]])
    then have "serializeLine (de_Line d) = v @ '' '' @ ?cmd"
      using isWord_hd [OF 1(1)] sh(5) 1(3) by (simp add: l serializeLine_def emptyLine_def)
    with read_special [OF 1(1) pv 1(2) sh(6) sf(2) tc] show ?thesis
      by (intro rereads_same) (simp_all add: l 1(3) emptyLine_def)
  next
    case 2
    from parsed_fields [OF 2] obtain fs where fs: "length fs = 5" "\<forall>f \<in> set fs. isWord f" "cs_Canonical ?s = joinWith '' '' fs"
      "cs_Special ?s = []" "cs_Minute ?s = fs ! 0" "cs_Hour ?s = fs ! 1" "cs_DayOfMonth ?s = fs ! 2" "cs_Month ?s = fs ! 3"
      "cs_DayOfWeek ?s = fs ! 4" "\<forall>f \<in> set fs. TrimSpace f = f" by blast
    have l: "de_Line d = emptyLine\<lparr>cl_Minute := fs ! 0, cl_Hour := fs ! 1, cl_DayOfMonth := fs ! 2, cl_Month := fs ! 3,
        cl_DayOfWeek := fs ! 4, cl_Command := ?cmd\<rparr>"
      using fs sh(5) by (simp add: sh(7) scheduleLine_def emptyLine_def)
    show ?thesis
      by (rule rereads_fields [OF fs(1,2,10) _ sh(6) sf(2) sh(5) _ _ _ l]) (use sf(1,3) fs(3,4) in simp_all)
  qed
qed

subsection \<open>Writing and reading\<close>

lemma program_read:
  assumes "crontab_program H tab file"
  obtains s' where "tab s' = tab s"
    "readUserCrontabLines H u s = (Inr (case tab s u of None \<Rightarrow> [] | Some c \<Rightarrow> Parse (stripCrontabReadHeaders c)), s')"
proof -
  from assms obtain s' out where e: "ch_exec H [''-u'', u, ''-l''] s = (Inr out, s')" "tab s' = tab s"
    and o: "case tab s u of Some c \<Rightarrow> cr_ExitCode out = 0 \<and> cr_Stdout out = c
         | None \<Rightarrow> cr_ExitCode out \<noteq> 0 \<and> isNoCrontabResult out"
    unfolding crontab_program_def by meson
  have "ensureCrontabCommand H s = None" using assms by (simp add: crontab_program_def ensureCrontabCommand_def)
  with e o have "readUserCrontabLines H u s =
      (Inr (case tab s u of None \<Rightarrow> [] | Some c \<Rightarrow> Parse (stripCrontabReadHeaders c)), s')"
    by (cases "tab s u") (auto simp: readUserCrontabLines_def)
  with e(2) show ?thesis by (rule that)
qed

lemma program_write:
  assumes p: "crontab_program H tab file" and ne: "TrimSpace (Serialize ls) \<noteq> []"
  obtains s' where "writeUserCrontabLines H u ls s = (None, s')" "tab s' = (tab s)(u \<mapsto> Serialize ls)"
proof -
  have c: "ensureCrontabCommand H s = None" using p by (simp add: crontab_program_def ensureCrontabCommand_def)
  from p obtain path s1 where w: "ch_writeTemp H (''tf-linux-provider-crontab-'' @ sanitizeCrontabTempToken u) (Serialize ls) s
      = (Inr path, s1)" "tab s1 = tab s" "file s1 path = Some (Serialize ls)" "path \<noteq> ''-l''" "path \<noteq> ''-r''"
    unfolding crontab_program_def by meson
  with p obtain s2 out where x: "ch_exec H [''-u'', u, path] s1 = (Inr out, s2)" "cr_ExitCode out = 0"
      "tab s2 = (tab s1)(u \<mapsto> Serialize ls)"
    unfolding crontab_program_def by meson
  have cl: "tab (ch_cleanup H path s2) = tab s2" using p by (simp add: crontab_program_def)
  have "writeUserCrontabLines H u ls s = (None, ch_cleanup H path s2)"
    using c w(1) x(1,2) ne by (simp add: writeUserCrontabLines_def installCrontab_def)
  with cl x(3) w(2) show ?thesis by (intro that) simp_all
qed

lemma findBlock_Some: "findBlockFrom i ls name (Some b) \<noteq> Inr None"
  by (induction ls arbitrary: i b) auto

lemma findBlock_none_conv: "findBlockFrom i ls name None = Inr None \<Longrightarrow> \<forall>l \<in> set ls. managedCrontabName l \<noteq> Some name"
  by (induction ls arbitrary: i) (auto simp: findBlock_Some split: if_splits)

text \<open>A successful creation puts the entry's marker before a job with its key.\<close>

lemma create_split:
  assumes cr: "createOrAdoptManagedCrontabEntry lines d = Inr out" and d: "writtenJob (de_Line d)"
  obtains u l w where "out = u @ managedCrontabMarker (de_Name d) # l # w" "isCrontabJobLine l" "jobKey l = jobKey (de_Line d)"
    "\<forall>x \<in> set (u @ w). managedCrontabName x \<noteq> Some (de_Name d)" "managedCrontabName l \<noteq> Some (de_Name d)"
    "set (u @ l # w) \<subseteq> set lines \<union> {de_Line d}"
proof -
  have "findManagedCrontabBlock lines (de_Name d) = Inr None"
    using cr by (auto simp: createOrAdoptManagedCrontabEntry_def split: sum.splits option.splits)
  then have n: "\<forall>x \<in> set lines. managedCrontabName x \<noteq> Some (de_Name d)"
    using findBlock_none_conv by (simp add: findManagedCrontabBlock_def)
  consider "out = lines @ [managedCrontabMarker (de_Name d), de_Line d]"
    | index where "index \<in> set (exactUnmanagedCrontabMatches lines (de_Line d))"
      "out = take index lines @ [managedCrontabMarker (de_Name d)] @ drop index lines"
    using cr by (auto simp: createOrAdoptManagedCrontabEntry_def split: sum.splits option.splits list.splits)
  then show ?thesis
  proof cases
    case 1
    then show ?thesis using n marker_facts(1) [OF d] d by (intro that [of lines "de_Line d" "[]"]) (auto simp: writtenJob_def)
  next
    case 2
    from exact_match [OF 2(1)] obtain u l w where s: "lines = u @ l # w" "length u = index" "isCrontabJobLine l"
      "sameCrontabCommand l (de_Line d)" .
    from s(4) have "jobKey l = jobKey (de_Line d)" by (simp add: sameCrontabCommand_def jobKey_def)
    then show ?thesis using n s 2(2) by (intro that [of u l w]) auto
  qed
qed

lemma desired_key:
  assumes d: "desiredCrontabFromState state = Inr d" and safe: "cronSafe d"
  shows "jobKey (de_Line d) = (de_Command d, cs_Canonical (de_Schedule d)) \<and> cs_Canonical (de_Schedule d) \<noteq> []"
proof -
  note sh = desired_shape [OF d]
  let ?s = "de_Schedule d"
  consider v where "isWord v" "hd v = CHR ''@''" "ToLower v = v" "?s = emptySchedule\<lparr>cs_Canonical := v, cs_Special := v\<rparr>"
    | a b c e f where "parseCronScheduleFields a b c e f = Inr ?s"
    using sh(8) parsed_string by blast
  then show ?thesis
  proof cases
    case 1
    have "plain v" using safe by (simp add: cronSafe_def Let_def 1(4) emptySchedule_def)
    from TrimSpace_fixed [OF this isWord_trimmed [OF 1(1)]] show ?thesis
      using isWord_hd [OF 1(1)] 1(3) sh(5)
      by (simp add: jobKey_def sh(7) 1(4) scheduleLine_def scheduleFromCrontabLine_def emptySchedule_def emptyLine_def)
  next
    case 2
    from parsed_fields [OF 2] obtain fs where fs: "length fs = 5" "\<forall>f \<in> set fs. isWord f" "cs_Canonical ?s = joinWith '' '' fs"
      "cs_Special ?s = []" "cs_Minute ?s = fs ! 0" "cs_Hour ?s = fs ! 1" "cs_DayOfMonth ?s = fs ! 2" "cs_Month ?s = fs ! 3"
      "cs_DayOfWeek ?s = fs ! 4" "\<forall>f \<in> set fs. TrimSpace f = f" by blast
    obtain f0 f1 f2 f3 f4 where e: "fs = [f0, f1, f2, f3, f4]" using fs(1) by (auto simp: numeral_eq_Suc length_Suc_conv)
    show ?thesis using fs sh(5)
      by (simp add: e jobKey_def sh(7) scheduleLine_def scheduleFromCrontabLine_def emptyLine_def)
  qed
qed

lemma state_keys:
  "(case crontabState name user command schedule of Inl _ \<Rightarrow> True | Inr st \<Rightarrow>
      GetString st ''id'' = crontabEntryID user name \<and> GetString st ''name'' = name \<and> GetString st ''user'' = user \<and>
      GetString st ''command'' = command \<and> GetString st ''schedule'' = cs_Canonical schedule)"
  by (simp add: crontabState_def GetString_def)

lemma desiredState_keys:
  "GetString (desiredState d) ''id'' = crontabEntryID (de_User d) (de_Name d)"
  "GetString (desiredState d) ''name'' = de_Name d" "GetString (desiredState d) ''user'' = de_User d"
  "GetString (desiredState d) ''command'' = de_Command d" "GetString (desiredState d) ''schedule'' = cs_Canonical (de_Schedule d)"
proof -
  note k = state_keys [where name = "de_Name d" and user = "de_User d" and command = "de_Command d" and schedule = "de_Schedule d"]
  show "GetString (desiredState d) ''id'' = crontabEntryID (de_User d) (de_Name d)"
    "GetString (desiredState d) ''name'' = de_Name d" "GetString (desiredState d) ''user'' = de_User d"
    "GetString (desiredState d) ''command'' = de_Command d" "GetString (desiredState d) ''schedule'' = cs_Canonical (de_Schedule d)"
    using k by (cases "crontabState (de_Name d) (de_User d) (de_Command d) (de_Schedule d)";
      simp add: desiredState_def GetString_def)+
qed

lemma joinWith_member: "x \<in> set xs \<Longrightarrow> set x \<subseteq> set (joinWith sep xs)"
  by (induction xs rule: induct_list012) auto

lemma marker_visible: "managedCrontabMarker name \<in> set out \<Longrightarrow> TrimSpace (Serialize out) \<noteq> []"
proof -
  assume m: "managedCrontabMarker name \<in> set out"
  have "CHR ''#'' \<in> set (serializeLine (managedCrontabMarker name))"
    using hd_in_set by (fastforce simp: serializeLine_def managedCrontabMarker_def emptyLine_def commentText_def Let_def HasPrefix_hd)
  moreover have "set (serializeLine (managedCrontabMarker name)) \<subseteq> set (Serialize out)"
    using m joinWith_member [of "serializeLine (managedCrontabMarker name)" "map serializeLine out" "[CHR 0x0A]"]
    by (auto simp: Serialize_def)
  ultimately have "CHR ''#'' \<in> set (TrimSpace (Serialize out))" using TrimSpace_solid [of "CHR ''#''"] by blast
  then show ?thesis by auto
qed

text \<open>Finding a marker in lines that read back.\<close>

lemma find_reread:
  assumes out: "out = u @ managedCrontabMarker name # l # w" and rr: "\<forall>x \<in> set out. rereads x" and nm: "writtenName name"
    and l: "isCrontabJobLine l" "managedCrontabName l \<noteq> Some name"
    and no: "\<forall>x \<in> set (u @ w). managedCrontabName x \<noteq> Some name"
  shows "\<exists>i l'. findManagedCrontabBlock (map (\<lambda>x. parseLine (serializeLine x)) out) name = Inr (Some (blockAt i (Some l'))) \<and>
    jobKey l' = jobKey l"
proof -
  let ?r = "\<lambda>x. parseLine (serializeLine x)"
  have same: "managedCrontabName (?r x) = managedCrontabName x" if "x \<in> set out" for x
    using rr that by (simp add: rereads_def)
  have "\<forall>x \<in> set (map ?r u). managedCrontabName x \<noteq> Some name" "\<forall>x \<in> set (map ?r (l # w)). managedCrontabName x \<noteq> Some name"
    using same no l(2) by (auto simp: out)
  moreover have "managedCrontabName (?r (managedCrontabMarker name)) = Some name"
    using same [of "managedCrontabMarker name"] nm by (simp add: out writtenName_def)
  ultimately have "findManagedCrontabBlock (map ?r u @ ?r (managedCrontabMarker name) # map ?r (l # w)) name =
      Inr (Some (blockAt (length (map ?r u)) (jobAfter (headLine (map ?r (l # w)) None))))"
    using findBlock_marker by blast
  moreover have "isCrontabJobLine (?r l)" "jobKey (?r l) = jobKey l"
    using rr l(1) by (auto simp: out rereads_def)
  ultimately show ?thesis by (auto simp: out jobAfter_def)
qed


type_synonym demoTabs = "(string \<Rightarrow> string option) \<times> (string \<Rightarrow> string option)"

definition demo_exec :: "string list \<Rightarrow> demoTabs \<Rightarrow> CmdResult res \<times> demoTabs" where
  "demo_exec args s =
     (let u = args ! 1; a = args ! 2; ok = (\<lambda>out. Inr \<lparr>cr_Stdout = out, cr_Stderr = [], cr_ExitCode = 0\<rparr>) in
      if a = ''-l'' then
        ((case fst s u of
           Some c \<Rightarrow> ok c
         | None \<Rightarrow> Inr \<lparr>cr_Stdout = [], cr_Stderr = ''no crontab for x'', cr_ExitCode = 1\<rparr>), s)
      else if a = ''-r'' then (ok [], ((fst s)(u := None), snd s))
      else (ok [], ((fst s)(u := snd s a), snd s)))"

definition demo_cron :: "demoTabs cronHost" where
  "demo_cron =
     \<lparr>ch_hasCommand = (\<lambda>_. Inr True), ch_exec = demo_exec,
      ch_writeTemp = (\<lambda>_ c s. (Inr ''/tmp/x'', (fst s, (snd s)(''/tmp/x'' \<mapsto> c)))),
      ch_cleanup = (\<lambda>path s. (fst s, (snd s)(path := None)))\<rparr>"

lemma demo_no_crontab: "isNoCrontabResult \<lparr>cr_Stdout = [], cr_Stderr = ''no crontab for x'', cr_ExitCode = 1\<rparr>"
  by code_simp

lemma demo_program: "crontab_program demo_cron fst snd"
  using demo_no_crontab
  by (auto simp: crontab_program_def demo_cron_def demo_exec_def Let_def split: option.splits)

definition demo_tabs :: demoTabs where
  "demo_tabs = (\<lambda>u. if u = ''tf'' then Some (''MAILTO=x'' @ [CHR 0x0A]) else None, \<lambda>_. None)"

lemma demo_create:
  "fst (crontabCreate demo_cron demo_plan demo_tabs) = Inr (desiredState demo_desired)"
  "cronSafe demo_desired" "de_User demo_desired = ''tf''"
  "\<forall>l \<in> set (splitConfigLines (stripCrontabReadHeaders (''MAILTO=x'' @ [CHR 0x0A]))). plain l"
  by code_simp+


end
