(* ===== verification/EngineState.thy ===== *)
theory EngineState
  imports StateValues
begin

text \<open>
  providers/shared/engine/state_helpers.go: how values pass between Terraform and a guest. Before a
  call the values of a plan, a state or a configuration are taken out of Terraform's typed values into
  JSON values; after it the JSON values of the reply are put into the state.

  Terraform's plugin framework is third-party. Its values are null, unknown or known (\<open>tf\<close>); its calls
  are the fields of \<open>getters\<close> (\<open>GetAttribute\<close> into a variable of each type), \<open>conversions\<close> (the element
  conversions) and the argument \<open>put\<close> (\<open>SetAttribute\<close>). Go iterates a map in any order: a map is a list
  of entries and the theorems hold for each order.
\<close>

datatype diagnostic = ErrorDiag string string | WarningDiag string string

type_synonym diags = "diagnostic list"

primrec isError :: "diagnostic \<Rightarrow> bool" where
  "isError (ErrorDiag summary detail) = True"
| "isError (WarningDiag summary detail) = False"

definition HasError :: "diags \<Rightarrow> bool" where
  "HasError ds \<longleftrightarrow> list_ex isError ds"

datatype 'a tf = NullValue | UnknownValue | Known 'a

datatype elemType = StringElem | OtherElem

datatype attrVal =
    StringVal "string tf"
  | Int64Val "int tf"
  | BoolVal "bool tf"
  | ListVal elemType "attrVal list tf"
  | MapVal elemType "(string \<times> attrVal) list tf"
  | ObjectVal "(string \<times> attrVal) list tf"
  | OtherVal

datatype customType = NoCustom | DigestedStringType | DigestedBase64StringType

datatype attribute =
    StringAttribute customType
  | Int64Attribute
  | BoolAttribute
  | ListAttribute elemType
  | MapAttribute elemType
  | OtherAttribute

datatype block = SingleNestedBlock "(string \<times> attribute) list" | OtherBlock

record getters =
  g_String :: "string \<Rightarrow> string tf \<times> diags"
  g_Digested :: "string \<Rightarrow> string tf \<times> diags"
  g_DigestedBase64 :: "string \<Rightarrow> string tf \<times> diags"
  g_Int64 :: "string \<Rightarrow> int tf \<times> diags"
  g_Bool :: "string \<Rightarrow> bool tf \<times> diags"
  g_List :: "string \<Rightarrow> attrVal list tf \<times> diags"
  g_Map :: "string \<Rightarrow> (string \<times> attrVal) list tf \<times> diags"
  g_Object :: "string \<Rightarrow> (string \<times> attrVal) list tf \<times> diags"

record conversions =
  cv_strings :: "attrVal list \<Rightarrow> string list \<times> diags"
  cv_stringMap :: "(string \<times> attrVal) list \<Rightarrow> (string \<times> string) list \<times> diags"
  cv_listFrom :: "string list option \<Rightarrow> attrVal list tf \<times> diags"
  cv_mapFrom :: "(string \<times> string) list \<Rightarrow> (string \<times> attrVal) list tf \<times> diags"
  cv_object :: "(string \<times> attribute) list \<Rightarrow> (string \<times> attrVal) list \<Rightarrow> (string \<times> attrVal) list tf \<times> diags"

subsection \<open>Taking values out\<close>

definition extractScalar :: "(string \<Rightarrow> 'a tf \<times> diags) \<Rightarrow> ('a \<Rightarrow> val) \<Rightarrow> string \<Rightarrow> val option \<times> diags" where
  "extractScalar getter inject key =
     (case getter key of
        (value, ds) \<Rightarrow>
          (if HasError ds then None else (case value of Known v \<Rightarrow> Some (inject v) | _ \<Rightarrow> None), ds))"

definition extractStringValue :: "getters \<Rightarrow> string \<Rightarrow> val option \<times> diags" where
  "extractStringValue G = extractScalar (g_String G) VStr"

definition extractInt64Value :: "getters \<Rightarrow> string \<Rightarrow> val option \<times> diags" where
  "extractInt64Value G = extractScalar (g_Int64 G) VInt64"

definition extractBoolValue :: "getters \<Rightarrow> string \<Rightarrow> val option \<times> diags" where
  "extractBoolValue G = extractScalar (g_Bool G) VBool"

definition extractResourceStringValue :: "getters \<Rightarrow> string \<Rightarrow> customType \<Rightarrow> val option \<times> diags" where
  "extractResourceStringValue G key custom =
     (case custom of
        DigestedStringType \<Rightarrow> extractScalar (g_Digested G) VStr key
      | DigestedBase64StringType \<Rightarrow> extractScalar (g_DigestedBase64 G) VStr key
      | NoCustom \<Rightarrow> extractStringValue G key)"

text \<open>The value of a collection whose elements are converted, with the diagnostics of both calls.\<close>

definition extractCollection ::
    "(string \<Rightarrow> 'a tf \<times> diags) \<Rightarrow> ('a \<Rightarrow> 'b \<times> diags) \<Rightarrow> ('b \<Rightarrow> val) \<Rightarrow> string \<Rightarrow> val option \<times> diags" where
  "extractCollection getter convert inject key =
     (case getter key of
        (value, ds) \<Rightarrow>
          if HasError ds then (None, ds)
          else (case value of
                  Known v \<Rightarrow>
                    (case convert v of
                       (items, extra) \<Rightarrow> if HasError (ds @ extra) then (None, ds @ extra) else (Some (inject items), ds @ extra))
                | _ \<Rightarrow> (None, ds)))"

definition extractStringListValue :: "conversions \<Rightarrow> getters \<Rightarrow> string \<Rightarrow> val option \<times> diags" where
  "extractStringListValue C G = extractCollection (g_List G) (cv_strings C) (\<lambda>items. VStrs (Some items))"

definition extractStringMapValue :: "conversions \<Rightarrow> getters \<Rightarrow> string \<Rightarrow> val option \<times> diags" where
  "extractStringMapValue C G = extractCollection (g_Map G) (cv_stringMap C) VStrMap"

definition unsupportedAttribute :: "string \<Rightarrow> diagnostic" where
  "unsupportedAttribute key = WarningDiag ''Unsupported attribute conversion''
     (''Skipping attribute '' @ key @ '' because it does not have a supported JSON conversion path.'')"

text \<open>Only a resource schema's strings have a custom type.\<close>

fun extractValue :: "conversions \<Rightarrow> getters \<Rightarrow> string \<Rightarrow> attribute \<Rightarrow> val option \<times> diags" where
  "extractValue C G key (StringAttribute custom) = extractResourceStringValue G key custom"
| "extractValue C G key Int64Attribute = extractInt64Value G key"
| "extractValue C G key BoolAttribute = extractBoolValue G key"
| "extractValue C G key (ListAttribute StringElem) = extractStringListValue C G key"
| "extractValue C G key (MapAttribute StringElem) = extractStringMapValue C G key"
| "extractValue C G key _ = (None, [unsupportedAttribute key])"

definition unsupportedNested :: "string \<Rightarrow> diagnostic" where
  "unsupportedNested key = WarningDiag ''Unsupported nested value conversion''
     (''Skipping nested value '' @ key @ '' because it does not have a supported JSON conversion path.'')"

definition knownConverted :: "('a \<Rightarrow> 'b \<times> diags) \<Rightarrow> ('b \<Rightarrow> val) \<Rightarrow> 'a \<Rightarrow> val option \<times> diags" where
  "knownConverted convert inject v =
     (case convert v of (items, ds) \<Rightarrow> (if HasError ds then None else Some (inject items), ds))"

lemma size_entries: "size_list (\<lambda>p. size (snd p)) vs \<le> size_list (size_prod (\<lambda>x. 0) size) vs"
  by (induction vs) auto

text \<open>The two mutually recursive conversions of nested objects; the second goes on from the entries and
  the diagnostics there are so far.\<close>

function attrValueToJSON :: "conversions \<Rightarrow> string \<Rightarrow> attrVal \<Rightarrow> val option \<times> diags"
  and objectValueToJSON ::
    "conversions \<Rightarrow> string \<Rightarrow> (string \<times> attrVal) list \<Rightarrow> (string \<times> val) list \<Rightarrow> diags \<Rightarrow> (string \<times> val) list option \<times> diags"
where
  "attrValueToJSON C key value =
     (case value of
        StringVal (Known s) \<Rightarrow> (Some (VStr s), [])
      | StringVal _ \<Rightarrow> (None, [])
      | Int64Val (Known n) \<Rightarrow> (Some (VInt64 n), [])
      | Int64Val _ \<Rightarrow> (None, [])
      | BoolVal (Known b) \<Rightarrow> (Some (VBool b), [])
      | BoolVal _ \<Rightarrow> (None, [])
      | ListVal e (Known vs) \<Rightarrow>
          if e = StringElem then knownConverted (cv_strings C) (\<lambda>items. VStrs (Some items)) vs
          else (None, [unsupportedNested key])
      | ListVal _ _ \<Rightarrow> (None, [])
      | MapVal e (Known vs) \<Rightarrow>
          if e = StringElem then knownConverted (cv_stringMap C) VStrMap vs else (None, [unsupportedNested key])
      | MapVal _ _ \<Rightarrow> (None, [])
      | ObjectVal (Known vs) \<Rightarrow>
          (case objectValueToJSON C key vs [] [] of
             (None, ds) \<Rightarrow> (None, ds)
           | (Some entries, ds) \<Rightarrow> if HasError ds then (None, ds) else (Some (VMap entries), ds))
      | ObjectVal _ \<Rightarrow> (None, [])
      | OtherVal \<Rightarrow> (None, [unsupportedNested key]))"
| "objectValueToJSON C key [] acc ds = (Some acc, ds)"
| "objectValueToJSON C key ((name, v) # vs) acc ds =
     (case attrValueToJSON C (key @ ''.'' @ name) v of
        (converted, extra) \<Rightarrow>
          if HasError (ds @ extra) then (None, ds @ extra)
          else objectValueToJSON C key vs (acc @ (case converted of Some x \<Rightarrow> [(name, x)] | None \<Rightarrow> [])) (ds @ extra))"
  by pat_completeness auto
termination
  by (relation "measure (\<lambda>x. case x of Inl (C, k, v) \<Rightarrow> size v | Inr (C, k, vs, acc, ds) \<Rightarrow> size_list (\<lambda>p. size (snd p)) vs)")
    (auto simp: less_Suc_eq_le intro!: le_SucI size_entries)

declare attrValueToJSON.simps [simp del]

definition unsupportedBlock :: "string \<Rightarrow> diagnostic" where
  "unsupportedBlock key = WarningDiag ''Unsupported block conversion''
     (''Skipping block '' @ key @ '' because it does not have a supported JSON conversion path.'')"

definition extractBlockValue :: "conversions \<Rightarrow> getters \<Rightarrow> string \<Rightarrow> block \<Rightarrow> val option \<times> diags" where
  "extractBlockValue C G key block =
     (case block of
        SingleNestedBlock _ \<Rightarrow>
          (case g_Object G key of
             (value, ds) \<Rightarrow>
               if HasError ds then (None, ds)
               else (case value of
                       Known vs \<Rightarrow>
                         (case objectValueToJSON C key vs [] [] of
                            (entries, extra) \<Rightarrow>
                              if HasError (ds @ extra) then (None, ds @ extra) else (map_option VMap entries, ds @ extra))
                     | _ \<Rightarrow> (None, ds)))
      | OtherBlock \<Rightarrow> (None, [unsupportedBlock key]))"

text \<open>The loops over the attributes and the blocks stop at the first error.\<close>

fun extractLoop ::
    "(string \<Rightarrow> 'a \<Rightarrow> val option \<times> diags) \<Rightarrow> (string \<times> 'a) list \<Rightarrow> StateData \<Rightarrow> diags \<Rightarrow> StateData option \<times> diags" where
  "extractLoop extract [] acc ds = (Some acc, ds)"
| "extractLoop extract ((key, x) # rest) acc ds =
     (case extract key x of
        (value, extra) \<Rightarrow>
          if HasError (ds @ extra) then (None, ds @ extra)
          else extractLoop extract rest (case value of Some v \<Rightarrow> (key, v) # acc | None \<Rightarrow> acc) (ds @ extra))"

definition extractResourceValues ::
    "conversions \<Rightarrow> getters \<Rightarrow> (string \<times> attribute) list \<Rightarrow> (string \<times> block) list \<Rightarrow> StateData option \<times> diags" where
  "extractResourceValues C G attrs blocks =
     (case extractLoop (extractValue C G) attrs [] [] of
        (None, ds) \<Rightarrow> (None, ds)
      | (Some acc, ds) \<Rightarrow> extractLoop (extractBlockValue C G) blocks acc ds)"

definition extractDataSourceValues :: "conversions \<Rightarrow> getters \<Rightarrow> (string \<times> attribute) list \<Rightarrow> StateData option \<times> diags" where
  "extractDataSourceValues C G attrs = extractLoop (extractValue C G) attrs [] []"

subsection \<open>Reading JSON values\<close>

definition asString :: "val \<Rightarrow> string option" where
  "asString v = (case v of VStr s \<Rightarrow> Some s | _ \<Rightarrow> None)"

definition asInt64 :: "val \<Rightarrow> int option" where
  "asInt64 v =
     (case v of
        VInt n \<Rightarrow> Some n
      | VInt64 n \<Rightarrow> Some n
      | VFloat m e \<Rightarrow> Some (float_int m e)
      | VNumber t \<Rightarrow> Atoi t
      | _ \<Rightarrow> None)"

definition asBool :: "val \<Rightarrow> bool option" where
  "asBool v = (case v of VBool b \<Rightarrow> Some b | _ \<Rightarrow> None)"

fun allStrings :: "val list \<Rightarrow> string list option" where
  "allStrings [] = Some []"
| "allStrings (v # vs) = (case asString v of None \<Rightarrow> None | Some s \<Rightarrow> map_option (\<lambda>ss. s # ss) (allStrings vs))"

text \<open>A slice result is \<open>None\<close> when it is nil.\<close>

definition asStringSlice :: "val \<Rightarrow> string list option option" where
  "asStringSlice v =
     (case v of
        VStrs xs \<Rightarrow> Some xs
      | VList None \<Rightarrow> Some (Some [])
      | VList (Some vs) \<Rightarrow> map_option Some (allStrings vs)
      | _ \<Rightarrow> None)"

fun allStringEntries :: "(string \<times> val) list \<Rightarrow> (string \<times> string) list option" where
  "allStringEntries [] = Some []"
| "allStringEntries ((k, v) # es) =
     (case asString v of None \<Rightarrow> None | Some s \<Rightarrow> map_option (\<lambda>ss. (k, s) # ss) (allStringEntries es))"

definition asStringMap :: "val \<Rightarrow> (string \<times> string) list option" where
  "asStringMap v = (case v of VStrMap m \<Rightarrow> Some m | VMap es \<Rightarrow> allStringEntries es | _ \<Rightarrow> None)"

definition asNestedMap :: "val \<Rightarrow> (string \<times> val) list option" where
  "asNestedMap v = (case v of VMap es \<Rightarrow> Some es | _ \<Rightarrow> None)"

text \<open>\<open>%T\<close>\<close>

fun goType :: "val \<Rightarrow> string" where
  "goType VNil = ''<nil>''"
| "goType (VBool _) = ''bool''"
| "goType (VInt _) = ''int''"
| "goType (VInt64 _) = ''int64''"
| "goType (VFloat _ _) = ''float64''"
| "goType (VNumber _) = ''json.Number''"
| "goType (VStr _) = ''string''"
| "goType (VStrs _) = ''[]string''"
| "goType (VList _) = ''[]interface {}''"
| "goType (VStrMap _) = ''map[string]string''"
| "goType (VMap _) = ''map[string]interface {}''"
| "goType (VState _) = ''pluginsdk.StateData''"
| "goType (VOther t) = t"

definition newTypeDiagnostic :: "string \<Rightarrow> string \<Rightarrow> val \<Rightarrow> diags" where
  "newTypeDiagnostic key expected value =
     [ErrorDiag ''Unsupported attribute type''
        (''Attribute '' @ key @ '' expected '' @ expected @ '', got '' @ goType value)]"

subsection \<open>Putting values into the state\<close>

text \<open>What \<open>SetAttribute\<close> is given: a Go value or one of the framework's.\<close>

datatype setArg =
    SetText string
  | SetNumber int
  | SetTruth bool
  | SetMapping "(string \<times> string) list"
  | SetVal attrVal

type_synonym 's setter = "string \<Rightarrow> setArg \<Rightarrow> 's \<Rightarrow> 's \<times> diags"

definition setStringValue :: "'s setter \<Rightarrow> string \<Rightarrow> val \<Rightarrow> 's \<Rightarrow> 's \<times> diags" where
  "setStringValue put key value s =
     (if value = VNil then put key (SetVal (StringVal NullValue)) s
      else case asString value of
        None \<Rightarrow> (s, newTypeDiagnostic key ''string'' value)
      | Some text0 \<Rightarrow> put key (SetText text0) s)"

definition setInt64Value :: "'s setter \<Rightarrow> string \<Rightarrow> val \<Rightarrow> 's \<Rightarrow> 's \<times> diags" where
  "setInt64Value put key value s =
     (case asInt64 value of
        None \<Rightarrow> (s, newTypeDiagnostic key ''int64'' value)
      | Some number \<Rightarrow> put key (SetNumber number) s)"

definition setBoolValue :: "'s setter \<Rightarrow> string \<Rightarrow> val \<Rightarrow> 's \<Rightarrow> 's \<times> diags" where
  "setBoolValue put key value s =
     (case asBool value of
        None \<Rightarrow> (s, newTypeDiagnostic key ''bool'' value)
      | Some boolean \<Rightarrow> put key (SetTruth boolean) s)"

text \<open>\<open>marshal\<close> is \<open>encoding/json\<close> on a value no typed attribute takes.\<close>

definition setFallbackValue :: "(val \<Rightarrow> string res) \<Rightarrow> 's setter \<Rightarrow> string \<Rightarrow> val \<Rightarrow> 's \<Rightarrow> 's \<times> diags" where
  "setFallbackValue marshal put key value s =
     (if value = VNil then put key (SetVal (StringVal NullValue)) s
      else case marshal value of
        Inl err \<Rightarrow> (s, [ErrorDiag ''Marshal attribute'' (''Failed to marshal '' @ key @ '': '' @ error_text err)])
      | Inr encoded \<Rightarrow> put key (SetText encoded) s)"

definition setListValue ::
    "conversions \<Rightarrow> (val \<Rightarrow> string res) \<Rightarrow> 's setter \<Rightarrow> string \<Rightarrow> elemType \<Rightarrow> val \<Rightarrow> 's \<Rightarrow> 's \<times> diags" where
  "setListValue C marshal put key elementType value s =
     (if elementType \<noteq> StringElem then setFallbackValue marshal put key value s
      else if value = VNil then put key (SetVal (ListVal StringElem NullValue)) s
      else case asStringSlice value of
        None \<Rightarrow> (s, newTypeDiagnostic key ''[]string'' value)
      | Some None \<Rightarrow> put key (SetVal (ListVal StringElem NullValue)) s
      | Some (Some items) \<Rightarrow>
          (case cv_listFrom C (Some items) of
             (typed, ds) \<Rightarrow> if HasError ds then (s, ds) else put key (SetVal (ListVal StringElem typed)) s))"

definition setMapValue ::
    "(val \<Rightarrow> string res) \<Rightarrow> 's setter \<Rightarrow> string \<Rightarrow> elemType \<Rightarrow> val \<Rightarrow> 's \<Rightarrow> 's \<times> diags" where
  "setMapValue marshal put key elementType value s =
     (if elementType \<noteq> StringElem then setFallbackValue marshal put key value s
      else case asStringMap value of
        None \<Rightarrow> (s, newTypeDiagnostic key ''map[string]string'' value)
      | Some mapping \<Rightarrow> put key (SetMapping mapping) s)"

fun setResourceAttribute ::
    "conversions \<Rightarrow> (val \<Rightarrow> string res) \<Rightarrow> 's setter \<Rightarrow> string \<Rightarrow> attribute \<Rightarrow> val \<Rightarrow> 's \<Rightarrow> 's \<times> diags" where
  "setResourceAttribute C marshal put key (StringAttribute _) value s = setStringValue put key value s"
| "setResourceAttribute C marshal put key Int64Attribute value s = setInt64Value put key value s"
| "setResourceAttribute C marshal put key BoolAttribute value s = setBoolValue put key value s"
| "setResourceAttribute C marshal put key (ListAttribute e) value s = setListValue C marshal put key e value s"
| "setResourceAttribute C marshal put key (MapAttribute e) value s = setMapValue marshal put key e value s"
| "setResourceAttribute C marshal put key OtherAttribute value s = setFallbackValue marshal put key value s"

definition unsupportedNestedState :: "string \<Rightarrow> diagnostic" where
  "unsupportedNestedState key = WarningDiag ''Unsupported nested attribute state conversion''
     (''Skipping nested attribute '' @ key @ '' because it does not have a supported state conversion path.'')"

text \<open>The value of an attribute inside a block; null for every attribute type when there is none.\<close>

fun resourceAttributeValue :: "conversions \<Rightarrow> string \<Rightarrow> attribute \<Rightarrow> val \<Rightarrow> attrVal option \<times> diags" where
  "resourceAttributeValue C key (StringAttribute _) value =
     (if value = VNil then (Some (StringVal NullValue), [])
      else case asString value of
        None \<Rightarrow> (None, newTypeDiagnostic key ''string'' value)
      | Some t \<Rightarrow> (Some (StringVal (Known t)), []))"
| "resourceAttributeValue C key Int64Attribute value =
     (if value = VNil then (Some (Int64Val NullValue), [])
      else case asInt64 value of
        None \<Rightarrow> (None, newTypeDiagnostic key ''int64'' value)
      | Some n \<Rightarrow> (Some (Int64Val (Known n)), []))"
| "resourceAttributeValue C key BoolAttribute value =
     (if value = VNil then (Some (BoolVal NullValue), [])
      else case asBool value of
        None \<Rightarrow> (None, newTypeDiagnostic key ''bool'' value)
      | Some b \<Rightarrow> (Some (BoolVal (Known b)), []))"
| "resourceAttributeValue C key (ListAttribute StringElem) value =
     (if value = VNil then (Some (ListVal StringElem NullValue), [])
      else case asStringSlice value of
        None \<Rightarrow> (None, newTypeDiagnostic key ''[]string'' value)
      | Some items \<Rightarrow>
          (case cv_listFrom C items of
             (result, ds) \<Rightarrow> if HasError ds then (None, ds) else (Some (ListVal StringElem result), [])))"
| "resourceAttributeValue C key (MapAttribute StringElem) value =
     (if value = VNil then (Some (MapVal StringElem NullValue), [])
      else case asStringMap value of
        None \<Rightarrow> (None, newTypeDiagnostic key ''map[string]string'' value)
      | Some mapping \<Rightarrow>
          (case cv_mapFrom C mapping of
             (result, ds) \<Rightarrow> if HasError ds then (None, ds) else (Some (MapVal StringElem result), [])))"
| "resourceAttributeValue C key _ value = (Some (StringVal NullValue), [unsupportedNestedState key])"

fun blockValues ::
    "conversions \<Rightarrow> (string \<times> attribute) list \<Rightarrow> (string \<times> val) list \<Rightarrow> (string \<times> attrVal) list \<Rightarrow> diags \<Rightarrow>
     (string \<times> attrVal) list option \<times> diags" where
  "blockValues C [] items acc ds = (Some acc, ds)"
| "blockValues C ((name, a) # rest) items acc ds =
     (case resourceAttributeValue C name a (case map_of items name of Some raw \<Rightarrow> raw | None \<Rightarrow> VNil) of
        (converted, extra) \<Rightarrow>
          if HasError (ds @ extra) then (None, ds @ extra)
          else blockValues C rest items (acc @ (case converted of Some v \<Rightarrow> [(name, v)] | None \<Rightarrow> [])) (ds @ extra))"

definition setSingleNestedResourceBlock ::
    "conversions \<Rightarrow> 's setter \<Rightarrow> string \<Rightarrow> (string \<times> attribute) list \<Rightarrow> val \<Rightarrow> 's \<Rightarrow> 's \<times> diags" where
  "setSingleNestedResourceBlock C put key battrs value s =
     (if value = VNil then put key (SetVal (ObjectVal NullValue)) s
      else case asNestedMap value of
        None \<Rightarrow> (s, newTypeDiagnostic key ''map[string]interface{}'' value)
      | Some items \<Rightarrow>
          (case blockValues C battrs items [] [] of
             (None, ds) \<Rightarrow> (s, ds)
           | (Some vs, ds) \<Rightarrow>
               (case cv_object C battrs vs of
                  (object, extra) \<Rightarrow>
                    if HasError (ds @ extra) then (s, ds @ extra) else put key (SetVal (ObjectVal object)) s)))"

definition setResourceBlock ::
    "conversions \<Rightarrow> 's setter \<Rightarrow> string \<Rightarrow> block \<Rightarrow> val \<Rightarrow> 's \<Rightarrow> 's \<times> diags" where
  "setResourceBlock C put key b value s =
     (case b of
        SingleNestedBlock battrs \<Rightarrow> setSingleNestedResourceBlock C put key battrs value s
      | OtherBlock \<Rightarrow> (s, [WarningDiag ''Unsupported block state conversion''
          (''Skipping block '' @ key @ '' because it does not have a supported state conversion path.'')]))"

text \<open>The two loops over the reply. An error on the identifier does not end the first loop; the next
  attribute does.\<close>

fun setAttributesLoop ::
    "conversions \<Rightarrow> (val \<Rightarrow> string res) \<Rightarrow> 's setter \<Rightarrow> (string \<times> attribute) list \<Rightarrow> StateData \<Rightarrow> 's \<Rightarrow> diags \<Rightarrow>
     bool \<times> 's \<times> diags" where
  "setAttributesLoop C marshal put attrs [] s ds = (True, s, ds)"
| "setAttributesLoop C marshal put attrs ((key, value) # rest) s ds =
     (if key = ''id'' then
        (case setStringValue put ''id'' value s of
           (s', extra) \<Rightarrow> setAttributesLoop C marshal put attrs rest s' (ds @ extra))
      else case map_of attrs key of
        None \<Rightarrow> setAttributesLoop C marshal put attrs rest s ds
      | Some a \<Rightarrow>
          (case setResourceAttribute C marshal put key a value s of
             (s', extra) \<Rightarrow>
               if HasError (ds @ extra) then (False, s', ds @ extra)
               else setAttributesLoop C marshal put attrs rest s' (ds @ extra)))"

fun setBlocksLoop ::
    "conversions \<Rightarrow> 's setter \<Rightarrow> (string \<times> block) list \<Rightarrow> StateData \<Rightarrow> 's \<Rightarrow> diags \<Rightarrow> 's \<times> diags" where
  "setBlocksLoop C put blocks [] s ds = (s, ds)"
| "setBlocksLoop C put blocks ((key, value) # rest) s ds =
     (case map_of blocks key of
        None \<Rightarrow> setBlocksLoop C put blocks rest s ds
      | Some b \<Rightarrow>
          (case setResourceBlock C put key b value s of
             (s', extra) \<Rightarrow>
               if HasError (ds @ extra) then (s', ds @ extra)
               else setBlocksLoop C put blocks rest s' (ds @ extra)))"

definition setResourceStateFromJSON ::
    "conversions \<Rightarrow> (val \<Rightarrow> string res) \<Rightarrow> 's setter \<Rightarrow> StateData \<Rightarrow> (string \<times> attribute) list \<Rightarrow> (string \<times> block) list \<Rightarrow>
     's \<Rightarrow> 's \<times> diags" where
  "setResourceStateFromJSON C marshal put data attrs blocks s =
     (case setAttributesLoop C marshal put attrs data s [] of
        (False, s', ds) \<Rightarrow> (s', ds)
      | (True, s', ds) \<Rightarrow> setBlocksLoop C put blocks data s' ds)"

text \<open>A data source's attributes are set the same way, without blocks.\<close>

definition setDataSourceStateFromJSON ::
    "conversions \<Rightarrow> (val \<Rightarrow> string res) \<Rightarrow> 's setter \<Rightarrow> StateData \<Rightarrow> (string \<times> attribute) list \<Rightarrow> 's \<Rightarrow> 's \<times> diags" where
  "setDataSourceStateFromJSON C marshal put data attrs s = snd (setAttributesLoop C marshal put attrs data s [])"

subsection \<open>Only values of the declared types are set\<close>

fun valueFits :: "attribute \<Rightarrow> attrVal \<Rightarrow> bool" where
  "valueFits (StringAttribute _) (StringVal _) = True"
| "valueFits Int64Attribute (Int64Val _) = True"
| "valueFits BoolAttribute (BoolVal _) = True"
| "valueFits (ListAttribute StringElem) (ListVal StringElem _) = True"
| "valueFits (MapAttribute StringElem) (MapVal StringElem _) = True"
| "valueFits (ListAttribute OtherElem) (StringVal _) = True"
| "valueFits (MapAttribute OtherElem) (StringVal _) = True"
| "valueFits OtherAttribute (StringVal _) = True"
| "valueFits _ _ = False"

text \<open>The value an argument of \<open>SetAttribute\<close> stands for.\<close>

fun setValue :: "setArg \<Rightarrow> attrVal" where
  "setValue (SetText t) = StringVal (Known t)"
| "setValue (SetNumber n) = Int64Val (Known n)"
| "setValue (SetTruth b) = BoolVal (Known b)"
| "setValue (SetMapping m) = MapVal StringElem (Known (map (\<lambda>(k, v). (k, StringVal (Known v))) m))"
| "setValue (SetVal v) = v"

definition blockFits :: "conversions \<Rightarrow> block \<Rightarrow> attrVal \<Rightarrow> bool" where
  "blockFits C b v \<longleftrightarrow>
     (\<exists>battrs. b = SingleNestedBlock battrs \<and>
       (v = ObjectVal NullValue \<or>
        (\<exists>vs. v = ObjectVal (fst (cv_object C battrs vs)) \<and>
           list_all2 (\<lambda>(name, a) (name', x). name' = name \<and> valueFits a x) battrs vs)))"

definition assignable :: "conversions \<Rightarrow> (string \<times> attribute) list \<Rightarrow> (string \<times> block) list \<Rightarrow> string \<Rightarrow> setArg \<Rightarrow> bool" where
  "assignable C attrs blocks key arg \<longleftrightarrow>
     key = ''id'' \<and> valueFits (StringAttribute NoCustom) (setValue arg) \<or>
     (\<exists>a. map_of attrs key = Some a \<and> valueFits a (setValue arg)) \<or>
     (\<exists>b. map_of blocks key = Some b \<and> blockFits C b (setValue arg))"

text \<open>A state that records what it is given, whatever it answers.\<close>

definition recording :: "((string \<times> setArg) list \<Rightarrow> string \<Rightarrow> setArg \<Rightarrow> diags) \<Rightarrow> (string \<times> setArg) list setter" where
  "recording answer key arg calls = (calls @ [(key, arg)], answer calls key arg)"

definition addsOnly :: "(setArg \<Rightarrow> bool) \<Rightarrow> string \<Rightarrow> ((string \<times> setArg) list \<Rightarrow> (string \<times> setArg) list \<times> diags) \<Rightarrow> bool" where
  "addsOnly P key f \<longleftrightarrow> (\<forall>calls. fst (f calls) = calls \<or> (\<exists>arg. fst (f calls) = calls @ [(key, arg)] \<and> P arg))"

lemma addsOnly_skip: "addsOnly P key (\<lambda>s. (s, ds))"
  by (simp add: addsOnly_def)

lemma addsOnly_put: "P arg \<Longrightarrow> addsOnly P key (recording D key arg)"
  by (simp add: addsOnly_def recording_def)

lemma setString_typed: "addsOnly (\<lambda>arg. valueFits (StringAttribute c) (setValue arg)) key (setStringValue (recording D) key v)"
  unfolding addsOnly_def setStringValue_def recording_def by (auto split: option.split)

lemma fallback_typed:
  "a \<in> {OtherAttribute, ListAttribute OtherElem, MapAttribute OtherElem} \<Longrightarrow>
   addsOnly (\<lambda>arg. valueFits a (setValue arg)) key (setFallbackValue marshal (recording D) key v)"
  unfolding addsOnly_def setFallbackValue_def recording_def by (auto split: sum.split)

lemma attribute_typed:
  "addsOnly (\<lambda>arg. valueFits a (setValue arg)) key (setResourceAttribute C marshal (recording D) key a v)"
proof (cases a)
  case (StringAttribute c)
  have "setResourceAttribute C marshal (recording D) key a v = setStringValue (recording D) key v"
    by (rule ext) (simp add: StringAttribute)
  with setString_typed show ?thesis by (simp add: StringAttribute)
next
  case Int64Attribute
  then show ?thesis by (auto simp: addsOnly_def setInt64Value_def recording_def split: option.split)
next
  case BoolAttribute
  then show ?thesis by (auto simp: addsOnly_def setBoolValue_def recording_def split: option.split)
next
  case (ListAttribute e)
  show ?thesis
  proof (cases e)
    case StringElem
    then show ?thesis
      by (auto simp: ListAttribute addsOnly_def setListValue_def recording_def split: option.split prod.split)
  next
    case OtherElem
    with fallback_typed [of a] show ?thesis by (auto simp: ListAttribute addsOnly_def setListValue_def)
  qed
next
  case (MapAttribute e)
  show ?thesis
  proof (cases e)
    case StringElem
    then show ?thesis by (auto simp: MapAttribute addsOnly_def setMapValue_def recording_def split: option.split)
  next
    case OtherElem
    with fallback_typed [of a] show ?thesis by (auto simp: MapAttribute addsOnly_def setMapValue_def)
  qed
next
  case OtherAttribute
  with fallback_typed [of a] show ?thesis by (auto simp: addsOnly_def)
qed

lemma nested_typed: "resourceAttributeValue C key a v = (Some x, ds) \<Longrightarrow> valueFits a x"
  by (induction C key a v rule: resourceAttributeValue.induct) (auto split: if_splits option.splits prod.splits)

lemma nested_error: "resourceAttributeValue C key a v = (None, ds) \<Longrightarrow> HasError ds"
  by (induction C key a v rule: resourceAttributeValue.induct)
    (auto simp: newTypeDiagnostic_def HasError_def split: if_splits option.splits prod.splits)

lemma HasError_append [simp]: "HasError (ds @ es) \<longleftrightarrow> HasError ds \<or> HasError es"
  by (simp add: HasError_def)

lemma blockValues_typed:
  "blockValues C battrs items acc ds = (Some vs, es) \<Longrightarrow>
   \<exists>ws. vs = acc @ ws \<and> list_all2 (\<lambda>(name, a) (name', x). name' = name \<and> valueFits a x) battrs ws"
proof (induction C battrs items acc ds rule: blockValues.induct)
  case (2 C name a rest items acc ds)
  let ?raw = "case map_of items name of Some raw \<Rightarrow> raw | None \<Rightarrow> VNil"
  obtain c extra where r: "resourceAttributeValue C name a ?raw = (c, extra)" by fastforce
  have ne: "\<not> HasError (ds @ extra)" using "2.prems" r by (auto split: if_splits)
  with nested_error [of C name a ?raw extra] r obtain x where x: "c = Some x" by (cases c) auto
  have "blockValues C rest items (acc @ [(name, x)]) (ds @ extra) = (Some vs, es)"
    using "2.prems" r ne x by simp
  with "2.IH" [OF r [symmetric] ne] x obtain ws where
    ws: "vs = (acc @ [(name, x)]) @ ws" "list_all2 (\<lambda>(name, a) (name', x). name' = name \<and> valueFits a x) rest ws" by auto
  then show ?case using nested_typed [of C name a ?raw x extra] r x by (intro exI [of _ "(name, x) # ws"]) auto
qed simp

lemma block_typed: "addsOnly (\<lambda>arg. blockFits C b (setValue arg)) key (setResourceBlock C (recording D) key b v)"
proof (cases b)
  case (SingleNestedBlock battrs)
  have "blockFits C (SingleNestedBlock battrs) (ObjectVal obj)"
    if "blockValues C battrs items [] [] = (Some vs, ds)" "cv_object C battrs vs = (obj, es)" for items vs ds obj es
    using blockValues_typed [OF that(1)] that(2) unfolding blockFits_def by (metis append_Nil fst_conv)
  moreover have "blockFits C (SingleNestedBlock battrs) (ObjectVal NullValue)" by (auto simp: blockFits_def)
  ultimately show ?thesis
    by (auto simp: SingleNestedBlock addsOnly_def setResourceBlock_def setSingleNestedResourceBlock_def recording_def
      split: option.split prod.split)
next
  case OtherBlock
  then show ?thesis by (simp add: addsOnly_def setResourceBlock_def)
qed

definition allAssignable :: "conversions \<Rightarrow> (string \<times> attribute) list \<Rightarrow> (string \<times> block) list \<Rightarrow> (string \<times> setArg) list \<Rightarrow> bool" where
  "allAssignable C attrs blocks calls \<longleftrightarrow> list_all (\<lambda>(key, arg). assignable C attrs blocks key arg) calls"

lemma allAssignable_add:
  "addsOnly P key f \<Longrightarrow> (\<And>arg. P arg \<Longrightarrow> assignable C attrs blocks key arg) \<Longrightarrow>
   allAssignable C attrs blocks calls \<Longrightarrow> allAssignable C attrs blocks (fst (f calls))"
  by (auto simp: addsOnly_def allAssignable_def) (metis (mono_tags, lifting) case_prodI list.pred_inject list_all_append)

lemma attributes_typed:
  "allAssignable C attrs blocks calls \<Longrightarrow>
   allAssignable C attrs blocks (fst (snd (setAttributesLoop C marshal (recording D) attrs data calls ds)))"
proof (induction data arbitrary: calls ds)
  case (Cons e rest)
  obtain key v where e: "e = (key, v)" by fastforce
  show ?case
  proof (cases "key = ''id''")
    case True
    have "allAssignable C attrs blocks (fst (setStringValue (recording D) ''id'' v calls))"
      by (rule allAssignable_add [OF setString_typed [of NoCustom] _ Cons.prems]) (simp add: assignable_def)
    with Cons.IH e True show ?thesis by (auto split: prod.split)
  next
    case nid: False
    show ?thesis
    proof (cases "map_of attrs key")
      case None
      with Cons nid e show ?thesis by simp
    next
      case (Some a)
      have "allAssignable C attrs blocks (fst (setResourceAttribute C marshal (recording D) key a v calls))"
        by (rule allAssignable_add [OF attribute_typed _ Cons.prems]) (use Some in \<open>auto simp: assignable_def\<close>)
      with Cons.IH e nid Some show ?thesis by (auto split: prod.split)
    qed
  qed
qed simp

lemma blocks_typed:
  "allAssignable C attrs blocks calls \<Longrightarrow>
   allAssignable C attrs blocks (fst (setBlocksLoop C (recording D) blocks data calls ds))"
proof (induction data arbitrary: calls ds)
  case (Cons e rest)
  obtain key v where e: "e = (key, v)" by fastforce
  show ?case
  proof (cases "map_of blocks key")
    case None
    with Cons e show ?thesis by simp
  next
    case (Some b)
    have "allAssignable C attrs blocks (fst (setResourceBlock C (recording D) key b v calls))"
      by (rule allAssignable_add [OF block_typed _ Cons.prems]) (use Some in \<open>auto simp: assignable_def\<close>)
    with Cons.IH e Some show ?thesis by (auto split: prod.split)
  qed
qed simp


end
