(* ===== verification/EngineRoundtrip.thy ===== *)
theory EngineRoundtrip
  imports EngineState
begin

text \<open>
  providers/shared/engine/state_helpers.go: a guest's reply that is put into a Terraform state is taken
  out of it again as the same values. \<open>framework_laws\<close> states what the plugin framework's calls do:
  \<open>cell s key\<close> is the value of the attribute \<open>key\<close> in the state \<open>s\<close>.
\<close>

fun heldString :: "attrVal \<Rightarrow> string tf" where
  "heldString (StringVal t) = t"
| "heldString _ = NullValue"

fun heldInt :: "attrVal \<Rightarrow> int tf" where
  "heldInt (Int64Val t) = t"
| "heldInt _ = NullValue"

fun heldBool :: "attrVal \<Rightarrow> bool tf" where
  "heldBool (BoolVal t) = t"
| "heldBool _ = NullValue"

fun heldList :: "attrVal \<Rightarrow> attrVal list tf" where
  "heldList (ListVal _ t) = t"
| "heldList _ = NullValue"

fun heldMap :: "attrVal \<Rightarrow> (string \<times> attrVal) list tf" where
  "heldMap (MapVal _ t) = t"
| "heldMap _ = NullValue"

definition knownStrings :: "string list \<Rightarrow> attrVal list" where
  "knownStrings xs = map (\<lambda>x. StringVal (Known x)) xs"

definition knownEntries :: "(string \<times> string) list \<Rightarrow> (string \<times> attrVal) list" where
  "knownEntries m = map (\<lambda>(k, v). (k, StringVal (Known v))) m"

text \<open>A fitting assignment changes its attribute only and reports nothing; reading an attribute into a
  variable of its type gives its value; elements that are all known are converted.\<close>

definition framework_laws ::
    "conversions \<Rightarrow> (string \<times> attribute) list \<Rightarrow> 's setter \<Rightarrow> ('s \<Rightarrow> getters) \<Rightarrow> ('s \<Rightarrow> string \<Rightarrow> attrVal) \<Rightarrow> bool" where
  "framework_laws C attrs put G cell \<longleftrightarrow>
     (\<forall>key arg s. assignable C attrs [] key arg \<longrightarrow>
        snd (put key arg s) = [] \<and> cell (fst (put key arg s)) = (cell s)(key := setValue arg)) \<and>
     (\<forall>s key. g_String (G s) key = (heldString (cell s key), []) \<and> g_Digested (G s) key = (heldString (cell s key), []) \<and>
        g_DigestedBase64 (G s) key = (heldString (cell s key), []) \<and> g_Int64 (G s) key = (heldInt (cell s key), []) \<and>
        g_Bool (G s) key = (heldBool (cell s key), []) \<and> g_List (G s) key = (heldList (cell s key), []) \<and>
        g_Map (G s) key = (heldMap (cell s key), [])) \<and>
     (\<forall>xs. cv_listFrom C (Some xs) = (Known (knownStrings xs), []) \<and> cv_strings C (knownStrings xs) = (xs, [])) \<and>
     (\<forall>m. cv_stringMap C (knownEntries m) = (m, []))"

text \<open>The attribute types with a conversion of their own, and the form in which a value of such a type
  is read back.\<close>

fun typedAttribute :: "attribute \<Rightarrow> bool" where
  "typedAttribute (ListAttribute OtherElem) = False"
| "typedAttribute (MapAttribute OtherElem) = False"
| "typedAttribute OtherAttribute = False"
| "typedAttribute _ = True"

fun readForm :: "attribute \<Rightarrow> val \<Rightarrow> val option" where
  "readForm (StringAttribute _) v = map_option VStr (asString v)"
| "readForm Int64Attribute v = map_option VInt64 (asInt64 v)"
| "readForm BoolAttribute v = map_option VBool (asBool v)"
| "readForm (ListAttribute StringElem) v =
     (case asStringSlice v of Some (Some xs) \<Rightarrow> Some (VStrs (Some xs)) | _ \<Rightarrow> None)"
| "readForm (MapAttribute StringElem) v = map_option VStrMap (asStringMap v)"
| "readForm _ v = None"

text \<open>What the attribute's cell holds then.\<close>

fun cellOf :: "val \<Rightarrow> attrVal" where
  "cellOf (VStr t) = StringVal (Known t)"
| "cellOf (VInt64 n) = Int64Val (Known n)"
| "cellOf (VBool b) = BoolVal (Known b)"
| "cellOf (VStrs (Some xs)) = ListVal StringElem (Known (knownStrings xs))"
| "cellOf (VStrMap m) = MapVal StringElem (Known (knownEntries m))"
| "cellOf _ = OtherVal"

fun nullOf :: "attribute \<Rightarrow> attrVal" where
  "nullOf (StringAttribute _) = StringVal NullValue"
| "nullOf Int64Attribute = Int64Val NullValue"
| "nullOf BoolAttribute = BoolVal NullValue"
| "nullOf (ListAttribute e) = ListVal e NullValue"
| "nullOf (MapAttribute e) = MapVal e NullValue"
| "nullOf OtherAttribute = OtherVal"

lemma set_law:
  assumes "framework_laws C attrs put G cell" "assignable C attrs [] key arg"
  shows "\<exists>s'. put key arg s = (s', []) \<and> cell s' = (cell s)(key := setValue arg)"
  using assms by (metis framework_laws_def prod.collapse)

lemma set_fitting:
  assumes laws: "framework_laws C attrs put G cell" and a: "map_of attrs key = Some a"
    and r: "readForm a v = Some w"
  shows "\<exists>s'. setResourceAttribute C marshal put key a v s = (s', []) \<and> cell s' = (cell s)(key := cellOf w)"
proof -
  have asg: "assignable C attrs [] key arg" if "valueFits a (setValue arg)" for arg
    using that a by (auto simp: assignable_def)
  note put = set_law [OF laws asg, of _ s]
  have lf: "cv_listFrom C (Some xs) = (Known (knownStrings xs), [])" for xs
    using laws by (simp add: framework_laws_def)
  show ?thesis
  proof (cases "(a, v)" rule: readForm.cases)
    case (1 c v)
    then obtain t where t: "v = VStr t" "w = VStr t" using r by (cases v) (auto simp: asString_def)
    with put [of "SetText t"] 1 show ?thesis by (simp add: setStringValue_def asString_def)
  next
    case (2 v)
    then obtain n where t: "asInt64 v = Some n" "w = VInt64 n" using r by auto
    with put [of "SetNumber n"] 2 show ?thesis by (simp add: setInt64Value_def)
  next
    case (3 v)
    then obtain b where t: "asBool v = Some b" "w = VBool b" using r by auto
    with put [of "SetTruth b"] 3 show ?thesis by (simp add: setBoolValue_def)
  next
    case (4 v)
    then obtain xs where t: "asStringSlice v = Some (Some xs)" "w = VStrs (Some xs)"
      using r by (auto split: option.splits)
    then have "v \<noteq> VNil" by (auto simp: asStringSlice_def)
    with put [of "SetVal (ListVal StringElem (Known (knownStrings xs)))"] 4 t lf show ?thesis
      by (simp add: setListValue_def HasError_def)
  next
    case (5 v)
    then obtain m where t: "asStringMap v = Some m" "w = VStrMap m" using r by auto
    with put [of "SetMapping m"] 5 show ?thesis by (simp add: setMapValue_def knownEntries_def)
  qed (use r in auto)
qed

text \<open>The attribute a key of the reply is stored under; the identifier is always a string.\<close>

definition storedAs :: "(string \<times> attribute) list \<Rightarrow> string \<Rightarrow> attribute option" where
  "storedAs attrs key = (if key = ''id'' then Some (StringAttribute NoCustom) else map_of attrs key)"

definition fittingReply :: "(string \<times> attribute) list \<Rightarrow> StateData \<Rightarrow> bool" where
  "fittingReply attrs data \<longleftrightarrow> distinct (map fst data) \<and>
     list_all (\<lambda>(key, v). case storedAs attrs key of Some a \<Rightarrow> readForm a v \<noteq> None | None \<Rightarrow> True) data"

definition replyCell :: "(string \<times> attribute) list \<Rightarrow> StateData \<Rightarrow> string \<Rightarrow> attrVal option" where
  "replyCell attrs data key =
     (case storedAs attrs key of
        None \<Rightarrow> None
      | Some a \<Rightarrow> (case map_of data key of None \<Rightarrow> None | Some v \<Rightarrow> map_option cellOf (readForm a v)))"

lemma set_id:
  assumes laws: "framework_laws C attrs put G cell" and r: "readForm (StringAttribute NoCustom) v = Some w"
  shows "\<exists>s'. setStringValue put ''id'' v s = (s', []) \<and> cell s' = (cell s)(''id'' := cellOf w)"
proof -
  obtain t where t: "v = VStr t" "w = VStr t" using r by (cases v) (auto simp: asString_def)
  have "assignable C attrs [] ''id'' (SetText t)" by (simp add: assignable_def)
  from set_law [OF laws this] t show ?thesis by (simp add: setStringValue_def asString_def)
qed

lemma replyCell_Cons:
  "key' \<noteq> key \<Longrightarrow> replyCell attrs ((key, v) # rest) key' = replyCell attrs rest key'"
  by (simp add: replyCell_def split: option.split)

lemma set_reply:
  assumes laws: "framework_laws C attrs put G cell"
  shows "fittingReply attrs data \<Longrightarrow>
    \<exists>s'. setAttributesLoop C marshal put attrs data s [] = (True, s', []) \<and>
      (\<forall>key. cell s' key = (case replyCell attrs data key of Some c \<Rightarrow> c | None \<Rightarrow> cell s key))"
proof (induction data arbitrary: s)
  case Nil
  then show ?case by (auto simp: replyCell_def split: option.split)
next
  case (Cons e rest)
  obtain key v where e: "e = (key, v)" by fastforce
  have fr: "fittingReply attrs rest" and nk: "key \<notin> fst ` set rest"
    using Cons.prems by (auto simp: fittingReply_def e)
  have none: "replyCell attrs rest key = None"
    using nk map_of_eq_None_iff [of rest key] by (simp add: replyCell_def split: option.split)
  show ?case
  proof (cases "storedAs attrs key")
    case None
    then have "key \<noteq> ''id''" "map_of attrs key = None" by (auto simp: storedAs_def split: if_splits)
    moreover have "replyCell attrs (e # rest) = replyCell attrs rest"
      using None replyCell_Cons by (auto simp: fun_eq_iff e) (metis none replyCell_def option.simps(4))
    ultimately show ?thesis using Cons.IH [OF fr, of s] by (simp add: e)
  next
    case (Some a)
    then obtain w where w: "readForm a v = Some w" using Cons.prems by (auto simp: fittingReply_def e)
    have rc: "replyCell attrs (e # rest) key = Some (cellOf w)" by (simp add: replyCell_def Some e w)
    have "\<exists>s1. (if key = ''id'' then setStringValue put ''id'' v s else setResourceAttribute C marshal put key a v s) = (s1, []) \<and>
        cell s1 = (cell s)(key := cellOf w)"
      using set_id [OF laws] set_fitting [OF laws _ w] Some w by (auto simp: storedAs_def split: if_splits)
    then obtain s1 where s1: "(if key = ''id'' then setStringValue put ''id'' v s else setResourceAttribute C marshal put key a v s) = (s1, [])"
      "cell s1 = (cell s)(key := cellOf w)" by blast
    from Cons.IH [OF fr, of s1] obtain s2 where s2: "setAttributesLoop C marshal put attrs rest s1 [] = (True, s2, [])"
      "\<forall>k. cell s2 k = (case replyCell attrs rest k of Some c \<Rightarrow> c | None \<Rightarrow> cell s1 k)" by blast
    have "setAttributesLoop C marshal put attrs (e # rest) s [] = (True, s2, [])"
      using s1(1) s2(1) Some by (auto simp: e storedAs_def HasError_def split: if_splits)
    moreover have "cell s2 k = (case replyCell attrs (e # rest) k of Some c \<Rightarrow> c | None \<Rightarrow> cell s k)" for k
      using s2(2) s1(2) none rc replyCell_Cons [of k key attrs v rest] by (cases "k = key") (simp_all add: e split: option.split)
    ultimately show ?thesis by blast
  qed
qed

subsection \<open>Reading the state\<close>

lemma extract_cell:
  assumes laws: "framework_laws C attrs put G cell" and r: "readForm a v = Some w" and c: "cell s key = cellOf w"
  shows "extractValue C (G s) key a = (Some w, [])"
proof -
  have g: "g_String (G s) key = (heldString (cell s key), [])" "g_Digested (G s) key = (heldString (cell s key), [])"
    "g_DigestedBase64 (G s) key = (heldString (cell s key), [])" "g_Int64 (G s) key = (heldInt (cell s key), [])"
    "g_Bool (G s) key = (heldBool (cell s key), [])" "g_List (G s) key = (heldList (cell s key), [])"
    "g_Map (G s) key = (heldMap (cell s key), [])"
    and cv: "cv_strings C (knownStrings xs) = (xs, [])" "cv_stringMap C (knownEntries m) = (m, [])" for xs m
    using laws by (simp_all add: framework_laws_def)
  show ?thesis
    using r c g cv
    by (cases "(a, v)" rule: readForm.cases)
      (auto simp: extractResourceStringValue_def extractStringValue_def extractInt64Value_def extractBoolValue_def
        extractScalar_def extractStringListValue_def extractStringMapValue_def extractCollection_def HasError_def
        split: customType.split option.splits)
qed

lemma extract_null:
  assumes laws: "framework_laws C attrs put G cell" and t: "typedAttribute a" and c: "cell s key = nullOf a"
  shows "extractValue C (G s) key a = (None, [])"
proof -
  have g: "g_String (G s) key = (heldString (cell s key), [])" "g_Digested (G s) key = (heldString (cell s key), [])"
    "g_DigestedBase64 (G s) key = (heldString (cell s key), [])" "g_Int64 (G s) key = (heldInt (cell s key), [])"
    "g_Bool (G s) key = (heldBool (cell s key), [])" "g_List (G s) key = (heldList (cell s key), [])"
    "g_Map (G s) key = (heldMap (cell s key), [])"
    using laws by (simp_all add: framework_laws_def)
  then show ?thesis
    using t c by (cases a rule: typedAttribute.cases)
      (simp_all add: extractResourceStringValue_def extractStringValue_def extractInt64Value_def extractBoolValue_def
        extractScalar_def extractStringListValue_def extractStringMapValue_def extractCollection_def HasError_def
        split: customType.split)
qed

lemma extract_loop:
  assumes "\<forall>(key, a) \<in> set attrs. extract key a = (value key, [])"
  shows "\<exists>out. extractLoop extract attrs acc [] = (Some out, []) \<and>
    (\<forall>key. map_of out key = (if key \<in> fst ` set attrs \<and> value key \<noteq> None then value key else map_of acc key))"
  using assms
proof (induction attrs arbitrary: acc)
  case (Cons e attrs)
  obtain key a where e: "e = (key, a)" by fastforce
  let ?acc = "case value key of Some v \<Rightarrow> (key, v) # acc | None \<Rightarrow> acc"
  have x: "extract key a = (value key, [])" using Cons.prems e by simp
  from Cons.IH [of ?acc] Cons.prems obtain out where out: "extractLoop extract attrs ?acc [] = (Some out, [])"
    "\<forall>k. map_of out k = (if k \<in> fst ` set attrs \<and> value k \<noteq> None then value k else map_of ?acc k)" by auto
  have "extractLoop extract (e # attrs) acc [] = (Some out, [])" using out(1) by (simp add: e x HasError_def)
  moreover have "map_of out k = (if k \<in> fst ` set (e # attrs) \<and> value k \<noteq> None then value k else map_of acc k)" for k
    using out(2) by (cases "value key") (auto simp: e)
  ultimately show ?case by blast
qed simp


text \<open>A framework whose state is the values of its attributes.\<close>

definition demo_conversions :: conversions where
  "demo_conversions =
     \<lparr>cv_strings = (\<lambda>vs. (map (\<lambda>v. case heldString v of Known t \<Rightarrow> t | _ \<Rightarrow> []) vs, [])),
      cv_stringMap = (\<lambda>m. (map (\<lambda>(k, v). (k, case heldString v of Known t \<Rightarrow> t | _ \<Rightarrow> [])) m, [])),
      cv_listFrom = (\<lambda>xs. (case xs of None \<Rightarrow> NullValue | Some l \<Rightarrow> Known (knownStrings l), [])),
      cv_mapFrom = (\<lambda>m. (Known (knownEntries m), [])),
      cv_object = (\<lambda>_ vs. (Known vs, []))\<rparr>"

definition demo_put :: "(string \<Rightarrow> attrVal) setter" where
  "demo_put key arg s = (s(key := setValue arg), [])"

definition demo_get :: "(string \<Rightarrow> attrVal) \<Rightarrow> getters" where
  "demo_get s =
     \<lparr>g_String = (\<lambda>key. (heldString (s key), [])), g_Digested = (\<lambda>key. (heldString (s key), [])),
      g_DigestedBase64 = (\<lambda>key. (heldString (s key), [])), g_Int64 = (\<lambda>key. (heldInt (s key), [])),
      g_Bool = (\<lambda>key. (heldBool (s key), [])), g_List = (\<lambda>key. (heldList (s key), [])),
      g_Map = (\<lambda>key. (heldMap (s key), [])), g_Object = (\<lambda>key. (NullValue, []))\<rparr>"

lemma demo_framework: "framework_laws demo_conversions attrs demo_put demo_get (\<lambda>s. s)"
  by (simp add: framework_laws_def demo_conversions_def demo_put_def demo_get_def knownStrings_def knownEntries_def
    comp_def case_prod_beta)

definition demo_attrs :: "(string \<times> attribute) list" where
  "demo_attrs = [(''id'', StringAttribute NoCustom), (''port'', Int64Attribute), (''on'', BoolAttribute),
     (''tags'', ListAttribute StringElem)]"

definition demo_reply :: StateData where
  "demo_reply = [(''tags'', VList (Some [VStr ''a''])), (''x'', VNil), (''port'', VFloat 44 1), (''id'', VStr ''i'')]"

definition demo_fresh :: "string \<Rightarrow> attrVal" where
  "demo_fresh key = (case map_of demo_attrs key of Some a \<Rightarrow> nullOf a | None \<Rightarrow> OtherVal)"

lemma demo_reply_fits:
  "distinct (map fst demo_attrs)" "fittingReply demo_attrs demo_reply"
  "list_all (\<lambda>(key, a). typedAttribute a \<and> demo_fresh key = nullOf a) demo_attrs"
  "case map_of demo_attrs ''id'' of Some (StringAttribute c) \<Rightarrow> True | None \<Rightarrow> True | _ \<Rightarrow> False"
  by code_simp+


end
