(* ===== verification/HostTarget.thy ===== *)
theory HostTarget
  imports ConnPool EngineState
begin

text \<open>
  Which host a resource is on: the transport attributes of providers/shared/engine/adapter_helpers.go,
  their values in the state (providers/shared/engine/state_helpers.go), the pinned host key of
  providers/shared/engine/entry_resource.go and the resource identity of
  providers/shared/engine/resource_identity.go.

  The plugin framework's \<open>GetAttribute\<close> of a plan, a state, a configuration or an identity is a
  \<open>getters\<close> record and \<open>SetAttribute\<close> a \<open>setter\<close>, as in the theory of the state values. The three
  functions that read a plan, a state and a configuration differ in nothing else, so each is the same
  definition on its getters.
\<close>

subsection \<open>The transport attributes\<close>

record transportAttributeNames =
  tn_target :: string
  tn_port :: string
  tn_transport :: string
  tn_hostKeyFingerprint :: string

definition defaultTransportAttributeNames :: transportAttributeNames where
  "defaultTransportAttributeNames = \<lparr>tn_target = ''target'', tn_port = ''port'', tn_transport = ''transport'',
     tn_hostKeyFingerprint = ''host_key_fingerprint''\<rparr>"

type_synonym attributes = "(string \<times> attribute) list"

text \<open>A resource that has an attribute of one of these names gets the longer name for the transport's.\<close>

definition namesFor :: "attributes \<Rightarrow> transportAttributeNames" where
  "namesFor result =
     (let has = (\<lambda>k. k \<in> fst ` set result); d = defaultTransportAttributeNames in
      \<lparr>tn_target = (if has ''target'' then ''target_host'' else tn_target d),
       tn_port = (if has ''port'' then ''target_port'' else tn_port d),
       tn_transport = (if has ''transport'' then ''target_transport'' else tn_transport d),
       tn_hostKeyFingerprint =
         (if has ''host_key_fingerprint'' then ''target_host_key_fingerprint'' else tn_hostKeyFingerprint d)\<rparr>)"

definition customized :: "(attributes \<Rightarrow> attributes) option \<Rightarrow> attributes \<Rightarrow> attributes" where
  "customized customize attrs = (case customize of None \<Rightarrow> attrs | Some f \<Rightarrow> f attrs)"

definition transportAttributeNamesForResourceSchema ::
    "attributes \<Rightarrow> (attributes \<Rightarrow> attributes) option \<Rightarrow> transportAttributeNames" where
  "transportAttributeNamesForResourceSchema attrs customize = namesFor (customized customize attrs)"

definition resourceSchemaAttributes ::
    "attributes \<Rightarrow> (attributes \<Rightarrow> attributes) option \<Rightarrow> bool \<Rightarrow> attributes" where
  "resourceSchemaAttributes attrs customize usesAllowFlag =
     (let result = customized customize attrs;
          names = namesFor result;
          r1 = AList.update ''id'' (StringAttribute NoCustom) result;
          r2 = AList.update (tn_target names) (StringAttribute NoCustom) r1;
          r3 = AList.update (tn_port names) Int64Attribute r2;
          r4 = AList.update (tn_transport names) (StringAttribute NoCustom) r3;
          r5 = AList.update (tn_hostKeyFingerprint names) (StringAttribute NoCustom) r4
      in if usesAllowFlag then AList.update ''allow_destructive_destroy'' BoolAttribute r5 else r5)"

definition resourceSchemaHasAttribute :: "attributes \<Rightarrow> string \<Rightarrow> bool" where
  "resourceSchemaHasAttribute schema key \<longleftrightarrow> map_of schema key \<noteq> None"

subsection \<open>The configuration of a target\<close>

definition emptyTransportConfig :: TransportConfig where
  "emptyTransportConfig = \<lparr>tc_SSHUser = [], tc_SSHPrivateKey = [], tc_SSHCertificate = [], tc_SSHAgent = False,
     tc_SSHKnownHostsFile = [], tc_SSHHostKeyTrust = None, tc_SSHHostKeyFingerprint = [], tc_Target = [],
     tc_Port = 0, tc_Transport = []\<rparr>"

type_synonym resolved = "TransportConfig \<times> bool \<times> diags"

definition finalizeTransportConfig :: "TransportConfig \<Rightarrow> diags \<Rightarrow> resolved" where
  "finalizeTransportConfig config ds =
     (let transport0 = TrimSpace (tc_Transport config);
          c = config\<lparr>tc_Target := TrimSpace (tc_Target config),
                tc_Transport := ToLower (if transport0 = [] then TransportSSH else transport0)\<rparr>
      in
      if HasError ds then (emptyTransportConfig, False, ds)
      else if tc_Port c < 0 then
        (emptyTransportConfig, False, ds @ [ErrorDiag ''Invalid port''
           (''port resolves to '' @ show_int (tc_Port c) @ ''. Set a positive port value.'')])
      else if tc_Transport c \<noteq> TransportSSH \<and> tc_Transport c \<noteq> TransportLocal then
        (emptyTransportConfig, False, ds @ [ErrorDiag ''Unsupported transport''
           (''transport resolves to '' @ go_quote (tc_Transport c) @ ''. The current provider surface supports ssh.'')])
      else if tc_Transport c = TransportLocal then
        (if tc_Target c = [] then c\<lparr>tc_Target := TransportLocal\<rparr> else c, True, ds)
      else if tc_Target c = [] then
        (emptyTransportConfig, False, ds @ [ErrorDiag ''No target configured''
           ''Either set the target attribute or configure default_target on the provider.''])
      else (if tc_Port c = 0 then c\<lparr>tc_Port := 22\<rparr> else c, True, ds))"

fun knownOr :: "'a tf \<Rightarrow> 'b \<Rightarrow> ('a \<Rightarrow> 'b) \<Rightarrow> 'b" where
  "knownOr (Known x) d f = f x"
| "knownOr _ d f = d"

definition buildTransportConfigIfKnown ::
    "string tf \<Rightarrow> int tf \<Rightarrow> string tf \<Rightarrow> TransportConfig option \<Rightarrow> diags \<Rightarrow> resolved" where
  "buildTransportConfigIfKnown target port transportName defaultHost ds =
     (if HasError ds then (emptyTransportConfig, False, ds)
      else if target = UnknownValue \<or> port = UnknownValue \<or> transportName = UnknownValue
        then (emptyTransportConfig, False, ds)
      else
        let c0 = (case defaultHost of Some d \<Rightarrow> d | None \<Rightarrow> emptyTransportConfig);
            c1 = knownOr target c0 (\<lambda>t. c0\<lparr>tc_Target := TrimSpace t\<rparr>);
            c2 = knownOr port c1 (\<lambda>p. c1\<lparr>tc_Port := p\<rparr>);
            c3 = knownOr transportName c2 (\<lambda>n. c2\<lparr>tc_Transport := TrimSpace n\<rparr>)
        in finalizeTransportConfig c3 ds)"

definition buildTransportConfig ::
    "string tf \<Rightarrow> int tf \<Rightarrow> string tf \<Rightarrow> TransportConfig option \<Rightarrow> diags \<Rightarrow> TransportConfig \<times> diags" where
  "buildTransportConfig target port transportName defaultHost ds =
     (case buildTransportConfigIfKnown target port transportName defaultHost ds of (c, known, ds') \<Rightarrow> (c, ds'))"

definition readTransport ::
    "transportAttributeNames \<Rightarrow> getters \<Rightarrow> (string tf \<times> int tf \<times> string tf) \<times> diags" where
  "readTransport names G =
     (case (g_String G (tn_target names), g_Int64 G (tn_port names), g_String G (tn_transport names)) of
        ((target, d1), (port, d2), (name, d3)) \<Rightarrow> ((target, port, name), d1 @ d2 @ d3))"

definition resolveHostWithNames :: "getters \<Rightarrow> TransportConfig option \<Rightarrow> transportAttributeNames \<Rightarrow> TransportConfig \<times> diags" where
  "resolveHostWithNames G defaultHost names =
     (case readTransport names G of ((target, port, name), ds) \<Rightarrow> buildTransportConfig target port name defaultHost ds)"

definition resolveHostIfKnownWithNames :: "getters \<Rightarrow> TransportConfig option \<Rightarrow> transportAttributeNames \<Rightarrow> resolved" where
  "resolveHostIfKnownWithNames G defaultHost names =
     (case readTransport names G of
        ((target, port, name), ds) \<Rightarrow> buildTransportConfigIfKnown target port name defaultHost ds)"

definition sameTransportEndpoint :: "TransportConfig \<Rightarrow> TransportConfig \<Rightarrow> bool" where
  "sameTransportEndpoint left right \<longleftrightarrow>
     (if NormalizedTransport left \<noteq> NormalizedTransport right then False
      else if NormalizedTarget left \<noteq> NormalizedTarget right then False
      else if IsLocal left \<or> IsLocal right then IsLocal left \<and> IsLocal right
      else ResolvedPort left = ResolvedPort right)"

subsection \<open>The pinned host key\<close>

definition hostKeyFingerprintStateValue :: "string \<Rightarrow> string tf" where
  "hostKeyFingerprintStateValue fingerprint =
     (if TrimSpace fingerprint = [] then NullValue else Known (TrimSpace fingerprint))"

definition normalizeHostKeyFingerprintValue :: "string tf \<Rightarrow> string tf" where
  "normalizeHostKeyFingerprintValue value = knownOr value NullValue hostKeyFingerprintStateValue"

definition applyPinnedHostKeyFingerprint :: "TransportConfig \<Rightarrow> string tf \<Rightarrow> TransportConfig" where
  "applyPinnedHostKeyFingerprint config fingerprint =
     (case normalizeHostKeyFingerprintValue fingerprint of
        Known f \<Rightarrow> config\<lparr>tc_SSHHostKeyFingerprint := f\<rparr>
      | _ \<Rightarrow> config)"

text \<open>\<open>observed\<close> is the pool's \<open>HostKeyFingerprint\<close>.\<close>

definition observedHostKeyFingerprintValue :: "(TransportConfig \<Rightarrow> string) \<Rightarrow> TransportConfig \<Rightarrow> string tf \<Rightarrow> string tf" where
  "observedHostKeyFingerprintValue observed config fallback =
     (if TrimSpace (observed config) \<noteq> [] then Known (TrimSpace (observed config))
      else normalizeHostKeyFingerprintValue fallback)"

definition hostKeyFingerprintFromStateWithNames ::
    "attributes \<Rightarrow> getters \<Rightarrow> transportAttributeNames \<Rightarrow> string tf \<times> diags" where
  "hostKeyFingerprintFromStateWithNames schema G names =
     (if \<not> resourceSchemaHasAttribute schema (tn_hostKeyFingerprint names) then (NullValue, [])
      else case g_String G (tn_hostKeyFingerprint names) of
        (value, ds) \<Rightarrow> if HasError ds then (NullValue, ds) else (normalizeHostKeyFingerprintValue value, ds))"

definition setHostKeyFingerprintStateAttributeWithNames ::
    "attributes \<Rightarrow> 's setter \<Rightarrow> string tf \<Rightarrow> transportAttributeNames \<Rightarrow> 's \<Rightarrow> 's \<times> diags" where
  "setHostKeyFingerprintStateAttributeWithNames schema put fingerprint names s =
     (if \<not> resourceSchemaHasAttribute schema (tn_hostKeyFingerprint names) then (s, [])
      else put (tn_hostKeyFingerprint names) (SetVal (StringVal (normalizeHostKeyFingerprintValue fingerprint))) s)"

subsection \<open>The target in the state\<close>

definition transportStateValuesFromConfig :: "TransportConfig \<Rightarrow> string tf \<times> int tf \<times> string tf" where
  "transportStateValuesFromConfig config =
     (if NormalizedTarget config \<noteq> [] \<and> \<not> IsLocal config then Known (NormalizedTarget config) else NullValue,
      if \<not> IsLocal config then Known (ResolvedPort config) else NullValue,
      if NormalizedTransport config \<noteq> [] then Known (NormalizedTransport config) else NullValue)"

definition setTransportStateAttributesWithNames ::
    "'s setter \<Rightarrow> string tf \<Rightarrow> int tf \<Rightarrow> string tf \<Rightarrow> transportAttributeNames \<Rightarrow> 's \<Rightarrow> 's \<times> diags" where
  "setTransportStateAttributesWithNames put target port transportName names s =
     (case put (tn_target names) (SetVal (StringVal target)) s of
        (s1, d1) \<Rightarrow>
          (case put (tn_port names) (SetVal (Int64Val port)) s1 of
             (s2, d2) \<Rightarrow>
               (case put (tn_transport names) (SetVal (StringVal transportName)) s2 of
                  (s3, d3) \<Rightarrow> (s3, d1 @ d2 @ d3))))"

text \<open>From the plan or from the prior state:\<close>

definition preserveHostWithNames :: "getters \<Rightarrow> 's setter \<Rightarrow> transportAttributeNames \<Rightarrow> 's \<Rightarrow> 's \<times> diags" where
  "preserveHostWithNames G put names s =
     (case readTransport names G of
        ((target, port, name), ds) \<Rightarrow>
          if HasError ds then (s, ds) else setTransportStateAttributesWithNames put target port name names s)"

definition preserveHostFromAddressWithNames ::
    "TransportConfig \<Rightarrow> 's setter \<Rightarrow> transportAttributeNames \<Rightarrow> 's \<Rightarrow> 's \<times> diags" where
  "preserveHostFromAddressWithNames config put names s =
     (if TrimSpace (tc_Target config) = []
      then setTransportStateAttributesWithNames put NullValue NullValue NullValue names s
      else case transportStateValuesFromConfig config of
        (target, port, name) \<Rightarrow> setTransportStateAttributesWithNames put target port name names s)"

definition preserveAllowDestructiveDestroy :: "attributes \<Rightarrow> getters \<Rightarrow> 's setter \<Rightarrow> 's \<Rightarrow> 's \<times> diags" where
  "preserveAllowDestructiveDestroy schema G put s =
     (if \<not> resourceSchemaHasAttribute schema ''allow_destructive_destroy'' then (s, [])
      else case g_Bool G ''allow_destructive_destroy'' of
        (allow, ds) \<Rightarrow>
          if HasError ds \<or> allow = UnknownValue then (s, ds)
          else (case put ''allow_destructive_destroy'' (SetVal (BoolVal allow)) s of (s', extra) \<Rightarrow> (s', ds @ extra)))"

subsection \<open>Identities\<close>

datatype identityAttribute = IdentityString | IdentityList | IdentityInt64 | IdentityOther

record ResourceImportIdentity =
  ri_Attributes :: "(string \<times> identityAttribute) list"
  ri_FormatID :: "(StateData \<Rightarrow> string res) option"

definition supportsResourceIdentity :: "ResourceImportIdentity option \<Rightarrow> bool" where
  "supportsResourceIdentity spec \<longleftrightarrow>
     (case spec of None \<Rightarrow> False | Some r \<Rightarrow> ri_Attributes r \<noteq> [] \<and> ri_FormatID r \<noteq> None)"

definition specAttributes :: "ResourceImportIdentity option \<Rightarrow> (string \<times> identityAttribute) list" where
  "specAttributes spec = (case spec of None \<Rightarrow> [] | Some r \<Rightarrow> ri_Attributes r)"

definition buildIdentitySchemaWithNames ::
    "(string \<times> identityAttribute) list \<Rightarrow> transportAttributeNames \<Rightarrow> (string \<times> identityAttribute) list" where
  "buildIdentitySchemaWithNames attrs names =
     AList.update (tn_transport names) IdentityString
       (AList.update (tn_port names) IdentityInt64 (AList.update (tn_target names) IdentityString attrs))"

text \<open>A framework identity: how it is read and set, and the null one of a schema.\<close>

record 'i identityOps =
  io_get :: "'i \<Rightarrow> getters"
  io_set :: "string \<Rightarrow> val \<Rightarrow> 'i \<Rightarrow> 'i \<times> diags"
  io_null :: "(string \<times> identityAttribute) list \<Rightarrow> 'i res"

definition extractIdentityValue :: "conversions \<Rightarrow> getters \<Rightarrow> string \<Rightarrow> identityAttribute \<Rightarrow> val option \<times> diags" where
  "extractIdentityValue C G key a =
     (case a of
        IdentityString \<Rightarrow> extractScalar (g_String G) VStr key
      | IdentityList \<Rightarrow> extractCollection (g_List G) (cv_strings C) (\<lambda>items. VStrs (Some items)) key
      | _ \<Rightarrow> (None, []))"

definition identityConfig :: "string tf \<Rightarrow> int tf \<Rightarrow> string tf \<Rightarrow> TransportConfig" where
  "identityConfig target port transportName =
     (let c0 = emptyTransportConfig;
          c1 = knownOr target c0 (\<lambda>t. c0\<lparr>tc_Target := t\<rparr>);
          c2 = knownOr port c1 (\<lambda>p. c1\<lparr>tc_Port := p\<rparr>)
      in knownOr transportName c2 (\<lambda>n. c2\<lparr>tc_Transport := n\<rparr>))"

text \<open>The values are \<open>None\<close> for a nil map.\<close>

definition extractImportIdentityValuesWithNames ::
    "conversions \<Rightarrow> getters option \<Rightarrow> ResourceImportIdentity option \<Rightarrow> transportAttributeNames \<Rightarrow>
     StateData option \<times> TransportConfig \<times> diags" where
  "extractImportIdentityValuesWithNames C identity spec names =
     (case identity of
        None \<Rightarrow> (None, emptyTransportConfig, [])
      | Some G \<Rightarrow>
          if \<not> supportsResourceIdentity spec then (None, emptyTransportConfig, [])
          else (case extractLoop (extractIdentityValue C G) (specAttributes spec) [] [] of
            (None, ds) \<Rightarrow> (None, emptyTransportConfig, ds)
          | (Some values, ds) \<Rightarrow>
              (case g_String G (tn_target names) of
                 (target, d1) \<Rightarrow>
                   if HasError (ds @ d1) then (None, emptyTransportConfig, ds @ d1)
                   else case g_Int64 G (tn_port names) of
                     (port, d2) \<Rightarrow>
                       if HasError (ds @ d1 @ d2) then (None, emptyTransportConfig, ds @ d1 @ d2)
                       else case g_String G (tn_transport names) of
                         (name, d3) \<Rightarrow>
                           if HasError (ds @ d1 @ d2 @ d3) then (None, emptyTransportConfig, ds @ d1 @ d2 @ d3)
                           else (Some values, identityConfig target port name, ds @ d1 @ d2 @ d3))))"

fun identityValue :: "val \<Rightarrow> val" where
  "identityValue (VInt n) = VInt64 n"
| "identityValue v = v"

text \<open>\<open>identity.SetAttribute\<close>, one after the other up to the first error.\<close>

fun setIdentity :: "'i identityOps \<Rightarrow> (string \<times> val) list \<Rightarrow> 'i \<Rightarrow> diags \<Rightarrow> 'i option \<times> diags" where
  "setIdentity I [] i ds = (Some i, ds)"
| "setIdentity I ((key, v) # rest) i ds =
     (case io_set I key v i of
        (i', extra) \<Rightarrow> if HasError (ds @ extra) then (None, ds @ extra) else setIdentity I rest i' (ds @ extra))"

definition identityAssignments ::
    "(string \<times> identityAttribute) list \<Rightarrow> StateData \<Rightarrow> TransportConfig \<Rightarrow> transportAttributeNames \<Rightarrow> (string \<times> val) list" where
  "identityAssignments attrs data config names =
     (if TrimSpace (tc_Target config) \<noteq> [] then [(tn_target names, VStr (tc_Target config))] else []) @
     (if tc_Port config > 0 then [(tn_port names, VInt64 (tc_Port config))] else []) @
     (if TrimSpace (tc_Transport config) \<noteq> [] then [(tn_transport names, VStr (tc_Transport config))] else []) @
     concat (map (\<lambda>(key, a). case map_of data key of Some v \<Rightarrow> [(key, identityValue v)] | None \<Rightarrow> []) attrs)"

definition buildResourceIdentityWithNames ::
    "'i identityOps \<Rightarrow> ResourceImportIdentity option \<Rightarrow> StateData \<Rightarrow> TransportConfig \<Rightarrow> transportAttributeNames \<Rightarrow>
     'i option \<times> diags" where
  "buildResourceIdentityWithNames I spec data config names =
     (if \<not> supportsResourceIdentity spec then (None, [])
      else case io_null I (buildIdentitySchemaWithNames (specAttributes spec) names) of
        Inl err \<Rightarrow> (None, [ErrorDiag ''Resource identity build failed'' (error_text err)])
      | Inr i \<Rightarrow> setIdentity I (identityAssignments (specAttributes spec) data config names) i [])"

definition preferKnownIdentityTargetConfigWithNames ::
    "conversions \<Rightarrow> getters option \<Rightarrow> ResourceImportIdentity option \<Rightarrow> TransportConfig \<Rightarrow> transportAttributeNames \<Rightarrow>
     TransportConfig \<times> diags" where
  "preferKnownIdentityTargetConfigWithNames C identity spec config names =
     (if TrimSpace (tc_Target config) \<noteq> [] \<or> identity = None \<or> \<not> supportsResourceIdentity spec then (config, [])
      else case extractImportIdentityValuesWithNames C identity spec names of
        (values, prior, ds) \<Rightarrow> if HasError ds then (emptyTransportConfig, ds) else (prior, ds))"

definition resolveHostFromReadWithNames ::
    "conversions \<Rightarrow> getters \<Rightarrow> getters option \<Rightarrow> TransportConfig option \<Rightarrow> ResourceImportIdentity option \<Rightarrow>
     transportAttributeNames \<Rightarrow> TransportConfig \<times> diags" where
  "resolveHostFromReadWithNames C G identity defaultHost spec names =
     (case readTransport names G of
        ((target, port, name), ds) \<Rightarrow>
          if HasError ds then (emptyTransportConfig, ds)
          else case buildTransportConfigIfKnown target port name defaultHost ds of
            (config, known, ds1) \<Rightarrow>
              if HasError ds1 then (emptyTransportConfig, ds1)
              else if known then (config, ds1)
              else
                let fallback = (\<lambda>ds2. case defaultHost of
                       Some d \<Rightarrow> (d, ds2)
                     | None \<Rightarrow> (emptyTransportConfig, ds2 @ [ErrorDiag ''No target configured''
                         ''Either set the target attribute or configure default_target on the provider.'']))
                in
                if identity \<noteq> None \<and> supportsResourceIdentity spec then
                  (case extractImportIdentityValuesWithNames C identity spec names of
                     (values, idConfig, extra) \<Rightarrow>
                       if HasError (ds1 @ extra) then (emptyTransportConfig, ds1 @ extra)
                       else if TrimSpace (tc_Target idConfig) \<noteq> [] then
                         (case finalizeTransportConfig idConfig (ds1 @ extra) of (c, k, ds2) \<Rightarrow> (c, ds2))
                       else fallback (ds1 @ extra))
                else fallback ds1)"

text \<open>\<open>if _, ok := state[key]; !ok { state[key] = value }\<close>\<close>

definition setMissing :: "string \<Rightarrow> val \<Rightarrow> StateData \<Rightarrow> StateData" where
  "setMissing key v state = (if map_of state key = None then (key, v) # state else state)"

definition mergeIdentityIntoStateWithNames ::
    "conversions \<Rightarrow> StateData \<Rightarrow> getters option \<Rightarrow> ResourceImportIdentity option \<Rightarrow> TransportConfig \<Rightarrow>
     transportAttributeNames \<Rightarrow> StateData option \<times> diags" where
  "mergeIdentityIntoStateWithNames C state identity spec targetConfig names =
     (if \<not> supportsResourceIdentity spec \<or> identity = None then (Some state, [])
      else case extractImportIdentityValuesWithNames C identity spec names of
        (values, idConfig, ds) \<Rightarrow>
          if HasError ds then (None, ds)
          else
            let s0 = fold (\<lambda>(key, v). setMissing key v) (case values of Some vs \<Rightarrow> vs | None \<Rightarrow> []) state;
                r = (if TrimSpace (tc_Target idConfig) = [] then targetConfig else idConfig);
                s1 = (if TrimSpace (tc_Target r) \<noteq> [] then setMissing (tn_target names) (VStr (tc_Target r)) s0 else s0);
                s2 = (if tc_Port r > 0 then setMissing (tn_port names) (VInt64 (tc_Port r)) s1 else s1);
                s3 = (if TrimSpace (tc_Transport r) \<noteq> [] then setMissing (tn_transport names) (VStr (tc_Transport r)) s2 else s2)
            in (Some s3, ds))"

definition resolveHostFromImportWithNames ::
    "conversions \<Rightarrow> getters option \<Rightarrow> TransportConfig option \<Rightarrow> ResourceImportIdentity option \<Rightarrow>
     transportAttributeNames \<Rightarrow> TransportConfig \<times> diags" where
  "resolveHostFromImportWithNames C identity defaultHost spec names =
     (let fallback = (\<lambda>ds. case defaultHost of
            Some d \<Rightarrow> (d, ds)
          | None \<Rightarrow> (emptyTransportConfig, ds @ [ErrorDiag ''Import failed''
              ''Resource import requires either provider default_target or identity.target.'']))
      in
      if identity \<noteq> None \<and> supportsResourceIdentity spec then
        (case extractImportIdentityValuesWithNames C identity spec names of
           (values, idConfig, ds) \<Rightarrow>
             if HasError ds then (emptyTransportConfig, ds)
             else if TrimSpace (tc_Target idConfig) \<noteq> [] then
               (case finalizeTransportConfig idConfig ds of (c, known, ds1) \<Rightarrow> (c, ds1))
             else fallback ds)
      else fallback [])"

definition resolveImportIDWithNames ::
    "conversions \<Rightarrow> string \<Rightarrow> getters option \<Rightarrow> ResourceImportIdentity option \<Rightarrow> transportAttributeNames \<Rightarrow> string \<times> diags" where
  "resolveImportIDWithNames C reqID identity spec names =
     (if reqID \<noteq> [] then (reqID, [])
      else case extractImportIdentityValuesWithNames C identity spec names of
        (values, config, ds) \<Rightarrow>
          if HasError ds then ([], ds)
          else if \<not> supportsResourceIdentity spec then
            ([], ds @ [ErrorDiag ''Import failed'' ''Structured import identity is not supported for this resource.''])
          else (case spec of
            None \<Rightarrow> ([], ds)
          | Some r \<Rightarrow>
              (case ri_FormatID r of
                 None \<Rightarrow> ([], ds)
               | Some format \<Rightarrow>
                   (case format (case values of Some vs \<Rightarrow> vs | None \<Rightarrow> []) of
                      Inl err \<Rightarrow> ([], ds @ [ErrorDiag ''Import failed'' (error_text err)])
                    | Inr importID \<Rightarrow> (importID, ds)))))"

subsection \<open>What a resolved target is\<close>

definition validTarget :: "TransportConfig \<Rightarrow> bool" where
  "validTarget c \<longleftrightarrow> tc_Transport c \<in> {TransportSSH, TransportLocal} \<and> tc_Target c \<noteq> [] \<and>
     TrimSpace (tc_Target c) = tc_Target c \<and> 0 \<le> tc_Port c \<and> (tc_Transport c = TransportSSH \<longrightarrow> 0 < tc_Port c)"

lemma TrimSpace_local [simp]: "TrimSpace TransportLocal = TransportLocal" "TrimSpace TransportSSH = TransportSSH"
  by (simp_all add: TransportLocal_def TransportSSH_def TrimSpace_keep ascii_space_def space2_def space3_def)

lemma local_not_ssh [simp]: "TransportLocal \<noteq> TransportSSH" "ToLower TransportSSH = TransportSSH"
    "ToLower TransportLocal = TransportLocal"
  by (simp_all add: TransportLocal_def TransportSSH_def ToLower_def ascii_lower_def)

lemma finalize_valid:
  "finalizeTransportConfig config ds = (c, True, ds') \<Longrightarrow> validTarget c \<and> ds' = ds \<and> \<not> HasError ds"
  by (auto simp: finalizeTransportConfig_def validTarget_def Let_def TrimSpace_idem split: if_splits)

lemma finalize_invalid:
  "finalizeTransportConfig config ds = (c, False, ds') \<Longrightarrow> HasError ds'"
  by (auto simp: finalizeTransportConfig_def Let_def HasError_def split: if_splits)

lemma resolved_valid:
  "buildTransportConfigIfKnown target port name d ds = (c, True, ds') \<Longrightarrow> validTarget c \<and> ds' = ds"
  by (auto simp: buildTransportConfigIfKnown_def Let_def split: if_splits dest!: finalize_valid)

lemma unresolved_reason:
  "buildTransportConfigIfKnown target port name d ds = (c, False, ds') \<Longrightarrow>
   HasError ds' \<or> target = UnknownValue \<or> port = UnknownValue \<or> name = UnknownValue"
  by (auto simp: buildTransportConfigIfKnown_def Let_def split: if_splits dest!: finalize_invalid)

lemma HasError_simps [simp]: "HasError [] = False" "HasError (a @ b) = (HasError a \<or> HasError b)"
  "HasError (ErrorDiag s d # ds) = True" "HasError (WarningDiag s d # ds) = HasError ds"
  by (simp_all add: HasError_def)

subsection \<open>A target that is stored resolves to the same session\<close>

lemma valid_local: "validTarget c \<Longrightarrow> tc_Transport c = TransportLocal \<Longrightarrow> NormalizedTransport c = TransportLocal"
  by (simp add: NormalizedTransport_def)

lemma valid_ssh: "validTarget c \<Longrightarrow> tc_Transport c \<noteq> TransportLocal \<Longrightarrow>
    NormalizedTransport c = TransportSSH \<and> \<not> IsLocal c \<and> ResolvedPort c = tc_Port c"
  by (auto simp: validTarget_def NormalizedTransport_def IsLocal_def ResolvedPort_def)

text \<open>A host name with its brackets removed that is again one: not empty, without white space at its
  ends and not in brackets.\<close>

definition plainHost :: "string \<Rightarrow> bool" where
  "plainHost h \<longleftrightarrow> h \<noteq> [] \<and> TrimSpace h = h \<and> \<not> (HasPrefix h ''['' \<and> HasSuffix h '']'')"

lemma plain_normalized: "plainHost h \<Longrightarrow> tc_Target c = h \<Longrightarrow> NormalizedTarget c = h"
  by (auto simp: plainHost_def NormalizedTarget_def Let_def)

text \<open>C17: the target that an import stores in the state is the target it came from. What the state holds
  of a valid target resolves, without a diagnostic and whatever the provider's default is, to a target
  of the same session of the pool.\<close>

theorem stored_target_resolves:
  assumes valid: "validTarget c" and plain: "plainHost (NormalizedTarget c)"
    and stored: "transportStateValuesFromConfig c = (target, port, name)"
    and default: "\<forall>d. defaultHost = Some d \<longrightarrow> 0 \<le> tc_Port d"
  shows "\<exists>c'. buildTransportConfigIfKnown target port name defaultHost [] = (c', True, []) \<and> CacheKey c' = CacheKey c"
proof (cases "tc_Transport c = TransportLocal")
  case True
  then have loc: "NormalizedTransport c = TransportLocal" "IsLocal c" using valid valid_local by (auto simp: IsLocal_def)
  obtain c0 where c0: "c0 = (case defaultHost of Some d \<Rightarrow> d | None \<Rightarrow> emptyTransportConfig)" by simp
  have port0: "\<not> tc_Port c0 < 0" using default by (auto simp: c0 emptyTransportConfig_def split: option.split)
  have b: "buildTransportConfigIfKnown target port name defaultHost [] =
      finalizeTransportConfig (c0\<lparr>tc_Transport := TransportLocal\<rparr>) []"
    using stored loc by (auto simp: transportStateValuesFromConfig_def buildTransportConfigIfKnown_def c0 Let_def)
  then obtain c' where c': "buildTransportConfigIfKnown target port name defaultHost [] = (c', True, [])"
    "tc_Transport c' = TransportLocal"
    using port0 by (auto simp: finalizeTransportConfig_def Let_def)
  then have "IsLocal c'" using valid_local [of c'] resolved_valid [OF c'(1)] by (simp add: IsLocal_def)
  with c' loc show ?thesis by (auto simp: CacheKey_def)
next
  case False
  note ssh = valid_ssh [OF valid False]
  let ?h = "NormalizedTarget c"
  have port: "0 < tc_Port c" using valid False by (auto simp: validTarget_def)
  obtain c0 where c0: "c0 = (case defaultHost of Some d \<Rightarrow> d | None \<Rightarrow> emptyTransportConfig)" by simp
  let ?c' = "c0\<lparr>tc_Target := ?h, tc_Port := tc_Port c, tc_Transport := TransportSSH\<rparr>"
  have h: "?h \<noteq> []" "TrimSpace ?h = ?h" using plain by (simp_all add: plainHost_def)
  have vals: "target = Known ?h" "port = Known (tc_Port c)" "name = Known TransportSSH"
    using stored ssh h by (auto simp: transportStateValuesFromConfig_def)
  have b: "buildTransportConfigIfKnown target port name defaultHost [] = (?c', True, [])"
    using port h by (simp add: vals buildTransportConfigIfKnown_def finalizeTransportConfig_def Let_def flip: c0)
  have "NormalizedTarget ?c' = ?h" by (rule plain_normalized [OF plain]) simp
  moreover have t: "NormalizedTransport ?c' = TransportSSH" by (simp add: NormalizedTransport_def)
  moreover have "\<not> IsLocal ?c'" by (simp only: IsLocal_def t) simp
  moreover from this have "ResolvedPort ?c' = ResolvedPort c" using ssh port by (simp add: ResolvedPort_def)
  ultimately have "CacheKey ?c' = CacheKey c" using ssh by (simp add: CacheKey_def Endpoint_def Let_def)
  with b show ?thesis by blast
qed

theorem stored_target_resolves_witness:
  "let c = emptyTransportConfig\<lparr>tc_Target := ''[fe80::1]'', tc_Port := 2222, tc_Transport := TransportSSH\<rparr>;
       d = emptyTransportConfig\<lparr>tc_Target := ''other'', tc_Port := 22\<rparr>
   in \<exists>c'. buildTransportConfigIfKnown (Known ''fe80::1'') (Known 2222) (Known TransportSSH) (Some d) [] = (c', True, []) \<and>
        CacheKey c' = CacheKey c"
proof -
  let ?c = "emptyTransportConfig\<lparr>tc_Target := ''[fe80::1]'', tc_Port := 2222, tc_Transport := TransportSSH\<rparr>"
  let ?d = "emptyTransportConfig\<lparr>tc_Target := ''other'', tc_Port := 22\<rparr>"
  have "validTarget ?c" "plainHost (NormalizedTarget ?c)"
    "transportStateValuesFromConfig ?c = (Known ''fe80::1'', Known 2222, Known TransportSSH)"
    by code_simp+
  then show ?thesis unfolding Let_def by (rule stored_target_resolves) (simp add: emptyTransportConfig_def)
qed

text \<open>The identity is looked at only when a transport attribute of the state is unknown: a target that
  is missing from the state is an error before the identity is asked.\<close>

lemma read_ignores_identity:
  assumes "readTransport names G = ((target, port, name), ds)"
    and "target \<noteq> UnknownValue" "port \<noteq> UnknownValue" "name \<noteq> UnknownValue"
  shows "resolveHostFromReadWithNames C G identity defaultHost spec names =
    (if HasError ds then (emptyTransportConfig, ds)
     else case buildTransportConfig target port name defaultHost ds of
       (config, ds') \<Rightarrow> if HasError ds' then (emptyTransportConfig, ds') else (config, ds'))"
proof -
  obtain config known ds1 where b: "buildTransportConfigIfKnown target port name defaultHost ds = (config, known, ds1)"
    by (cases "buildTransportConfigIfKnown target port name defaultHost ds") auto
  have "HasError ds1" if "\<not> known" using that b unresolved_reason assms(2-) by fastforce
  then show ?thesis
    by (cases known) (auto simp: resolveHostFromReadWithNames_def buildTransportConfig_def assms(1) b Let_def)
qed

end
