(* ===== verification/DestroySafety.thy ===== *)
theory DestroySafety
  imports StateValues GoPath
begin

text \<open>
  What keeps a destroy from removing a critical object of a host: the protected paths and names of
  providers/shared/engine/destroy_safety.go, the policies and modes of providers/shared/engine/types.go,
  the decision \<open>checkDestroySafety\<close> of providers/shared/engine/entry_resource.go and the guards of
  providers/shared/catalog/resource_policies.go.

  A map used as a set is a list without duplicates. A guard is an optional function, as in Go; a nil
  state and an empty one read the same, so a state is its list of entries.
\<close>

subsection \<open>Protected paths and names\<close>

record DestroySafetyConfig =
  protectedPathExact :: "string list"
  protectedPathPrefixes :: "string list"
  protectedServices :: "string list"
  protectedPackages :: "string list"
  protectedUsers :: "string list"
  protectedGroups :: "string list"

definition normalizeProtectedPath :: "string \<Rightarrow> string" where
  "normalizeProtectedPath path =
     (let trimmed = TrimSpace path in
      if trimmed = [] then []
      else let cleaned = Clean trimmed in if HasPrefix cleaned ''/'' then cleaned else [])"

definition normalizeProtectedName :: "string \<Rightarrow> string" where
  "normalizeProtectedName value = ToLower (TrimSpace value)"

definition addProtectedPath :: "string \<Rightarrow> DestroySafetyConfig \<Rightarrow> DestroySafetyConfig" where
  "addProtectedPath value c =
     (let v = TrimSpace value in
      if v = [] then c
      else if HasSuffix v ''/'' then
        (let cleaned = Clean v in
         if cleaned = dot then c
         else let pre = (if HasSuffix cleaned ''/'' then cleaned else cleaned @ ''/'') in
              if pre \<in> set (protectedPathPrefixes c) then c
              else c\<lparr>protectedPathPrefixes := protectedPathPrefixes c @ [pre]\<rparr>)
      else let path = normalizeProtectedPath v in
           if path = [] then c else c\<lparr>protectedPathExact := List.insert path (protectedPathExact c)\<rparr>)"

definition addProtectedService :: "string \<Rightarrow> DestroySafetyConfig \<Rightarrow> DestroySafetyConfig" where
  "addProtectedService value c =
     (let v = normalizeProtectedName value in
      if v = [] then c else c\<lparr>protectedServices := List.insert v (protectedServices c)\<rparr>)"

definition addProtectedPackage :: "string \<Rightarrow> DestroySafetyConfig \<Rightarrow> DestroySafetyConfig" where
  "addProtectedPackage value c =
     (let v = normalizeProtectedName value in
      if v = [] then c else c\<lparr>protectedPackages := List.insert v (protectedPackages c)\<rparr>)"

definition addProtectedUser :: "string \<Rightarrow> DestroySafetyConfig \<Rightarrow> DestroySafetyConfig" where
  "addProtectedUser value c =
     (let v = normalizeProtectedName value in
      if v = [] then c else c\<lparr>protectedUsers := List.insert v (protectedUsers c)\<rparr>)"

definition addProtectedGroup :: "string \<Rightarrow> DestroySafetyConfig \<Rightarrow> DestroySafetyConfig" where
  "addProtectedGroup value c =
     (let v = normalizeProtectedName value in
      if v = [] then c else c\<lparr>protectedGroups := List.insert v (protectedGroups c)\<rparr>)"

definition builtinProtectedPathsExact :: "string list" where
  "builtinProtectedPathsExact = [''/etc/passwd'', ''/etc/group'', ''/etc/shadow'', ''/etc/gshadow'',
     ''/etc/sudoers'', ''/etc/ssh/sshd_config'', ''/etc/hosts'', ''/etc/fstab'', ''/etc/sysctl.conf'']"

definition builtinProtectedPathPrefixes :: "string list" where
  "builtinProtectedPathPrefixes = [''/etc/sudoers.d/'', ''/etc/ssh/sshd_config.d/'']"

definition builtinProtectedServices :: "string list" where
  "builtinProtectedServices = [''ssh'', ''sshd'', ''systemd-networkd'', ''networkmanager'',
     ''network-manager'', ''networking'', ''ufw'', ''firewalld'', ''nftables'']"

definition builtinProtectedPackages :: "string list" where
  "builtinProtectedPackages = [''openssh-server'', ''openssh-client'', ''sudo'', ''systemd'',
     ''network-manager'', ''networkmanager'', ''ufw'', ''firewalld'', ''nftables'', ''iptables'']"

definition builtinProtectedUsers :: "string list" where
  "builtinProtectedUsers = [''root'']"

definition builtinProtectedGroups :: "string list" where
  "builtinProtectedGroups = [''root'', ''sudo'', ''wheel'']"

definition emptyDestroySafetyConfig :: DestroySafetyConfig where
  "emptyDestroySafetyConfig = \<lparr>protectedPathExact = [], protectedPathPrefixes = [], protectedServices = [],
     protectedPackages = [], protectedUsers = [], protectedGroups = []\<rparr>"

definition NewDestroySafetyConfig ::
    "string list \<Rightarrow> string list \<Rightarrow> string list \<Rightarrow> string list \<Rightarrow> string list \<Rightarrow> DestroySafetyConfig" where
  "NewDestroySafetyConfig paths services packages users groups =
     (let c0 = emptyDestroySafetyConfig;
          c1 = fold addProtectedPath builtinProtectedPathsExact c0;
          c2 = fold addProtectedPath builtinProtectedPathPrefixes c1;
          c3 = fold addProtectedService builtinProtectedServices c2;
          c4 = fold addProtectedPackage builtinProtectedPackages c3;
          c5 = fold addProtectedUser builtinProtectedUsers c4;
          c6 = fold addProtectedGroup builtinProtectedGroups c5;
          c7 = fold addProtectedPath paths c6;
          c8 = fold addProtectedService services c7;
          c9 = fold addProtectedPackage packages c8;
          c10 = fold addProtectedUser users c9
      in fold addProtectedGroup groups c10)"

definition DefaultDestroySafetyConfig :: DestroySafetyConfig where
  "DefaultDestroySafetyConfig = NewDestroySafetyConfig [] [] [] [] []"

definition IsProtectedPath :: "DestroySafetyConfig \<Rightarrow> string \<Rightarrow> bool" where
  "IsProtectedPath c path =
     (let p = normalizeProtectedPath path in
      if p = [] then False
      else if p \<in> set (protectedPathExact c) then True
      else list_ex (HasPrefix p) (protectedPathPrefixes c))"

definition TrimSuffix :: "string \<Rightarrow> string \<Rightarrow> string" where
  "TrimSuffix s e = (if HasSuffix s e then take (length s - length e) s else s)"

definition IsProtectedService :: "DestroySafetyConfig \<Rightarrow> string \<Rightarrow> bool" where
  "IsProtectedService c name =
     (let n = normalizeProtectedName name in
      if n = [] then False
      else if n \<in> set (protectedServices c) then True
      else TrimSuffix n ''.service'' \<in> set (protectedServices c))"

definition IsProtectedPackage :: "DestroySafetyConfig \<Rightarrow> string \<Rightarrow> bool" where
  "IsProtectedPackage c name \<longleftrightarrow> normalizeProtectedName name \<in> set (protectedPackages c)"

definition IsProtectedUser :: "DestroySafetyConfig \<Rightarrow> string \<Rightarrow> bool" where
  "IsProtectedUser c name \<longleftrightarrow> normalizeProtectedName name \<in> set (protectedUsers c)"

definition IsProtectedGroup :: "DestroySafetyConfig \<Rightarrow> string \<Rightarrow> bool" where
  "IsProtectedGroup c name \<longleftrightarrow> normalizeProtectedName name \<in> set (protectedGroups c)"

subsection \<open>Policies and guards\<close>

datatype DestroySafetyMode =
    DestroySafetyModeNone
  | DestroySafetyModeNoDestroy
  | DestroySafetyModeCriticalObject
  | DestroySafetyModeExplicitAllow
  | DestroySafetyModeOther string

type_synonym DestroySafetyGuard = "StateData \<Rightarrow> DestroySafetyConfig \<Rightarrow> string option"

record DestroySafetyPolicy =
  dp_Mode :: DestroySafetyMode
  dp_Guard :: "DestroySafetyGuard option"
  dp_RequiresExplicitAllow :: "(StateData \<Rightarrow> bool) option"

text \<open>A guard answers with its reason, or \<open>None\<close> when it does not block. \<open>text, _ := state[key].(string)\<close>
  and \<open>flag, _ := state[key].(bool)\<close>:\<close>

definition textAt :: "StateData \<Rightarrow> string \<Rightarrow> string" where
  "textAt state key = (case map_of state key of Some (VStr s) \<Rightarrow> s | _ \<Rightarrow> [])"

definition flagAt :: "StateData \<Rightarrow> string \<Rightarrow> bool" where
  "flagAt state key = (case map_of state key of Some (VBool b) \<Rightarrow> b | _ \<Rightarrow> False)"

fun protectedPathGuard :: "string list \<Rightarrow> DestroySafetyGuard" where
  "protectedPathGuard [] state cfg = None"
| "protectedPathGuard (key # keys) state cfg =
     (let value = TrimSpace (textAt state key) in
      if value = [] then protectedPathGuard keys state cfg
      else if IsProtectedPath cfg value
        then Some (''destroy is blocked because '' @ go_quote key @ '' targets protected path '' @ value)
      else protectedPathGuard keys state cfg)"

definition protectedFixedPathGuard :: "string \<Rightarrow> DestroySafetyGuard" where
  "protectedFixedPathGuard value state cfg =
     (if IsProtectedPath cfg value then Some (''destroy is blocked because path '' @ value @ '' is protected'')
      else None)"

definition protectedSystemdServiceGuard :: DestroySafetyGuard where
  "protectedSystemdServiceGuard state cfg =
     (let name = TrimSpace (textAt state ''name'') in
      if name = [] then None
      else if IsProtectedService cfg name
        then Some (''destroy is blocked because systemd unit '' @ go_quote name @ '' is protected'')
      else None)"

definition protectedPackageGuard :: DestroySafetyGuard where
  "protectedPackageGuard state cfg =
     (let name = TrimSpace (textAt state ''name'') in
      if name = [] then None
      else if IsProtectedPackage cfg name
        then Some (''destroy is blocked because package '' @ go_quote name @ '' is protected'')
      else None)"

definition protectedUserGuard :: DestroySafetyGuard where
  "protectedUserGuard state cfg =
     (let name = TrimSpace (textAt state ''name'') in
      if name = [] then None
      else if IsProtectedUser cfg name
        then Some (''destroy is blocked because user '' @ go_quote name @ '' is protected'')
      else None)"

definition protectedGroupGuard :: DestroySafetyGuard where
  "protectedGroupGuard state cfg =
     (let name = TrimSpace (textAt state ''name'') in
      if name = [] then None
      else if IsProtectedGroup cfg name
        then Some (''destroy is blocked because group '' @ go_quote name @ '' is protected'')
      else None)"

definition hostsEntryNames :: "StateData \<Rightarrow> string list" where
  "hostsEntryNames state =
     (if TrimSpace (textAt state ''hostname'') \<noteq> [] then [ToLower (TrimSpace (textAt state ''hostname''))] else []) @
     (case map_of state ''aliases'' of
        Some (VStrs (Some as)) \<Rightarrow> map (\<lambda>a. ToLower (TrimSpace a)) as
      | Some (VList (Some vs)) \<Rightarrow> map (\<lambda>a. ToLower (TrimSpace a)) (strings_only vs)
      | _ \<Rightarrow> [])"

definition protectedHostsEntryGuard :: DestroySafetyGuard where
  "protectedHostsEntryGuard state cfg =
     (case find (\<lambda>n. n = ''localhost'' \<or> n = ''ip6-localhost'') (hostsEntryNames state) of
        None \<Rightarrow> None
      | Some name \<Rightarrow> Some (''destroy is blocked because /etc/hosts entry '' @ go_quote name @ '' is protected''))"

definition protectedFstabGuard :: DestroySafetyGuard where
  "protectedFstabGuard state cfg =
     (let mount = TrimSpace (textAt state ''mount'') in
      if mount \<in> set [''/'', ''/boot'', ''/boot/efi'']
      then Some (''destroy is blocked because mountpoint '' @ go_quote mount @ '' is protected'') else None)"

definition protectedSysctlGuard :: DestroySafetyGuard where
  "protectedSysctlGuard state cfg =
     (let key = TrimSpace (textAt state ''key'') in
      if key = [] then None
      else if key \<in> set [''kernel.modules_disabled'', ''net.ipv4.ip_forward'', ''net.ipv6.conf.all.forwarding'',
          ''net.ipv6.conf.default.forwarding'', ''net.ipv6.conf.all.disable_ipv6'', ''net.ipv6.conf.default.disable_ipv6'']
      then Some (''destroy is blocked because sysctl key '' @ go_quote key @ '' is protected'') else None)"

definition networkStackReason :: "string \<Rightarrow> string" where
  "networkStackReason what = ''destroy is blocked because network_stack currently manages '' @ what"

definition protectedNetworkStackGuard :: DestroySafetyGuard where
  "protectedNetworkStackGuard state cfg =
     (if flagAt state ''ipv4_forwarding'' then Some (networkStackReason ''IPv4 forwarding'')
      else if flagAt state ''ipv6_forwarding'' then Some (networkStackReason ''IPv6 forwarding'')
      else if flagAt state ''bridge_netfilter_ipv4'' then Some (networkStackReason ''IPv4 bridge netfilter'')
      else if flagAt state ''bridge_netfilter_ipv6'' then Some (networkStackReason ''IPv6 bridge netfilter'')
      else
        let sysctls = (case map_of state ''sysctls'' of
                         Some (VStrMap m) \<Rightarrow> m
                       | Some (VMap es) \<Rightarrow> string_entries es
                       | _ \<Rightarrow> [])
        in case find (\<lambda>(key, value). TrimSpace value = ''1'') sysctls of
             Some (key, value) \<Rightarrow> Some (networkStackReason (''sysctl '' @ go_quote key))
           | None \<Rightarrow> None)"

definition protectedUFWRuleGuard :: DestroySafetyGuard where
  "protectedUFWRuleGuard state cfg =
     (let protocol = TrimSpace (textAt state ''protocol'') in
      if flagAt state ''allow_ssh_disconnect'' then None
      else if EqualFold (TrimSpace (textAt state ''action'')) ''allow'' \<and>
              EqualFold (TrimSpace (textAt state ''direction'')) ''in'' \<and>
              TrimSpace (textAt state ''port'') = ''22'' \<and> (protocol = [] \<or> EqualFold protocol ''tcp'')
      then Some ''destroy is blocked because the managed UFW rule currently opens inbound SSH on tcp/22''
      else None)"

definition protectedFirewalldServiceGuard :: DestroySafetyGuard where
  "protectedFirewalldServiceGuard state cfg =
     (if flagAt state ''allow_ssh_disconnect'' then None
      else if EqualFold (TrimSpace (textAt state ''name'')) ''ssh''
      then Some ''destroy is blocked because the managed firewalld service currently opens SSH''
      else None)"

definition protectedFirewalldPortGuard :: DestroySafetyGuard where
  "protectedFirewalldPortGuard state cfg =
     (let protocol = TrimSpace (textAt state ''protocol'') in
      if flagAt state ''allow_ssh_disconnect'' then None
      else if TrimSpace (textAt state ''port'') = ''22'' \<and> (protocol = [] \<or> EqualFold protocol ''tcp'')
      then Some ''destroy is blocked because the managed firewalld port currently opens tcp/22''
      else None)"

definition explicitDeleteCommandGuard :: "StateData \<Rightarrow> bool" where
  "explicitDeleteCommandGuard state \<longleftrightarrow> TrimSpace (textAt state ''delete_command'') \<noteq> []"

definition trustedCertPathGuard :: DestroySafetyGuard where
  "trustedCertPathGuard state cfg =
     (case protectedPathGuard [''cert_path''] state cfg of
        Some reason \<Rightarrow> Some reason
      | None \<Rightarrow>
          (let name = TrimSpace (textAt state ''name'');
               path = Join [''/usr/local/share/ca-certificates'', name @ ''.crt''] in
           if name \<noteq> [] \<and> IsProtectedPath cfg path
           then Some (''destroy is blocked because trust anchor path '' @ path @ '' is protected'') else None))"

subsection \<open>The decision\<close>

definition isAbsentResourceState :: "StateData \<Rightarrow> bool" where
  "isAbsentResourceState state \<longleftrightarrow>
     map_of state ''ensure'' = Some (VStr ''absent'') \<or> map_of state ''exists'' = Some (VBool False)"

definition destroySafetyUsesAllowFlag :: "DestroySafetyMode \<Rightarrow> bool" where
  "destroySafetyUsesAllowFlag mode \<longleftrightarrow>
     mode = DestroySafetyModeCriticalObject \<or> mode = DestroySafetyModeExplicitAllow"

definition allowHint :: string where
  "allowHint = ''; set allow_destructive_destroy = true and apply before destroying if you intend to permit it''"

definition checkDestroySafety ::
    "string \<Rightarrow> DestroySafetyPolicy \<Rightarrow> DestroySafetyConfig \<Rightarrow> StateData \<Rightarrow> bool \<Rightarrow> error option" where
  "checkDestroySafety typeName policy cfg state allow =
     (case dp_Mode policy of
        DestroySafetyModeNone \<Rightarrow> None
      | DestroySafetyModeNoDestroy \<Rightarrow>
          (case dp_Guard policy of
             Some guard \<Rightarrow>
               (case guard state cfg of
                  Some reason \<Rightarrow> Some (Errorf (reason @ ''; destroy is not supported for '' @ typeName))
                | None \<Rightarrow> Some (Errorf (''destroy is not supported for '' @ typeName)))
           | None \<Rightarrow> Some (Errorf (''destroy is not supported for '' @ typeName)))
      | DestroySafetyModeExplicitAllow \<Rightarrow>
          if allow then None
          else (case dp_RequiresExplicitAllow policy of
             Some requires \<Rightarrow>
               if \<not> requires state then None
               else Some (Errorf (''destroy is blocked for '' @ typeName @
                 '' because it has side-effecting delete behavior'' @ allowHint))
           | None \<Rightarrow> Some (Errorf (''destroy is blocked for '' @ typeName @
                 '' because it has side-effecting delete behavior'' @ allowHint)))
      | DestroySafetyModeCriticalObject \<Rightarrow>
          if allow then None
          else (case dp_Guard policy of
             None \<Rightarrow> None
           | Some guard \<Rightarrow>
               (case guard state cfg of
                  None \<Rightarrow> None
                | Some reason \<Rightarrow> Some (Errorf (reason @ allowHint))))
      | DestroySafetyModeOther mode \<Rightarrow> None)"

subsection \<open>What a configuration protects\<close>

text \<open>The entry \<open>v\<close> of a list protects the cleaned path \<open>q\<close>: an entry that ends with a slash
  protects everything below it, any other entry the path it names.\<close>

definition protectsPath :: "string \<Rightarrow> string \<Rightarrow> bool" where
  "protectsPath v q \<longleftrightarrow>
     (let t = TrimSpace v in
      t \<noteq> [] \<and>
      (if HasSuffix t ''/'' then Clean t \<noteq> dot \<and> HasPrefix q (if HasSuffix (Clean t) ''/'' then Clean t else Clean t @ ''/'')
       else HasPrefix (Clean t) ''/'' \<and> q = Clean t))"

definition coveredPath :: "DestroySafetyConfig \<Rightarrow> string \<Rightarrow> bool" where
  "coveredPath c q \<longleftrightarrow> q \<in> set (protectedPathExact c) \<or> list_ex (HasPrefix q) (protectedPathPrefixes c)"

lemma IsProtectedPath_covered:
  "IsProtectedPath c path \<longleftrightarrow> normalizeProtectedPath path \<noteq> [] \<and> coveredPath c (normalizeProtectedPath path)"
  by (auto simp: IsProtectedPath_def coveredPath_def Let_def)

lemma Clean_not_Nil: "Clean p \<noteq> []"
  by (simp add: Clean_def Let_def)

lemma covered_add: "coveredPath (addProtectedPath v c) q \<longleftrightarrow> coveredPath c q \<or> protectsPath v q"
proof -
  let ?t = "TrimSpace v"
  show ?thesis
  proof (cases "HasSuffix ?t ''/''")
    case True
    then show ?thesis
      by (cases "?t = [] \<or> Clean ?t = dot")
        (auto simp: addProtectedPath_def protectsPath_def coveredPath_def Let_def list_ex_iff)
  next
    case False
    then show ?thesis
      using Clean_not_Nil [of ?t]
      by (auto simp: addProtectedPath_def protectsPath_def coveredPath_def normalizeProtectedPath_def
          Let_def TrimSpace_idem)
  qed
qed

lemma covered_fold:
  "coveredPath (fold addProtectedPath vs c) q \<longleftrightarrow> coveredPath c q \<or> (\<exists>v \<in> set vs. protectsPath v q)"
  by (induction vs arbitrary: c) (auto simp: covered_add)

lemma covered_empty [simp]: "\<not> coveredPath emptyDestroySafetyConfig q"
  by (simp add: coveredPath_def emptyDestroySafetyConfig_def)

text \<open>The four sets of names share one contract: adding a name adds its normal form unless that is
  empty.\<close>

locale name_set =
  fixes add :: "string \<Rightarrow> DestroySafetyConfig \<Rightarrow> DestroySafetyConfig"
    and names :: "DestroySafetyConfig \<Rightarrow> string list"
  assumes add_names:
    "set (names (add v c)) = set (names c) \<union> (if normalizeProtectedName v = [] then {} else {normalizeProtectedName v})"
begin

lemma fold_names: "set (names (fold add vs c)) = set (names c) \<union> (normalizeProtectedName ` set vs - {[]})"
  by (induction vs arbitrary: c) (auto simp: add_names)

end

interpretation service_names: name_set addProtectedService protectedServices
  by unfold_locales (auto simp: addProtectedService_def Let_def)

interpretation package_names: name_set addProtectedPackage protectedPackages
  by unfold_locales (auto simp: addProtectedPackage_def Let_def)

interpretation user_names: name_set addProtectedUser protectedUsers
  by unfold_locales (auto simp: addProtectedUser_def Let_def)

interpretation group_names: name_set addProtectedGroup protectedGroups
  by unfold_locales (auto simp: addProtectedGroup_def Let_def)

text \<open>An operation on one of the sets leaves the others alone.\<close>

lemma add_frame [simp]:
  "protectedServices (addProtectedPath v c) = protectedServices c"
  "protectedPackages (addProtectedPath v c) = protectedPackages c"
  "protectedUsers (addProtectedPath v c) = protectedUsers c"
  "protectedGroups (addProtectedPath v c) = protectedGroups c"
  "protectedPackages (addProtectedService v c) = protectedPackages c"
  "protectedUsers (addProtectedService v c) = protectedUsers c"
  "protectedGroups (addProtectedService v c) = protectedGroups c"
  "protectedServices (addProtectedPackage v c) = protectedServices c"
  "protectedUsers (addProtectedPackage v c) = protectedUsers c"
  "protectedGroups (addProtectedPackage v c) = protectedGroups c"
  "protectedServices (addProtectedUser v c) = protectedServices c"
  "protectedPackages (addProtectedUser v c) = protectedPackages c"
  "protectedGroups (addProtectedUser v c) = protectedGroups c"
  "protectedServices (addProtectedGroup v c) = protectedServices c"
  "protectedPackages (addProtectedGroup v c) = protectedPackages c"
  "protectedUsers (addProtectedGroup v c) = protectedUsers c"
  "coveredPath (addProtectedService v c) = coveredPath c"
  "coveredPath (addProtectedPackage v c) = coveredPath c"
  "coveredPath (addProtectedUser v c) = coveredPath c"
  "coveredPath (addProtectedGroup v c) = coveredPath c"
  by (auto simp: addProtectedPath_def addProtectedService_def addProtectedPackage_def addProtectedUser_def
      addProtectedGroup_def coveredPath_def fun_eq_iff Let_def)

lemma fold_frame: "(\<And>v c. get (add v c) = get c) \<Longrightarrow> get (fold add vs c) = get c"
  by (induction vs arbitrary: c) auto

lemmas fold_frames =
  fold_frame [where get = protectedServices and add = addProtectedPath, OF add_frame(1)]
  fold_frame [where get = protectedPackages and add = addProtectedPath, OF add_frame(2)]
  fold_frame [where get = protectedUsers and add = addProtectedPath, OF add_frame(3)]
  fold_frame [where get = protectedGroups and add = addProtectedPath, OF add_frame(4)]
  fold_frame [where get = protectedPackages and add = addProtectedService, OF add_frame(5)]
  fold_frame [where get = protectedUsers and add = addProtectedService, OF add_frame(6)]
  fold_frame [where get = protectedGroups and add = addProtectedService, OF add_frame(7)]
  fold_frame [where get = protectedServices and add = addProtectedPackage, OF add_frame(8)]
  fold_frame [where get = protectedUsers and add = addProtectedPackage, OF add_frame(9)]
  fold_frame [where get = protectedGroups and add = addProtectedPackage, OF add_frame(10)]
  fold_frame [where get = protectedServices and add = addProtectedUser, OF add_frame(11)]
  fold_frame [where get = protectedPackages and add = addProtectedUser, OF add_frame(12)]
  fold_frame [where get = protectedGroups and add = addProtectedUser, OF add_frame(13)]
  fold_frame [where get = protectedServices and add = addProtectedGroup, OF add_frame(14)]
  fold_frame [where get = protectedPackages and add = addProtectedGroup, OF add_frame(15)]
  fold_frame [where get = protectedUsers and add = addProtectedGroup, OF add_frame(16)]
  fold_frame [where get = coveredPath and add = addProtectedService, OF add_frame(17)]
  fold_frame [where get = coveredPath and add = addProtectedPackage, OF add_frame(18)]
  fold_frame [where get = coveredPath and add = addProtectedUser, OF add_frame(19)]
  fold_frame [where get = coveredPath and add = addProtectedGroup, OF add_frame(20)]

lemma empty_names [simp]:
  "protectedServices emptyDestroySafetyConfig = []" "protectedPackages emptyDestroySafetyConfig = []"
  "protectedUsers emptyDestroySafetyConfig = []" "protectedGroups emptyDestroySafetyConfig = []"
  by (simp_all add: emptyDestroySafetyConfig_def)

lemma new_covered:
  "coveredPath (NewDestroySafetyConfig paths services packages users groups) q \<longleftrightarrow>
     (\<exists>v \<in> set (builtinProtectedPathsExact @ builtinProtectedPathPrefixes @ paths). protectsPath v q)"
  unfolding NewDestroySafetyConfig_def Let_def
  by (simp only: fold_frames covered_fold covered_empty) auto

lemma new_names:
  "set (protectedServices (NewDestroySafetyConfig paths services packages users groups)) =
     normalizeProtectedName ` set (builtinProtectedServices @ services) - {[]}"
  "set (protectedPackages (NewDestroySafetyConfig paths services packages users groups)) =
     normalizeProtectedName ` set (builtinProtectedPackages @ packages) - {[]}"
  "set (protectedUsers (NewDestroySafetyConfig paths services packages users groups)) =
     normalizeProtectedName ` set (builtinProtectedUsers @ users) - {[]}"
  "set (protectedGroups (NewDestroySafetyConfig paths services packages users groups)) =
     normalizeProtectedName ` set (builtinProtectedGroups @ groups) - {[]}"
  unfolding NewDestroySafetyConfig_def Let_def
  by (simp_all only: fold_frames service_names.fold_names package_names.fold_names user_names.fold_names
      group_names.fold_names empty_names) auto

lemma IsProtectedPath_spec:
  "IsProtectedPath (NewDestroySafetyConfig paths services packages users groups) path \<longleftrightarrow>
     normalizeProtectedPath path \<noteq> [] \<and>
     (\<exists>v \<in> set (builtinProtectedPathsExact @ builtinProtectedPathPrefixes @ paths).
        protectsPath v (normalizeProtectedPath path))"
  by (simp only: IsProtectedPath_covered new_covered)

text \<open>The suffix \<open>.service\<close> is dropped from the name of a resource only, not from an entry of the list.\<close>

lemma listed_unit_name_does_not_protect_service:
  "\<not> IsProtectedService (NewDestroySafetyConfig [] [''nginx.service''] [] [] []) ''nginx''"
  "IsProtectedService (NewDestroySafetyConfig [] [''nginx''] [] [] []) ''nginx.service''"
  by code_simp+

end
