(* ===== verification/EntryResource.thy ===== *)
theory EntryResource
  imports HostTarget DestroySafety Locks OperationLease
begin

text \<open>
  The life of a resource between Terraform and a host: providers/shared/engine/entry_resource.go with the
  sending and error helpers of providers/shared/engine/adapter_helpers.go.

  A plan, a state and a configuration are values of one type \<open>'s\<close> that the plugin framework (\<open>framework\<close>)
  reads and sets; an identity is an \<open>'i\<close>, a private state a \<open>'p\<close>. What a handler does outside Terraform it
  does with the four calls of \<open>executor\<close> on a world \<open>'w\<close>: the pool's \<open>GetOrCreate\<close>, the manager's
  \<open>EnsureExecutorWithReconnect\<close>, \<open>EnsureHostReady\<close> and \<open>SendOperationLocked\<close>, which the theories of the pool,
  of the host session and of the leases model. A handler takes the response the framework prepared and
  returns the response it leaves with the world after its calls.
\<close>

subsection \<open>Operations\<close>

record Operation =
  mo_ModuleName :: string
  mo_ResourceType :: string
  mo_Action :: string
  mo_ImportID :: string
  mo_Plan :: "StateData option"
  mo_State :: "StateData option"
  mo_Config :: "StateData option"
  mo_Execution :: "ExecutionContext option"

datatype ResultMessage = ResultMessage (rm_State: "StateData option")

record ('w, 'n) executor =
  xe_GetOrCreate :: "TransportConfig \<Rightarrow> 'w \<Rightarrow> 'n res \<times> 'w"
  xe_EnsureExecutor :: "'n \<Rightarrow> 'w \<Rightarrow> error option \<times> 'w"
  xe_EnsureHostReady :: "'n \<Rightarrow> bool \<Rightarrow> 'w \<Rightarrow> error option \<times> 'w"
  xe_SendOperationLocked ::
    "'n \<Rightarrow> Operation \<Rightarrow> LockDescriptor list \<Rightarrow> 'w \<Rightarrow> (ResultMessage option \<times> error option) \<times> 'w"

definition attrsOf :: "StateData option \<Rightarrow> StateData" where
  "attrsOf m = (case m of None \<Rightarrow> [] | Some s \<Rightarrow> s)"

fun stringAttr :: "StateData \<Rightarrow> string list \<Rightarrow> string" where
  "stringAttr attrs [] = []"
| "stringAttr attrs (key # keys) =
     (case map_of attrs key of Some (VStr s) \<Rightarrow> s | _ \<Rightarrow> stringAttr attrs keys)"

fun effectiveRunAs :: "StateData option list \<Rightarrow> string" where
  "effectiveRunAs [] = []"
| "effectiveRunAs (attrs # sources) =
     (case map_of (attrsOf attrs) ''run_as'' of Some (VStr s) \<Rightarrow> s | _ \<Rightarrow> effectiveRunAs sources)"

definition defaultExecutionContext :: "string \<Rightarrow> StateData option list \<Rightarrow> ExecutionContext option" where
  "defaultExecutionContext requiredPrivilege sources =
     (if requiredPrivilege = ''root'' then Some \<lparr>ex_Become = True, ex_BecomeUser = []\<rparr>
      else if requiredPrivilege = ''dynamic'' then Some \<lparr>ex_Become = True, ex_BecomeUser = effectiveRunAs sources\<rparr>
      else None)"

definition resolveResourceExecutionContext ::
    "string \<Rightarrow> (string \<Rightarrow> Operation \<Rightarrow> ExecutionContext option res) option \<Rightarrow> string \<Rightarrow> Operation \<Rightarrow> ExecutionContext option res" where
  "resolveResourceExecutionContext requiredPrivilege policy action oper =
     (case policy of
        Some f \<Rightarrow> f action oper
      | None \<Rightarrow> Inr (defaultExecutionContext requiredPrivilege [mo_Plan oper, mo_State oper, mo_Config oper]))"

definition operationMutatesHost :: "string \<Rightarrow> bool" where
  "operationMutatesHost action \<longleftrightarrow> action \<in> set [''create'', ''update'', ''delete'']"

definition operationNeedsPrivilege :: "ExecutionContext option \<Rightarrow> bool" where
  "operationNeedsPrivilege execution = (case execution of None \<Rightarrow> False | Some e \<Rightarrow> ex_Become e)"

definition annotateOperationError :: "TransportConfig \<Rightarrow> Operation \<Rightarrow> error \<Rightarrow> error" where
  "annotateOperationError host oper err =
     (let subject0 = TrimSpace (mo_ResourceType oper);
          subject = (if subject0 = [] then ''resource'' else subject0);
          n1 = TrimSpace (stringAttr (attrsOf (mo_Plan oper)) [''name'', ''id'']);
          n2 = (if n1 = [] then TrimSpace (stringAttr (attrsOf (mo_State oper)) [''name'', ''id'']) else n1);
          n3 = (if n2 = [] then TrimSpace (stringAttr (attrsOf (mo_Config oper)) [''name'', ''id'']) else n2);
          who = (if n3 = [] then subject else subject @ '' '' @ go_quote n3)
      in Wrapf (who @ '' '' @ mo_Action oper @ '' on host '' @ Endpoint host @ '' failed: '') err [])"

definition sendOperation ::
    "('w, 'n) executor \<Rightarrow> TransportConfig \<Rightarrow> Operation \<Rightarrow> LockDescriptor list \<Rightarrow> 'w \<Rightarrow> ResultMessage option res \<times> 'w" where
  "sendOperation X host oper locks w =
     (case xe_GetOrCreate X host w of
        (Inl err, w1) \<Rightarrow> (Inl (Wrapf (''get session for '' @ Endpoint host @ '': '') err []), w1)
      | (Inr session, w1) \<Rightarrow>
          (case xe_EnsureExecutor X session w1 of
             (Some err, w2) \<Rightarrow> (Inl (annotateOperationError host oper (Wrapf ''ensure executor: '' err [])), w2)
           | (None, w2) \<Rightarrow>
               (case (if operationMutatesHost (mo_Action oper)
                      then xe_EnsureHostReady X session (operationNeedsPrivilege (mo_Execution oper)) w2 else (None, w2)) of
                  (Some err, w3) \<Rightarrow>
                    (Inl (annotateOperationError host oper (Wrapf ''host readiness preflight failed: '' err [])), w3)
                | (None, w3) \<Rightarrow>
                    (case xe_SendOperationLocked X session oper locks w3 of
                       ((result, Some err), w4) \<Rightarrow> (Inl (annotateOperationError host oper err), w4)
                     | ((result, None), w4) \<Rightarrow> (Inr result, w4)))))"

text \<open>A refresh that could not reach the host at all drops the resource from the state.\<close>

definition unreachableMarkers :: "string list" where
  "unreachableMarkers = [''connect: connection timed out'', ''dial tcp'', ''i/o timeout'', ''connection refused'',
     ''no route to host'', ''network is unreachable'']"

definition shouldDropStateOnReadError :: "error \<Rightarrow> bool" where
  "shouldDropStateOnReadError err \<longleftrightarrow>
     (let message = ToLower (error_text err) in
      if \<not> Contains message ''get session for '' \<and> \<not> Contains message ''ssh dial '' then False
      else list_ex (Contains message) unreachableMarkers)"

subsection \<open>A generic resource\<close>

record ValidationPolicy =
  vp_RemotePlanValidation :: bool
  vp_PreWriteValidation :: bool
  vp_ReadAfterWrite :: bool

type_synonym shaper = "StateData \<Rightarrow> StateData \<times> diags"

text \<open>\<open>gr_executorMgr\<close> tells whether the provider was configured. A lock planner sees an operation as the
  theory of the lock planning does.\<close>

record GenericResource =
  gr_typeName :: string
  gr_runtimeType :: string
  gr_runtimeModule :: string
  gr_requiredPrivilege :: string
  gr_attributes :: attributes
  gr_blocks :: "(string \<times> block) list"
  gr_schemaCustomizer :: "(attributes \<Rightarrow> attributes) option"
  gr_lockPlanner :: "(string \<Rightarrow> OperationMessage option \<Rightarrow> LockDescriptor list res) option"
  gr_executionPolicy :: "(string \<Rightarrow> Operation \<Rightarrow> ExecutionContext option res) option"
  gr_shapeResult :: "(string \<Rightarrow> shaper) option"
  gr_shapeImport :: "shaper option"
  gr_validationPolicy :: ValidationPolicy
  gr_destroySafety :: DestroySafetyPolicy
  gr_importRequired :: bool
  gr_importIdentity :: "ResourceImportIdentity option"
  gr_executorMgr :: bool
  gr_defaultHost :: "TransportConfig option"
  gr_destroySafetyC :: DestroySafetyConfig

definition hostAttrs :: "GenericResource \<Rightarrow> transportAttributeNames" where
  "hostAttrs R = transportAttributeNamesForResourceSchema (gr_attributes R) (gr_schemaCustomizer R)"

definition schemaOf :: "GenericResource \<Rightarrow> attributes" where
  "schemaOf R = resourceSchemaAttributes (gr_attributes R) (gr_schemaCustomizer R)
     (destroySafetyUsesAllowFlag (dp_Mode (gr_destroySafety R)))"

record ('s, 'i, 'p) framework =
  fw_get :: "'s \<Rightarrow> getters"
  fw_put :: "'s setter"
  fw_isNull :: "'s \<Rightarrow> bool"
  fw_remove :: "'s \<Rightarrow> 's"
  fw_conv :: conversions
  fw_marshal :: "val \<Rightarrow> string res"
  fw_identity :: "'i identityOps"
  fw_GetKey :: "'p \<Rightarrow> string \<Rightarrow> string \<times> diags"
  fw_SetKey :: "string \<Rightarrow> string \<Rightarrow> 'p \<Rightarrow> 'p \<times> diags"
  fw_jsonError :: "string \<Rightarrow> error"
  fw_HostKeyFingerprint :: "TransportConfig \<Rightarrow> string"

record ('s, 'i) response =
  rs_State :: 's
  rs_Identity :: "'i option"
  rs_Diagnostics :: diags

definition report :: "('s, 'i) response \<Rightarrow> diags \<Rightarrow> ('s, 'i) response" where
  "report r ds = r\<lparr>rs_Diagnostics := rs_Diagnostics r @ ds\<rparr>"

definition readAttrs :: "GenericResource \<Rightarrow> ('s, 'i, 'p) framework \<Rightarrow> 's \<Rightarrow> StateData option \<times> diags" where
  "readAttrs R F s = extractResourceValues (fw_conv F) (fw_get F s) (gr_attributes R) (gr_blocks R)"

definition identityGetters :: "('s, 'i, 'p) framework \<Rightarrow> 'i option \<Rightarrow> getters option" where
  "identityGetters F identity = map_option (io_get (fw_identity F)) identity"

definition buildIdentity ::
    "GenericResource \<Rightarrow> ('s, 'i, 'p) framework \<Rightarrow> StateData \<Rightarrow> TransportConfig \<Rightarrow> 'i option \<times> diags" where
  "buildIdentity R F data host =
     buildResourceIdentityWithNames (fw_identity F) (gr_importIdentity R) data host (hostAttrs R)"

text \<open>The attributes a lock planner looks at.\<close>

definition plannerAttrs :: "StateData option \<Rightarrow> attrs" where
  "plannerAttrs m = (\<lambda>key. case map_of (attrsOf m) key of
     None \<Rightarrow> None | Some (VStr s) \<Rightarrow> Some (StrAttr s) | Some _ \<Rightarrow> Some OtherAttr)"

definition plannerView :: "Operation \<Rightarrow> OperationMessage" where
  "plannerView oper = \<lparr>op_Plan = plannerAttrs (mo_Plan oper), op_State = plannerAttrs (mo_State oper),
     op_Config = plannerAttrs (mo_Config oper)\<rparr>"

definition messageFor :: "GenericResource \<Rightarrow> string \<Rightarrow> Operation" where
  "messageFor R action = \<lparr>mo_ModuleName = gr_runtimeModule R, mo_ResourceType = gr_runtimeType R, mo_Action = action,
     mo_ImportID = [], mo_Plan = None, mo_State = None, mo_Config = None, mo_Execution = None\<rparr>"

definition send ::
    "GenericResource \<Rightarrow> ('w, 'n) executor \<Rightarrow> string \<Rightarrow> TransportConfig \<Rightarrow> Operation \<Rightarrow> 'w \<Rightarrow> ResultMessage option res \<times> 'w" where
  "send R X action host oper w =
     (case resolveResourceExecutionContext (gr_requiredPrivilege R) (gr_executionPolicy R) action oper of
        Inl err \<Rightarrow> (Inl (Wrapf ''resolve execution context: '' err []), w)
      | Inr execution \<Rightarrow>
          (let op1 = oper\<lparr>mo_Execution := execution\<rparr> in
           case planResourceLocks action (Some (plannerView op1)) (gr_lockPlanner R) of
             Inl err \<Rightarrow> (Inl err, w)
           | Inr locks \<Rightarrow> sendOperation X host op1 locks w))"

definition validateRemote ::
    "GenericResource \<Rightarrow> ('w, 'n) executor \<Rightarrow> TransportConfig \<Rightarrow> StateData \<Rightarrow> 'w \<Rightarrow> diags \<times> 'w" where
  "validateRemote R X host config w =
     (case send R X ''validate'' host ((messageFor R ''validate'')\<lparr>mo_Config := Some config\<rparr>) w of
        (Inl err, w1) \<Rightarrow> ([ErrorDiag ''Validation failed'' (error_text err)], w1)
      | (Inr result, w1) \<Rightarrow> ([], w1))"

definition shape :: "GenericResource \<Rightarrow> string \<Rightarrow> shaper" where
  "shape R action state = (case gr_shapeResult R of None \<Rightarrow> (state, []) | Some f \<Rightarrow> f action state)"

definition resultState :: "ResultMessage option \<Rightarrow> StateData option" where
  "resultState result = (case result of None \<Rightarrow> None | Some m \<Rightarrow> rm_State m)"

text \<open>\<open>diagnostics.Errors()[0].Detail()\<close>\<close>

fun firstErrorDetail :: "diags \<Rightarrow> string" where
  "firstErrorDetail (ErrorDiag summary detail # ds) = detail"
| "firstErrorDetail (d # ds) = firstErrorDetail ds"
| "firstErrorDetail [] = []"

definition readBackState ::
    "GenericResource \<Rightarrow> ('w, 'n) executor \<Rightarrow> TransportConfig \<Rightarrow> StateData \<Rightarrow> 'w \<Rightarrow> StateData res \<times> 'w" where
  "readBackState R X host state w =
     (case send R X ''read'' host ((messageFor R ''read'')\<lparr>mo_State := Some state\<rparr>) w of
        (Inl err, w1) \<Rightarrow> (Inl err, w1)
      | (Inr result, w1) \<Rightarrow>
          (case resultState result of
             None \<Rightarrow> (Inl (Errorf ''resource disappeared during post-write verification''), w1)
           | Some found \<Rightarrow>
               (case shape R ''read'' found of
                  (shaped, ds) \<Rightarrow>
                    if HasError ds then (Inl (Errorf (''shape verification state: '' @ firstErrorDetail ds)), w1)
                    else (Inr shaped, w1))))"

definition probeState :: "(string \<times> identityAttribute) list \<Rightarrow> StateData \<Rightarrow> StateData" where
  "probeState keys attrs = concat (map (\<lambda>(key, a). case map_of attrs key of Some v \<Rightarrow> [(key, v)] | None \<Rightarrow> []) keys)"

definition probeExisting ::
    "GenericResource \<Rightarrow> ('w, 'n) executor \<Rightarrow> TransportConfig \<Rightarrow> StateData \<Rightarrow> 'w \<Rightarrow> (bool \<times> string \<times> error option) \<times> 'w" where
  "probeExisting R X host attrs w =
     (case gr_importIdentity R of
        None \<Rightarrow> ((False, [], None), w)
      | Some spec \<Rightarrow>
          (case ri_FormatID spec of
             None \<Rightarrow> ((False, [], None), w)
           | Some format \<Rightarrow>
               if \<not> gr_importRequired R \<or> ri_Attributes spec = [] then ((False, [], None), w)
               else (case format attrs of
                  Inl err \<Rightarrow> ((False, [], Some err), w)
                | Inr importID \<Rightarrow>
                    (case send R X ''read'' host
                        ((messageFor R ''read'')\<lparr>mo_State := Some (probeState (ri_Attributes spec) attrs)\<rparr>) w of
                       (Inl err, w1) \<Rightarrow> ((False, importID, Some err), w1)
                     | (Inr result, w1) \<Rightarrow> ((resultState result \<noteq> None, importID, None), w1)))))"

definition importRequiredMessage :: "GenericResource \<Rightarrow> string \<Rightarrow> string" where
  "importRequiredMessage R importID = gr_typeName R @ '' target '' @ go_quote importID @
     '' already exists on the host; import it before Terraform can manage it''"

subsection \<open>The flag that allows a destructive destroy\<close>

definition allowFlag :: "bool tf \<times> diags \<Rightarrow> bool \<times> diags" where
  "allowFlag r = (case r of (allow, ds) \<Rightarrow> if HasError ds then (False, ds) else (knownOr allow False id, ds))"

definition allowDestructiveDestroyFromState :: "GenericResource \<Rightarrow> ('s, 'i, 'p) framework \<Rightarrow> 's \<Rightarrow> bool \<times> diags" where
  "allowDestructiveDestroyFromState R F s =
     (if \<not> resourceSchemaHasAttribute (schemaOf R) ''allow_destructive_destroy'' then (False, [])
      else allowFlag (g_Bool (fw_get F s) ''allow_destructive_destroy''))"

text \<open>The configuration is read in the same way.\<close>

definition allowDestructiveDestroyFromConfig :: "GenericResource \<Rightarrow> ('s, 'i, 'p) framework \<Rightarrow> 's \<Rightarrow> bool \<times> diags" where
  "allowDestructiveDestroyFromConfig = allowDestructiveDestroyFromState"

definition genericAllowDestroyKey :: string where
  "genericAllowDestroyKey = ''generic_allow_destructive_destroy''"

text \<open>\<open>json.Marshal\<close> and \<open>json.Unmarshal\<close> of a \<open>bool\<close>; \<open>null\<close> leaves the variable as it is, which
  is false.\<close>

definition marshalBool :: "bool \<Rightarrow> string" where
  "marshalBool b = (if b then ''true'' else ''false'')"

definition jsonSpace :: string where
  "jsonSpace = [CHR 0x20, CHR 0x09, CHR 0x0A, CHR 0x0D]"

definition unmarshalBool :: "string \<Rightarrow> bool option" where
  "unmarshalBool raw =
     (let t = TrimSet jsonSpace raw in
      if t = ''true'' then Some True else if t = ''false'' \<or> t = ''null'' then Some False else None)"

definition storeGenericAllowDestroyFromConfig ::
    "('s, 'i, 'p) framework \<Rightarrow> 's \<Rightarrow> 'p option \<Rightarrow> 'p option \<times> diags" where
  "storeGenericAllowDestroyFromConfig F config private =
     (case private of
        None \<Rightarrow> (None, [])
      | Some p \<Rightarrow>
          (case g_Bool (fw_get F config) ''allow_destructive_destroy'' of
             (allow, ds) \<Rightarrow>
               if HasError ds then (Some p, ds)
               else (case allow of
                  Known b \<Rightarrow>
                    (case fw_SetKey F genericAllowDestroyKey (marshalBool b) p of (p', extra) \<Rightarrow> (Some p', ds @ extra))
                | _ \<Rightarrow> (Some p, ds))))"

definition readGenericAllowDestroyFromPrivate :: "('s, 'i, 'p) framework \<Rightarrow> 'p option \<Rightarrow> bool \<times> diags" where
  "readGenericAllowDestroyFromPrivate F private =
     (case private of
        None \<Rightarrow> (False, [])
      | Some p \<Rightarrow>
          (case fw_GetKey F p genericAllowDestroyKey of
             (raw, ds) \<Rightarrow>
               if HasError ds \<or> raw = [] then (False, ds)
               else (case unmarshalBool raw of
                  None \<Rightarrow> (False, ds @ [ErrorDiag ''Decode planned destructive destroy flag''
                      (''Failed to decode planned allow_destructive_destroy value: '' @ error_text (fw_jsonError F raw))])
                | Some allow \<Rightarrow> (allow, ds))))"

definition allowDestructiveDestroyFromStateOrPrivate ::
    "GenericResource \<Rightarrow> ('s, 'i, 'p) framework \<Rightarrow> 's \<Rightarrow> 'p option \<Rightarrow> bool \<times> diags" where
  "allowDestructiveDestroyFromStateOrPrivate R F s private =
     (case allowDestructiveDestroyFromState R F s of
        (allow, ds) \<Rightarrow>
          if HasError ds \<or> allow then (allow, ds)
          else (case readGenericAllowDestroyFromPrivate F private of
             (fromPrivate, extra) \<Rightarrow>
               if HasError (ds @ extra) then (False, ds @ extra) else (fromPrivate, ds @ extra)))"

definition checkResourceDestroy :: "GenericResource \<Rightarrow> StateData \<Rightarrow> bool \<Rightarrow> error option" where
  "checkResourceDestroy R = checkDestroySafety (gr_typeName R) (gr_destroySafety R) (gr_destroySafetyC R)"

subsection \<open>The handlers\<close>

text \<open>The end of Create, Read and Update: the reply becomes the state, with the target, the host key
  and the flag of \<open>source\<close> (the plan, or the prior state of a read).\<close>

definition storeReply ::
    "GenericResource \<Rightarrow> ('s, 'i, 'p) framework \<Rightarrow> 's \<Rightarrow> TransportConfig \<Rightarrow> string tf \<Rightarrow> StateData \<Rightarrow>
     ('s, 'i) response \<Rightarrow> ('s, 'i) response" where
  "storeReply R F source host fallback state r =
     (case setResourceStateFromJSON (fw_conv F) (fw_marshal F) (fw_put F) state (gr_attributes R) (gr_blocks R) (rs_State r) of
        (s1, d1) \<Rightarrow>
          (case preserveHostWithNames (fw_get F source) (fw_put F) (hostAttrs R) s1 of
             (s2, d2) \<Rightarrow>
               (case setHostKeyFingerprintStateAttributeWithNames (schemaOf R) (fw_put F)
                   (observedHostKeyFingerprintValue (fw_HostKeyFingerprint F) host fallback) (hostAttrs R) s2 of
                  (s3, d3) \<Rightarrow>
                    (case preserveAllowDestructiveDestroy (schemaOf R) (fw_get F source) (fw_put F) s3 of
                       (s4, d4) \<Rightarrow>
                         (case buildIdentity R F state host of
                            (identity, d5) \<Rightarrow>
                              (report r (d1 @ d2 @ d3 @ d4 @ d5))\<lparr>rs_State := s4, rs_Identity := identity\<rparr>)))))"

text \<open>The part Create and Update share after the executor's reply.\<close>

definition finishWrite ::
    "GenericResource \<Rightarrow> ('s, 'i, 'p) framework \<Rightarrow> ('w, 'n) executor \<Rightarrow> string \<Rightarrow> 's \<Rightarrow> TransportConfig \<Rightarrow> string tf \<Rightarrow>
     StateData \<Rightarrow> ('s, 'i) response \<Rightarrow> 'w \<Rightarrow> ('s, 'i) response \<times> 'w" where
  "finishWrite R F X action plan host fallback reply r w =
     (case shape R action reply of
        (state, ds) \<Rightarrow>
          let r1 = report r ds in
          if HasError (rs_Diagnostics r1) then (r1, w)
          else if vp_ReadAfterWrite (gr_validationPolicy R) then
            (case readBackState R X host state w of
               (Inl err, w1) \<Rightarrow> (report r1 [ErrorDiag ''Post-write verification failed'' (error_text err)], w1)
             | (Inr found, w1) \<Rightarrow> (storeReply R F plan host fallback found r1, w1))
          else (storeReply R F plan host fallback state r1, w))"

definition preWrite ::
    "GenericResource \<Rightarrow> ('w, 'n) executor \<Rightarrow> TransportConfig \<Rightarrow> StateData \<Rightarrow> 'w \<Rightarrow> diags \<times> 'w" where
  "preWrite R X host attrs w =
     (if vp_PreWriteValidation (gr_validationPolicy R) then validateRemote R X host attrs w else ([], w))"

definition hostUnknown :: diagnostic where
  "hostUnknown = ErrorDiag ''Host is unknown'' ''Resource host address is still unknown during apply.''"

definition createResource ::
    "GenericResource \<Rightarrow> ('s, 'i, 'p) framework \<Rightarrow> ('w, 'n) executor \<Rightarrow> 's \<Rightarrow> ('s, 'i) response \<Rightarrow> 'w \<Rightarrow> ('s, 'i) response \<times> 'w" where
  "createResource R F X plan r w =
     (case resolveHostIfKnownWithNames (fw_get F plan) (gr_defaultHost R) (hostAttrs R) of
        (host, hostKnown, d1) \<Rightarrow>
          let r1 = report r d1 in
          if HasError (rs_Diagnostics r1) then (r1, w)
          else if \<not> hostKnown then (report r1 [hostUnknown], w)
          else case readAttrs R F plan of
            (planAttrs, d2) \<Rightarrow>
              let r2 = report r1 d2 in
              if HasError (rs_Diagnostics r2) then (r2, w)
              else case preWrite R X host (attrsOf planAttrs) w of
                (d3, w1) \<Rightarrow>
                  let r3 = report r2 d3 in
                  if HasError (rs_Diagnostics r3) then (r3, w1)
                  else (case send R X ''create'' host ((messageFor R ''create'')\<lparr>mo_Plan := planAttrs\<rparr>) w1 of
                    (Inl err, w2) \<Rightarrow> (report r3 [ErrorDiag ''Create failed'' (error_text err)], w2)
                  | (Inr result, w2) \<Rightarrow>
                      (case resultState result of
                         None \<Rightarrow> (report r3 [ErrorDiag ''Create failed'' ''executor returned no state''], w2)
                       | Some reply \<Rightarrow> finishWrite R F X ''create'' plan host NullValue reply r3 w2)))"

text \<open>Update reads the reply's state without a test for a nil reply: \<open>None\<close> is the panic.\<close>

definition updateResource ::
    "GenericResource \<Rightarrow> ('s, 'i, 'p) framework \<Rightarrow> ('w, 'n) executor \<Rightarrow> 's \<Rightarrow> 's \<Rightarrow> ('s, 'i) response \<Rightarrow> 'w \<Rightarrow>
     (('s, 'i) response \<times> 'w) option" where
  "updateResource R F X prior plan r w =
     (case resolveHostWithNames (fw_get F prior) (gr_defaultHost R) (hostAttrs R) of
        (priorHost, d1) \<Rightarrow>
          let r1 = report r d1 in
          if HasError (rs_Diagnostics r1) then Some (r1, w)
          else case hostKeyFingerprintFromStateWithNames (schemaOf R) (fw_get F prior) (hostAttrs R) of
            (priorFingerprint, d2) \<Rightarrow>
              let r2 = report r1 d2 in
              if HasError (rs_Diagnostics r2) then Some (r2, w)
              else case resolveHostIfKnownWithNames (fw_get F plan) (gr_defaultHost R) (hostAttrs R) of
                (host0, hostKnown, d3) \<Rightarrow>
                  let r3 = report r2 d3 in
                  if HasError (rs_Diagnostics r3) then Some (r3, w)
                  else if \<not> hostKnown then Some (report r3 [hostUnknown], w)
                  else
                    let same = sameTransportEndpoint priorHost host0;
                        host = (if same then applyPinnedHostKeyFingerprint host0 priorFingerprint else host0);
                        fallback = (if same then priorFingerprint else NullValue)
                    in case readAttrs R F prior of
                      (priorAttrs, d4) \<Rightarrow>
                        let r4 = report r3 d4 in
                        if HasError (rs_Diagnostics r4) then Some (r4, w)
                        else case readAttrs R F plan of
                          (planAttrs, d5) \<Rightarrow>
                            let r5 = report r4 d5 in
                            if HasError (rs_Diagnostics r5) then Some (r5, w)
                            else case preWrite R X host (attrsOf planAttrs) w of
                              (d6, w1) \<Rightarrow>
                                let r6 = report r5 d6 in
                                if HasError (rs_Diagnostics r6) then Some (r6, w1)
                                else (case send R X ''update'' host
                                    ((messageFor R ''update'')\<lparr>mo_State := priorAttrs, mo_Plan := planAttrs\<rparr>) w1 of
                                  (Inl err, w2) \<Rightarrow> Some (report r6 [ErrorDiag ''Update failed'' (error_text err)], w2)
                                | (Inr None, w2) \<Rightarrow> None
                                | (Inr (Some m), w2) \<Rightarrow>
                                    Some (finishWrite R F X ''update'' plan host fallback (attrsOf (rm_State m)) r6 w2)))"

text \<open>The read's context ends after 30 seconds; \<open>expired\<close> tells whether it has when the call returns.\<close>

definition readResource ::
    "GenericResource \<Rightarrow> ('s, 'i, 'p) framework \<Rightarrow> ('w, 'n) executor \<Rightarrow> ('w \<Rightarrow> bool) \<Rightarrow> 's \<Rightarrow> 'i option \<Rightarrow>
     ('s, 'i) response \<Rightarrow> 'w \<Rightarrow> ('s, 'i) response \<times> 'w" where
  "readResource R F X expired prior identity r w =
     (case hostKeyFingerprintFromStateWithNames (schemaOf R) (fw_get F prior) (hostAttrs R) of
        (priorFingerprint, d1) \<Rightarrow>
          let r1 = report r d1 in
          if HasError (rs_Diagnostics r1) then (r1, w)
          else case readAttrs R F prior of
            (stateAttrs, d2) \<Rightarrow>
              let r2 = report r1 d2 in
              if HasError (rs_Diagnostics r2) then (r2, w)
              else case resolveHostFromReadWithNames (fw_conv F) (fw_get F prior) (identityGetters F identity)
                  (gr_defaultHost R) (gr_importIdentity R) (hostAttrs R) of
                (host0, d3) \<Rightarrow>
                  let r3 = report r2 d3; host = applyPinnedHostKeyFingerprint host0 priorFingerprint in
                  if HasError (rs_Diagnostics r3) then (r3, w)
                  else case mergeIdentityIntoStateWithNames (fw_conv F) (attrsOf stateAttrs) (identityGetters F identity)
                      (gr_importIdentity R) host (hostAttrs R) of
                    (merged, d4) \<Rightarrow>
                      let r4 = report r3 d4 in
                      if HasError (rs_Diagnostics r4) then (r4, w)
                      else (case send R X ''read'' host ((messageFor R ''read'')\<lparr>mo_State := merged\<rparr>) w of
                        (Inl err, w1) \<Rightarrow>
                          (if expired w1 then
                             report r4 [ErrorDiag ''Read canceled or timed out''
                               (''Read did not complete before the read timeout (30s) or context cancellation: '' @ error_text err)]
                           else if shouldDropStateOnReadError err then
                             (report r4 [WarningDiag ''Prior host is unreachable during refresh''
                               (''Resource state still points at '' @ Endpoint host @ '', but that host is unreachable. Removing '' @
                                ''the stale resource state so Terraform can recreate it on the current host if needed.'')])
                               \<lparr>rs_State := fw_remove F (rs_State r4)\<rparr>
                           else report r4 [ErrorDiag ''Read failed'' (error_text err)], w1)
                      | (Inr result, w1) \<Rightarrow>
                          (case resultState result of
                             None \<Rightarrow> (r4\<lparr>rs_State := fw_remove F (rs_State r4)\<rparr>, w1)
                           | Some reply \<Rightarrow>
                               (case shape R ''read'' reply of
                                  (state, d5) \<Rightarrow>
                                    let r5 = report r4 d5 in
                                    if HasError (rs_Diagnostics r5) then (r5, w1)
                                    else (storeReply R F prior host priorFingerprint state r5, w1)))))"

definition deleteResource ::
    "GenericResource \<Rightarrow> ('s, 'i, 'p) framework \<Rightarrow> ('w, 'n) executor \<Rightarrow> 's \<Rightarrow> 'p option \<Rightarrow> ('s, 'i) response \<Rightarrow> 'w \<Rightarrow>
     ('s, 'i) response \<times> 'w" where
  "deleteResource R F X prior private r w =
     (case resolveHostWithNames (fw_get F prior) (gr_defaultHost R) (hostAttrs R) of
        (host0, d1) \<Rightarrow>
          let r1 = report r d1 in
          if HasError (rs_Diagnostics r1) then (r1, w)
          else case hostKeyFingerprintFromStateWithNames (schemaOf R) (fw_get F prior) (hostAttrs R) of
            (priorFingerprint, d2) \<Rightarrow>
              let r2 = report r1 d2; host = applyPinnedHostKeyFingerprint host0 priorFingerprint in
              if HasError (rs_Diagnostics r2) then (r2, w)
              else case readAttrs R F prior of
                (stateAttrs, d3) \<Rightarrow>
                  let r3 = report r2 d3 in
                  if HasError (rs_Diagnostics r3) then (r3, w)
                  else if isAbsentResourceState (attrsOf stateAttrs) then (r3, w)
                  else case allowDestructiveDestroyFromStateOrPrivate R F prior private of
                    (allow, d4) \<Rightarrow>
                      let r4 = report r3 d4 in
                      if HasError (rs_Diagnostics r4) then (r4, w)
                      else (case checkResourceDestroy R (attrsOf stateAttrs) allow of
                        Some err \<Rightarrow> (report r4 [ErrorDiag ''Destructive destroy blocked'' (error_text err)], w)
                      | None \<Rightarrow>
                          (case send R X ''delete'' host ((messageFor R ''delete'')\<lparr>mo_State := stateAttrs\<rparr>) w of
                             (Inl err, w1) \<Rightarrow> (report r4 [ErrorDiag ''Delete failed'' (error_text err)], w1)
                           | (Inr result, w1) \<Rightarrow> (r4, w1))))"

definition importResourceState ::
    "GenericResource \<Rightarrow> ('s, 'i, 'p) framework \<Rightarrow> ('w, 'n) executor \<Rightarrow> string \<Rightarrow> 'i option \<Rightarrow> ('s, 'i) response \<Rightarrow> 'w \<Rightarrow>
     ('s, 'i) response \<times> 'w" where
  "importResourceState R F X reqID identity r w =
     (case resolveHostFromImportWithNames (fw_conv F) (identityGetters F identity) (gr_defaultHost R)
         (gr_importIdentity R) (hostAttrs R) of
        (host, d1) \<Rightarrow>
          let r1 = report r d1 in
          if HasError (rs_Diagnostics r1) then (r1, w)
          else case resolveImportIDWithNames (fw_conv F) reqID (identityGetters F identity) (gr_importIdentity R) (hostAttrs R) of
            (importID, d2) \<Rightarrow>
              let r2 = report r1 d2 in
              if HasError (rs_Diagnostics r2) then (r2, w)
              else (case send R X ''import'' host ((messageFor R ''import'')\<lparr>mo_ImportID := importID\<rparr>) w of
                (Inl err, w1) \<Rightarrow> (report r2 [ErrorDiag ''Import failed'' (error_text err)], w1)
              | (Inr result, w1) \<Rightarrow>
                  (case resultState result of
                     None \<Rightarrow> (report r2 [ErrorDiag ''Import failed'' ''executor returned no state''], w1)
                   | Some reply \<Rightarrow>
                       (case (case gr_shapeImport R of None \<Rightarrow> (reply, []) | Some f \<Rightarrow> f reply) of
                          (state, d3) \<Rightarrow>
                            let r3 = report r2 d3 in
                            if HasError (rs_Diagnostics r3) then (r3, w1)
                            else case setResourceStateFromJSON (fw_conv F) (fw_marshal F) (fw_put F) state
                                (gr_attributes R) (gr_blocks R) (rs_State r3) of
                              (s1, d4) \<Rightarrow>
                                (case (case identity of
                                         None \<Rightarrow> (s1, [])
                                       | Some i \<Rightarrow>
                                           (case extractImportIdentityValuesWithNames (fw_conv F) (identityGetters F identity)
                                               (gr_importIdentity R) (hostAttrs R) of
                                              (values, target, d5) \<Rightarrow>
                                                if TrimSpace (tc_Target target) = [] then (s1, d5)
                                                else (case preserveHostFromAddressWithNames target (fw_put F) (hostAttrs R) s1 of
                                                  (s2, d6) \<Rightarrow> (s2, d5 @ d6)))) of
                                   (s2, d56) \<Rightarrow>
                                     (case setHostKeyFingerprintStateAttributeWithNames (schemaOf R) (fw_put F)
                                         (observedHostKeyFingerprintValue (fw_HostKeyFingerprint F) host NullValue) (hostAttrs R) s2 of
                                        (s3, d7) \<Rightarrow>
                                          (case buildIdentity R F state host of
                                             (newIdentity, d8) \<Rightarrow>
                                               ((report r3 (d4 @ d56 @ d7 @ d8))
                                                  \<lparr>rs_State := s3, rs_Identity := newIdentity\<rparr>, w1))))))))"

text \<open>The private state the response of a plan starts with is the request's.\<close>

record ('i, 'p) planResponse =
  pr_Identity :: "'i option"
  pr_Private :: "'p option"
  pr_Diagnostics :: diags

definition planReport :: "('i, 'p) planResponse \<Rightarrow> diags \<Rightarrow> ('i, 'p) planResponse" where
  "planReport r ds = r\<lparr>pr_Diagnostics := pr_Diagnostics r @ ds\<rparr>"

text \<open>The branch of a plan that destroys the resource.\<close>

definition planDestroy ::
    "GenericResource \<Rightarrow> ('s, 'i, 'p) framework \<Rightarrow> 's \<Rightarrow> 's \<Rightarrow> ('i, 'p) planResponse \<Rightarrow> ('i, 'p) planResponse" where
  "planDestroy R F config prior r =
     (if dp_Mode (gr_destroySafety R) = DestroySafetyModeNone then r
      else case readAttrs R F prior of
        (stateAttrs, d1) \<Rightarrow>
          let r1 = planReport r d1 in
          if HasError (pr_Diagnostics r1) then r1
          else if isAbsentResourceState (attrsOf stateAttrs) then r1
          else
            let usesFlag = destroySafetyUsesAllowFlag (dp_Mode (gr_destroySafety R));
                (allow, d2) = allowDestructiveDestroyFromStateOrPrivate R F prior (pr_Private r);
                r2 = (if usesFlag then planReport r1 d2 else r1)
            in
            if HasError (pr_Diagnostics r2) then r2
            else
              let (allowed, d3) = (if usesFlag \<and> \<not> allow then allowDestructiveDestroyFromConfig R F config else (allow, []));
                  r3 = planReport r2 d3
              in
              if HasError (pr_Diagnostics r3) then r3
              else (case checkResourceDestroy R (attrsOf stateAttrs) allowed of
                 Some err \<Rightarrow> planReport r3 [ErrorDiag ''Destructive destroy blocked'' (error_text err)]
               | None \<Rightarrow> r3))"

definition planIdentity ::
    "GenericResource \<Rightarrow> ('s, 'i, 'p) framework \<Rightarrow> StateData \<Rightarrow> bool \<Rightarrow> TransportConfig \<Rightarrow> 'i option \<Rightarrow>
     ('i, 'p) planResponse \<Rightarrow> ('i, 'p) planResponse" where
  "planIdentity R F planAttrs hostKnown host identity r =
     (if gr_importIdentity R = None then r
      else case preferKnownIdentityTargetConfigWithNames (fw_conv F) (identityGetters F identity) (gr_importIdentity R)
          (if hostKnown then host else emptyTransportConfig) (hostAttrs R) of
        (target, d1) \<Rightarrow>
          let r1 = planReport r d1 in
          if HasError (pr_Diagnostics r1) then r1
          else case buildIdentity R F planAttrs target of
            (newIdentity, d2) \<Rightarrow> (planReport r1 d2)\<lparr>pr_Identity := newIdentity\<rparr>)"

definition modifyPlan ::
    "GenericResource \<Rightarrow> ('s, 'i, 'p) framework \<Rightarrow> ('w, 'n) executor \<Rightarrow> 's \<Rightarrow> 's \<Rightarrow> 's \<Rightarrow> 'i option \<Rightarrow>
     ('i, 'p) planResponse \<Rightarrow> 'w \<Rightarrow> ('i, 'p) planResponse \<times> 'w" where
  "modifyPlan R F X config prior plan identity r w =
     (let (private, d0) = (if destroySafetyUsesAllowFlag (dp_Mode (gr_destroySafety R))
                           then storeGenericAllowDestroyFromConfig F config (pr_Private r) else (pr_Private r, []));
          r0 = (planReport r d0)\<lparr>pr_Private := private\<rparr>
      in
      if HasError (pr_Diagnostics r0) then (r0, w)
      else if fw_isNull F plan then (planDestroy R F config prior r0, w)
      else case readAttrs R F plan of
        (planAttrs, d1) \<Rightarrow>
          let r1 = planReport r0 d1 in
          if HasError (pr_Diagnostics r1) then (r1, w)
          else case resolveHostIfKnownWithNames (fw_get F plan) (gr_defaultHost R) (hostAttrs R) of
            (host, hostKnown, d2) \<Rightarrow>
              let r2 = planReport r1 d2 in
              if HasError (pr_Diagnostics r2) then (r2, w)
              else
                let r3 = planIdentity R F (attrsOf planAttrs) hostKnown host identity r2 in
                if HasError (pr_Diagnostics r3) then (r3, w)
                else if \<not> fw_isNull F prior then (r3, w)
                else if gr_importRequired R \<and> identity = None \<and> hostKnown then
                  (case probeExisting R X host (attrsOf planAttrs) w of
                     ((exists, importID, err), w1) \<Rightarrow>
                       (if err = None \<and> exists
                        then planReport r3 [ErrorDiag ''Import required for existing object'' (importRequiredMessage R importID)]
                        else r3, w1))
                else (r3, w))"

definition validateConfig ::
    "GenericResource \<Rightarrow> ('s, 'i, 'p) framework \<Rightarrow> ('w, 'n) executor \<Rightarrow> 's \<Rightarrow> 'w \<Rightarrow> diags \<times> 'w" where
  "validateConfig R F X config w =
     (if \<not> vp_RemotePlanValidation (gr_validationPolicy R) \<or> \<not> gr_executorMgr R then ([], w)
      else case resolveHostIfKnownWithNames (fw_get F config) (gr_defaultHost R) (hostAttrs R) of
        (host, hostKnown, d1) \<Rightarrow>
          if HasError d1 \<or> \<not> hostKnown then (d1, w)
          else case readAttrs R F config of
            (configAttrs, d2) \<Rightarrow>
              if HasError (d1 @ d2) then (d1 @ d2, w)
              else case validateRemote R X host (attrsOf configAttrs) w of
                (d3, w1) \<Rightarrow> (d1 @ d2 @ d3, w1))"

end
