(* ===== verification/ResourceCatalog.thy ===== *)
theory ResourceCatalog
  imports EntryResource
begin

text \<open>
  The resources of the provider: the definitions of providers/shared/catalog (one per resource, without
  the attributes, which the guest contracts give), the import identities of import_identity.go and
  \<open>NewGenericResource\<close> of providers/shared/engine/entry_resource.go, which makes a handler of a definition.
\<close>

datatype ResourcePattern = PatternEntry | PatternConfig | PatternCommand | PatternFile | PatternArtifact

record ResourceDefinition =
  rd_TypeName :: string
  rd_Pattern :: ResourcePattern
  rd_RequiredPrivilege :: string
  rd_RuntimeType :: string
  rd_RuntimeModule :: string
  rd_LockPlanner :: LockPlanner
  rd_ImportRequiredOnExisting :: bool
  rd_ImportIdentity :: "ResourceImportIdentity option"
  rd_ValidationPolicy :: ValidationPolicy
  rd_DestroySafety :: DestroySafetyPolicy

definition missingIdentity :: "string list \<Rightarrow> error" where
  "missingIdentity missing =
     (if missing = [] then Errorf ''missing import identity''
      else Errorf (''missing import identity fields: '' @ joinWith '', '' missing))"

definition identityText :: "StateData \<Rightarrow> string \<Rightarrow> string option" where
  "identityText values key =
     (case map_of values key of Some (VStr s) \<Rightarrow> (if TrimSpace s = [] then None else Some s) | _ \<Rightarrow> None)"

definition requireImportIdentityString :: "StateData \<Rightarrow> string \<Rightarrow> string res" where
  "requireImportIdentityString values key =
     (case identityText values key of None \<Rightarrow> Inl (missingIdentity [key]) | Some s \<Rightarrow> Inr s)"

definition singleStringImportIdentity :: "string \<Rightarrow> ResourceImportIdentity" where
  "singleStringImportIdentity key = \<lparr>ri_Attributes = [(key, IdentityString)],
     ri_FormatID = Some (\<lambda>values. requireImportIdentityString values key)\<rparr>"

definition joinedStringImportIdentity :: "string \<Rightarrow> string list \<Rightarrow> ResourceImportIdentity" where
  "joinedStringImportIdentity sep keys = \<lparr>ri_Attributes = map (\<lambda>k. (k, IdentityString)) keys,
     ri_FormatID = Some (\<lambda>values.
       let missing = filter (\<lambda>k. identityText values k = None) keys in
       if missing \<noteq> [] then Inl (missingIdentity missing)
       else Inr (joinWith sep (map (\<lambda>k. the (identityText values k)) keys)))\<rparr>"

definition kernelModulesDefinition :: ResourceDefinition where
  "kernelModulesDefinition = \<lparr>rd_TypeName = ''kernel_modules'', rd_Pattern = PatternConfig, rd_RequiredPrivilege = ''root'',
     rd_RuntimeType = ''kernel_modules'', rd_RuntimeModule = ''linux_files'',
     rd_LockPlanner = kernelModulesLockPlanner, rd_ImportRequiredOnExisting = False,
     rd_ImportIdentity = None,
     rd_ValidationPolicy = \<lparr>vp_RemotePlanValidation = False, vp_PreWriteValidation = True, vp_ReadAfterWrite = False\<rparr>,
     rd_DestroySafety = \<lparr>dp_Mode = DestroySafetyModeCriticalObject,
       dp_Guard = Some (protectedPathGuard [''path'', ''id'']), dp_RequiresExplicitAllow = None\<rparr>\<rparr>"

definition swapDefinition :: ResourceDefinition where
  "swapDefinition = \<lparr>rd_TypeName = ''swap'', rd_Pattern = PatternConfig, rd_RequiredPrivilege = ''root'',
     rd_RuntimeType = ''swap'', rd_RuntimeModule = ''linux_files'',
     rd_LockPlanner = swapLockPlanner, rd_ImportRequiredOnExisting = False,
     rd_ImportIdentity = None,
     rd_ValidationPolicy = \<lparr>vp_RemotePlanValidation = False, vp_PreWriteValidation = True, vp_ReadAfterWrite = False\<rparr>,
     rd_DestroySafety = \<lparr>dp_Mode = DestroySafetyModeNone,
       dp_Guard = None, dp_RequiresExplicitAllow = None\<rparr>\<rparr>"

definition hostsEntryDefinition :: ResourceDefinition where
  "hostsEntryDefinition = \<lparr>rd_TypeName = ''hosts_entry'', rd_Pattern = PatternEntry, rd_RequiredPrivilege = ''root'',
     rd_RuntimeType = ''hosts_entry'', rd_RuntimeModule = ''linux_files'',
     rd_LockPlanner = hostsEntryLockPlanner, rd_ImportRequiredOnExisting = True,
     rd_ImportIdentity = Some (joinedStringImportIdentity ''/'' [''ip'', ''hostname'']),
     rd_ValidationPolicy = \<lparr>vp_RemotePlanValidation = False, vp_PreWriteValidation = True, vp_ReadAfterWrite = False\<rparr>,
     rd_DestroySafety = \<lparr>dp_Mode = DestroySafetyModeCriticalObject,
       dp_Guard = Some protectedHostsEntryGuard, dp_RequiresExplicitAllow = None\<rparr>\<rparr>"

definition sshdConfigDefinition :: ResourceDefinition where
  "sshdConfigDefinition = \<lparr>rd_TypeName = ''sshd_config'', rd_Pattern = PatternConfig, rd_RequiredPrivilege = ''root'',
     rd_RuntimeType = ''sshd_config'', rd_RuntimeModule = ''linux_files'',
     rd_LockPlanner = sshdConfigLockPlanner, rd_ImportRequiredOnExisting = False,
     rd_ImportIdentity = None,
     rd_ValidationPolicy = \<lparr>vp_RemotePlanValidation = False, vp_PreWriteValidation = True, vp_ReadAfterWrite = True\<rparr>,
     rd_DestroySafety = \<lparr>dp_Mode = DestroySafetyModeCriticalObject,
       dp_Guard = Some (protectedFixedPathGuard ''/etc/ssh/sshd_config''), dp_RequiresExplicitAllow = None\<rparr>\<rparr>"

definition sysctlEntryDefinition :: ResourceDefinition where
  "sysctlEntryDefinition = \<lparr>rd_TypeName = ''sysctl_entry'', rd_Pattern = PatternEntry, rd_RequiredPrivilege = ''root'',
     rd_RuntimeType = ''sysctl_entry'', rd_RuntimeModule = ''linux_files'',
     rd_LockPlanner = sysctlEntryLockPlanner, rd_ImportRequiredOnExisting = True,
     rd_ImportIdentity = Some (singleStringImportIdentity ''key''),
     rd_ValidationPolicy = \<lparr>vp_RemotePlanValidation = False, vp_PreWriteValidation = True, vp_ReadAfterWrite = False\<rparr>,
     rd_DestroySafety = \<lparr>dp_Mode = DestroySafetyModeCriticalObject,
       dp_Guard = Some protectedSysctlGuard, dp_RequiresExplicitAllow = None\<rparr>\<rparr>"

definition fstabEntryDefinition :: ResourceDefinition where
  "fstabEntryDefinition = \<lparr>rd_TypeName = ''fstab_entry'', rd_Pattern = PatternEntry, rd_RequiredPrivilege = ''root'',
     rd_RuntimeType = ''fstab_entry'', rd_RuntimeModule = ''linux_files'',
     rd_LockPlanner = fstabEntryLockPlanner, rd_ImportRequiredOnExisting = True,
     rd_ImportIdentity = Some (singleStringImportIdentity ''mount''),
     rd_ValidationPolicy = \<lparr>vp_RemotePlanValidation = False, vp_PreWriteValidation = True, vp_ReadAfterWrite = False\<rparr>,
     rd_DestroySafety = \<lparr>dp_Mode = DestroySafetyModeCriticalObject,
       dp_Guard = Some protectedFstabGuard, dp_RequiresExplicitAllow = None\<rparr>\<rparr>"

definition crontabEntryDefinition :: ResourceDefinition where
  "crontabEntryDefinition = \<lparr>rd_TypeName = ''crontab_entry'', rd_Pattern = PatternEntry, rd_RequiredPrivilege = ''root'',
     rd_RuntimeType = ''crontab_entry'', rd_RuntimeModule = ''linux_files'',
     rd_LockPlanner = crontabEntryLockPlanner, rd_ImportRequiredOnExisting = False,
     rd_ImportIdentity = Some (joinedStringImportIdentity ''/'' [''user'', ''name'']),
     rd_ValidationPolicy = \<lparr>vp_RemotePlanValidation = False, vp_PreWriteValidation = True, vp_ReadAfterWrite = False\<rparr>,
     rd_DestroySafety = \<lparr>dp_Mode = DestroySafetyModeOther [],
       dp_Guard = None, dp_RequiresExplicitAllow = None\<rparr>\<rparr>"

definition fileDefinition :: ResourceDefinition where
  "fileDefinition = \<lparr>rd_TypeName = ''file'', rd_Pattern = PatternFile, rd_RequiredPrivilege = ''dynamic'',
     rd_RuntimeType = ''file'', rd_RuntimeModule = ''linux_files'',
     rd_LockPlanner = fileLockPlanner, rd_ImportRequiredOnExisting = True,
     rd_ImportIdentity = Some (singleStringImportIdentity ''path''),
     rd_ValidationPolicy = \<lparr>vp_RemotePlanValidation = False, vp_PreWriteValidation = True, vp_ReadAfterWrite = False\<rparr>,
     rd_DestroySafety = \<lparr>dp_Mode = DestroySafetyModeCriticalObject,
       dp_Guard = Some (protectedPathGuard [''path'', ''id'']), dp_RequiresExplicitAllow = None\<rparr>\<rparr>"

definition symlinkDefinition :: ResourceDefinition where
  "symlinkDefinition = \<lparr>rd_TypeName = ''symlink'', rd_Pattern = PatternFile, rd_RequiredPrivilege = ''dynamic'',
     rd_RuntimeType = ''symlink'', rd_RuntimeModule = ''linux_files'',
     rd_LockPlanner = fileLockPlanner, rd_ImportRequiredOnExisting = True,
     rd_ImportIdentity = Some (singleStringImportIdentity ''path''),
     rd_ValidationPolicy = \<lparr>vp_RemotePlanValidation = False, vp_PreWriteValidation = True, vp_ReadAfterWrite = False\<rparr>,
     rd_DestroySafety = \<lparr>dp_Mode = DestroySafetyModeCriticalObject,
       dp_Guard = Some (protectedPathGuard [''path'', ''id'']), dp_RequiresExplicitAllow = None\<rparr>\<rparr>"

definition userDefinition :: ResourceDefinition where
  "userDefinition = \<lparr>rd_TypeName = ''user'', rd_Pattern = PatternCommand, rd_RequiredPrivilege = ''root'',
     rd_RuntimeType = ''user'', rd_RuntimeModule = ''linux_identity'',
     rd_LockPlanner = identityLockPlanner, rd_ImportRequiredOnExisting = False,
     rd_ImportIdentity = None,
     rd_ValidationPolicy = \<lparr>vp_RemotePlanValidation = True, vp_PreWriteValidation = True, vp_ReadAfterWrite = False\<rparr>,
     rd_DestroySafety = \<lparr>dp_Mode = DestroySafetyModeCriticalObject,
       dp_Guard = Some protectedUserGuard, dp_RequiresExplicitAllow = None\<rparr>\<rparr>"

definition groupDefinition :: ResourceDefinition where
  "groupDefinition = \<lparr>rd_TypeName = ''group'', rd_Pattern = PatternCommand, rd_RequiredPrivilege = ''root'',
     rd_RuntimeType = ''group'', rd_RuntimeModule = ''linux_identity'',
     rd_LockPlanner = identityLockPlanner, rd_ImportRequiredOnExisting = False,
     rd_ImportIdentity = None,
     rd_ValidationPolicy = \<lparr>vp_RemotePlanValidation = True, vp_PreWriteValidation = True, vp_ReadAfterWrite = False\<rparr>,
     rd_DestroySafety = \<lparr>dp_Mode = DestroySafetyModeCriticalObject,
       dp_Guard = Some protectedGroupGuard, dp_RequiresExplicitAllow = None\<rparr>\<rparr>"

definition packageDefinition :: ResourceDefinition where
  "packageDefinition = \<lparr>rd_TypeName = ''package'', rd_Pattern = PatternCommand, rd_RequiredPrivilege = ''root'',
     rd_RuntimeType = ''package'', rd_RuntimeModule = ''linux_packages'',
     rd_LockPlanner = packageLockPlanner, rd_ImportRequiredOnExisting = False,
     rd_ImportIdentity = None,
     rd_ValidationPolicy = \<lparr>vp_RemotePlanValidation = False, vp_PreWriteValidation = True, vp_ReadAfterWrite = False\<rparr>,
     rd_DestroySafety = \<lparr>dp_Mode = DestroySafetyModeCriticalObject,
       dp_Guard = Some protectedPackageGuard, dp_RequiresExplicitAllow = None\<rparr>\<rparr>"

definition packageLockDefinition :: ResourceDefinition where
  "packageLockDefinition = \<lparr>rd_TypeName = ''package_lock'', rd_Pattern = PatternCommand, rd_RequiredPrivilege = ''root'',
     rd_RuntimeType = ''package_lock'', rd_RuntimeModule = ''linux_packages'',
     rd_LockPlanner = packageLockPlanner, rd_ImportRequiredOnExisting = False,
     rd_ImportIdentity = None,
     rd_ValidationPolicy = \<lparr>vp_RemotePlanValidation = False, vp_PreWriteValidation = True, vp_ReadAfterWrite = False\<rparr>,
     rd_DestroySafety = \<lparr>dp_Mode = DestroySafetyModeNone,
       dp_Guard = None, dp_RequiresExplicitAllow = None\<rparr>\<rparr>"

definition commandDefinition :: ResourceDefinition where
  "commandDefinition = \<lparr>rd_TypeName = ''command'', rd_Pattern = PatternCommand, rd_RequiredPrivilege = ''dynamic'',
     rd_RuntimeType = ''command'', rd_RuntimeModule = ''linux_commands'',
     rd_LockPlanner = commandLockPlanner, rd_ImportRequiredOnExisting = False,
     rd_ImportIdentity = None,
     rd_ValidationPolicy = \<lparr>vp_RemotePlanValidation = False, vp_PreWriteValidation = False, vp_ReadAfterWrite = False\<rparr>,
     rd_DestroySafety = \<lparr>dp_Mode = DestroySafetyModeExplicitAllow,
       dp_Guard = None, dp_RequiresExplicitAllow = Some explicitDeleteCommandGuard\<rparr>\<rparr>"

definition networkStackDefinition :: ResourceDefinition where
  "networkStackDefinition = \<lparr>rd_TypeName = ''network_stack'', rd_Pattern = PatternConfig, rd_RequiredPrivilege = ''root'',
     rd_RuntimeType = ''network_stack'', rd_RuntimeModule = ''linux_files'',
     rd_LockPlanner = networkStackLockPlanner, rd_ImportRequiredOnExisting = False,
     rd_ImportIdentity = None,
     rd_ValidationPolicy = \<lparr>vp_RemotePlanValidation = False, vp_PreWriteValidation = True, vp_ReadAfterWrite = True\<rparr>,
     rd_DestroySafety = \<lparr>dp_Mode = DestroySafetyModeNoDestroy,
       dp_Guard = Some protectedNetworkStackGuard, dp_RequiresExplicitAllow = None\<rparr>\<rparr>"

definition tlsIdentityDefinition :: ResourceDefinition where
  "tlsIdentityDefinition = \<lparr>rd_TypeName = ''tls_identity'', rd_Pattern = PatternCommand, rd_RequiredPrivilege = ''root'',
     rd_RuntimeType = ''tls_identity'', rd_RuntimeModule = ''linux_tls'',
     rd_LockPlanner = tlsIdentityLockPlanner, rd_ImportRequiredOnExisting = True,
     rd_ImportIdentity = Some (singleStringImportIdentity ''name''),
     rd_ValidationPolicy = \<lparr>vp_RemotePlanValidation = True, vp_PreWriteValidation = True, vp_ReadAfterWrite = True\<rparr>,
     rd_DestroySafety = \<lparr>dp_Mode = DestroySafetyModeCriticalObject,
       dp_Guard = Some (protectedPathGuard [''fullchain_path'', ''private_key_path'']), dp_RequiresExplicitAllow = None\<rparr>\<rparr>"

definition systemdUnitDefinition :: ResourceDefinition where
  "systemdUnitDefinition = \<lparr>rd_TypeName = ''systemd_unit'', rd_Pattern = PatternCommand, rd_RequiredPrivilege = ''root'',
     rd_RuntimeType = ''systemd_unit'', rd_RuntimeModule = ''systemd_units'',
     rd_LockPlanner = systemdUnitLockPlanner, rd_ImportRequiredOnExisting = False,
     rd_ImportIdentity = None,
     rd_ValidationPolicy = \<lparr>vp_RemotePlanValidation = False, vp_PreWriteValidation = True, vp_ReadAfterWrite = True\<rparr>,
     rd_DestroySafety = \<lparr>dp_Mode = DestroySafetyModeCriticalObject,
       dp_Guard = Some protectedSystemdServiceGuard, dp_RequiresExplicitAllow = None\<rparr>\<rparr>"

definition timezoneDefinition :: ResourceDefinition where
  "timezoneDefinition = \<lparr>rd_TypeName = ''timezone'', rd_Pattern = PatternConfig, rd_RequiredPrivilege = ''root'',
     rd_RuntimeType = ''timezone'', rd_RuntimeModule = ''systemd_units'',
     rd_LockPlanner = timezoneLockPlanner, rd_ImportRequiredOnExisting = False,
     rd_ImportIdentity = None,
     rd_ValidationPolicy = \<lparr>vp_RemotePlanValidation = False, vp_PreWriteValidation = True, vp_ReadAfterWrite = True\<rparr>,
     rd_DestroySafety = \<lparr>dp_Mode = DestroySafetyModeOther [],
       dp_Guard = None, dp_RequiresExplicitAllow = None\<rparr>\<rparr>"

definition timesyncDefinition :: ResourceDefinition where
  "timesyncDefinition = \<lparr>rd_TypeName = ''timesync'', rd_Pattern = PatternConfig, rd_RequiredPrivilege = ''root'',
     rd_RuntimeType = ''timesync'', rd_RuntimeModule = ''systemd_units'',
     rd_LockPlanner = timesyncdLockPlanner, rd_ImportRequiredOnExisting = False,
     rd_ImportIdentity = None,
     rd_ValidationPolicy = \<lparr>vp_RemotePlanValidation = False, vp_PreWriteValidation = True, vp_ReadAfterWrite = True\<rparr>,
     rd_DestroySafety = \<lparr>dp_Mode = DestroySafetyModeOther [],
       dp_Guard = None, dp_RequiresExplicitAllow = None\<rparr>\<rparr>"

definition aptRepositoryDefinition :: ResourceDefinition where
  "aptRepositoryDefinition = \<lparr>rd_TypeName = ''apt_repository'', rd_Pattern = PatternCommand, rd_RequiredPrivilege = ''root'',
     rd_RuntimeType = ''apt_repository'', rd_RuntimeModule = ''debian_apt'',
     rd_LockPlanner = aptRepositoryLockPlanner, rd_ImportRequiredOnExisting = True,
     rd_ImportIdentity = Some (singleStringImportIdentity ''name''),
     rd_ValidationPolicy = \<lparr>vp_RemotePlanValidation = False, vp_PreWriteValidation = True, vp_ReadAfterWrite = False\<rparr>,
     rd_DestroySafety = \<lparr>dp_Mode = DestroySafetyModeCriticalObject,
       dp_Guard = Some (protectedPathGuard [''file_path'']), dp_RequiresExplicitAllow = None\<rparr>\<rparr>"

definition trustedCertDefinition :: ResourceDefinition where
  "trustedCertDefinition = \<lparr>rd_TypeName = ''trusted_cert'', rd_Pattern = PatternCommand, rd_RequiredPrivilege = ''root'',
     rd_RuntimeType = ''trusted_cert'', rd_RuntimeModule = ''debian_trust'',
     rd_LockPlanner = trustedCertLockPlanner, rd_ImportRequiredOnExisting = True,
     rd_ImportIdentity = Some (singleStringImportIdentity ''name''),
     rd_ValidationPolicy = \<lparr>vp_RemotePlanValidation = True, vp_PreWriteValidation = True, vp_ReadAfterWrite = True\<rparr>,
     rd_DestroySafety = \<lparr>dp_Mode = DestroySafetyModeCriticalObject,
       dp_Guard = Some trustedCertPathGuard, dp_RequiresExplicitAllow = None\<rparr>\<rparr>"

definition ufwRuleDefinition :: ResourceDefinition where
  "ufwRuleDefinition = \<lparr>rd_TypeName = ''ufw_rule'', rd_Pattern = PatternEntry, rd_RequiredPrivilege = ''root'',
     rd_RuntimeType = ''ufw_rule'', rd_RuntimeModule = ''ubuntu_ufw'',
     rd_LockPlanner = ufwRuleLockPlanner, rd_ImportRequiredOnExisting = False,
     rd_ImportIdentity = None,
     rd_ValidationPolicy = \<lparr>vp_RemotePlanValidation = False, vp_PreWriteValidation = True, vp_ReadAfterWrite = True\<rparr>,
     rd_DestroySafety = \<lparr>dp_Mode = DestroySafetyModeCriticalObject,
       dp_Guard = Some protectedUFWRuleGuard, dp_RequiresExplicitAllow = None\<rparr>\<rparr>"

definition catalogResources :: "ResourceDefinition list" where
  "catalogResources =
     [kernelModulesDefinition, swapDefinition, hostsEntryDefinition, sshdConfigDefinition, sysctlEntryDefinition,
      fstabEntryDefinition, crontabEntryDefinition, fileDefinition, symlinkDefinition, userDefinition, groupDefinition,
      packageDefinition, packageLockDefinition, commandDefinition, networkStackDefinition, tlsIdentityDefinition,
      systemdUnitDefinition, timezoneDefinition, timesyncDefinition, aptRepositoryDefinition, trustedCertDefinition,
      ufwRuleDefinition]"

lemmas catalog_defs =
  kernelModulesDefinition_def swapDefinition_def hostsEntryDefinition_def sshdConfigDefinition_def
  sysctlEntryDefinition_def fstabEntryDefinition_def crontabEntryDefinition_def fileDefinition_def
  symlinkDefinition_def userDefinition_def groupDefinition_def packageDefinition_def packageLockDefinition_def
  commandDefinition_def networkStackDefinition_def tlsIdentityDefinition_def systemdUnitDefinition_def
  timezoneDefinition_def timesyncDefinition_def aptRepositoryDefinition_def trustedCertDefinition_def
  ufwRuleDefinition_def

text \<open>The attributes and blocks are those of the guest contract; \<open>configured\<close>, the default target and
  the destroy safety lists come from \<open>Configure\<close>.\<close>

definition NewGenericResource ::
    "string \<Rightarrow> ResourceDefinition \<Rightarrow> attributes \<Rightarrow> (string \<times> block) list \<Rightarrow> bool \<Rightarrow> TransportConfig option \<Rightarrow>
     DestroySafetyConfig \<Rightarrow> GenericResource" where
  "NewGenericResource typeName def attrs blocks configured defaultHost safety =
     \<lparr>gr_typeName = typeName, gr_runtimeType = rd_RuntimeType def, gr_runtimeModule = rd_RuntimeModule def,
      gr_requiredPrivilege = rd_RequiredPrivilege def, gr_attributes = attrs, gr_blocks = blocks,
      gr_schemaCustomizer = None, gr_lockPlanner = Some (\<lambda>action oper. Inr (rd_LockPlanner def action oper)),
      gr_executionPolicy = None, gr_shapeResult = None, gr_shapeImport = None,
      gr_validationPolicy = rd_ValidationPolicy def, gr_destroySafety = rd_DestroySafety def,
      gr_importRequired = rd_ImportRequiredOnExisting def, gr_importIdentity = rd_ImportIdentity def,
      gr_executorMgr = configured, gr_defaultHost = defaultHost, gr_destroySafetyC = safety\<rparr>"

text \<open>Every resource whose creation must not overwrite an object on the host has an identity to look
  the object up with, so the probe of a plan is never skipped for want of one.\<close>

lemma probed_resources_have_identity:
  "list_all (\<lambda>d. rd_ImportRequiredOnExisting d \<longrightarrow> supportsResourceIdentity (rd_ImportIdentity d)) catalogResources"
  by (simp add: catalogResources_def catalog_defs supportsResourceIdentity_def singleStringImportIdentity_def
      joinedStringImportIdentity_def)

text \<open>Every critical resource has a guard, and each command that a delete runs needs the flag.\<close>

lemma critical_resources_are_guarded:
  "list_all (\<lambda>d. (dp_Mode (rd_DestroySafety d) = DestroySafetyModeCriticalObject \<longrightarrow> dp_Guard (rd_DestroySafety d) \<noteq> None) \<and>
     (dp_Mode (rd_DestroySafety d) = DestroySafetyModeExplicitAllow \<longrightarrow>
        dp_RequiresExplicitAllow (rd_DestroySafety d) \<noteq> None)) catalogResources"
  by (simp add: catalogResources_def catalog_defs)

end
