(* ===== verification/EntryLifecycle.thy ===== *)
theory EntryLifecycle
  imports ResourceCatalog EngineRoundtrip
begin

text \<open>
  What the handlers of a resource guarantee together (providers/shared/engine/entry_resource.go): when a
  delete is sent to a host, that a protected object survives a destroy, and two ways in which the flag
  that permits a destroy and the record of a created object go wrong.
\<close>

subsection \<open>When a delete is sent\<close>

lemma report_simps [simp]: "rs_Diagnostics (report r ds) = rs_Diagnostics r @ ds" "rs_State (report r ds) = rs_State r"
  "rs_Identity (report r ds) = rs_Identity r"
  by (simp_all add: report_def)

lemma plan_report_simps [simp]:
  "pr_Diagnostics (planReport r ds) = pr_Diagnostics r @ ds" "pr_Private (planReport r ds) = pr_Private r"
  by (simp_all add: planReport_def)

text \<open>A delete that is refused, by its check or by an error before it, makes no call.\<close>

lemma delete_refused:
  assumes "readAttrs R F prior = (Some attrs, da)"
    and "allowDestructiveDestroyFromStateOrPrivate R F prior private = (allow, db)"
    and "checkResourceDestroy R attrs allow = Some err"
  shows "snd (deleteResource R F X prior private r w) = w"
    and "\<not> isAbsentResourceState attrs \<Longrightarrow> HasError (rs_Diagnostics (fst (deleteResource R F X prior private r w)))"
  using assms by (auto simp: deleteResource_def Let_def attrsOf_def split: prod.split)

lemma plan_destroy_refused:
  assumes "readAttrs R F prior = (Some attrs, da)" "\<not> isAbsentResourceState attrs"
    and "dp_Mode (gr_destroySafety R) \<noteq> DestroySafetyModeNone"
    and "allowDestructiveDestroyFromStateOrPrivate R F prior (pr_Private p) = (False, db)"
    and "fst (allowDestructiveDestroyFromConfig R F config) = False"
    and "checkResourceDestroy R attrs False = Some err"
  shows "HasError (pr_Diagnostics (planDestroy R F config prior p))"
  using assms by (auto simp: planDestroy_def Let_def attrsOf_def split: prod.split)

lemma path_guard_blocks:
  "key \<in> set keys \<Longrightarrow> TrimSpace (textAt attrs key) \<noteq> [] \<Longrightarrow> IsProtectedPath cfg (TrimSpace (textAt attrs key)) \<Longrightarrow>
   \<exists>reason. protectedPathGuard keys attrs cfg = Some reason"
  by (induction keys) (auto simp: Let_def)

lemma normalize_trim: "normalizeProtectedPath (TrimSpace path) = normalizeProtectedPath path"
  by (simp add: normalizeProtectedPath_def TrimSpace_idem)

lemma normalize_nonempty: "normalizeProtectedPath path \<noteq> [] \<Longrightarrow> TrimSpace path \<noteq> []"
  by (auto simp: normalizeProtectedPath_def)

definition flagKey :: string where
  "flagKey = ''allow_destructive_destroy''"

text \<open>The flag is neither in the attributes nor in the private state.\<close>

definition flagAbsent :: "('s, 'i, 'p) framework \<Rightarrow> 's \<Rightarrow> 'p option \<Rightarrow> bool" where
  "flagAbsent F prior private \<longleftrightarrow>
     g_Bool (fw_get F prior) flagKey \<in> {(NullValue, []), (Known False, [])} \<and>
     readGenericAllowDestroyFromPrivate F private = (False, [])"

lemma flag_absent_denied:
  "flagAbsent F prior private \<Longrightarrow> allowDestructiveDestroyFromStateOrPrivate R F prior private = (False, [])"
  by (auto simp: flagAbsent_def flagKey_def allowDestructiveDestroyFromStateOrPrivate_def
      allowDestructiveDestroyFromState_def allowFlag_def)

text \<open>C7: A file, symbolic link or other object whose path the built-in lists or the provider's
  configuration protect survives a destroy: without the flag that permits it, the plan is refused, and
  were it applied nothing is sent to the host. The path may be spelled in any way.\<close>

theorem protected_path_survives:
  assumes policy: "gr_destroySafety R = \<lparr>dp_Mode = DestroySafetyModeCriticalObject,
      dp_Guard = Some (protectedPathGuard keys), dp_RequiresExplicitAllow = None\<rparr>"
    and config: "gr_destroySafetyC R = NewDestroySafetyConfig paths services packages users groups"
    and attrs: "readAttrs R F prior = (Some attrs, [])" "\<not> isAbsentResourceState attrs"
    and path: "key \<in> set keys" "map_of attrs key = Some (VStr path)"
    and listed: "v \<in> set (builtinProtectedPathsExact @ builtinProtectedPathPrefixes @ paths)"
      "protectsPath v (normalizeProtectedPath path)" "normalizeProtectedPath path \<noteq> []"
    and flag: "flagAbsent F prior (pr_Private p)"
    and destroy: "fw_isNull F plan" "g_Bool (fw_get F conf) flagKey = (NullValue, [])"
  shows "HasError (pr_Diagnostics (fst (modifyPlan R F X conf prior plan identity p w))) \<and>
    snd (modifyPlan R F X conf prior plan identity p w) = w \<and>
    HasError (rs_Diagnostics (fst (deleteResource R F X prior (pr_Private p) r w))) \<and>
    snd (deleteResource R F X prior (pr_Private p) r w) = w"
proof -
  have t: "textAt attrs key = path" by (simp add: textAt_def path)
  have "IsProtectedPath (gr_destroySafetyC R) (TrimSpace path)"
    unfolding config IsProtectedPath_spec normalize_trim using listed by blast
  with path_guard_blocks [OF path(1), of attrs "gr_destroySafetyC R"] normalize_nonempty [OF listed(3)]
  obtain reason where "protectedPathGuard keys attrs (gr_destroySafetyC R) = Some reason" by (auto simp: t)
  then have check: "checkResourceDestroy R attrs False = Some (Errorf (reason @ allowHint))"
    by (simp add: checkResourceDestroy_def checkDestroySafety_def policy)
  note deny = flag_absent_denied [OF flag, of R]
  have store: "storeGenericAllowDestroyFromConfig F conf (pr_Private p) = (pr_Private p, [])"
    using destroy(2) by (simp add: storeGenericAllowDestroyFromConfig_def flagKey_def split: option.split)
  have "fst (allowDestructiveDestroyFromConfig R F conf) = False"
    using destroy(2) by (simp add: allowDestructiveDestroyFromConfig_def allowDestructiveDestroyFromState_def
        allowFlag_def flagKey_def)
  then have refused: "HasError (pr_Diagnostics (planDestroy R F conf prior ((planReport p [])\<lparr>pr_Private := pr_Private p\<rparr>)))"
    using plan_destroy_refused [OF attrs, of "(planReport p [])\<lparr>pr_Private := pr_Private p\<rparr>" "[]" conf, OF _ _ _ check] deny
    by (simp add: policy)
  have "HasError (pr_Diagnostics (fst (modifyPlan R F X conf prior plan identity p w))) \<and>
      snd (modifyPlan R F X conf prior plan identity p w) = w"
    using refused destroy(1) by (simp add: modifyPlan_def policy destroySafetyUsesAllowFlag_def store Let_def)
  with delete_refused [OF attrs(1) deny check, where X = X and r = r and w = w] attrs(2) show ?thesis by simp
qed

subsection \<open>A host, a provider and two resources to try the handlers on\<close>

text \<open>A framework state is its attribute values, \<open>None\<close> when it is null; a private state maps keys to
  bytes; a host is the list of operations it has run.\<close>

type_synonym tree = "(string \<Rightarrow> attrVal) option"

definition noValues :: "string \<Rightarrow> attrVal" where
  "noValues key = OtherVal"

definition tree_get :: "tree \<Rightarrow> getters" where
  "tree_get t = demo_get (case t of None \<Rightarrow> noValues | Some s \<Rightarrow> s)"

definition tree_put :: "tree setter" where
  "tree_put key arg t = (Some ((case t of None \<Rightarrow> noValues | Some s \<Rightarrow> s)(key := setValue arg)), [])"

definition demo_identity :: "(string \<Rightarrow> attrVal) identityOps" where
  "demo_identity = \<lparr>io_get = demo_get,
     io_set = (\<lambda>key v i. (i(key := (case v of VStr s \<Rightarrow> StringVal (Known s) | VInt64 n \<Rightarrow> Int64Val (Known n) | _ \<Rightarrow> OtherVal)), [])),
     io_null = (\<lambda>schema. Inr noValues)\<rparr>"

definition treeFramework :: "(tree, string \<Rightarrow> attrVal, string \<Rightarrow> string) framework" where
  "treeFramework = \<lparr>fw_get = tree_get, fw_put = tree_put, fw_isNull = (\<lambda>t. case t of None \<Rightarrow> True | Some s \<Rightarrow> False),
     fw_remove = (\<lambda>t. None), fw_conv = demo_conversions, fw_marshal = (\<lambda>v. Inl Canceled), fw_identity = demo_identity,
     fw_GetKey = (\<lambda>p key. (p key, [])), fw_SetKey = (\<lambda>key v p. (p(key := v), [])),
     fw_jsonError = (\<lambda>raw. Errorf ''invalid character''), fw_HostKeyFingerprint = (\<lambda>c. [])\<rparr>"

text \<open>The executor runs an operation under its lease and answers with the plan or the state it was
  given; \<open>releaseErr\<close> is the failure of the release of an action's lease.\<close>

definition released :: "string \<Rightarrow> error option" where
  "released action = None"

definition createNotReleased :: "string \<Rightarrow> error option" where
  "createNotReleased action = (if action = ''create'' then Some Canceled else None)"

definition runOperation :: "Operation \<Rightarrow> string list \<Rightarrow> (ResultMessage option \<times> error option) \<times> string list" where
  "runOperation oper w =
     ((Some (ResultMessage (if mo_Plan oper = None then mo_State oper else mo_Plan oper)), None), w @ [mo_Action oper])"

definition demo_executor :: "(string \<Rightarrow> error option) \<Rightarrow> (string list, unit) executor" where
  "demo_executor releaseErr = \<lparr>xe_GetOrCreate = (\<lambda>c w. (Inr (), w)), xe_EnsureExecutor = (\<lambda>n w. (None, w)),
     xe_EnsureHostReady = (\<lambda>n p w. (None, w)),
     xe_SendOperationLocked = (\<lambda>n oper locks.
       lockedCall (\<lambda>w. (Inr (), w)) (runOperation oper) (\<lambda>l callErr w. (releaseErr (mo_Action oper), w)))\<rparr>"

definition demo_target :: TransportConfig where
  "demo_target = emptyTransportConfig\<lparr>tc_Target := ''h''\<rparr>"

definition pathAttributes :: attributes where
  "pathAttributes = [(''path'', StringAttribute NoCustom)]"

definition nameAttributes :: attributes where
  "nameAttributes = [(''name'', StringAttribute NoCustom)]"

definition fileResource :: "string list \<Rightarrow> GenericResource" where
  "fileResource paths = NewGenericResource ''ubuntu_file'' fileDefinition pathAttributes [] True (Some demo_target)
     (NewDestroySafetyConfig paths [] [] [] [])"

definition userResource :: GenericResource where
  "userResource = NewGenericResource ''ubuntu_user'' userDefinition nameAttributes [] True (Some demo_target)
     DefaultDestroySafetyConfig"

text \<open>A plan, state or configuration with one attribute and the flag.\<close>

definition tree :: "string \<Rightarrow> string \<Rightarrow> bool tf \<Rightarrow> tree" where
  "tree key value flag = Some (noValues(key := StringVal (Known value), flagKey := BoolVal flag))"

definition fresh_plan :: "'p option \<Rightarrow> (string \<Rightarrow> attrVal, 'p) planResponse" where
  "fresh_plan private = \<lparr>pr_Identity = None, pr_Private = private, pr_Diagnostics = []\<rparr>"

definition fresh :: "tree \<Rightarrow> (tree, string \<Rightarrow> attrVal) response" where
  "fresh t = \<lparr>rs_State = t, rs_Identity = None, rs_Diagnostics = []\<rparr>"

definition noPrivate :: "string \<Rightarrow> string" where
  "noPrivate key = []"

lemma sudoers_spelled:
  "normalizeProtectedPath ''/etc/ssh/../sudoers.d/ops'' = ''/etc/sudoers.d/ops''"
  "protectsPath ''/etc/sudoers.d/'' ''/etc/sudoers.d/ops''"
  by code_simp+

lemma tree_framework [simp]: "fw_get treeFramework = tree_get" "fw_put treeFramework = tree_put"
  "fw_conv treeFramework = demo_conversions" "fw_isNull treeFramework None" "\<not> fw_isNull treeFramework (Some s)"
  "fw_GetKey treeFramework p key = (p key, [])" "fw_SetKey treeFramework key v p = (p(key := v), [])"
  "fw_remove treeFramework t = None"
  by (simp_all add: treeFramework_def)

lemma tree_flag [simp]: "g_Bool (tree_get (tree key value flag)) flagKey = (flag, [])" "g_Bool (tree_get None) key = (NullValue, [])"
  by (simp_all add: tree_get_def demo_get_def tree_def noValues_def)

lemma file_resource [simp]:
  "gr_destroySafety (fileResource paths) = rd_DestroySafety fileDefinition"
  "gr_destroySafetyC (fileResource paths) = NewDestroySafetyConfig paths [] [] [] []"
  "gr_attributes (fileResource paths) = pathAttributes" "gr_blocks (fileResource paths) = []"
  by (simp_all add: fileResource_def NewGenericResource_def)

lemma tree_path [simp]: "g_String (tree_get (tree key value flag)) key = (if key = flagKey then NullValue else Known value, [])"
  by (simp add: tree_get_def demo_get_def tree_def)

lemma demo_file_values:
  "readAttrs (fileResource []) treeFramework (tree ''path'' value NullValue) = (Some [(''path'', VStr value)], [])"
  by (simp add: readAttrs_def pathAttributes_def extractResourceValues_def extractResourceStringValue_def
      extractStringValue_def extractScalar_def flagKey_def)

theorem protected_path_survives_witness:
  "let p = fresh_plan (Some noPrivate);
       prior = tree ''path'' ''/etc/ssh/../sudoers.d/ops'' NullValue
   in HasError (pr_Diagnostics (fst (modifyPlan (fileResource []) treeFramework (demo_executor released) None prior None None p []))) \<and>
      snd (modifyPlan (fileResource []) treeFramework (demo_executor released) None prior None None p []) = [] \<and>
      HasError (rs_Diagnostics (fst (deleteResource (fileResource []) treeFramework (demo_executor released) prior (pr_Private p) (fresh prior) []))) \<and>
      snd (deleteResource (fileResource []) treeFramework (demo_executor released) prior (pr_Private p) (fresh prior) []) = []"
  unfolding Let_def
  by (rule protected_path_survives [where key = "''path''" and keys = "[''path'', ''id'']" and v = "''/etc/sudoers.d/''"
        and path = "''/etc/ssh/../sudoers.d/ops''" and paths = "[]" and services = "[]" and packages = "[]" and users = "[]"
        and groups = "[]" and attrs = "[(''path'', VStr ''/etc/ssh/../sudoers.d/ops'')]"])
    (simp_all add: sudoers_spelled demo_file_values fileDefinition_def isAbsentResourceState_def
      builtinProtectedPathPrefixes_def flagAbsent_def fresh_plan_def noPrivate_def readGenericAllowDestroyFromPrivate_def)



end
