(* ===== verification/RestartJournal.thy ===== *)
theory RestartJournal
  imports RebootJournal
begin

text \<open>
  The journal of process restarts: executor/runtime/restart_journal.go and the \<open>RestartProcess\<close> of
  executor/runtime/dispatch.go.

  A restart is one record file, named by the operation the provider chose; the provider repeats the
  call with the same operation when it lost the executor. The executor that finds no record writes one
  and starts a helper process of its own session, which runs the command and writes the result into the
  record; every call waits until the record has the result. The record is kept under a lock while a
  call prepares, but the helper and the writes around it take no lock.

  The functions are those of the source, each split where another process can run: around the start of
  the helper, and around the command. \<open>restartStep\<close> interleaves any number of calls (also of executors
  that were started anew) and helpers of one operation, and lets each of them die at any point.
\<close>

subsection \<open>Records\<close>

definition restartStatusLaunching :: string where "restartStatusLaunching = ''launching''"
definition restartStatusRunning :: string where "restartStatusRunning = ''running''"
definition restartStatusCompleted :: string where "restartStatusCompleted = ''completed''"
definition restartStatusLaunchError :: string where "restartStatusLaunchError = ''launch_error''"

lemma restart_statuses_distinct [simp]:
  "distinct [restartStatusLaunching, restartStatusRunning, restartStatusCompleted, restartStatusLaunchError]"
  by (simp add: restartStatusLaunching_def restartStatusRunning_def restartStatusCompleted_def
      restartStatusLaunchError_def)

lemmas restart_status_neq = restart_statuses_distinct [simplified]

record restartCommandSpec =
  sp_Name :: string
  sp_Args :: "string list"
  sp_Command :: string

record restartOperationRecord =
  ro_OperationID :: string
  ro_Name :: string
  ro_CommandName :: string
  ro_Args :: "string list"
  ro_Command :: string
  ro_Execution :: "ExecutionContext option"
  ro_Status :: string
  ro_HelperPID :: int
  ro_Result :: CommandResult
  ro_LastError :: string
  ro_CreatedAt :: int
  ro_UpdatedAt :: int
  ro_CompletedAt :: "int option"

text \<open>The directory of the records; \<open>rt_faults\<close> tells which of the next file calls fail.\<close>

record restartStore =
  rt_records :: "restartOperationRecord sealed dir"
  rt_faults :: "bool list"

definition tfault :: "restartStore \<Rightarrow> bool \<times> restartStore" where
  "tfault s = (case rt_faults s of [] \<Rightarrow> (False, s) | b # bs \<Rightarrow> (b, s\<lparr>rt_faults := bs\<rparr>))"

text \<open>A file call that only can fail.\<close>

definition fileCall :: "string \<Rightarrow> restartStore \<Rightarrow> error option \<times> restartStore" where
  "fileCall what s = (case tfault s of (bad, s1) \<Rightarrow> (if bad then Some (io_error what) else None, s1))"

definition ensureRestartJournalDir :: "restartStore \<Rightarrow> error option \<times> restartStore" where
  "ensureRestartJournalDir = fileCall ''mkdir''"

definition lockRestartOperation :: "restartStore \<Rightarrow> error option \<times> restartStore" where
  "lockRestartOperation s =
     (case ensureRestartJournalDir s of
        (Some e, s1) \<Rightarrow> (Some e, s1)
      | (None, s1) \<Rightarrow>
          (case fileCall ''open'' s1 of
             (Some e, s2) \<Rightarrow> (Some (Wrapf ''open restart lock: '' e []), s2)
           | (None, s2) \<Rightarrow>
               (case fileCall ''flock'' s2 of
                  (Some e, s3) \<Rightarrow> (Some (Wrapf ''lock restart operation: '' e []), s3)
                | (None, s3) \<Rightarrow> (None, s3))))"

definition readRestartRecord :: "env \<Rightarrow> string \<Rightarrow> restartStore \<Rightarrow> restartOperationRecord res \<times> restartStore" where
  "readRestartRecord E i s =
     (case fileCall ''read'' s of
        (Some e, s1) \<Rightarrow> (Inl e, s1)
      | (None, s1) \<Rightarrow>
          ((case dir_get (rt_records s1) (json_name i) of
              None \<Rightarrow> Inl (NotExist (''open '' @ json_name i))
            | Some f \<Rightarrow>
                (case unmarshalEncryptedJSON E f of
                   Inl e \<Rightarrow> Inl (Wrapf ''decode restart record: '' e [])
                 | Inr r \<Rightarrow> Inr r)), s1))"

definition writeRestartRecord :: "env \<Rightarrow> restartOperationRecord \<Rightarrow> restartStore \<Rightarrow> error option \<times> restartStore" where
  "writeRestartRecord E r s =
     (case ensureRestartJournalDir s of
        (Some e, s1) \<Rightarrow> (Some e, s1)
      | (None, s1) \<Rightarrow>
          (case marshalEncryptedJSON E (r\<lparr>ro_UpdatedAt := now E\<rparr>) of
             Inl e \<Rightarrow> (Some (Wrapf ''marshal restart record: '' e []), s1)
           | Inr f \<Rightarrow>
               (case fileCall ''write'' s1 of
                  (Some e, s2) \<Rightarrow> (Some (Wrapf ''write restart record: '' e []), s2)
                | (None, s2) \<Rightarrow>
                    (None, s2\<lparr>rt_records := dir_put (json_name (ro_OperationID r)) (Plain f) (rt_records s2)\<rparr>))))"

definition normalizeRestartCommandSpec :: "restartCommandSpec option \<Rightarrow> restartCommandSpec res" where
  "normalizeRestartCommandSpec spec =
     (case spec of
        None \<Rightarrow> Inl (Errorf ''restart action returned empty command'')
      | Some s \<Rightarrow>
          if TrimSpace (sp_Name s) = [] then
            (let command = TrimSpace (sp_Command s) in
             if command = [] then Inl (Errorf ''restart action returned empty command'')
             else Inr (s\<lparr>sp_Command := command, sp_Name := ''sh'', sp_Args := [''-lc'', command]\<rparr>))
          else Inr s)"

subsection \<open>A call\<close>

definition newRestartRecord ::
    "env \<Rightarrow> string \<Rightarrow> string \<Rightarrow> restartCommandSpec \<Rightarrow> ExecutionContext option \<Rightarrow> restartOperationRecord" where
  "newRestartRecord E operationID name spec execution = \<lparr>ro_OperationID = operationID, ro_Name = name,
     ro_CommandName = sp_Name spec, ro_Args = sp_Args spec, ro_Command = sp_Command spec, ro_Execution = execution,
     ro_Status = restartStatusLaunching, ro_HelperPID = 0,
     ro_Result = \<lparr>cr_Stdout = [], cr_Stderr = [], cr_ExitCode = 0\<rparr>, ro_LastError = [], ro_CreatedAt = now E,
     ro_UpdatedAt = now E, ro_CompletedAt = None\<rparr>"

text \<open>The record, and whether this call starts the helper. All of it is under the lock.\<close>

definition prepareRestartOperation ::
    "env \<Rightarrow> string \<Rightarrow> string \<Rightarrow> restartCommandSpec \<Rightarrow> ExecutionContext option \<Rightarrow> restartStore
      \<Rightarrow> (restartOperationRecord \<times> bool) res \<times> restartStore" where
  "prepareRestartOperation E operationID name spec execution s =
     (case lockRestartOperation s of
        (Some e, s1) \<Rightarrow> (Inl e, s1)
      | (None, s1) \<Rightarrow>
          (case readRestartRecord E operationID s1 of
             (Inr r, s2) \<Rightarrow>
               if ro_Status r = restartStatusLaunchError then
                 (let r' = r\<lparr>ro_Status := restartStatusLaunching, ro_LastError := []\<rparr> in
                  case writeRestartRecord E r' s2 of
                    (Some e, s3) \<Rightarrow> (Inl e, s3)
                  | (None, s3) \<Rightarrow> (Inr (r'\<lparr>ro_UpdatedAt := now E\<rparr>, True), s3))
               else (Inr (r, False), s2)
           | (Inl e, s2) \<Rightarrow>
               if \<not> IsNotExist e then (Inl e, s2)
               else
                 (let r = newRestartRecord E operationID name spec execution in
                  case writeRestartRecord E r s2 of
                    (Some e', s3) \<Rightarrow> (Inl e', s3)
                  | (None, s3) \<Rightarrow> (Inr (r, True), s3))))"

text \<open>The first part of \<open>Dispatcher.RestartProcess\<close>: the module is loaded, its plugin names the command
  (\<open>resolveRestartCommand\<close>), and the operation is prepared. Module and plugin are parameters.\<close>

definition resolveRestartCommand :: "restartCommandSpec res \<Rightarrow> restartCommandSpec res" where
  "resolveRestartCommand reply = (case reply of Inl e \<Rightarrow> Inl e | Inr s \<Rightarrow> normalizeRestartCommandSpec (Some s))"

definition beginRestartProcess ::
    "env \<Rightarrow> string \<Rightarrow> string \<Rightarrow> string res \<Rightarrow> (string \<Rightarrow> restartCommandSpec res) \<Rightarrow> ExecutionContext option \<Rightarrow> restartStore
      \<Rightarrow> (restartOperationRecord \<times> bool) res \<times> restartStore" where
  "beginRestartProcess E operationID name loaded invoke execution s =
     (if operationID = [] then (Inl (Errorf ''missing operation_id''), s)
      else case loaded of
        Inl e \<Rightarrow> (Inl e, s)
      | Inr module \<Rightarrow>
          (case resolveRestartCommand (invoke module) of
             Inl e \<Rightarrow> (Inl e, s)
           | Inr spec \<Rightarrow> prepareRestartOperation E operationID name spec execution s))"

text \<open>A command that was resolved names a program.\<close>

lemma resolved_command_runs:
  assumes "resolveRestartCommand reply = Inr spec"
  shows "TrimSpace (sp_Name spec) \<noteq> []"
proof -
  have "TrimSpace ''sh'' \<noteq> []" by code_simp
  with assms show ?thesis
    by (auto simp: resolveRestartCommand_def normalizeRestartCommandSpec_def Let_def split: sum.splits if_splits)
qed

text \<open>\<open>startRestartHelper\<close> up to the start of the process, whose outcome is \<open>attempt\<close>.\<close>

datatype launchAttempt = NoExecutable error | NoDevNull error | NotStarted error | Launched int

definition launchHelper :: "env \<Rightarrow> launchAttempt \<Rightarrow> int res" where
  "launchHelper E attempt =
     (case attempt of
        NoExecutable e \<Rightarrow> Inl (Wrapf ''resolve executor path: '' e [])
      | NoDevNull e \<Rightarrow> Inl (Wrapf ''open /dev/null: '' e [])
      | _ \<Rightarrow>
          (case runtimeJournalKeyBytes E of
             Inl e \<Rightarrow> Inl (Wrapf ''resolve journal key: '' e [])
           | Inr k \<Rightarrow> (case attempt of Launched p \<Rightarrow> Inr p
                                    | NotStarted e \<Rightarrow> Inl (Wrapf ''start restart helper: '' e [])
                                    | _ \<Rightarrow> Inl (Errorf ''''))))"

text \<open>The rest of it: the helper has been started and its process is written into the record.\<close>

definition withHelper :: "int \<Rightarrow> restartOperationRecord \<Rightarrow> restartOperationRecord" where
  "withHelper p r = r\<lparr>ro_HelperPID := p, ro_Status := restartStatusRunning, ro_LastError := []\<rparr>"

definition recordHelper :: "env \<Rightarrow> int \<Rightarrow> restartOperationRecord \<Rightarrow> restartStore \<Rightarrow> error option \<times> restartStore" where
  "recordHelper E p r s =
     writeRestartRecord E (withHelper p r) s"

text \<open>\<open>Dispatcher.RestartProcess\<close> after a failed start.\<close>

definition recordLaunchError :: "env \<Rightarrow> error \<Rightarrow> restartOperationRecord \<Rightarrow> restartStore \<Rightarrow> restartStore" where
  "recordLaunchError E e r s =
     (case lockRestartOperation s of
        (Some lockErr, s1) \<Rightarrow> s1
      | (None, s1) \<Rightarrow>
          snd (writeRestartRecord E (r\<lparr>ro_Status := restartStatusLaunchError, ro_LastError := error_text e\<rparr>) s1))"

text \<open>One round of \<open>waitForRestartResult\<close>; \<open>None\<close> is another round.\<close>

definition pollRestart :: "env \<Rightarrow> string \<Rightarrow> restartStore \<Rightarrow> CommandResult res option \<times> restartStore" where
  "pollRestart E i s =
     (case readRestartRecord E i s of
        (Inl e, s1) \<Rightarrow> (Some (Inl (Wrapf ''read restart record: '' e [])), s1)
      | (Inr r, s1) \<Rightarrow>
          (if ro_Status r = restartStatusCompleted then Some (Inr (ro_Result r))
           else if ro_Status r = restartStatusLaunchError
             then Some (Inl (Errorf (''restart launch failed: '' @ ro_LastError r)))
           else None, s1))"

subsection \<open>The helper\<close>

text \<open>The helper reads and decodes the file itself, with messages of its own.\<close>

definition helperReadError :: "error \<Rightarrow> error" where
  "helperReadError e =
     (case e of
        Wrapf what cause rest \<Rightarrow> Wrapf ''decode restart journal: '' cause []
      | _ \<Rightarrow> Wrapf ''read restart journal: '' e [])"

text \<open>\<open>RunJournaledRestart\<close> before the command, of the command, and after it. \<open>Inr None\<close>: the record
  is completed already.\<close>

definition helperBegin :: "env \<Rightarrow> string \<Rightarrow> restartStore \<Rightarrow> restartOperationRecord option res \<times> restartStore" where
  "helperBegin E i s =
     (case runtimeJournalKeyBytes E of
        Inl e \<Rightarrow> (Inl (Wrapf ''load journal key: '' e []), s)
      | Inr k \<Rightarrow>
          (case readRestartRecord E i s of
             (Inl e, s1) \<Rightarrow> (Inl (helperReadError e), s1)
           | (Inr r, s1) \<Rightarrow>
               if ro_Status r = restartStatusCompleted then (Inr None, s1)
               else
                 (let r' = r\<lparr>ro_Status := restartStatusRunning, ro_LastError := []\<rparr> in
                  case writeRestartRecord E r' s1 of
                    (Some e, s2) \<Rightarrow> (Inl e, s2)
                  | (None, s2) \<Rightarrow> (Inr (Some r'), s2))))"

definition helperCommand :: "restartOperationRecord \<Rightarrow> restartOperationRecord res" where
  "helperCommand r =
     (if TrimSpace (ro_CommandName r) = [] then
        (case normalizeRestartCommandSpec (Some \<lparr>sp_Name = [], sp_Args = [], sp_Command = ro_Command r\<rparr>) of
           Inl e \<Rightarrow> Inl e
         | Inr legacy \<Rightarrow> Inr (r\<lparr>ro_CommandName := sp_Name legacy, ro_Args := sp_Args legacy\<rparr>))
      else Inr r)"

definition helperFinish :: "env \<Rightarrow> CommandResult \<Rightarrow> restartOperationRecord \<Rightarrow> restartStore \<Rightarrow> error option \<times> restartStore" where
  "helperFinish E out r s =
     writeRestartRecord E (r\<lparr>ro_Result := out, ro_Status := restartStatusCompleted, ro_CompletedAt := Some (now E)\<rparr>) s"

subsection \<open>Calls and helpers of one operation\<close>

datatype callPhase =
    Arrived
  | Launching restartOperationRecord
  | HelperStarted int restartOperationRecord
  | LaunchFailed error restartOperationRecord
  | Polling
  | Returned "CommandResult res"

datatype helperPhase =
    HelperNew
  | HelperReady restartOperationRecord
  | HelperRan CommandResult restartOperationRecord
  | HelperGone

text \<open>\<open>rs_runs\<close> lists the commands that ran, \<open>rs_misled\<close> tells whether a call reported a failed start.\<close>

record restartSystem =
  rs_store :: restartStore
  rs_calls :: "callPhase list"
  rs_helpers :: "helperPhase list"
  rs_runs :: "(string \<times> string list) list"
  rs_misled :: bool

definition setCall :: "nat \<Rightarrow> callPhase \<Rightarrow> restartSystem \<Rightarrow> restartSystem" where
  "setCall n ph y = y\<lparr>rs_calls := (rs_calls y)[n := ph]\<rparr>"

definition setHelper :: "nat \<Rightarrow> helperPhase \<Rightarrow> restartSystem \<Rightarrow> restartSystem" where
  "setHelper n ph y = y\<lparr>rs_helpers := (rs_helpers y)[n := ph]\<rparr>"

definition callAt :: "restartSystem \<Rightarrow> nat \<Rightarrow> callPhase \<Rightarrow> bool" where
  "callAt y n ph \<longleftrightarrow> n < length (rs_calls y) \<and> rs_calls y ! n = ph"

definition helperAt :: "restartSystem \<Rightarrow> nat \<Rightarrow> helperPhase \<Rightarrow> bool" where
  "helperAt y n ph \<longleftrightarrow> n < length (rs_helpers y) \<and> rs_helpers y ! n = ph"

fun afterPrepare :: "(restartOperationRecord \<times> bool) res \<Rightarrow> callPhase" where
  "afterPrepare (Inl e) = Returned (Inl e)"
| "afterPrepare (Inr (r, shouldLaunch)) = (if shouldLaunch then Launching r else Polling)"

fun afterLaunch :: "int res \<Rightarrow> restartOperationRecord \<Rightarrow> callPhase" where
  "afterLaunch (Inl e) r = LaunchFailed e r"
| "afterLaunch (Inr p) r = HelperStarted p r"

fun afterRecord :: "error option \<Rightarrow> restartOperationRecord \<Rightarrow> callPhase" where
  "afterRecord None r = Polling"
| "afterRecord (Some e) r = LaunchFailed e r"

fun afterPoll :: "CommandResult res option \<Rightarrow> callPhase" where
  "afterPoll None = Polling"
| "afterPoll (Some r) = Returned r"

fun afterBegin :: "restartOperationRecord option res \<Rightarrow> helperPhase" where
  "afterBegin (Inr (Some r)) = HelperReady r"
| "afterBegin _ = HelperGone"

text \<open>The processes share the journal key \<open>k\<close>; everything else of their surroundings is free.\<close>

inductive restartStep :: "string \<Rightarrow> string \<Rightarrow> restartSystem \<Rightarrow> restartSystem \<Rightarrow> bool" for k i where
  arrives: "restartStep k i y (y\<lparr>rs_calls := rs_calls y @ [Arrived]\<rparr>)"
| prepares: "callAt y n Arrived \<Longrightarrow> journal_key E = k \<Longrightarrow>
    prepareRestartOperation E i name spec execution (rs_store y) = (r, st) \<Longrightarrow>
    restartStep k i y (setCall n (afterPrepare r) (y\<lparr>rs_store := st\<rparr>))"
| launches: "callAt y n (Launching r) \<Longrightarrow> journal_key E = k \<Longrightarrow> launchHelper E attempt = q \<Longrightarrow>
    restartStep k i y (setCall n (afterLaunch q r)
      (y\<lparr>rs_helpers := rs_helpers y @ (case q of Inl e \<Rightarrow> [] | Inr p \<Rightarrow> [HelperNew])\<rparr>))"
| records: "callAt y n (HelperStarted p r) \<Longrightarrow> journal_key E = k \<Longrightarrow> recordHelper E p r (rs_store y) = (err, st) \<Longrightarrow>
    restartStep k i y (setCall n (afterRecord err (withHelper p r)) (y\<lparr>rs_store := st\<rparr>))"
| reports: "callAt y n (LaunchFailed e r) \<Longrightarrow> journal_key E = k \<Longrightarrow>
    restartStep k i y (setCall n (Returned (Inl e)) (y\<lparr>rs_store := recordLaunchError E e r (rs_store y), rs_misled := True\<rparr>))"
| polls: "callAt y n Polling \<Longrightarrow> journal_key E = k \<Longrightarrow> pollRestart E i (rs_store y) = (q, st) \<Longrightarrow>
    restartStep k i y (setCall n (afterPoll q) (y\<lparr>rs_store := st\<rparr>))"
| call_ends: "n < length (rs_calls y) \<Longrightarrow> restartStep k i y (setCall n (Returned (Inl Canceled)) y)"
| helper_begins: "helperAt y n HelperNew \<Longrightarrow> journal_key E = k \<Longrightarrow> helperBegin E i (rs_store y) = (q, st) \<Longrightarrow>
    restartStep k i y (setHelper n (afterBegin q) (y\<lparr>rs_store := st\<rparr>))"
| helper_runs: "helperAt y n (HelperReady r) \<Longrightarrow> helperCommand r = Inr r' \<Longrightarrow>
    restartStep k i y (setHelper n (HelperRan out r') (y\<lparr>rs_runs := rs_runs y @ [(ro_CommandName r', ro_Args r')]\<rparr>))"
| helper_finishes: "helperAt y n (HelperRan out r) \<Longrightarrow> journal_key E = k \<Longrightarrow> helperFinish E out r (rs_store y) = (err, st) \<Longrightarrow>
    restartStep k i y (setHelper n HelperGone (y\<lparr>rs_store := st\<rparr>))"
| helper_ends: "n < length (rs_helpers y) \<Longrightarrow> restartStep k i y (setHelper n HelperGone y)"

definition newRestart :: "restartSystem \<Rightarrow> bool" where
  "newRestart y \<longleftrightarrow> rt_records (rs_store y) = [] \<and> rs_calls y = [] \<and> rs_helpers y = [] \<and> rs_runs y = [] \<and> \<not> rs_misled y"

subsection \<open>What a record holds\<close>

text \<open>The record of the operation as the processes read it.\<close>

definition recordOf :: "string \<Rightarrow> string \<Rightarrow> restartStore \<Rightarrow> restartOperationRecord option" where
  "recordOf k i s = (case dir_get (rt_records s) (json_name i) of
     Some (Plain (Sealed k' r)) \<Rightarrow> if k' = k then Some r else None | _ \<Rightarrow> None)"

definition storedOnly :: "string \<Rightarrow> string \<Rightarrow> (restartOperationRecord \<Rightarrow> bool) \<Rightarrow> restartStore \<Rightarrow> bool" where
  "storedOnly k i P s \<longleftrightarrow> (case dir_get (rt_records s) (json_name i) of
     None \<Rightarrow> True | Some f \<Rightarrow> (\<exists>r. f = Plain (Sealed k r) \<and> P r))"

lemma fileCall_records [simp]: "rt_records (snd (fileCall what s)) = rt_records s"
  by (simp add: fileCall_def tfault_def split: list.split)

lemma fileCallD: "fileCall what s = (e, s1) \<Longrightarrow> rt_records s1 = rt_records s"
  by (metis fileCall_records snd_conv)

lemma lock_records: "lockRestartOperation s = (e, s1) \<Longrightarrow> rt_records s1 = rt_records s"
  by (auto simp: lockRestartOperation_def ensureRestartJournalDir_def split: prod.splits option.splits dest!: fileCallD)

lemma fileCall_not_missing: "fileCall what s = (Some e, s1) \<Longrightarrow> \<not> IsNotExist e"
  by (auto simp: fileCall_def io_error_def split: prod.splits if_splits)

lemma read_records: "readRestartRecord E i s = (q, s1) \<Longrightarrow> rt_records s1 = rt_records s"
  by (auto simp: readRestartRecord_def split: prod.splits option.splits dest: fileCallD)

lemma read_record:
  assumes "readRestartRecord E i s = (Inr r, s1)"
  shows "dir_get (rt_records s) (json_name i) = Some (Plain (Sealed (journal_key E) r))"
  using assms
  by (auto simp: readRestartRecord_def unmarshalEncryptedJSON_def runtimeJournalKeyBytes_def
      split: prod.splits option.splits sum.splits node.splits sealed.splits if_splits dest!: fileCallD)

lemma read_missing:
  assumes "readRestartRecord E i s = (Inl e, s1)" and "IsNotExist e"
  shows "dir_get (rt_records s) (json_name i) = None"
  using assms fileCall_not_missing [of "''read''" s]
  by (auto simp: readRestartRecord_def split: prod.splits option.splits sum.splits dest!: fileCallD)

lemma write_record:
  assumes "writeRestartRecord E r s = (err, s1)"
  shows "rt_records s1 = (if err = None
    then dir_put (json_name (ro_OperationID r)) (Plain (Sealed (journal_key E) (r\<lparr>ro_UpdatedAt := now E\<rparr>))) (rt_records s)
    else rt_records s)"
  using assms
  by (auto simp: writeRestartRecord_def ensureRestartJournalDir_def marshalEncryptedJSON_def runtimeJournalKeyBytes_def
      split: prod.splits option.splits sum.splits if_splits dest!: fileCallD)


subsection \<open>A restart runs once\<close>

definition missing :: "string \<Rightarrow> restartStore \<Rightarrow> bool" where
  "missing i s \<longleftrightarrow> dir_get (rt_records s) (json_name i) = None"

definition okRecord :: "string \<Rightarrow> bool \<Rightarrow> restartOperationRecord \<Rightarrow> bool" where
  "okRecord i misled r \<longleftrightarrow> ro_OperationID r = i \<and> (ro_Status r = restartStatusLaunchError \<longrightarrow> misled)"

lemma stored_write:
  assumes "writeRestartRecord E r s = (err, s1)" "journal_key E = k" "storedOnly k i P s"
    and "ro_OperationID r = i" "P (r\<lparr>ro_UpdatedAt := now E\<rparr>)"
  shows "storedOnly k i P s1 \<and> (missing i s1 \<longrightarrow> missing i s \<and> err \<noteq> None)"
  using assms write_record [OF assms(1)]
  by (auto simp: storedOnly_def missing_def dir_get_put split: if_splits option.splits)

lemma stored_same: "rt_records s1 = rt_records s \<Longrightarrow> storedOnly k i P s1 = storedOnly k i P s \<and> missing i s1 = missing i s"
  by (simp add: storedOnly_def missing_def)

lemma stored_read:
  assumes "readRestartRecord E i s = (Inr r, s1)" "storedOnly k i P s"
  shows "P r"
  using read_record [OF assms(1)] assms(2) by (auto simp: storedOnly_def)

lemma prepare_stored:
  assumes "prepareRestartOperation E i name spec execution s = (q, s')" "journal_key E = k"
    and "storedOnly k i (okRecord i m) s"
  shows "storedOnly k i (okRecord i m) s' \<and> (missing i s' \<longrightarrow> missing i s \<and> (\<exists>e. q = Inl e)) \<and>
    (\<forall>r. q = Inr (r, True) \<longrightarrow> ro_OperationID r = i \<and> (m \<or> missing i s))"
proof -
  obtain l s1 where l: "lockRestartOperation s = (l, s1)" by force
  from lock_records [OF l] have s1: "storedOnly k i (okRecord i m) s1 = storedOnly k i (okRecord i m) s" "missing i s1 = missing i s"
    using stored_same by blast+
  show ?thesis
  proof (cases l)
    case (Some e)
    with assms l s1 show ?thesis by (auto simp: prepareRestartOperation_def)
  next
    case None
    obtain w s2 where w: "readRestartRecord E i s1 = (w, s2)" by force
    from read_records [OF w] s1 have s2: "storedOnly k i (okRecord i m) s2 = storedOnly k i (okRecord i m) s" "missing i s2 = missing i s"
      using stored_same [of s2 s1] by blast+
    show ?thesis
    proof (cases w)
      case (Inr r)
      from stored_read [OF w [unfolded Inr]] s1 assms(3) have r: "okRecord i m r" by blast
      have present: "\<not> missing i s" using read_record [OF w [unfolded Inr]] s1 by (auto simp: missing_def)
      show ?thesis
      proof (cases "ro_Status r = restartStatusLaunchError")
        case False
        with assms l None w Inr s2 present show ?thesis by (auto simp: prepareRestartOperation_def)
      next
        case True
        let ?r = "r\<lparr>ro_Status := restartStatusLaunching, ro_LastError := []\<rparr>"
        obtain x s3 where x: "writeRestartRecord E ?r s2 = (x, s3)" by force
        from r True have m: "m" "ro_OperationID r = i" by (auto simp: okRecord_def)
        have "storedOnly k i (okRecord i m) s3 \<and> (missing i s3 \<longrightarrow> missing i s2 \<and> x \<noteq> None)"
          by (rule stored_write [OF x assms(2)]) (use s2 assms(3) m in \<open>auto simp: okRecord_def\<close>)
        with assms(1) l None w Inr True x m present s2 show ?thesis
          by (auto simp: prepareRestartOperation_def Let_def split: option.splits)
      qed
    next
      case (Inl e)
      show ?thesis
      proof (cases "IsNotExist e")
        case False
        with assms l None w Inl s2 show ?thesis by (auto simp: prepareRestartOperation_def)
      next
        case True
        let ?r = "newRestartRecord E i name spec execution"
        from read_missing [OF w [unfolded Inl] True] s1 have none: "missing i s" by (auto simp: missing_def)
        obtain x s3 where x: "writeRestartRecord E ?r s2 = (x, s3)" by force
        have "storedOnly k i (okRecord i m) s3 \<and> (missing i s3 \<longrightarrow> missing i s2 \<and> x \<noteq> None)"
          by (rule stored_write [OF x assms(2)])
            (use s2 assms(3) in \<open>auto simp: okRecord_def newRestartRecord_def restart_status_neq\<close>)
        with assms(1) l None w Inl True x none s2 show ?thesis
          by (auto simp: prepareRestartOperation_def Let_def newRestartRecord_def split: option.splits)
      qed
    qed
  qed
qed

lemma helper_begin_stored:
  assumes "helperBegin E i s = (q, s')" "journal_key E = k" and "storedOnly k i (okRecord i m) s"
  shows "storedOnly k i (okRecord i m) s' \<and> (missing i s' \<longrightarrow> missing i s) \<and>
    (\<forall>r. q = Inr (Some r) \<longrightarrow> ro_OperationID r = i)"
proof -
  obtain w s1 where w: "readRestartRecord E i s = (w, s1)" by force
  from read_records [OF w] have s1: "storedOnly k i (okRecord i m) s1 = storedOnly k i (okRecord i m) s" "missing i s1 = missing i s"
    using stored_same by blast+
  show ?thesis
  proof (cases w)
    case (Inl e)
    with assms w s1 show ?thesis by (auto simp: helperBegin_def split: sum.splits)
  next
    case (Inr r)
    from stored_read [OF w [unfolded Inr] assms(3)] have r: "ro_OperationID r = i" by (simp add: okRecord_def)
    let ?r = "r\<lparr>ro_Status := restartStatusRunning, ro_LastError := []\<rparr>"
    obtain x s2 where x: "writeRestartRecord E ?r s1 = (x, s2)" by force
    have "storedOnly k i (okRecord i m) s2 \<and> (missing i s2 \<longrightarrow> missing i s1 \<and> x \<noteq> None)"
      by (rule stored_write [OF x assms(2)]) (use s1 assms(3) r in \<open>auto simp: okRecord_def restart_status_neq\<close>)
    with assms w Inr x s1 r show ?thesis
      by (auto simp: helperBegin_def Let_def split: sum.splits if_splits option.splits)
  qed
qed

lemma record_launch_error_stored:
  assumes "journal_key E = k" "ro_OperationID r = i" and "storedOnly k i (okRecord i m) s"
  shows "storedOnly k i (okRecord i True) (recordLaunchError E e r s)"
proof -
  have weak: "storedOnly k i (okRecord i True) s" using assms(3)
    by (auto simp: storedOnly_def okRecord_def split: option.splits)
  obtain l s1 where l: "lockRestartOperation s = (l, s1)" by force
  from lock_records [OF l] weak have s1: "storedOnly k i (okRecord i True) s1" using stored_same by blast
  obtain x s2 where x: "writeRestartRecord E (r\<lparr>ro_Status := restartStatusLaunchError, ro_LastError := error_text e\<rparr>) s1 = (x, s2)"
    by force
  have "storedOnly k i (okRecord i True) s2 \<and> (missing i s2 \<longrightarrow> missing i s1 \<and> x \<noteq> None)"
    by (rule stored_write [OF x assms(1) s1]) (use assms(2) in \<open>auto simp: okRecord_def\<close>)
  with l x s1 show ?thesis by (simp add: recordLaunchError_def split: option.split)
qed


text \<open>The number of entries with a property changes by the one that is replaced.\<close>

definition countOf :: "('a \<Rightarrow> bool) \<Rightarrow> 'a list \<Rightarrow> nat" where
  "countOf P xs = length (filter P xs)"

lemma countOf_update:
  "n < length xs \<Longrightarrow> countOf P (xs[n := x]) + (if P (xs ! n) then 1 else 0) = countOf P xs + (if P x then 1 else 0)"
proof (induction xs arbitrary: n)
  case (Cons y ys)
  then show ?case by (cases n) (auto simp: countOf_def)
qed simp

lemma countOf_append [simp]: "countOf P (xs @ ys) = countOf P xs + countOf P ys" "countOf P [] = 0"
  "countOf P [x] = (if P x then 1 else 0)"
  by (simp_all add: countOf_def)

fun isLaunching :: "callPhase \<Rightarrow> bool" where
  "isLaunching (Launching r) = True"
| "isLaunching _ = False"

fun beforeCommand :: "helperPhase \<Rightarrow> bool" where
  "beforeCommand HelperNew = True"
| "beforeCommand (HelperReady r) = True"
| "beforeCommand _ = False"

fun callRecordOK :: "string \<Rightarrow> callPhase \<Rightarrow> bool" where
  "callRecordOK i (Launching r) = (ro_OperationID r = i)"
| "callRecordOK i (HelperStarted p r) = (ro_OperationID r = i)"
| "callRecordOK i (LaunchFailed e r) = (ro_OperationID r = i)"
| "callRecordOK i _ = True"

fun helperRecordOK :: "string \<Rightarrow> helperPhase \<Rightarrow> bool" where
  "helperRecordOK i (HelperReady r) = (ro_OperationID r = i)"
| "helperRecordOK i (HelperRan out r) = (ro_OperationID r = i)"
| "helperRecordOK i _ = True"

text \<open>At most one call is about to start a helper, and none does when a helper was started; a helper runs
  the command once.\<close>

definition launchedOnce :: "string \<Rightarrow> string \<Rightarrow> restartSystem \<Rightarrow> bool" where
  "launchedOnce k i y \<longleftrightarrow> storedOnly k i (okRecord i (rs_misled y)) (rs_store y) \<and>
     list_all (callRecordOK i) (rs_calls y) \<and> list_all (helperRecordOK i) (rs_helpers y) \<and>
     length (rs_runs y) + countOf beforeCommand (rs_helpers y) \<le> length (rs_helpers y) \<and>
     (rs_misled y \<or> countOf isLaunching (rs_calls y) + length (rs_helpers y) \<le> 1) \<and>
     (missing i (rs_store y) \<longrightarrow> rs_misled y \<or> countOf isLaunching (rs_calls y) + length (rs_helpers y) = 0)"

lemma list_all_update: "list_all P xs \<Longrightarrow> P x \<Longrightarrow> list_all P (xs[n := x])"
  unfolding list_all_iff using set_update_subset_insert [of xs n x] by blast

lemma list_all_at: "list_all P xs \<Longrightarrow> n < length xs \<Longrightarrow> P (xs ! n)"
  by (simp add: list_all_length)

lemmas system_defs = setCall_def setHelper_def callAt_def helperAt_def

lemma launchedOnce_call:
  assumes inv: "launchedOnce k i y" and at: "n < length (rs_calls y)"
    and stored: "storedOnly k i (okRecord i (rs_misled y)) st" "missing i st \<Longrightarrow> missing i (rs_store y) \<and> \<not> isLaunching ph"
    and ph: "callRecordOK i ph"
    and first: "isLaunching ph \<Longrightarrow> rs_misled y \<or> missing i (rs_store y)"
  shows "launchedOnce k i (setCall n ph (y\<lparr>rs_store := st\<rparr>))"
proof -
  have "countOf isLaunching ((rs_calls y)[n := ph]) \<le> countOf isLaunching (rs_calls y) + (if isLaunching ph then 1 else 0)"
    using countOf_update [OF at, of isLaunching ph] by (simp split: if_splits)
  with assms show ?thesis
    by (cases "isLaunching ph") (auto simp: launchedOnce_def setCall_def list_all_update)
qed

lemma launchedOnce_helper:
  assumes inv: "launchedOnce k i y" and at: "n < length (rs_helpers y)"
    and stored: "storedOnly k i (okRecord i (rs_misled y)) st" "missing i st \<Longrightarrow> missing i (rs_store y)"
    and ph: "helperRecordOK i ph" "beforeCommand ph \<Longrightarrow> beforeCommand (rs_helpers y ! n)"
    and runs: "runs = rs_runs y \<or> length runs = length (rs_runs y) + 1 \<and> beforeCommand (rs_helpers y ! n) \<and> \<not> beforeCommand ph"
  shows "launchedOnce k i (setHelper n ph (y\<lparr>rs_store := st, rs_runs := runs\<rparr>))"
proof -
  have "length runs + countOf beforeCommand ((rs_helpers y)[n := ph]) \<le> length (rs_runs y) + countOf beforeCommand (rs_helpers y)"
    using countOf_update [OF at, of beforeCommand ph] ph(2) runs by (auto split: if_splits)
  with assms show ?thesis
    by (auto simp: launchedOnce_def setHelper_def list_all_update)
qed

lemma launchedOnce_step:
  assumes "restartStep k i y y'" and inv: "launchedOnce k i y"
  shows "launchedOnce k i y'"
  using assms(1)
proof cases
  case arrives
  then show ?thesis using inv by (auto simp: launchedOnce_def)
next
  case (prepares n E name spec execution q st)
  from inv have "storedOnly k i (okRecord i (rs_misled y)) (rs_store y)" by (simp add: launchedOnce_def)
  note p = prepare_stored [OF prepares(4,3) this]
  show ?thesis unfolding prepares(1)
    by (rule launchedOnce_call [OF inv])
      (use p prepares(2) in \<open>cases q; auto simp: callAt_def split: if_splits\<close>)+
next
  case (launches n r E attempt q)
  have c: "countOf isLaunching ((rs_calls y)[n := afterLaunch q r]) + 1 = countOf isLaunching (rs_calls y)"
    using countOf_update [of n "rs_calls y" isLaunching "afterLaunch q r"] launches(2) by (cases q) (simp_all add: callAt_def)
  have none: "rs_misled y \<or> rs_helpers y = []"
  proof (rule disjCI)
    assume "rs_helpers y \<noteq> []"
    then have "0 < length (rs_helpers y)" by simp
    with c have "\<not> countOf isLaunching (rs_calls y) + length (rs_helpers y) \<le> 1" by linarith
    with inv show "rs_misled y" by (auto simp: launchedOnce_def)
  qed
  have "ro_OperationID r = i" using inv launches(2) list_all_at [of "callRecordOK i" "rs_calls y" n]
    by (auto simp: launchedOnce_def callAt_def)
  then have "callRecordOK i (afterLaunch q r)" by (cases q) simp_all
  with inv c none show ?thesis unfolding launches(1)
    by (cases q) (auto simp: launchedOnce_def setCall_def list_all_update)
next
  case (records n p r E err st)
  from inv have s: "storedOnly k i (okRecord i (rs_misled y)) (rs_store y)" by (simp add: launchedOnce_def)
  have r: "ro_OperationID r = i" using inv records(2) list_all_at [of "callRecordOK i" "rs_calls y" n]
    by (auto simp: launchedOnce_def callAt_def)
  have "storedOnly k i (okRecord i (rs_misled y)) st \<and> (missing i st \<longrightarrow> missing i (rs_store y) \<and> err \<noteq> None)"
    by (rule stored_write [OF records(4) [unfolded recordHelper_def] records(3) s])
      (use r in \<open>auto simp: withHelper_def okRecord_def restart_status_neq\<close>)
  with r show ?thesis unfolding records(1)
    by (intro launchedOnce_call [OF inv])
      (use records(2) in \<open>cases err; auto simp: callAt_def withHelper_def\<close>)+
next
  case (reports n e r E)
  from inv have s: "storedOnly k i (okRecord i (rs_misled y)) (rs_store y)" by (simp add: launchedOnce_def)
  have "ro_OperationID r = i" using inv reports(2) list_all_at [of "callRecordOK i" "rs_calls y" n]
    by (auto simp: launchedOnce_def callAt_def)
  from record_launch_error_stored [OF reports(3) this s] inv show ?thesis unfolding reports(1)
    by (auto simp: launchedOnce_def setCall_def list_all_update)
next
  case (polls n E q st)
  have st: "rt_records st = rt_records (rs_store y)"
    using polls(4) by (auto simp: pollRestart_def split: prod.splits sum.splits dest!: read_records)
  show ?thesis unfolding polls(1)
    by (rule launchedOnce_call [OF inv])
      (use polls(2) inv stored_same [OF st] in \<open>cases q; auto simp: callAt_def launchedOnce_def\<close>)+
next
  case (call_ends n)
  have "launchedOnce k i (setCall n (Returned (Inl Canceled)) (y\<lparr>rs_store := rs_store y\<rparr>))"
    by (rule launchedOnce_call [OF inv call_ends(2)]) (use inv in \<open>auto simp: launchedOnce_def\<close>)
  then show ?thesis unfolding call_ends(1) by simp
next
  case (helper_begins n E q st)
  from inv have "storedOnly k i (okRecord i (rs_misled y)) (rs_store y)" by (simp add: launchedOnce_def)
  note b = helper_begin_stored [OF helper_begins(4,3) this]
  have "helperRecordOK i (afterBegin q)" using b by (cases q rule: afterBegin.cases) auto
  then have "launchedOnce k i (setHelper n (afterBegin q) (y\<lparr>rs_store := st, rs_runs := rs_runs y\<rparr>))"
    by (intro launchedOnce_helper [OF inv])
      (use b helper_begins(2) in \<open>auto simp: helperAt_def\<close>)
  then show ?thesis unfolding helper_begins(1) by simp
next
  case (helper_runs n r r' out)
  have "ro_OperationID r = i" using inv helper_runs(2) list_all_at [of "helperRecordOK i" "rs_helpers y" n]
    by (auto simp: launchedOnce_def helperAt_def)
  then have "ro_OperationID r' = i" using helper_runs(3) by (auto simp: helperCommand_def split: if_splits sum.splits)
  then have "launchedOnce k i (setHelper n (HelperRan out r')
      (y\<lparr>rs_store := rs_store y, rs_runs := rs_runs y @ [(ro_CommandName r', ro_Args r')]\<rparr>))"
    by (intro launchedOnce_helper [OF inv]) (use helper_runs(2) inv in \<open>auto simp: helperAt_def launchedOnce_def\<close>)
  then show ?thesis unfolding helper_runs(1) by simp
next
  case (helper_finishes n out r E err st)
  from inv have s: "storedOnly k i (okRecord i (rs_misled y)) (rs_store y)" by (simp add: launchedOnce_def)
  have r: "ro_OperationID r = i" using inv helper_finishes(2) list_all_at [of "helperRecordOK i" "rs_helpers y" n]
    by (auto simp: launchedOnce_def helperAt_def)
  have "storedOnly k i (okRecord i (rs_misled y)) st \<and> (missing i st \<longrightarrow> missing i (rs_store y) \<and> err \<noteq> None)"
    by (rule stored_write [OF helper_finishes(4) [unfolded helperFinish_def] helper_finishes(3) s])
      (use r in \<open>auto simp: okRecord_def restart_status_neq\<close>)
  then have "launchedOnce k i (setHelper n HelperGone (y\<lparr>rs_store := st, rs_runs := rs_runs y\<rparr>))"
    by (intro launchedOnce_helper [OF inv]) (use helper_finishes(2) in \<open>auto simp: helperAt_def\<close>)
  then show ?thesis unfolding helper_finishes(1) by simp
next
  case (helper_ends n)
  have "launchedOnce k i (setHelper n HelperGone (y\<lparr>rs_store := rs_store y, rs_runs := rs_runs y\<rparr>))"
    by (rule launchedOnce_helper [OF inv helper_ends(2)]) (use inv in \<open>auto simp: launchedOnce_def\<close>)
  then show ?thesis unfolding helper_ends(1) by simp
qed

interpretation restarts: transition_system newRestart "restartStep k i" "launchedOnce k i" for k i
proof unfold_locales
  show "newRestart y \<Longrightarrow> launchedOnce k i y" for y
    by (simp add: newRestart_def launchedOnce_def storedOnly_def)
qed (rule launchedOnce_step)

text \<open>C28: a restart runs at most once. However often the provider repeats the call, and whichever
  executors and helpers die, the command of one operation runs at most once, as long as no
  call reports that its helper could not be started.\<close>

theorem restart_at_most_once:
  assumes "newRestart y0" and "(restartStep k i)\<^sup>*\<^sup>* y0 y" and "\<not> rs_misled y"
  shows "length (rs_runs y) \<le> 1"
  using restarts.inv_reachable [OF assms(1,2)] assms(3) by (auto simp: launchedOnce_def)


subsection \<open>Schedules\<close>

text \<open>A schedule names whose turn it is; a turn that does not fit the phase changes nothing.\<close>

datatype move = Arrive | PrepareCall nat | Launch nat int | RecordHelper nat | Report nat | Poll nat | EndCall nat
  | Begin nat | RunCommand nat CommandResult | Finish nat | EndHelper nat

definition phaseOf :: "restartSystem \<Rightarrow> nat \<Rightarrow> callPhase" where
  "phaseOf y n = (if n < length (rs_calls y) then rs_calls y ! n else Returned (Inl Canceled))"

definition helperOf :: "restartSystem \<Rightarrow> nat \<Rightarrow> helperPhase" where
  "helperOf y n = (if n < length (rs_helpers y) then rs_helpers y ! n else HelperGone)"

definition demo_command :: restartCommandSpec where
  "demo_command = \<lparr>sp_Name = ''systemctl'', sp_Args = [''restart'', ''nginx''], sp_Command = []\<rparr>"

fun perform :: "env \<Rightarrow> string \<Rightarrow> move \<Rightarrow> restartSystem \<Rightarrow> restartSystem" where
  "perform E i Arrive y = y\<lparr>rs_calls := rs_calls y @ [Arrived]\<rparr>"
| "perform E i (PrepareCall n) y =
     (case phaseOf y n of
        Arrived \<Rightarrow> (case prepareRestartOperation E i ''nginx'' demo_command None (rs_store y) of
                     (r, st) \<Rightarrow> setCall n (afterPrepare r) (y\<lparr>rs_store := st\<rparr>))
      | _ \<Rightarrow> y)"
| "perform E i (Launch n p) y =
     (case phaseOf y n of
        Launching r \<Rightarrow> (case launchHelper E (Launched p) of
                         q \<Rightarrow> setCall n (afterLaunch q r)
                           (y\<lparr>rs_helpers := rs_helpers y @ (case q of Inl e \<Rightarrow> [] | Inr p \<Rightarrow> [HelperNew])\<rparr>))
      | _ \<Rightarrow> y)"
| "perform E i (RecordHelper n) y =
     (case phaseOf y n of
        HelperStarted p r \<Rightarrow> (case recordHelper E p r (rs_store y) of
                               (err, st) \<Rightarrow> setCall n (afterRecord err (withHelper p r)) (y\<lparr>rs_store := st\<rparr>))
      | _ \<Rightarrow> y)"
| "perform E i (Report n) y =
     (case phaseOf y n of
        LaunchFailed e r \<Rightarrow> setCall n (Returned (Inl e))
          (y\<lparr>rs_store := recordLaunchError E e r (rs_store y), rs_misled := True\<rparr>)
      | _ \<Rightarrow> y)"
| "perform E i (Poll n) y =
     (case phaseOf y n of
        Polling \<Rightarrow> (case pollRestart E i (rs_store y) of (q, st) \<Rightarrow> setCall n (afterPoll q) (y\<lparr>rs_store := st\<rparr>))
      | _ \<Rightarrow> y)"
| "perform E i (EndCall n) y = (if n < length (rs_calls y) then setCall n (Returned (Inl Canceled)) y else y)"
| "perform E i (Begin n) y =
     (case helperOf y n of
        HelperNew \<Rightarrow> (case helperBegin E i (rs_store y) of (q, st) \<Rightarrow> setHelper n (afterBegin q) (y\<lparr>rs_store := st\<rparr>))
      | _ \<Rightarrow> y)"
| "perform E i (RunCommand n out) y =
     (case helperOf y n of
        HelperReady r \<Rightarrow>
          (case helperCommand r of
             Inl e \<Rightarrow> y
           | Inr r' \<Rightarrow> setHelper n (HelperRan out r') (y\<lparr>rs_runs := rs_runs y @ [(ro_CommandName r', ro_Args r')]\<rparr>))
      | _ \<Rightarrow> y)"
| "perform E i (Finish n) y =
     (case helperOf y n of
        HelperRan out r \<Rightarrow> (case helperFinish E out r (rs_store y) of (err, st) \<Rightarrow> setHelper n HelperGone (y\<lparr>rs_store := st\<rparr>))
      | _ \<Rightarrow> y)"
| "perform E i (EndHelper n) y = (if n < length (rs_helpers y) then setHelper n HelperGone y else y)"

lemma phaseOf_at: "phaseOf y n = ph \<Longrightarrow> (\<And>r. ph \<noteq> Returned r) \<Longrightarrow> callAt y n ph"
  by (auto simp: phaseOf_def callAt_def split: if_splits)

lemma helperOf_at: "helperOf y n = ph \<Longrightarrow> ph \<noteq> HelperGone \<Longrightarrow> helperAt y n ph"
  by (auto simp: helperOf_def helperAt_def split: if_splits)

lemma perform_step: "journal_key E = k \<Longrightarrow> perform E i m y = y \<or> restartStep k i y (perform E i m y)"
proof (cases m)
  case Arrive
  then show ?thesis by (simp add: restartStep.arrives)
next
  case (Launch n p)
  assume "journal_key E = k"
  with Launch show ?thesis
    by (cases "phaseOf y n") (auto intro!: restartStep.launches dest!: phaseOf_at)
qed (auto split: prod.splits callPhase.splits helperPhase.splits sum.splits dest!: phaseOf_at helperOf_at
    intro: restartStep.intros)

definition schedule :: "env \<Rightarrow> string \<Rightarrow> move list \<Rightarrow> restartSystem \<Rightarrow> restartSystem" where
  "schedule E i ms y = fold (perform E i) ms y"

lemma schedule_steps: "journal_key E = k \<Longrightarrow> (restartStep k i)\<^sup>*\<^sup>* y (schedule E i ms y)"
  unfolding schedule_def
proof (induction ms arbitrary: y)
  case (Cons m ms)
  from Cons.IH [OF Cons.prems] perform_step [OF Cons.prems, of i m y] show ?case
    by simp (metis converse_rtranclp_into_rtranclp)
qed simp


subsection \<open>A restart that never ends\<close>

fun waitingCall :: "callPhase \<Rightarrow> bool" where
  "waitingCall Arrived = True"
| "waitingCall Polling = True"
| "waitingCall (Returned (Inl e)) = True"
| "waitingCall _ = False"

fun goneHelper :: "helperPhase \<Rightarrow> bool" where
  "goneHelper HelperGone = True"
| "goneHelper _ = False"

text \<open>The record says that the restart is under way, but no helper is left and no call will start one.\<close>

definition unfinished :: "restartOperationRecord \<Rightarrow> bool" where
  "unfinished r \<longleftrightarrow> ro_Status r = restartStatusLaunching \<or> ro_Status r = restartStatusRunning"

definition abandoned :: "string \<Rightarrow> string \<Rightarrow> restartSystem \<Rightarrow> bool" where
  "abandoned k i y \<longleftrightarrow> (case recordOf k i (rs_store y) of None \<Rightarrow> False | Some r \<Rightarrow> unfinished r) \<and>
     list_all waitingCall (rs_calls y) \<and> list_all goneHelper (rs_helpers y)"

lemma abandoned_record:
  "abandoned k i y \<Longrightarrow> \<exists>r. dir_get (rt_records (rs_store y)) (json_name i) = Some (Plain (Sealed k r)) \<and> unfinished r"
  by (auto simp: abandoned_def recordOf_def split: option.splits node.splits sealed.splits if_splits)

lemma abandoned_read:
  assumes "abandoned k i y" "journal_key E = k" "readRestartRecord E i (rs_store y) = (Inr r, s1)"
  shows "unfinished r"
  using abandoned_record [OF assms(1)] read_record [OF assms(3)] by auto

lemma abandoned_call:
  "abandoned k i y \<Longrightarrow> rt_records st = rt_records (rs_store y) \<Longrightarrow> waitingCall ph \<Longrightarrow>
   abandoned k i (setCall n ph (y\<lparr>rs_store := st\<rparr>))"
  by (simp add: abandoned_def setCall_def recordOf_def list_all_update)

lemma unfinished_statuses: "unfinished r \<Longrightarrow> ro_Status r \<noteq> restartStatusCompleted \<and> ro_Status r \<noteq> restartStatusLaunchError"
  by (auto simp: unfinished_def restartStatusLaunching_def restartStatusRunning_def restartStatusCompleted_def
      restartStatusLaunchError_def)

lemma abandoned_prepare:
  assumes "abandoned k i y" "journal_key E = k" "prepareRestartOperation E i name spec execution (rs_store y) = (q, st)"
  shows "rt_records st = rt_records (rs_store y) \<and> waitingCall (afterPrepare q)"
proof -
  obtain l s1 where l: "lockRestartOperation (rs_store y) = (l, s1)" by force
  note s1 = lock_records [OF l]
  show ?thesis
  proof (cases l)
    case (Some e)
    with assms(3) l s1 show ?thesis by (auto simp: prepareRestartOperation_def)
  next
    case None
    obtain w s2 where w: "readRestartRecord E i s1 = (w, s2)" by force
    note s2 = read_records [OF w]
    show ?thesis
    proof (cases w)
      case (Inr r)
      from read_record [OF w [unfolded Inr]] abandoned_record [OF assms(1)] s1 have "unfinished r" by auto
      from unfinished_statuses [OF this] assms(3) l None w Inr s1 s2 show ?thesis
        by (auto simp: prepareRestartOperation_def)
    next
      case (Inl e)
      have "\<not> IsNotExist e" using read_missing [OF w [unfolded Inl]] abandoned_record [OF assms(1)] s1 by auto
      with assms(3) l None w Inl s1 s2 show ?thesis by (auto simp: prepareRestartOperation_def)
    qed
  qed
qed

lemma abandoned_no_helper: "abandoned k i y \<Longrightarrow> helperAt y n ph \<Longrightarrow> ph = HelperGone"
  by (cases ph) (auto simp: abandoned_def helperAt_def dest!: list_all_at [of goneHelper _ n])

lemma abandoned_phase: "abandoned k i y \<Longrightarrow> callAt y n ph \<Longrightarrow> waitingCall ph"
  by (auto simp: abandoned_def callAt_def dest!: list_all_at [of waitingCall _ n])

lemma abandoned_step:
  assumes "restartStep k i y y'" and ab: "abandoned k i y"
  shows "abandoned k i y' \<and> rs_runs y' = rs_runs y"
  using assms(1)
proof cases
  case arrives
  then show ?thesis using ab by (simp add: abandoned_def)
next
  case (prepares n E name spec execution q st)
  from abandoned_prepare [OF ab prepares(3,4)] abandoned_call [OF ab] prepares(1) show ?thesis
    by (auto simp: setCall_def)
next
  case (polls n E q st)
  have "rt_records st = rt_records (rs_store y) \<and> waitingCall (afterPoll q)"
    using polls(4) abandoned_read [OF ab polls(3)]
    by (auto simp: pollRestart_def dest: read_records unfinished_statuses split: prod.splits sum.splits)
  with abandoned_call [OF ab] polls(1) show ?thesis by (auto simp: setCall_def)
next
  case (call_ends n)
  have "abandoned k i (setCall n (Returned (Inl Canceled)) (y\<lparr>rs_store := rs_store y\<rparr>))"
    by (rule abandoned_call [OF ab]) simp_all
  then show ?thesis unfolding call_ends(1) by (simp add: setCall_def)
next
  case (helper_ends n)
  then show ?thesis using ab by (auto simp: abandoned_def setHelper_def list_all_update)
qed (use abandoned_phase [OF ab] abandoned_no_helper [OF ab] in fastforce)+

lemma abandoned_forever:
  assumes "(restartStep k i)\<^sup>*\<^sup>* y y'" and "abandoned k i y"
  shows "rs_runs y' = rs_runs y \<and> (\<forall>n out. \<not> callAt y' n (Returned (Inr out)))"
proof -
  from assms have "abandoned k i y' \<and> rs_runs y' = rs_runs y"
    by (induction rule: rtranclp_induct) (use abandoned_step in \<open>blast, metis\<close>)
  then show ?thesis using abandoned_phase by fastforce
qed

subsection \<open>Three schedules\<close>

definition restart_start :: restartSystem where
  "restart_start = \<lparr>rs_store = \<lparr>rt_records = [], rt_faults = []\<rparr>, rs_calls = [], rs_helpers = [], rs_runs = [], rs_misled = False\<rparr>"

definition demo_output :: CommandResult where
  "demo_output = \<lparr>cr_Stdout = ''ok'', cr_Stderr = [], cr_ExitCode = 0\<rparr>"

definition restart_env :: env where
  "restart_env = \<lparr>pid = 7, boot_id = ''b'', exists_pid = (\<lambda>p. True), now = 1, random_bytes = ''r'', temp_suffix = ''t'',
     journal_key = ''k'', hashfns = \<lparr>blake3_sum = id, shake256_sum = id, xxh3_sum = id\<rparr>\<rparr>"

definition demo_schedule :: "move list \<Rightarrow> restartSystem" where
  "demo_schedule ms = schedule restart_env ''op'' ms restart_start"

text \<open>The helper is done before the executor has written its process number.\<close>

definition late_record :: "move list" where
  "late_record = [Arrive, PrepareCall 0, Launch 0 42, Begin 0, RunCommand 0 demo_output, Finish 0, RecordHelper 0]"

text \<open>The executor dies before it starts the helper, and the provider repeats the call.\<close>

definition died_before_launch :: "move list" where
  "died_before_launch = [Arrive, PrepareCall 0, EndCall 0, Arrive, PrepareCall 1]"

text \<open>The start is recorded in time, and the call returns the result.\<close>

definition normal_restart :: "move list" where
  "normal_restart = [Arrive, PrepareCall 0, Launch 0 42, RecordHelper 0, Begin 0, RunCommand 0 demo_output, Finish 0,
     Arrive, PrepareCall 1, Poll 0, Poll 1]"

lemma restart_reachable: "(restartStep ''k'' ''op'')\<^sup>*\<^sup>* restart_start (demo_schedule ms)"
  unfolding demo_schedule_def by (rule schedule_steps) (simp add: restart_env_def)

lemma restart_start_new: "newRestart restart_start"
  by (simp add: newRestart_def restart_start_def)

theorem restart_at_most_once_witness:
  "\<exists>y. (restartStep ''k'' ''op'')\<^sup>*\<^sup>* restart_start y \<and> length (rs_runs y) \<le> 1 \<and>
     callAt y 0 (Returned (Inr demo_output)) \<and> callAt y 1 (Returned (Inr demo_output))"
proof -
  let ?y = "demo_schedule normal_restart"
  have "(case phaseOf ?y 0 of Returned (Inr out) \<Rightarrow> out = demo_output | _ \<Rightarrow> False) \<and>
      (case phaseOf ?y 1 of Returned (Inr out) \<Rightarrow> out = demo_output | _ \<Rightarrow> False) \<and> \<not> rs_misled ?y"
    by code_simp
  then have "callAt ?y 0 (Returned (Inr demo_output))" "callAt ?y 1 (Returned (Inr demo_output))" "\<not> rs_misled ?y"
    by (auto simp: phaseOf_def callAt_def split: callPhase.splits sum.splits if_splits)
  with restart_at_most_once [OF restart_start_new restart_reachable [of normal_restart]] restart_reachable show ?thesis by blast
qed

text \<open>C39: a restart that was done can wait forever. When the helper has finished before the executor
  writes the record of its start, the late write replaces the result, and no call of this operation ever
  returns it. The same holds, without the command having run, when the executor dies between the
  record and the start of the helper: each repeated call takes the record for a restart under way.\<close>

theorem lost_restart_never_returns:
  "rs_runs (demo_schedule late_record) = [(''systemctl'', [''restart'', ''nginx''])] \<and>
   rs_runs (demo_schedule died_before_launch) = [] \<and>
   (\<forall>ms \<in> {late_record, died_before_launch}. \<forall>y. (restartStep ''k'' ''op'')\<^sup>*\<^sup>* (demo_schedule ms) y \<longrightarrow>
      rs_runs y = rs_runs (demo_schedule ms) \<and> (\<forall>n out. \<not> callAt y n (Returned (Inr out))))"
proof -
  have "abandoned ''k'' ''op'' (demo_schedule late_record)" "abandoned ''k'' ''op'' (demo_schedule died_before_launch)"
    by code_simp+
  moreover have "rs_runs (demo_schedule late_record) = [(''systemctl'', [''restart'', ''nginx''])]"
    "rs_runs (demo_schedule died_before_launch) = []" by code_simp+
  ultimately show ?thesis using abandoned_forever by blast
qed

text \<open>A failed write of the helper's process number counts as a failed start: the next call starts a
  second helper beside the first, and the command runs twice.\<close>

lemma failed_record_restarts_twice:
  "let y = schedule restart_env ''op'' [Arrive, PrepareCall 0, Launch 0 42, Begin 0, RecordHelper 0, Report 0,
        Arrive, PrepareCall 1, Launch 1 43, RecordHelper 1, Begin 1, RunCommand 0 demo_output, RunCommand 1 demo_output]
      (restart_start\<lparr>rs_store := \<lparr>rt_records = [], rt_faults = replicate 9 False @ [True]\<rparr>\<rparr>) in
   rs_runs y = [(''systemctl'', [''restart'', ''nginx'']), (''systemctl'', [''restart'', ''nginx''])] \<and> rs_misled y"
  by code_simp

lemma lost_restart_never_returns_witness:
  "rs_runs (demo_schedule late_record) = [(''systemctl'', [''restart'', ''nginx''])] \<and>
   \<not> callAt (demo_schedule (late_record @ [Poll 0])) 0 (Returned (Inr demo_output))"
proof -
  have "demo_schedule (late_record @ [Poll 0]) = schedule restart_env ''op'' [Poll 0] (demo_schedule late_record)"
    by (simp add: demo_schedule_def schedule_def)
  then have "(restartStep ''k'' ''op'')\<^sup>*\<^sup>* (demo_schedule late_record) (demo_schedule (late_record @ [Poll 0]))"
    using schedule_steps [of restart_env "''k''" "''op''"] by (simp add: restart_env_def)
  with lost_restart_never_returns show ?thesis by blast
qed

end
