(* ===== verification/RebootBarrier.thy ===== *)
theory RebootBarrier
  imports RebootProof EntryResource "HOL-Library.Word"
begin

text \<open>
  The reboot barrier: the resource of providers/shared/engine/reboot_barrier_resource.go and
  \<open>RestartHostWithResult\<close>, \<open>RunRebootBarrier\<close> and \<open>CleanupRebootArtifacts\<close> of
  providers/shared/hostsession/restart_host.go, which hold the lease of the whole host around the restart.

  The handlers run on the machine of the host commands. The connection pool, the lease and Terraform's
  state are the fields of \<open>barrierProvider\<close>: \<open>bp_session\<close> is the pool's \<open>GetOrCreate\<close>,
  \<open>bp_observed\<close> its \<open>HostKeyFingerprint\<close> after the call, \<open>bp_acquire\<close> and \<open>bp_complete\<close> are
  \<open>acquireOperationLease\<close> and the \<open>Complete\<close> of the lease, \<open>bp_get\<close> and \<open>bp_put\<close> are the
  framework's \<open>Get\<close> and \<open>Set\<close> of the whole state (\<open>barrierState\<close>), \<open>bp_removed\<close> the removed resource. An outcome \<open>None\<close> is a provider that was killed.
\<close>

subsection \<open>The restart under its lease\<close>

definition restartMetadata :: "RestartHostParams \<Rightarrow> OperationMetadata" where
  "restartMetadata params = \<lparr>om_ModuleName = [], om_ResourceType = [],
     om_Action = (if rh_OperationType params = [] then ''action.restart_host'' else rh_OperationType params),
     om_Name = rh_Name params\<rparr>"

definition restartLocks :: "LockDescriptor list" where
  "restartLocks =
     [\<lparr>lk_Key = ''reboot:host'', lk_Mode = LockModeExclusive, lk_Source = ''restart host action''\<rparr>,
      \<lparr>lk_Key = ''host'', lk_Mode = LockModeExclusive, lk_Source = ''restart host action''\<rparr>]"

record barrierProvider =
  bp_configured :: bool
  bp_default :: "TransportConfig option"
  bp_session :: "TransportConfig \<Rightarrow> error option act"
  bp_observed :: "TransportConfig \<Rightarrow> string"
  bp_acquire :: "int option \<Rightarrow> OperationMetadata \<Rightarrow> LockDescriptor list \<Rightarrow> string res act"
  bp_complete :: "string \<Rightarrow> error option \<Rightarrow> error option act"
  bp_deadline :: "int option"
  bp_hashes :: hashes
  bp_conversions :: conversions

text \<open>The lease's context has the timeout of the parameters when it is positive.\<close>

definition RestartHostWithResult :: "barrierProvider \<Rightarrow> RestartHostParams \<Rightarrow> rebootOutcome option act" where
  "RestartHostWithResult B params0 w =
     (let params = normalizeRestartHostParams params0;
          timeout = (if 0 < rh_Timeout params then Some (rh_Timeout params) else None) in
      case bp_acquire B timeout (restartMetadata params) restartLocks w of
        (Inl e, w1) \<Rightarrow> (Some (None, Some e), w1)
      | (Inr lease, w1) \<Rightarrow>
          (case restartHostUnsafe (bp_deadline B) params w1 of
             (None, w2) \<Rightarrow> (None, w2)
           | (Some out, w2) \<Rightarrow>
               (case lockedCall (\<lambda>v. (Inr lease, v)) (\<lambda>v. (out, w2)) (bp_complete B) w1 of
                  (out', w3) \<Rightarrow> (Some out', w3))))"

definition restartHostAction :: "barrierProvider \<Rightarrow> RestartHostParams \<Rightarrow> error option option act" where
  "restartHostAction B params = bindA (RestartHostWithResult B params) (\<lambda>out. ret (map_option snd out))"

definition RunRebootBarrier :: "barrierProvider \<Rightarrow> RebootBarrierParams \<Rightarrow> rebootOutcome option act" where
  "RunRebootBarrier B params = RestartHostWithResult B (barrierParams params)"

text \<open>The only platform, \<open>genericLinuxRebootPlatform\<close>, has nothing to clean up.\<close>

definition Cleanup :: "string \<Rightarrow> error option act" where
  "Cleanup operationID = ret None"

definition CleanupRebootArtifacts :: "string \<Rightarrow> error option act" where
  "CleanupRebootArtifacts operationID =
     (if TrimSpace operationID = [] then ret None else Cleanup operationID)"

subsection \<open>The resource's values\<close>

record rebootBarrierModel =
  bm_ID :: "string tf"
  bm_Reason :: "string tf"
  bm_Triggers :: "(string \<times> attrVal) list tf"
  bm_TimeoutSeconds :: "int tf"
  bm_SettleSeconds :: "int tf"
  bm_RebootCommand :: "string tf"
  bm_Phase :: "string tf"
  bm_OperationID :: "string tf"
  bm_StableHostID :: "string tf"
  bm_PreBootID :: "string tf"
  bm_PostBootID :: "string tf"
  bm_TriggersHash :: "string tf"
  bm_CompletedAt :: "string tf"
  bm_LastError :: "string tf"
  bm_Target :: "string tf"
  bm_Port :: "int tf"
  bm_Transport :: "string tf"
  bm_HostKeyFingerprint :: "string tf"

text \<open>\<open>ValueString\<close>: null and unknown read as the empty string.\<close>

definition ValueString :: "string tf \<Rightarrow> string" where
  "ValueString v = knownOr v [] id"

definition rebootBarrierTriggerValues :: "conversions \<Rightarrow> (string \<times> attrVal) list tf \<Rightarrow> (string \<times> string) list res" where
  "rebootBarrierTriggerValues C triggers =
     (case triggers of
        Known es \<Rightarrow>
          (case cv_stringMap C es of
             (values, ds) \<Rightarrow>
               if HasError ds then Inl (Errorf (''decode triggers: '' @ firstErrorDetail ds)) else Inr values)
      | _ \<Rightarrow> Inl (Errorf ''triggers must be fully known''))"

text \<open>\<open>json.Marshal\<close> of a map writes its members in the order of their keys.\<close>

definition marshalStringMap :: "(string \<times> string) list \<Rightarrow> string" where
  "marshalStringMap m = ''{'' @ json_members (sort_key fst m) @ ''}''"

definition digestRebootBarrierTriggers :: "hashes \<Rightarrow> (string \<times> string) list \<Rightarrow> string res" where
  "digestRebootBarrierTriggers H triggers = DigestBytes H AlgorithmXXH3_128 (marshalStringMap triggers)"

definition buildRebootBarrierID :: "string \<Rightarrow> string \<Rightarrow> string" where
  "buildRebootBarrierID hostAddress reason = TrimSpace hostAddress @ ''|'' @ TrimSpace reason"

text \<open>\<open>time.Duration(seconds) * time.Second\<close> wraps at 64 bits.\<close>

definition int64ToDuration :: "int tf \<Rightarrow> int \<Rightarrow> int" where
  "int64ToDuration value fallbackSeconds =
     sint (word_of_int (knownOr value fallbackSeconds id) * (1000000000 :: 64 word))"

definition stringValueOrNull :: "string \<Rightarrow> string tf" where
  "stringValueOrNull value = (if TrimSpace value = [] then NullValue else Known value)"

definition executorRebootPhaseCompleted :: string where
  "executorRebootPhaseCompleted = ''completed''"

subsection \<open>Completion times\<close>

text \<open>\<open>UTC().Format(time.RFC3339)\<close> of a clock reading in nanoseconds since 1970: the civil date of a
  number of days, by eras of 400 years that begin in March.\<close>

definition civilFromDays :: "int \<Rightarrow> int \<times> int \<times> int" where
  "civilFromDays days =
     (let z = days + 719468;
          era = z div 146097;
          doe = z mod 146097;
          yoe = (doe - doe div 1460 + doe div 36524 - doe div 146096) div 365;
          doy = doe - (365 * yoe + yoe div 4 - yoe div 100);
          mp = (5 * doy + 2) div 153;
          d = doy - (153 * mp + 2) div 5 + 1;
          m = (if mp < 10 then mp + 3 else mp - 9)
      in (yoe + era * 400 + (if m \<le> 2 then 1 else 0), m, d))"

definition padded :: "nat \<Rightarrow> int \<Rightarrow> string" where
  "padded width n = (let t = show_nat (nat n) in replicate (width - length t) (CHR ''0'') @ t)"

definition formatRFC3339 :: "int \<Rightarrow> string" where
  "formatRFC3339 nanoseconds =
     (let s = nanoseconds div 1000000000; t = s mod 86400; (y, m, d) = civilFromDays (s div 86400) in
      padded 4 y @ ''-'' @ padded 2 m @ ''-'' @ padded 2 d @ ''T'' @
      padded 2 (t div 3600) @ '':'' @ padded 2 (t div 60 mod 60) @ '':'' @ padded 2 (t mod 60) @ ''Z'')"

lemma civilFromDays_examples:
  "map civilFromDays [0, 59, 11016, 11017, 20453] =
     [(1970, 1, 1), (1970, 3, 1), (2000, 2, 29), (2000, 3, 1), (2025, 12, 31)]"
  by code_simp

definition applyRebootBarrierResult :: "rebootBarrierModel \<Rightarrow> RestartHostResult \<Rightarrow> rebootBarrierModel" where
  "applyRebootBarrierResult state result = state\<lparr>
     bm_Phase := stringValueOrNull (rr_Phase result),
     bm_OperationID := stringValueOrNull (rr_OperationID result),
     bm_StableHostID := stringValueOrNull (rr_StableHostID result),
     bm_PreBootID := stringValueOrNull (rr_PreBootID result),
     bm_PostBootID := stringValueOrNull (rr_PostBootID result),
     bm_LastError := stringValueOrNull (rr_LastError result),
     bm_CompletedAt := (case rr_CompletedAt result of Some t \<Rightarrow> Known (formatRFC3339 t) | None \<Rightarrow> NullValue)\<rparr>"

definition copyRebootBarrierExecutionState :: "rebootBarrierModel \<Rightarrow> rebootBarrierModel \<Rightarrow> rebootBarrierModel" where
  "copyRebootBarrierExecutionState dst src = dst\<lparr>
     bm_Phase := bm_Phase src,
     bm_OperationID := bm_OperationID src,
     bm_StableHostID := bm_StableHostID src,
     bm_PreBootID := bm_PreBootID src,
     bm_PostBootID := bm_PostBootID src,
     bm_CompletedAt := bm_CompletedAt src,
     bm_LastError := bm_LastError src,
     bm_HostKeyFingerprint := normalizeHostKeyFingerprintValue (bm_HostKeyFingerprint src)\<rparr>"

definition shouldSkipRebootBarrier :: "rebootBarrierModel option \<Rightarrow> string \<Rightarrow> string \<Rightarrow> bool" where
  "shouldSkipRebootBarrier prior resourceID triggersHash =
     (case prior of
        None \<Rightarrow> False
      | Some p \<Rightarrow>
          TrimSpace (ValueString (bm_ID p)) = TrimSpace resourceID \<and>
          TrimSpace (ValueString (bm_TriggersHash p)) = TrimSpace triggersHash \<and>
          TrimSpace (ValueString (bm_Phase p)) = executorRebootPhaseCompleted)"

subsection \<open>The handlers\<close>

record 's barrierState =
  bp_get :: "'s \<Rightarrow> rebootBarrierModel \<times> diags"
  bp_put :: "rebootBarrierModel \<Rightarrow> 's \<Rightarrow> 's \<times> diags"
  bp_removed :: 's

type_synonym 's barrierReply = "'s \<times> diags"

text \<open>\<open>diags.Append(state.Set(ctx, &m)...)\<close>\<close>

definition setState :: "'s barrierState \<Rightarrow> rebootBarrierModel \<Rightarrow> 's \<Rightarrow> 's barrierReply" where
  "setState S m s = bp_put S m s"

definition barrierTransport :: "barrierProvider \<Rightarrow> rebootBarrierModel \<Rightarrow> TransportConfig res" where
  "barrierTransport B m =
     (case buildTransportConfig (bm_Target m) (bm_Port m) (bm_Transport m) (bp_default B) [] of
        (config, ds) \<Rightarrow> if HasError ds then Inl (Errorf (firstErrorDetail ds)) else Inr config)"

text \<open>The host key that is pinned is the prior state's when the endpoint is the same.\<close>

definition pinPriorHostKey ::
    "barrierProvider \<Rightarrow> rebootBarrierModel option \<Rightarrow> TransportConfig \<Rightarrow> TransportConfig \<times> string tf" where
  "pinPriorHostKey B prior config =
     (case prior of
        None \<Rightarrow> (config, NullValue)
      | Some p \<Rightarrow>
          (case barrierTransport B p of
             Inl e \<Rightarrow> (config, NullValue)
           | Inr priorConfig \<Rightarrow>
               if sameTransportEndpoint priorConfig config
               then (applyPinnedHostKeyFingerprint config (bm_HostKeyFingerprint p),
                     normalizeHostKeyFingerprintValue (bm_HostKeyFingerprint p))
               else (config, NullValue)))"

definition barrierRequest :: "rebootBarrierModel \<Rightarrow> string \<Rightarrow> string \<Rightarrow> RebootBarrierParams" where
  "barrierRequest plan resourceID triggersDigest = \<lparr>
     rb_ResourceID = resourceID,
     rb_Reason = TrimSpace (ValueString (bm_Reason plan)),
     rb_TriggersHash = triggersDigest,
     rb_RebootCommand = TrimSpace (ValueString (bm_RebootCommand plan)),
     rb_Timeout = int64ToDuration (bm_TimeoutSeconds plan) 900,
     rb_Settle = int64ToDuration (bm_SettleSeconds plan) 15\<rparr>"

text \<open>From the session on.\<close>

definition runBarrier ::
    "barrierProvider \<Rightarrow> 's barrierState \<Rightarrow> TransportConfig \<Rightarrow> string tf \<Rightarrow> RebootBarrierParams \<Rightarrow> rebootBarrierModel
      \<Rightarrow> 's \<Rightarrow> 's barrierReply option act" where
  "runBarrier B S config fingerprintFallback params updated s =
     bindA (bp_session B config) (\<lambda>err.
       case err of
         Some e \<Rightarrow> ret (Some (s, [ErrorDiag ''Get session failed'' (error_text e)]))
       | None \<Rightarrow>
           bindA (RunRebootBarrier B params) (\<lambda>out.
             case out of
               None \<Rightarrow> ret None
             | Some (result, runErr) \<Rightarrow>
                 let executed = (case result of None \<Rightarrow> updated | Some r \<Rightarrow> applyRebootBarrierResult updated r);
                     observed = executed\<lparr>bm_HostKeyFingerprint :=
                       observedHostKeyFingerprintValue (bp_observed B) config fingerprintFallback\<rparr>
                 in ret (Some (case runErr of
                      Some e \<Rightarrow> (s, [ErrorDiag ''Reboot barrier failed'' (error_text e)])
                    | None \<Rightarrow> setState S observed s))))"

definition applyPlan ::
    "barrierProvider \<Rightarrow> 's barrierState \<Rightarrow> rebootBarrierModel option \<Rightarrow> rebootBarrierModel \<Rightarrow> 's
      \<Rightarrow> 's barrierReply option act" where
  "applyPlan B S prior plan s =
     (let failed = (\<lambda>summary detail. ret (Some (s, [ErrorDiag summary detail]))) in
      if \<not> bp_configured B then
        failed ''Resource not configured'' ''Provider configuration was not available to the reboot barrier resource.''
      else (case barrierTransport B plan of
        Inl e \<Rightarrow> failed ''Invalid host configuration'' (error_text e)
      | Inr config0 \<Rightarrow>
          (case pinPriorHostKey B prior config0 of
             (config, fingerprintFallback) \<Rightarrow>
               (case rebootBarrierTriggerValues (bp_conversions B) (bm_Triggers plan) of
                  Inl e \<Rightarrow> failed ''Invalid triggers'' (error_text e)
                | Inr triggerValues \<Rightarrow>
                    (case digestRebootBarrierTriggers (bp_hashes B) triggerValues of
                       Inl e \<Rightarrow> failed ''Digest triggers failed'' (error_text e)
                     | Inr triggersDigest \<Rightarrow>
                         let resourceID = buildRebootBarrierID (Endpoint config) (ValueString (bm_Reason plan));
                             updated = plan\<lparr>bm_ID := Known resourceID, bm_TriggersHash := Known triggersDigest,
                               bm_HostKeyFingerprint := fingerprintFallback\<rparr>
                         in (case prior of
                              Some p \<Rightarrow>
                                if shouldSkipRebootBarrier prior resourceID triggersDigest
                                then ret (Some (setState S (copyRebootBarrierExecutionState updated p) s))
                                else runBarrier B S config fingerprintFallback
                                  (barrierRequest plan resourceID triggersDigest) updated s
                            | None \<Rightarrow> runBarrier B S config fingerprintFallback
                                  (barrierRequest plan resourceID triggersDigest) updated s))))))"

text \<open>\<open>plan\<close> is the plan as it is read, with the diagnostics of reading it.\<close>

definition createBarrier ::
    "barrierProvider \<Rightarrow> 's barrierState \<Rightarrow> rebootBarrierModel \<times> diags \<Rightarrow> 's \<Rightarrow> 's barrierReply option act" where
  "createBarrier B S readPlan s =
     (case readPlan of (plan, ds) \<Rightarrow>
        if HasError ds then ret (Some (s, ds))
        else bindA (applyPlan B S None plan s) (\<lambda>r. ret (map_option (\<lambda>(s', ds'). (s', ds @ ds')) r)))"

text \<open>The response's state begins as the prior state.\<close>

definition updateBarrier ::
    "barrierProvider \<Rightarrow> 's barrierState \<Rightarrow> rebootBarrierModel \<times> diags \<Rightarrow> 's \<Rightarrow> 's barrierReply option act" where
  "updateBarrier B S readPlan s =
     (case bp_get S s of (prior, ds0) \<Rightarrow>
        if HasError ds0 then ret (Some (s, ds0))
        else case readPlan of (plan, ds1) \<Rightarrow>
          if HasError (ds0 @ ds1) then ret (Some (s, ds0 @ ds1))
          else bindA (applyPlan B S (Some prior) plan s)
            (\<lambda>r. ret (map_option (\<lambda>(s', ds'). (s', ds0 @ ds1 @ ds')) r)))"

definition reconciliationDetail :: "rebootBarrierModel \<Rightarrow> string" where
  "reconciliationDetail m =
     (let detail = ''reboot barrier '' @ ValueString (bm_ID m) @ '' is in non-terminal phase '' @
            go_quote (TrimSpace (ValueString (bm_Phase m)));
          lastError = TrimSpace (ValueString (bm_LastError m))
      in if lastError = [] then detail else detail @ '': '' @ lastError)"

definition readBarrier :: "barrierProvider \<Rightarrow> 's barrierState \<Rightarrow> 's \<Rightarrow> 's barrierReply act" where
  "readBarrier B S s =
     (case bp_get S s of (m, ds) \<Rightarrow>
        let failed = (\<lambda>summary detail. ret (s, ds @ [ErrorDiag summary detail]));
            keep = (\<lambda>m'. ret (case setState S m' s of (s', ds') \<Rightarrow> (s', ds @ ds')));
            phase = TrimSpace (ValueString (bm_Phase m))
        in
        if HasError ds then ret (s, ds)
        else if phase = [] then keep m
        else if phase \<noteq> executorRebootPhaseCompleted then
          failed ''Reboot barrier requires reconciliation'' (reconciliationDetail m)
        else if \<not> bp_configured B then keep m
        else (case barrierTransport B m of
          Inl e \<Rightarrow> failed ''Invalid host configuration'' (error_text e)
        | Inr config0 \<Rightarrow>
            let config = applyPinnedHostKeyFingerprint config0 (bm_HostKeyFingerprint m) in
            bindA (bp_session B config) (\<lambda>err.
              case err of
                Some e \<Rightarrow> failed ''Get session failed'' (error_text e)
              | None \<Rightarrow>
                  bindA ReadHostIdentity (\<lambda>identity.
                    case identity of
                      Inl e \<Rightarrow> failed ''Read host identity failed'' (error_text e)
                    | Inr (stableHostID, bootID) \<Rightarrow>
                        let expected = TrimSpace (ValueString (bm_StableHostID m)) in
                        if expected \<noteq> [] \<and> stableHostID \<noteq> expected then
                          failed ''Reboot barrier host identity changed''
                            (''expected stable host identity '' @ go_quote expected @ '', got '' @ go_quote stableHostID)
                        else keep (m\<lparr>bm_HostKeyFingerprint :=
                          observedHostKeyFingerprintValue (bp_observed B) config (bm_HostKeyFingerprint m)\<rparr>)))))"

definition deleteBarrier :: "barrierProvider \<Rightarrow> 's barrierState \<Rightarrow> 's \<Rightarrow> 's barrierReply act" where
  "deleteBarrier B S s =
     (case bp_get S s of (m, ds) \<Rightarrow>
        if HasError ds then ret (s, ds)
        else if \<not> bp_configured B then ret (bp_removed S, ds)
        else (case barrierTransport B m of
          Inl e \<Rightarrow> ret (bp_removed S, ds)
        | Inr config \<Rightarrow>
            bindA (bp_session B (applyPinnedHostKeyFingerprint config (bm_HostKeyFingerprint m))) (\<lambda>err.
              if err \<noteq> None then ret (bp_removed S, ds)
              else bindA (CleanupRebootArtifacts (TrimSpace (ValueString (bm_OperationID m)))) (\<lambda>cleanupErr.
                ret (bp_removed S, ds @ (case cleanupErr of
                    None \<Rightarrow> []
                  | Some e \<Rightarrow> [WarningDiag ''Reboot barrier cleanup incomplete'' (error_text e)]))))))"


subsection \<open>What a stored barrier says\<close>

text \<open>A restart that succeeds under its lease is a restart that succeeds.\<close>

lemma RestartHostWithResult_success:
  assumes "RestartHostWithResult B params w = (Some (r, None), w')"
  shows "\<exists>sent w1 w2. proven_reboot sent w1 r w2"
proof -
  let ?p = "normalizeRestartHostParams params"
  have "\<exists>w1 w2. restartHostUnsafe (bp_deadline B) ?p w1 = (Some (r, None), w2)"
    using assms
    by (auto simp: RestartHostWithResult_def lockedCall_def Let_def split: prod.splits sum.splits option.splits)
  then obtain w1 w2 where "restartHostUnsafe (bp_deadline B) ?p w1 = (Some (r, None), w2)" by blast
  from restart_success_is_proven [OF this] show ?thesis by blast
qed

text \<open>The reboot was completed, and its boot identifiers are known and differ; \<open>pre\<close> is the recorded
  identifier before the reboot as the proof was compared with it.\<close>

definition recordsReboot :: "rebootBarrierModel \<Rightarrow> bool" where
  "recordsReboot m \<longleftrightarrow> bm_Phase m = Known executorRebootPhaseCompleted \<and>
     (\<exists>pre recorded after. bm_PreBootID m = Known recorded \<and> same_id pre recorded \<and> TrimSpace pre \<noteq> [] \<and>
        bm_PostBootID m = Known after \<and> TrimSpace after \<noteq> [] \<and> after \<noteq> pre)"

lemma recordsReboot_upd [simp]:
  "recordsReboot (m\<lparr>bm_HostKeyFingerprint := f\<rparr>) = recordsReboot m"
  by (simp add: recordsReboot_def)

lemma ReadHostProof_boot: "ReadHostProof w = (Inr proof, w') \<Longrightarrow> TrimSpace (hp_BootID proof) \<noteq> []"
  by (auto simp: ReadHostProof_def bindA_def Let_def split: prod.splits if_splits)

lemma recordsReboot_result:
  assumes "proven_reboot sent w r w'"
  shows "\<exists>x. r = Some x \<and> recordsReboot (applyRebootBarrierResult m x)"
proof -
  from assms obtain x pre pf w0 w1 where x: "r = Some x" "rr_Phase x = rebootPhaseCompleted"
    and ids: "same_id pre (rr_PreBootID x)" "TrimSpace pre \<noteq> []" "hp_BootID pf \<noteq> pre" "rr_PostBootID x = hp_BootID pf"
    and read: "ReadHostProof w0 = (Inr pf, w1)"
    unfolding proven_reboot_def by blast
  have "TrimSpace ''completed'' = ''completed''" by code_simp
  then have phase: "stringValueOrNull (rr_Phase x) = Known executorRebootPhaseCompleted"
    by (simp add: x(2) stringValueOrNull_def executorRebootPhaseCompleted_def phase_defs)
  have "TrimSpace (rr_PreBootID x) \<noteq> []" using ids(1,2) by (auto simp: same_id_def TrimSpace_idem)
  with x phase ids ReadHostProof_boot [OF read] show ?thesis
    by (auto simp: recordsReboot_def applyRebootBarrierResult_def stringValueOrNull_def)
qed

lemma recordsReboot_copy: "recordsReboot p \<Longrightarrow> recordsReboot (copyRebootBarrierExecutionState m p)"
  by (simp add: recordsReboot_def copyRebootBarrierExecutionState_def)

text \<open>What a step may do to the state: nothing, or put a barrier that records a reboot.\<close>

definition keepsProven :: "'s barrierState \<Rightarrow> 's \<Rightarrow> 's barrierReply option act \<Rightarrow> bool" where
  "keepsProven S s m \<longleftrightarrow> (\<forall>w s' ds w'. m w = (Some (s', ds), w') \<longrightarrow>
     s' = s \<or> (\<exists>v. recordsReboot v \<and> s' = fst (bp_put S v s)))"

lemma keepsProven_ret [simp]: "keepsProven S s (ret (Some (s, ds)))" "keepsProven S s (ret None)"
  by (simp_all add: keepsProven_def)

lemma keepsProven_bind: "(\<And>a. keepsProven S s (f a)) \<Longrightarrow> keepsProven S s (bindA m f)"
  by (simp add: keepsProven_def bindA_def split: prod.split)

lemma keepsProven_run: "keepsProven S s (runBarrier B S config fallback params m s)"
  unfolding keepsProven_def
proof (intro allI impI)
  fix w s' ds w'
  assume run: "runBarrier B S config fallback params m s w = (Some (s', ds), w')"
  obtain err w1 where sess: "bp_session B config w = (err, w1)" by force
  show "s' = s \<or> (\<exists>v. recordsReboot v \<and> s' = fst (bp_put S v s))"
  proof (cases err)
    case None
    obtain out w2 where r: "RunRebootBarrier B params w1 = (out, w2)" by force
    with run sess None obtain result runErr where out: "out = Some (result, runErr)"
      by (cases out) (auto simp: runBarrier_def bindA_def)
    show ?thesis
    proof (cases runErr)
      case Some
      with run sess None r out show ?thesis by (simp add: runBarrier_def bindA_def Let_def)
    next
      case none: None
      with r out obtain sent v1 v2 where "proven_reboot sent v1 result v2"
        unfolding RunRebootBarrier_def using RestartHostWithResult_success by blast
      from recordsReboot_result [OF this, of m] obtain x where
        x: "result = Some x" "recordsReboot (applyRebootBarrierResult m x)" by blast
      let ?v = "applyRebootBarrierResult m x\<lparr>bm_HostKeyFingerprint :=
        observedHostKeyFingerprintValue (bp_observed B) config fallback\<rparr>"
      have "(s', ds) = bp_put S ?v s"
        using run sess None r out none x(1) by (simp add: runBarrier_def bindA_def Let_def setState_def)
      then have "s' = fst (bp_put S ?v s)" by (metis fst_conv)
      with x(2) show ?thesis by (metis recordsReboot_upd)
    qed
  qed (use run sess in \<open>simp add: runBarrier_def bindA_def\<close>)
qed

lemma keepsProven_apply:
  assumes "\<And>p. prior = Some p \<Longrightarrow> recordsReboot p"
  shows "keepsProven S s (applyPlan B S prior plan s)"
proof -
  have copied: "keepsProven S s (ret (Some (setState S (copyRebootBarrierExecutionState m p) s)))"
    if "prior = Some p" for m p
    using recordsReboot_copy [OF assms [OF that]]
    by (auto simp: keepsProven_def setState_def intro!: exI [of _ "copyRebootBarrierExecutionState m p"])
       (metis fst_conv)
  show ?thesis
    unfolding applyPlan_def Let_def
    by (auto simp: copied keepsProven_run split: sum.split prod.split option.split)
qed


subsection \<open>The life of a barrier\<close>

text \<open>The states in which Terraform has the barrier: after a creation that put one, and after any
  update and any read of it, whatever the host, the pool, the lease and the plans are each time.\<close>

inductive barrierStored :: "'s barrierState \<Rightarrow> 's \<Rightarrow> 's \<Rightarrow> bool" for S s0 where
  created: "createBarrier B S readPlan s0 w = (Some (s, ds), w') \<Longrightarrow> s \<noteq> s0 \<Longrightarrow> barrierStored S s0 s"
| updated: "barrierStored S s0 s \<Longrightarrow> updateBarrier B S readPlan s w = (Some (s', ds), w') \<Longrightarrow> barrierStored S s0 s'"
| refreshed: "barrierStored S s0 s \<Longrightarrow> readBarrier B S s w = ((s', ds), w') \<Longrightarrow> barrierStored S s0 s'"

lemma bindA_mapped:
  "bindA m (\<lambda>r. ret (map_option f r)) w = (Some y, w') \<longleftrightarrow> (\<exists>x. m w = (Some x, w') \<and> y = f x)"
  by (auto simp: bindA_def eq_commute [of "Some y"] split: prod.split)

lemma created_proven:
  assumes "createBarrier B S readPlan s w = (Some (s', ds), w')"
  shows "s' = s \<or> (\<exists>v. recordsReboot v \<and> s' = fst (bp_put S v s))"
  using assms keepsProven_apply [of None S s B "fst readPlan"]
  by (fastforce simp: createBarrier_def bindA_mapped keepsProven_def split: prod.splits if_splits)

lemma updated_proven:
  assumes "updateBarrier B S readPlan s w = (Some (s', ds), w')" and "recordsReboot (fst (bp_get S s))"
  shows "s' = s \<or> (\<exists>v. recordsReboot v \<and> s' = fst (bp_put S v s))"
  using assms keepsProven_apply [of "Some (fst (bp_get S s))" S s B "fst readPlan"]
  by (fastforce simp: updateBarrier_def bindA_mapped keepsProven_def split: prod.splits if_splits)

lemma read_proven:
  assumes "readBarrier B S s w = ((s', ds), w')" and "recordsReboot (fst (bp_get S s))"
  shows "s' = s \<or> (\<exists>v. recordsReboot v \<and> s' = fst (bp_put S v s))"
proof -
  obtain m ds0 where m: "bp_get S s = (m, ds0)" by force
  with assms(2) have r: "recordsReboot m" by simp
  have keep: "fst (case setState S v s of (s', ds') \<Rightarrow> (s', ds0 @ ds')) = fst (bp_put S v s)" for v
    by (simp add: setState_def split: prod.split)
  show ?thesis
    using assms(1) r keep
    unfolding readBarrier_def Let_def bindA_def
    by (auto simp: m ret_def setState_def split: prod.splits if_splits sum.splits option.splits)
       (metis recordsReboot_upd fst_conv)+
qed

lemma barrierStored_records:
  assumes framework: "\<forall>m s. bp_get S (fst (bp_put S m s)) = (m, [])"
    and "barrierStored S s0 s"
  shows "recordsReboot (fst (bp_get S s))"
  using assms(2)
proof induction
  case (created B readPlan w s ds w')
  then show ?case using created_proven framework by (metis fst_conv)
next
  case (updated s B readPlan w s' ds w')
  then show ?case using updated_proven framework by (metis fst_conv)
next
  case (refreshed s B w s' ds w')
  then show ?case using read_proven framework by (metis fst_conv)
qed

text \<open>C29: every stored barrier records a completed reboot. In every state in which Terraform has the
  barrier, its phase is \<open>completed\<close> and it has the boot identifiers from before and after a reboot,
  which differ.\<close>

theorem stored_barrier_is_proven:
  assumes "\<forall>m s. bp_get S (fst (bp_put S m s)) = (m, [])" and "barrierStored S s0 s"
  shows "recordsReboot (fst (bp_get S s))"
  using assms by (rule barrierStored_records)


subsection \<open>The identifier of a barrier\<close>

text \<open>A step that reports no error puts a barrier with this identifier.\<close>

definition putsID :: "'s barrierState \<Rightarrow> 's \<Rightarrow> string \<Rightarrow> 's barrierReply option act \<Rightarrow> bool" where
  "putsID S s i m \<longleftrightarrow> (\<forall>w s' ds w'. m w = (Some (s', ds), w') \<longrightarrow> \<not> HasError ds \<longrightarrow>
     (\<exists>v. bm_ID v = Known i \<and> s' = fst (bp_put S v s)))"

lemma putsID_ret [simp]:
  "HasError ds \<Longrightarrow> putsID S s i (ret (Some (s, ds)))" "putsID S s i (ret None)"
  "bm_ID v = Known i \<Longrightarrow> putsID S s i (ret (Some (bp_put S v s)))"
  by (auto simp: putsID_def) (metis fst_conv)

lemma putsID_bind: "(\<And>a. putsID S s i (f a)) \<Longrightarrow> putsID S s i (bindA m f)"
  by (simp add: putsID_def bindA_def split: prod.split)

lemma Endpoint_key: "Endpoint (config\<lparr>tc_SSHHostKeyFingerprint := f\<rparr>) = Endpoint config"
proof -
  let ?c = "config\<lparr>tc_SSHHostKeyFingerprint := f\<rparr>"
  have transport: "NormalizedTransport ?c = NormalizedTransport config" by (simp add: NormalizedTransport_def)
  have "NormalizedTarget ?c = NormalizedTarget config" by (simp add: NormalizedTarget_def)
  moreover have "IsLocal ?c = IsLocal config" by (simp only: IsLocal_def transport)
  moreover from this have "ResolvedPort ?c = ResolvedPort config" by (simp add: ResolvedPort_def)
  ultimately show ?thesis by (simp add: Endpoint_def Let_def)
qed

lemma Endpoint_pinned: "Endpoint (fst (pinPriorHostKey B prior config)) = Endpoint config"
  by (simp add: pinPriorHostKey_def applyPinnedHostKeyFingerprint_def Endpoint_key split: option.split sum.split tf.split)

lemma apply_puts_id:
  assumes "barrierTransport B plan = Inr c"
  shows "putsID S s (buildRebootBarrierID (Endpoint c) (ValueString (bm_Reason plan))) (applyPlan B S prior plan s)"
proof -
  have run: "putsID S s i (runBarrier B S config fallback params m s)" if "bm_ID m = Known i" for i config fallback params m
    unfolding runBarrier_def Let_def setState_def
    by (rule putsID_bind, auto split: option.split, rule putsID_bind)
       (use that in \<open>auto simp: applyRebootBarrierResult_def split: option.split\<close>)
  show ?thesis
    using Endpoint_pinned [of B prior c] assms
    unfolding applyPlan_def Let_def setState_def
    by (auto simp: copyRebootBarrierExecutionState_def intro!: run split: sum.split prod.split option.split)
qed

text \<open>A prefix and a bar in front of it do not hide a reason.\<close>

lemma barrier_id_reason:
  "buildRebootBarrierID host r = buildRebootBarrierID host r' \<longleftrightarrow> TrimSpace r = TrimSpace r'"
  by (simp add: buildRebootBarrierID_def)

text \<open>An edited reason makes the apply contradict its plan. \<open>id\<close> is planned as the value it has
  (\<open>UseStateForUnknown\<close>), but it is derived from the reason, and a changed reason is an update in
  place: an update that succeeds stores another identifier than the plan showed.\<close>

lemma edited_reason_contradicts_plan:
  assumes framework: "\<forall>m s. bp_get S (fst (bp_put S m s)) = (m, [])"
    and prior: "bp_get S s = (prior, [])" "bm_ID prior = Known (buildRebootBarrierID (Endpoint c) (ValueString (bm_Reason prior)))"
    and plan: "bm_ID plan = bm_ID prior" "barrierTransport B plan = Inr c"
      "TrimSpace (ValueString (bm_Reason plan)) \<noteq> TrimSpace (ValueString (bm_Reason prior))"
    and ran: "updateBarrier B S (plan, []) s w = (Some (s', ds), w')" "\<not> HasError ds"
  shows "bm_ID (fst (bp_get S s')) \<noteq> bm_ID plan"
proof -
  from ran prior(1) obtain "applyPlan B S (Some prior) plan s w = (Some (s', ds), w')"
    by (auto simp: updateBarrier_def bindA_mapped)
  with apply_puts_id [OF plan(2), of S s "Some prior"] ran(2) obtain v where
    "bm_ID v = Known (buildRebootBarrierID (Endpoint c) (ValueString (bm_Reason plan)))" "s' = fst (bp_put S v s)"
    unfolding putsID_def by blast
  with framework plan(1,3) prior(2) show ?thesis by (simp add: barrier_id_reason)
qed

text \<open>Nothing the barrier stored needs reconciliation.\<close>

lemma read_never_reconciles:
  assumes framework: "\<forall>m s. bp_get S (fst (bp_put S m s)) = (m, [])" and "barrierStored S s0 s"
    and "bp_get S s = (m, [])"
  shows "TrimSpace (ValueString (bm_Phase m)) = executorRebootPhaseCompleted"
proof -
  have "TrimSpace ''completed'' = ''completed''" by code_simp
  with barrierStored_records [OF assms(1,2)] assms(3) show ?thesis
    by (simp add: recordsReboot_def ValueString_def executorRebootPhaseCompleted_def)
qed

text \<open>A time of the configuration that does not fit its 64 bits as nanoseconds wraps: the wait of 292
  years and a bit becomes negative, which stands for the default of 15 minutes, and one of 585 years
  a third of a second.\<close>

lemma barrier_timeout_wraps:
  "rh_Timeout (normalizeRestartHostParams (barrierParams (barrierRequest
     (m\<lparr>bm_TimeoutSeconds := Known 9223372037\<rparr>) i d))) = defaultRebootTimeout"
  "int64ToDuration (Known 18446744074) 900 = 290448384"
proof -
  have "int64ToDuration (Known 9223372037) 900 = - 9223372036709551616" "int64ToDuration (Known 18446744074) 900 = 290448384"
    by code_simp+
  then show "int64ToDuration (Known 18446744074) 900 = 290448384"
    and "rh_Timeout (normalizeRestartHostParams (barrierParams (barrierRequest
     (m\<lparr>bm_TimeoutSeconds := Known 9223372037\<rparr>) i d))) = defaultRebootTimeout"
    by (simp_all add: normalizeRestartHostParams_def barrierParams_def barrierRequest_def Let_def)
qed


subsection \<open>Example\<close>

text \<open>A provider whose sessions and leases are always there, and Terraform's state as an optional
  barrier.\<close>

definition noConversions :: conversions where
  "noConversions = \<lparr>cv_strings = (\<lambda>vs. ([], [])),
     cv_stringMap = (\<lambda>es. (map (\<lambda>(k, v). (k, case v of StringVal (Known t) \<Rightarrow> t | _ \<Rightarrow> [])) es, [])),
     cv_listFrom = (\<lambda>vs. (NullValue, [])), cv_mapFrom = (\<lambda>es. (NullValue, [])), cv_object = (\<lambda>as es. (NullValue, []))\<rparr>"

definition demo_barrierProvider :: barrierProvider where
  "demo_barrierProvider = \<lparr>bp_configured = True,
     bp_default = Some (emptyTransportConfig\<lparr>tc_Target := ''h'', tc_Port := 22, tc_Transport := TransportSSH\<rparr>),
     bp_session = (\<lambda>c. ret None), bp_observed = (\<lambda>c. []), bp_acquire = (\<lambda>t m ls. ret (Inr ''lease'')),
     bp_complete = (\<lambda>l e. ret None), bp_deadline = None, bp_hashes = demo_hashes\<lparr>xxh3_sum := (\<lambda>s. ''x'')\<rparr>, bp_conversions = noConversions\<rparr>"

definition optionalBarrier :: "rebootBarrierModel option barrierState" where
  "optionalBarrier = \<lparr>bp_get = (\<lambda>s. case s of Some m \<Rightarrow> (m, [])
       | None \<Rightarrow> (\<lparr>bm_ID = NullValue, bm_Reason = NullValue, bm_Triggers = NullValue, bm_TimeoutSeconds = NullValue,
           bm_SettleSeconds = NullValue, bm_RebootCommand = NullValue, bm_Phase = NullValue, bm_OperationID = NullValue,
           bm_StableHostID = NullValue, bm_PreBootID = NullValue, bm_PostBootID = NullValue, bm_TriggersHash = NullValue,
           bm_CompletedAt = NullValue, bm_LastError = NullValue, bm_Target = NullValue, bm_Port = NullValue,
           bm_Transport = NullValue, bm_HostKeyFingerprint = NullValue\<rparr>, [])),
     bp_put = (\<lambda>m s. (Some m, [])), bp_removed = None\<rparr>"

definition demo_barrier :: "string \<Rightarrow> rebootBarrierModel" where
  "demo_barrier reason = (fst (bp_get optionalBarrier None))\<lparr>bm_ID := UnknownValue, bm_Reason := Known reason,
     bm_Triggers := Known [(''kernel'', StringVal (Known ''6.8''))], bm_TimeoutSeconds := Known 900,
     bm_SettleSeconds := Known 15\<rparr>"

definition demo_request :: RebootBarrierParams where
  "demo_request = barrierRequest (demo_barrier ''r'') ''h:22|r'' ''xxh3_128:78''"

lemma demo_request_runs:
  "case fst (RunRebootBarrier demo_barrierProvider demo_request demo_run) of Some (Some r, None) \<Rightarrow> True | _ \<Rightarrow> False"
  by code_simp

definition demo_resolved :: TransportConfig where
  "demo_resolved = emptyTransportConfig\<lparr>tc_Target := ''h'', tc_Port := 22, tc_Transport := TransportSSH\<rparr>"

lemma demo_transport: "barrierTransport demo_barrierProvider ((demo_barrier reason)\<lparr>bm_ID := i\<rparr>) = Inr demo_resolved"
proof -
  have "buildTransportConfig NullValue NullValue NullValue (bp_default demo_barrierProvider) [] = (demo_resolved, [])"
    by code_simp
  then show ?thesis by (simp add: barrierTransport_def demo_barrier_def optionalBarrier_def)
qed

lemma demo_apply:
  assumes "prior = None \<or> prior = Some ((demo_barrier ''q'')\<lparr>bm_ID := Known ''h:22|q''\<rparr>)"
  shows "\<exists>v w'. applyPlan demo_barrierProvider optionalBarrier prior ((demo_barrier ''r'')\<lparr>bm_ID := i\<rparr>) s demo_run =
    (Some (Some v, []), w')"
proof -
  have triggers: "rebootBarrierTriggerValues (bp_conversions demo_barrierProvider) (bm_Triggers (demo_barrier ''r'')) =
      Inr [(''kernel'', ''6.8'')]"
    "digestRebootBarrierTriggers (bp_hashes demo_barrierProvider) [(''kernel'', ''6.8'')] = Inr ''xxh3_128:78''"
    by code_simp+
  have names: "buildRebootBarrierID (Endpoint demo_resolved) ''r'' = ''h:22|r''"
    "TrimSpace ''h:22|q'' \<noteq> TrimSpace ''h:22|r''" by code_simp+
  have pin: "pinPriorHostKey demo_barrierProvider prior demo_resolved = (demo_resolved, NullValue)"
    using assms demo_transport by (auto simp: pinPriorHostKey_def demo_barrier_def optionalBarrier_def
        normalizeHostKeyFingerprintValue_def applyPinnedHostKeyFingerprint_def)
  have skip: "\<not> shouldSkipRebootBarrier prior ''h:22|r'' h" for h
    using assms names(2) by (auto simp: shouldSkipRebootBarrier_def ValueString_def)
  have fields: "ValueString (bm_Reason (demo_barrier ''r'')) = ''r''"
    "barrierRequest ((demo_barrier ''r'')\<lparr>bm_ID := i\<rparr>) ''h:22|r'' ''xxh3_128:78'' = demo_request"
    by (simp_all add: demo_barrier_def ValueString_def demo_request_def barrierRequest_def)
  have conf: "bp_configured demo_barrierProvider" "bp_session demo_barrierProvider c = ret None" for c
    by (simp_all add: demo_barrierProvider_def)
  have put: "setState optionalBarrier m t = (Some m, [])" for m t by (simp add: setState_def optionalBarrier_def)
  obtain r w1 where run: "RunRebootBarrier demo_barrierProvider demo_request demo_run = (Some (Some r, None), w1)"
    using demo_request_runs
    by (cases "RunRebootBarrier demo_barrierProvider demo_request demo_run") (auto split: option.splits)
  have "\<exists>v w'. runBarrier demo_barrierProvider optionalBarrier demo_resolved NullValue demo_request m s demo_run =
      (Some (Some v, []), w')" for m
    by (simp add: runBarrier_def bindA_def conf run Let_def put ret_def)
  then show ?thesis
    by (simp add: applyPlan_def Let_def conf demo_transport pin fields triggers names skip put split: option.split)
qed

theorem stored_barrier_is_proven_witness:
  "\<exists>m. barrierStored optionalBarrier None (Some m) \<and> recordsReboot m"
proof -
  have b: "(demo_barrier ''r'')\<lparr>bm_ID := UnknownValue\<rparr> = demo_barrier ''r''" by (simp add: demo_barrier_def)
  obtain v w' where "applyPlan demo_barrierProvider optionalBarrier None (demo_barrier ''r'') None demo_run =
      (Some (Some v, []), w')"
    using demo_apply [of None UnknownValue None, unfolded b] by blast
  then have "createBarrier demo_barrierProvider optionalBarrier (demo_barrier ''r'', []) None demo_run = (Some (Some v, []), w')"
    by (simp add: createBarrier_def bindA_mapped)
  then have s: "barrierStored optionalBarrier None (Some v)" by (rule barrierStored.created) simp
  have "recordsReboot (fst (bp_get optionalBarrier (Some v)))"
    by (rule stored_barrier_is_proven [OF _ s]) (simp add: optionalBarrier_def)
  with s show ?thesis by (auto simp: optionalBarrier_def)
qed

lemma edited_reason_contradicts_plan_witness:
  "\<exists>m w'. updateBarrier demo_barrierProvider optionalBarrier ((demo_barrier ''r'')\<lparr>bm_ID := Known ''h:22|q''\<rparr>, [])
      (Some ((demo_barrier ''q'')\<lparr>bm_ID := Known ''h:22|q''\<rparr>)) demo_run = (Some (Some m, []), w') \<and> bm_ID m \<noteq> Known ''h:22|q''"
proof -
  let ?plan = "(demo_barrier ''r'')\<lparr>bm_ID := Known ''h:22|q''\<rparr>"
  let ?prior = "(demo_barrier ''q'')\<lparr>bm_ID := Known ''h:22|q''\<rparr>"
  obtain m w' where "applyPlan demo_barrierProvider optionalBarrier (Some ?prior) ?plan (Some ?prior) demo_run =
      (Some (Some m, []), w')"
    using demo_apply [of "Some ?prior" "Known ''h:22|q''" "Some ?prior"] by blast
  then have u: "updateBarrier demo_barrierProvider optionalBarrier (?plan, []) (Some ?prior) demo_run = (Some (Some m, []), w')"
    by (simp add: updateBarrier_def bindA_mapped optionalBarrier_def)
  have names: "buildRebootBarrierID (Endpoint demo_resolved) ''q'' = ''h:22|q''" "TrimSpace ''r'' \<noteq> TrimSpace ''q''"
    by code_simp+
  have "bm_ID (fst (bp_get optionalBarrier (Some m))) \<noteq> bm_ID ?plan"
    by (rule edited_reason_contradicts_plan [OF _ _ _ _ demo_transport _ u, of ?prior])
      (use names in \<open>simp_all add: optionalBarrier_def demo_barrier_def ValueString_def\<close>)
  with u show ?thesis by (auto simp: optionalBarrier_def)
qed

end
