(* ===== verification/HostActions.thy ===== *)
theory HostActions
  imports RebootBarrier
begin

text \<open>
  Data sources and actions: providers/shared/engine/entry_datasource.go and entry_action.go, and the
  actions of providers/shared/actions (a restart of the host, a restart of a process, a command).

  Reads go through \<open>sendOperation\<close> of the resources' theory. An action has its own calls to the session
  (\<open>actionExecutor\<close>, the three function variables of entry_action.go); the values of its configuration
  are passed on as they are instead of as their JSON text.
\<close>

subsection \<open>Data sources\<close>

record GenericDataSource =
  gd_runtimeType :: string
  gd_runtimeModule :: string
  gd_attributes :: attributes
  gd_schemaCustomizer :: "(attributes \<Rightarrow> attributes) option"
  gd_lockPlanner :: "(string \<Rightarrow> OperationMessage option \<Rightarrow> LockDescriptor list res) option"
  gd_executionPolicy :: "(string \<Rightarrow> Operation \<Rightarrow> ExecutionContext option res) option"
  gd_shapeResult :: "shaper option"
  gd_defaultHost :: "TransportConfig option"

definition dataSourceSchemaAttributes :: "attributes \<Rightarrow> (attributes \<Rightarrow> attributes) option \<Rightarrow> attributes" where
  "dataSourceSchemaAttributes attrs customize =
     (let r1 = AList.update ''id'' (StringAttribute NoCustom) (customized customize attrs);
          r2 = AList.update ''target'' (StringAttribute NoCustom) r1;
          r3 = AList.update ''port'' Int64Attribute r2
      in AList.update ''transport'' (StringAttribute NoCustom) r3)"

definition actionSchemaAttributes :: "attributes \<Rightarrow> (attributes \<Rightarrow> attributes) option \<Rightarrow> attributes" where
  "actionSchemaAttributes attrs customize =
     (let r1 = AList.update ''target'' (StringAttribute NoCustom) (customized customize attrs);
          r2 = AList.update ''port'' Int64Attribute r1
      in AList.update ''transport'' (StringAttribute NoCustom) r2)"

definition resolveHostFromConfig :: "getters \<Rightarrow> TransportConfig option \<Rightarrow> TransportConfig \<times> diags" where
  "resolveHostFromConfig G defaultHost = resolveHostWithNames G defaultHost defaultTransportAttributeNames"

definition preserveDataSourceHostFromConfig :: "getters \<Rightarrow> 's setter \<Rightarrow> 's \<Rightarrow> 's \<times> diags" where
  "preserveDataSourceHostFromConfig G put s = preserveHostWithNames G put defaultTransportAttributeNames s"

definition resolveDataSourceExecutionContext ::
    "(string \<Rightarrow> Operation \<Rightarrow> ExecutionContext option res) option \<Rightarrow> string \<Rightarrow> Operation \<Rightarrow> ExecutionContext option res" where
  "resolveDataSourceExecutionContext policy action oper =
     (case policy of Some f \<Rightarrow> f action oper | None \<Rightarrow> Inr None)"

definition planDataSourceLocks ::
    "string \<Rightarrow> OperationMessage option \<Rightarrow> (string \<Rightarrow> OperationMessage option \<Rightarrow> LockDescriptor list res) option
      \<Rightarrow> LockDescriptor list res" where
  "planDataSourceLocks action oper planner =
     (case planner of
        None \<Rightarrow> Inr (DefaultLockSet action)
      | Some p \<Rightarrow>
          (case p action oper of
             Inl e \<Rightarrow> Inl (Wrapf (''plan locks for '' @ action @ '': '') e [])
           | Inr locks \<Rightarrow> Inr (NormalizeLockSet action locks)))"

text \<open>The state after the read and the diagnostics; \<open>None\<close> is the panic on a missing result.\<close>

definition storeDataSource ::
    "GenericDataSource \<Rightarrow> ('s, 'i, 'p) framework \<Rightarrow> 's \<Rightarrow> StateData option \<Rightarrow> 's \<Rightarrow> diags \<Rightarrow> 's \<times> diags" where
  "storeDataSource D F config reply s ds =
     (case (case gd_shapeResult D of None \<Rightarrow> (attrsOf reply, []) | Some f \<Rightarrow> f (attrsOf reply)) of
        (state, d3) \<Rightarrow>
          if HasError (ds @ d3) then (s, ds @ d3)
          else case setDataSourceStateFromJSON (fw_conv F) (fw_marshal F) (fw_put F) state (gd_attributes D) s of
            (s1, d4) \<Rightarrow>
              (case preserveDataSourceHostFromConfig (fw_get F config) (fw_put F) s1 of
                 (s2, d5) \<Rightarrow> (s2, ds @ d3 @ d4 @ d5)))"

definition readDataSource ::
    "GenericDataSource \<Rightarrow> ('s, 'i, 'p) framework \<Rightarrow> ('w, 'n) executor \<Rightarrow> ('w \<Rightarrow> bool) \<Rightarrow> 's \<Rightarrow> 's \<Rightarrow> 'w
      \<Rightarrow> ('s \<times> diags) option \<times> 'w" where
  "readDataSource D F X expired config s w =
     (case resolveHostFromConfig (fw_get F config) (gd_defaultHost D) of
        (host, d1) \<Rightarrow>
          if HasError d1 then (Some (s, d1), w)
          else case extractDataSourceValues (fw_conv F) (fw_get F config) (gd_attributes D) of
            (configAttrs, d2) \<Rightarrow>
              if HasError (d1 @ d2) then (Some (s, d1 @ d2), w)
              else
                let failed = (\<lambda>summary detail. Some (s, d1 @ d2 @ [ErrorDiag summary detail]));
                    op0 = \<lparr>mo_ModuleName = gd_runtimeModule D, mo_ResourceType = gd_runtimeType D,
                      mo_Action = ''data_read'', mo_ImportID = [], mo_Plan = None, mo_State = None,
                      mo_Config = configAttrs, mo_Execution = None\<rparr>
                in
                (case resolveDataSourceExecutionContext (gd_executionPolicy D) ''data_read'' op0 of
                   Inl err \<Rightarrow> (failed ''Resolve execution context failed'' (error_text err), w)
                 | Inr execution \<Rightarrow>
                     (let op1 = op0\<lparr>mo_Execution := execution\<rparr> in
                      case planDataSourceLocks ''data_read'' (Some (plannerView op1)) (gd_lockPlanner D) of
                        Inl err \<Rightarrow> (failed ''Plan locks failed'' (error_text err), w)
                      | Inr locks \<Rightarrow>
                          (case sendOperation X host op1 locks w of
                             (Inl err, w1) \<Rightarrow>
                               (if expired w1 then
                                  failed ''Read canceled or timed out''
                                    (''Read did not complete before the read timeout (30s) or context cancellation: '' @ error_text err)
                                else failed ''Read failed'' (error_text err), w1)
                           | (Inr None, w1) \<Rightarrow> (None, w1)
                           | (Inr (Some m), w1) \<Rightarrow> (Some (storeDataSource D F config (rm_State m) s (d1 @ d2)), w1)))))"

subsection \<open>Actions\<close>

record ActionInvokeParams =
  ap_ModuleName :: string
  ap_ResourceType :: string
  ap_Config :: StateData
  ap_Execution :: "ExecutionContext option"

record ActionInvokeRequest =
  ai_HostConfig :: TransportConfig
  ai_RuntimeType :: string
  ai_RuntimeModule :: string
  ai_Config :: StateData
  ai_Execution :: "ExecutionContext option"
  ai_Locks :: "LockDescriptor list"

record ('w, 'n) actionExecutor =
  ax_GetOrCreate :: "TransportConfig \<Rightarrow> 'w \<Rightarrow> 'n res \<times> 'w"
  ax_EnsureHostReady :: "'n \<Rightarrow> bool \<Rightarrow> 'w \<Rightarrow> error option \<times> 'w"
  ax_InvokeActionLocked :: "'n \<Rightarrow> ActionInvokeParams \<Rightarrow> LockDescriptor list \<Rightarrow> 'w \<Rightarrow> StateData option res \<times> 'w"

record ('w, 'n) GenericAction =
  ga_runtimeType :: string
  ga_runtimeModule :: string
  ga_requiredPrivilege :: string
  ga_attributes :: attributes
  ga_lockPlanner :: "(attrs \<Rightarrow> LockDescriptor list res) option"
  ga_executionPolicy :: "(StateData \<Rightarrow> ExecutionContext option res) option"
  ga_invoker :: "('n \<Rightarrow> ActionInvokeRequest \<Rightarrow> 'w \<Rightarrow> StateData option res \<times> 'w) option"
  ga_shapeResult :: "(StateData option \<Rightarrow> diags) option"
  ga_configured :: bool
  ga_defaultHost :: "TransportConfig option"

definition resolveActionExecutionContext ::
    "string \<Rightarrow> (StateData \<Rightarrow> ExecutionContext option res) option \<Rightarrow> StateData \<Rightarrow> ExecutionContext option res" where
  "resolveActionExecutionContext requiredPrivilege policy config =
     (case policy of
        Some f \<Rightarrow> f config
      | None \<Rightarrow> Inr (defaultExecutionContext requiredPrivilege [Some config]))"

definition annotateActionError :: "TransportConfig \<Rightarrow> string \<Rightarrow> StateData \<Rightarrow> error \<Rightarrow> error" where
  "annotateActionError host runtimeType config err =
     (let name = TrimSpace (stringAttr config [''name'']) in
      if name \<noteq> []
      then Wrapf (''action '' @ runtimeType @ '' '' @ go_quote name @ '' on host '' @ Endpoint host @ '' failed: '') err []
      else Wrapf (''action '' @ runtimeType @ '' on host '' @ Endpoint host @ '' failed: '') err [])"

definition extractActionValuesFromConfig :: "conversions \<Rightarrow> getters \<Rightarrow> attributes \<Rightarrow> StateData option \<times> diags" where
  "extractActionValuesFromConfig C G attrs = extractLoop (extractValue C G) attrs [] []"

definition invokeAction ::
    "('w, 'n) GenericAction \<Rightarrow> ('s, 'i, 'p) framework \<Rightarrow> ('w, 'n) actionExecutor \<Rightarrow> 's \<Rightarrow> 'w \<Rightarrow> diags \<times> 'w" where
  "invokeAction A F X config w =
     (if \<not> ga_configured A then
        ([ErrorDiag ''Action not configured'' ''Provider configuration was not available to the action.''], w)
      else case resolveHostFromConfig (fw_get F config) (ga_defaultHost A) of
        (host, d1) \<Rightarrow>
          if HasError d1 then (d1, w)
          else case extractActionValuesFromConfig (fw_conv F) (fw_get F config) (ga_attributes A) of
            (values, d2) \<Rightarrow>
              if HasError (d1 @ d2) then (d1 @ d2, w)
              else
                let attrs = attrsOf values; ds = d1 @ d2;
                    failed = (\<lambda>summary err. ds @ [ErrorDiag summary (error_text err)]) in
                (case resolveActionExecutionContext (ga_requiredPrivilege A) (ga_executionPolicy A) attrs of
                   Inl err \<Rightarrow> (failed ''Resolve execution context failed'' err, w)
                 | Inr execution \<Rightarrow>
                     (case planActionLocks ''invoke'' (plannerAttrs values) (ga_lockPlanner A) of
                        Inl err \<Rightarrow> (failed ''Plan locks failed'' err, w)
                      | Inr locks \<Rightarrow>
                          (case ax_GetOrCreate X host w of
                             (Inl err, w1) \<Rightarrow> (failed ''Get session failed'' err, w1)
                           | (Inr session, w1) \<Rightarrow>
                               (case ax_EnsureHostReady X session (operationNeedsPrivilege execution) w1 of
                                  (Some err, w2) \<Rightarrow>
                                    (failed ''Host readiness failed'' (annotateActionError host (ga_runtimeType A) attrs
                                       (Wrapf ''host readiness preflight failed: '' err [])), w2)
                                | (None, w2) \<Rightarrow>
                                    (case (case ga_invoker A of
                                             Some f \<Rightarrow> f session \<lparr>ai_HostConfig = host, ai_RuntimeType = ga_runtimeType A,
                                               ai_RuntimeModule = ga_runtimeModule A, ai_Config = attrs,
                                               ai_Execution = execution, ai_Locks = locks\<rparr> w2
                                           | None \<Rightarrow> ax_InvokeActionLocked X session \<lparr>ap_ModuleName = ga_runtimeModule A,
                                               ap_ResourceType = ga_runtimeType A, ap_Config = attrs,
                                               ap_Execution = execution\<rparr> locks w2) of
                                       (Inl err, w3) \<Rightarrow> (failed ''Action failed'' err, w3)
                                     | (Inr result, w3) \<Rightarrow>
                                         (ds @ (case ga_shapeResult A of None \<Rightarrow> [] | Some f \<Rightarrow> f result), w3)))))))"

subsection \<open>The restart of a process and the command\<close>

text \<open>\<open>stringValue\<close> on the values of a configuration or a result.\<close>

definition textValue :: "StateData option \<Rightarrow> string \<Rightarrow> string" where
  "textValue values key = (case map_of (attrsOf values) key of Some (VStr s) \<Rightarrow> s | _ \<Rightarrow> [])"

definition RestartProcessExecutionPolicy :: "StateData \<Rightarrow> ExecutionContext option res" where
  "RestartProcessExecutionPolicy config =
     Inr (Some \<lparr>ex_Become = True, ex_BecomeUser = TrimSpace (textValue (Some config) ''user'')\<rparr>)"

record RestartProcessParams =
  rq_ModuleName :: string
  rq_Name :: string
  rq_Command :: string
  rq_Manager :: string
  rq_Execution :: "ExecutionContext option"

text \<open>\<open>call\<close> is \<open>RestartProcessLocked\<close>.\<close>

definition InvokeRestartProcess ::
    "('n \<Rightarrow> RestartProcessParams \<Rightarrow> LockDescriptor list \<Rightarrow> 'w \<Rightarrow> CommandResult res \<times> 'w) \<Rightarrow> 'n \<Rightarrow> ActionInvokeRequest
      \<Rightarrow> 'w \<Rightarrow> StateData option res \<times> 'w" where
  "InvokeRestartProcess call session req w =
     (let config = Some (ai_Config req); name = TrimSpace (textValue config ''name'') in
      if name = [] then (Inl (Errorf ''name must not be empty''), w)
      else
        let manager = TrimSpace (textValue config ''manager'') in
        (case call session \<lparr>rq_ModuleName = ai_RuntimeModule req, rq_Name = name,
            rq_Command = TrimSpace (textValue config ''command''),
            rq_Manager = (if manager = [] then ''auto'' else manager), rq_Execution = ai_Execution req\<rparr> (ai_Locks req) w of
           (Inl err, w1) \<Rightarrow> (Inl err, w1)
         | (Inr result, w1) \<Rightarrow>
             (if cr_ExitCode result \<noteq> 0 then
                let d1 = TrimSpace (cr_Stderr result);
                    d2 = (if d1 = [] then TrimSpace (cr_Stdout result) else d1)
                in Inl (Errorf (if d2 = [] then ''restart command exited with code '' @ show_int (cr_ExitCode result) else d2))
              else Inr (Some [(''stdout'', VStr (cr_Stdout result)), (''stderr'', VStr (cr_Stderr result)),
                (''exit_code'', VInt (cr_ExitCode result))]), w1)))"

definition stderrWarning :: "string \<Rightarrow> StateData option \<Rightarrow> diags" where
  "stderrWarning summary result =
     (let stderr = TrimSpace (textValue result ''stderr'') in
      if result = None \<or> stderr = [] then [] else [WarningDiag summary stderr])"

definition RestartProcessResultShaper :: "StateData option \<Rightarrow> diags" where
  "RestartProcessResultShaper = stderrWarning ''Restart completed with stderr output''"

definition RunCommandResultShaper :: "StateData option \<Rightarrow> diags" where
  "RunCommandResultShaper = stderrWarning ''Command completed with stderr output''"

subsection \<open>The restart of a host\<close>

record restartHostActionModel =
  rm_Name :: "string tf"
  rm_Reason :: "string tf"
  rm_RebootCommand :: "string tf"
  rm_TimeoutSeconds :: "int tf"
  rm_SettleSeconds :: "int tf"
  rm_Target :: "string tf"
  rm_Port :: "int tf"
  rm_Transport :: "string tf"

definition restartActionTarget :: "TransportConfig option \<Rightarrow> string tf \<Rightarrow> int tf \<Rightarrow> string tf \<Rightarrow> TransportConfig" where
  "restartActionTarget defaultHost target port transportName =
     (let c0 = (case defaultHost of Some d \<Rightarrow> d | None \<Rightarrow> emptyTransportConfig);
          c1 = knownOr target c0 (\<lambda>t. c0\<lparr>tc_Target := TrimSpace t\<rparr>);
          c2 = knownOr port c1 (\<lambda>p. c1\<lparr>tc_Port := p\<rparr>);
          c3 = knownOr transportName c2 (\<lambda>n. c2\<lparr>tc_Transport := TrimSpace n\<rparr>);
          name = TrimSpace (tc_Transport c3)
      in c3\<lparr>tc_Target := TrimSpace (tc_Target c3), tc_Transport := (if name = [] then TransportSSH else name)\<rparr>)"

definition restartActionHostConfig ::
    "TransportConfig option \<Rightarrow> string tf \<Rightarrow> int tf \<Rightarrow> string tf \<Rightarrow> TransportConfig res" where
  "restartActionHostConfig defaultHost target port transportName =
     (let c = restartActionTarget defaultHost target port transportName in
      if tc_Port c < 0 then
        Inl (Errorf (''port resolves to '' @ show_int (tc_Port c) @ ''. Set a positive port value''))
      else if NormalizedTransport c \<noteq> TransportSSH \<and> NormalizedTransport c \<noteq> TransportLocal then
        Inl (Errorf (''transport resolves to '' @ go_quote (tc_Transport c) @ ''. The current provider surface supports ssh''))
      else if IsLocal c then Inr (if tc_Target c = [] then c\<lparr>tc_Target := TransportLocal\<rparr> else c)
      else if tc_Target c = [] then
        Inl (Errorf ''either set target in the action config or configure default_target on the provider'')
      else Inr (if tc_Port c = 0 then c\<lparr>tc_Port := 22\<rparr> else c))"

text \<open>An unknown time reads as 0; a null one leaves it at 0.\<close>

definition restartDuration :: "int tf \<Rightarrow> int" where
  "restartDuration v = (if v = NullValue then 0 else int64ToDuration (Known (knownOr v 0 id)) 0)"

definition invokeRestartHost :: "barrierProvider \<Rightarrow> restartHostActionModel \<times> diags \<Rightarrow> diags option act" where
  "invokeRestartHost B read =
     (case read of (m, ds) \<Rightarrow>
        let failed = (\<lambda>summary detail. ret (Some (ds @ [ErrorDiag summary detail])));
            name = TrimSpace (ValueString (rm_Name m)) in
        if \<not> bp_configured B then
          ret (Some [ErrorDiag ''Action not configured'' ''Provider configuration was not available to the action.''])
        else if HasError ds then ret (Some ds)
        else if name = [] then failed ''Missing reboot name'' ''The name attribute must not be empty.''
        else (case restartActionHostConfig (bp_default B) (rm_Target m) (rm_Port m) (rm_Transport m) of
          Inl e \<Rightarrow> failed ''Invalid host configuration'' (error_text e)
        | Inr config \<Rightarrow>
            bindA (bp_session B config) (\<lambda>err.
              case err of
                Some e \<Rightarrow> failed ''Get session failed'' (error_text e)
              | None \<Rightarrow>
                  bindA (restartHostAction B \<lparr>rh_Name = name, rh_Reason = TrimSpace (ValueString (rm_Reason m)),
                      rh_RebootCommand = TrimSpace (ValueString (rm_RebootCommand m)),
                      rh_Timeout = restartDuration (rm_TimeoutSeconds m), rh_Settle = restartDuration (rm_SettleSeconds m),
                      rh_OperationType = []\<rparr>) (\<lambda>out.
                    case out of
                      None \<Rightarrow> ret None
                    | Some (Some e) \<Rightarrow> failed ''Host reboot failed'' (error_text e)
                    | Some None \<Rightarrow> ret (Some ds)))))"


subsection \<open>The target of a restart\<close>

lemma normalized_upd:
  "NormalizedTransport (c\<lparr>tc_Target := t, tc_Transport := n\<rparr>) =
     (if ToLower (TrimSpace n) \<noteq> [] then ToLower (TrimSpace n)
      else if EqualFold (TrimSpace t) TransportLocal then TransportLocal else TransportSSH)"
  by (simp add: NormalizedTransport_def Let_def)

lemma ToLower_Nil [simp]: "ToLower s = [] \<longleftrightarrow> s = []"
  by (simp add: ToLower_def)

text \<open>A target whose transport name is in lower case or not is the same session.\<close>

lemma CacheKey_cong:
  assumes "NormalizedTransport c = NormalizedTransport c'" "NormalizedTarget c = NormalizedTarget c'" "tc_Port c = tc_Port c'"
  shows "CacheKey c = CacheKey c'"
proof -
  have "IsLocal c = IsLocal c'" using assms(1) by (simp add: IsLocal_def)
  moreover from this have "ResolvedPort c = ResolvedPort c'" using assms(3) by (simp add: ResolvedPort_def)
  ultimately show ?thesis using assms by (simp add: CacheKey_def Endpoint_def Let_def)
qed

text \<open>C18: the restart action finds its target as every other resource and action does. For known or null
  attributes, its own resolution fails exactly when the engine's does, and otherwise names the same
  session of the pool.\<close>

theorem restart_target_agrees:
  assumes "target \<noteq> UnknownValue" "port \<noteq> UnknownValue" "name \<noteq> UnknownValue"
  shows "case restartActionHostConfig defaultHost target port name of
      Inl e \<Rightarrow> HasError (snd (buildTransportConfig target port name defaultHost []))
    | Inr c \<Rightarrow> \<exists>c'. buildTransportConfig target port name defaultHost [] = (c', []) \<and> CacheKey c' = CacheKey c"
proof -
  obtain c0 where c0: "c0 = (case defaultHost of Some d \<Rightarrow> d | None \<Rightarrow> emptyTransportConfig)" by simp
  obtain c3 where c3: "c3 = (let c1 = knownOr target c0 (\<lambda>t. c0\<lparr>tc_Target := TrimSpace t\<rparr>);
      c2 = knownOr port c1 (\<lambda>p. c1\<lparr>tc_Port := p\<rparr>) in knownOr name c2 (\<lambda>n. c2\<lparr>tc_Transport := TrimSpace n\<rparr>))" by simp
  define t n where "t = TrimSpace (tc_Target c3)" and "n = (if TrimSpace (tc_Transport c3) = [] then TransportSSH else TrimSpace (tc_Transport c3))"
  have b: "buildTransportConfigIfKnown target port name defaultHost [] = finalizeTransportConfig c3 []"
    using assms by (simp add: buildTransportConfigIfKnown_def c3 c0 Let_def)
  let ?r = "c3\<lparr>tc_Target := t, tc_Transport := n\<rparr>"
  let ?e = "c3\<lparr>tc_Target := t, tc_Transport := ToLower n\<rparr>"
  have r: "restartActionTarget defaultHost target port name = ?r"
    by (simp add: restartActionTarget_def c3 c0 Let_def t_def n_def)
  have n: "TrimSpace n = n" "n \<noteq> []" by (simp_all add: n_def TrimSpace_idem)
  have low: "TrimSpace (ToLower n) = ToLower n" "ToLower (ToLower n) = ToLower n"
    using n by (simp_all add: TrimSpace_lower ToLower_idem)
  have nt: "NormalizedTransport ?r = ToLower n" "NormalizedTransport ?e = ToLower n"
    using n low by (simp_all add: normalized_upd)
  have e: "finalizeTransportConfig c3 [] =
     (if tc_Port ?e < 0 then (emptyTransportConfig, False, [ErrorDiag ''Invalid port''
         (''port resolves to '' @ show_int (tc_Port ?e) @ ''. Set a positive port value.'')])
      else if ToLower n \<noteq> TransportSSH \<and> ToLower n \<noteq> TransportLocal then
        (emptyTransportConfig, False, [ErrorDiag ''Unsupported transport''
         (''transport resolves to '' @ go_quote (ToLower n) @ ''. The current provider surface supports ssh.'')])
      else if ToLower n = TransportLocal then (if t = [] then ?e\<lparr>tc_Target := TransportLocal\<rparr> else ?e, True, [])
      else if t = [] then (emptyTransportConfig, False, [ErrorDiag ''No target configured''
         ''Either set the target attribute or configure default_target on the provider.''])
      else (if tc_Port ?e = 0 then ?e\<lparr>tc_Port := 22\<rparr> else ?e, True, []))"
    by (simp add: finalizeTransportConfig_def Let_def t_def n_def)
  have keys: "CacheKey (?e\<lparr>tc_Port := p\<rparr>) = CacheKey (?r\<lparr>tc_Port := p\<rparr>)" for p
    by (rule CacheKey_cong) (simp_all add: NormalizedTransport_def NormalizedTarget_def n low)
  have local: "CacheKey (?e\<lparr>tc_Target := TransportLocal\<rparr>) = CacheKey (?r\<lparr>tc_Target := TransportLocal\<rparr>)"
    by (rule CacheKey_cong) (simp_all add: NormalizedTransport_def NormalizedTarget_def n low)
  show ?thesis
    using keys [of "tc_Port c3"] keys [of 22] local
    by (auto simp: restartActionHostConfig_def Let_def r nt IsLocal_def buildTransportConfig_def b e)
qed

lemma restart_target_agrees_witness:
  "\<exists>c c'. restartActionHostConfig None (Known '' host '') NullValue (Known ''SSH'') = Inr c \<and>
     buildTransportConfig (Known '' host '') NullValue (Known ''SSH'') None [] = (c', []) \<and> CacheKey c' = CacheKey c"
proof -
  have "(case restartActionHostConfig None (Known '' host '') NullValue (Known ''SSH'') of Inr c \<Rightarrow> True | _ \<Rightarrow> False)"
    by code_simp
  with restart_target_agrees [of "Known '' host ''" NullValue "Known ''SSH''" None] show ?thesis
    by (cases "restartActionHostConfig None (Known '' host '') NullValue (Known ''SSH'')") auto
qed

subsection \<open>What a report of success means\<close>

text \<open>An action that reports no error saw the host rebooted, as a barrier did.\<close>

lemma restart_action_proven:
  assumes "invokeRestartHost B (m, ds) w = (Some ds', w')" and "\<not> HasError ds'"
  shows "\<exists>sent w1 r w2. proven_reboot sent w1 r w2"
proof -
  from assms obtain params w1 where "restartHostAction B params w1 = (Some None, w')"
    by (auto simp: invokeRestartHost_def bindA_def Let_def ret_def
        split: if_splits sum.splits prod.splits option.splits)
  then obtain r where "RestartHostWithResult B params w1 = (Some (r, None), w')"
    by (auto simp: restartHostAction_def bindA_def ret_def split: prod.splits)
  from RestartHostWithResult_success [OF this] show ?thesis by blast
qed

text \<open>The locks of a restart conflict with every lock set that is sent for an operation or an action.\<close>

lemma restart_excludes_operations:
  assumes "m \<in> set restartLocks"
  shows "\<exists>l \<in> set (NormalizeLockSet action locks). locksConflict l m"
proof -
  from NormalizeLockSet_normal [of action locks] obtain l where
    l: "l \<in> set (NormalizeLockSet action locks)" "normal_locks (NormalizeLockSet action locks)"
    by (cases "NormalizeLockSet action locks") auto
  then have "lk_Key l \<noteq> []" by (auto simp: normal_locks_def TrimSpace_def)
  with l assms have "locksConflict l m" by (auto simp: restartLocks_def locksConflict_def isDominatingLockKey_def)
  with l show ?thesis by blast
qed

text \<open>A read of a data source asks for a shared lock and does not wait for the host to be ready.\<close>

lemma data_read_not_mutating: "\<not> operationMutatesHost ''data_read'' \<and> LockModeForAction ''data_read'' = LockModeShared"
  by (simp add: operationMutatesHost_def LockModeForAction_def)


end
