(* ===== verification/DigestedString.thy ===== *)
theory DigestedString
  imports DemoHost EngineState
begin

text \<open>
  providers/shared/engine/hashed_string.go: the string types whose state may hold a digest in the place
  of the value. Terraform asks whether two values mean the same; a digest means every content it is the
  digest of. The base64 variant holds the content base64-encoded.
\<close>

subsection \<open>Base64\<close>

text \<open>\<open>base64.StdEncoding.DecodeString\<close>: line breaks are skipped, groups of four characters, padding
  only in the last group, and the unused bits of the last group are not looked at. \<open>None\<close> is an
  error.\<close>

definition base64_value :: "char \<Rightarrow> nat option" where
  "base64_value c =
     (let n = of_char c :: nat in
      if 65 \<le> n \<and> n \<le> 90 then Some (n - 65)
      else if 97 \<le> n \<and> n \<le> 122 then Some (n - 71)
      else if 48 \<le> n \<and> n \<le> 57 then Some (n + 4)
      else if c = CHR ''+'' then Some 62
      else if c = CHR 0x2F then Some 63
      else None)"

definition base64_pair :: "char \<Rightarrow> char \<Rightarrow> string option" where
  "base64_pair a b =
     (case (base64_value a, base64_value b) of
        (Some p, Some q) \<Rightarrow> Some [char_of (p * 4 + q div 16)]
      | _ \<Rightarrow> None)"

definition base64_triple :: "char \<Rightarrow> char \<Rightarrow> char \<Rightarrow> string option" where
  "base64_triple a b c =
     (case (base64_value a, base64_value b, base64_value c) of
        (Some p, Some q, Some r) \<Rightarrow> Some [char_of (p * 4 + q div 16), char_of (q * 16 + r div 4)]
      | _ \<Rightarrow> None)"

fun base64_groups :: "string \<Rightarrow> string option" where
  "base64_groups [] = Some []"
| "base64_groups (a # b # c # d # s) =
     (if d = CHR ''='' \<and> s = [] then (if c = CHR ''='' then base64_pair a b else base64_triple a b c)
      else
        (case (base64_value a, base64_value b, base64_value c, base64_value d, base64_groups s) of
           (Some p, Some q, Some r, Some t, Some rest) \<Rightarrow>
             Some (char_of (p * 4 + q div 16) # char_of (q * 16 + r div 4) # char_of (r * 64 + t) # rest)
         | _ \<Rightarrow> None))"
| "base64_groups _ = None"

definition DecodeString :: "string \<Rightarrow> string option" where
  "DecodeString s = base64_groups (filter (\<lambda>c. c \<noteq> CHR 0x0A \<and> c \<noteq> CHR 0x0D) s)"

lemma DecodeString_examples:
  "DecodeString ''aGVsbG8='' = Some ''hello''"
  "DecodeString ''aGVsbG8gdw=='' = Some ''hello w''"
  "DecodeString ''aGVs'' = Some ''hel''"
  "DecodeString ''aGVsbG8'' = None" "DecodeString ''a=Vs'' = None"
  by (simp_all add: DecodeString_def base64_value_def base64_pair_def base64_triple_def Let_def char_of_def
      bit_iff_odd)

subsection \<open>What a value means\<close>

definition digestedStateValue :: "string \<Rightarrow> string option" where
  "digestedStateValue v = (case Algorithm v of Inl e \<Rightarrow> None | Inr a \<Rightarrow> Some v)"

text \<open>\<open>None\<close> is the panic of \<open>MustDigestBytes\<close>.\<close>

definition digestForStateValue :: "hashes \<Rightarrow> bool \<Rightarrow> string \<Rightarrow> string option" where
  "digestForStateValue H decodeBase64 v =
     (case digestedStateValue v of
        Some digest \<Rightarrow> Some digest
      | None \<Rightarrow>
          (case (if decodeBase64 then DecodeString v else Some v) of
             None \<Rightarrow> Some []
           | Some data \<Rightarrow> MustDigestBytes H AlgorithmBlake3 data))"

definition digestedValuesEqual :: "hashes \<Rightarrow> bool \<Rightarrow> string \<Rightarrow> string \<Rightarrow> bool" where
  "digestedValuesEqual H decodeBase64 left right =
     (case digestedStateValue left of
        Some leftDigest \<Rightarrow> Some leftDigest = digestForStateValue H decodeBase64 right
      | None \<Rightarrow>
          (case digestedStateValue right of
             Some rightDigest \<Rightarrow> Some rightDigest = digestForStateValue H decodeBase64 left
           | None \<Rightarrow> digestForStateValue H decodeBase64 left = digestForStateValue H decodeBase64 right))"

definition DigestStateString :: "string \<Rightarrow> string" where
  "DigestStateString digest = digest"

text \<open>The two types differ in the decoding only.\<close>

definition StringSemanticEquals :: "hashes \<Rightarrow> bool \<Rightarrow> string tf \<Rightarrow> string tf \<times> diags \<Rightarrow> bool \<times> diags" where
  "StringSemanticEquals H decodeBase64 v other =
     (case other of (w, ds) \<Rightarrow>
        (case (v, w) of
           (Known left, Known right) \<Rightarrow> (\<not> HasError ds \<and> digestedValuesEqual H decodeBase64 left right, ds)
         | _ \<Rightarrow> (False, ds)))"

subsection \<open>Equality of meaning\<close>

text \<open>The content a value gives, when it is not a digest.\<close>

definition contentOf :: "bool \<Rightarrow> string \<Rightarrow> string option" where
  "contentOf decodeBase64 v = (if decodeBase64 then DecodeString v else Some v)"

lemma digest_never_panics: "digestForStateValue H b v \<noteq> None"
  by (simp add: digestForStateValue_def MustDigestBytes_def DigestBytes_def AlgorithmBlake3_def split: option.split)

lemma digestedValuesEqual_iff:
  "digestedValuesEqual H b left right \<longleftrightarrow> digestForStateValue H b left = digestForStateValue H b right"
  by (auto simp: digestedValuesEqual_def digestForStateValue_def split: option.splits)

lemma semantic_equality_is_equivalence: "equivp (digestedValuesEqual H b)"
  by (auto simp: equivp_reflp_symp_transp reflp_def symp_def transp_def digestedValuesEqual_iff)

lemma digest_of_content:
  "digestedStateValue v = None \<Longrightarrow> contentOf b v = Some data \<Longrightarrow>
   digestForStateValue H b v = Some (AlgorithmBlake3 @ '':'' @ hex_bytes (blake3_sum H data))"
  by (simp add: digestForStateValue_def contentOf_def MustDigestBytes_def DigestBytes_def)

lemma digest_is_digested:
  assumes "hash_sizes H"
  shows "digestedStateValue (AlgorithmBlake3 @ '':'' @ hex_bytes (blake3_sum H data)) =
    Some (AlgorithmBlake3 @ '':'' @ hex_bytes (blake3_sum H data))"
proof -
  have "DigestBytes H AlgorithmBlake3 data = Inr (AlgorithmBlake3 @ '':'' @ hex_bytes (blake3_sum H data))"
    by (simp add: DigestBytes_def)
  from Algorithm_DigestBytes [OF assms this] show ?thesis by (simp add: digestedStateValue_def)
qed

text \<open>C19: a plan shows no change exactly when the content has the digest the state holds. For a value that
  is not itself a digest, the digest of a content means the same as the value, and so does another
  value, exactly when the contents have the same BLAKE3 sum.\<close>

theorem digested_state_matches_content:
  assumes "hash_sizes H"
    and "digestedStateValue v = None" "contentOf b v = Some data"
    and "digestedStateValue u = None" "contentOf b u = Some old"
  shows "digestForStateValue H b u = Some (AlgorithmBlake3 @ '':'' @ hex_bytes (blake3_sum H old)) \<and>
    (digestedValuesEqual H b v (AlgorithmBlake3 @ '':'' @ hex_bytes (blake3_sum H old)) \<longleftrightarrow>
       blake3_sum H data = blake3_sum H old) \<and>
    (digestedValuesEqual H b v u \<longleftrightarrow> blake3_sum H data = blake3_sum H old)"
proof -
  note v = digest_of_content [OF assms(2,3), of H] and u = digest_of_content [OF assms(4,5), of H]
  let ?d = "AlgorithmBlake3 @ '':'' @ hex_bytes (blake3_sum H old)"
  have "digestForStateValue H b ?d = Some ?d"
    using digest_is_digested [OF assms(1), of old] by (simp add: digestForStateValue_def)
  with u v show ?thesis using hex_bytes_inj by (auto simp: digestedValuesEqual_iff)
qed

lemma digested_state_matches_content_witness:
  "digestForStateValue demo_hashes True ''aGVsbG8='' =
     Some (AlgorithmBlake3 @ '':'' @ hex_bytes (blake3_sum demo_hashes ''hello'')) \<and>
   (digestedValuesEqual demo_hashes True ''aGVs'' ''aGVsbG8='' \<longleftrightarrow> blake3_sum demo_hashes ''hel'' = blake3_sum demo_hashes ''hello'')"
proof -
  have "digestedStateValue ''aGVsbG8='' = None" "digestedStateValue ''aGVs'' = None"
    by code_simp+
  moreover have "contentOf True ''aGVsbG8='' = Some ''hello''" "contentOf True ''aGVs'' = Some ''hel''"
    by (simp_all add: contentOf_def DecodeString_examples)
  ultimately show ?thesis using digested_state_matches_content [OF demo_hash_sizes] by blast
qed

text \<open>Two different values whose base64 is invalid mean the same, and a content that spells the digest of
  another content means that content.\<close>

lemma invalid_base64_all_equal:
  "digestedStateValue v = None \<Longrightarrow> digestedStateValue u = None \<Longrightarrow> DecodeString v = None \<Longrightarrow> DecodeString u = None \<Longrightarrow>
   digestedValuesEqual H True v u"
  by (simp add: digestedValuesEqual_def digestForStateValue_def)

lemma spelled_digest_hides_change:
  assumes "hash_sizes H" "digestedStateValue v = None" "contentOf b v = Some data"
  shows "digestedValuesEqual H b v (AlgorithmBlake3 @ '':'' @ hex_bytes (blake3_sum H data))"
  using digest_of_content [OF assms(2,3), of H] digest_is_digested [OF assms(1), of data]
  by (simp add: digestedValuesEqual_def assms(2))

end
