(* ===== verification/HostsFile.thy ===== *)
theory HostsFile
  imports CrontabEntries
begin

text \<open>
  guest/sdk/hostsfile/hostsfile.go: \<open>/etc/hosts\<close> as a list of lines, its parser and its printer. The
  error results of the code are always nil. The lemmas show that printing and reading again is the
  identity on what was read, for every content of the file.
\<close>

record HostEntry =
  he_IP :: string
  he_Hostname :: string
  he_Aliases :: "string list"
  he_Comment :: string
  he_Raw :: string
  he_IsBlank :: bool

definition emptyHost :: HostEntry where
  "emptyHost = \<lparr>he_IP = [], he_Hostname = [], he_Aliases = [], he_Comment = [], he_Raw = [], he_IsBlank = False\<rparr>"

text \<open>A line's comment and what is left of it when the comment is cut off.\<close>

definition cutComment :: "string \<Rightarrow> string \<times> string" where
  "cutComment trimmed0 =
     (case Cut (CHR ''#'') trimmed0 of
        None \<Rightarrow> (trimmed0, [])
      | Some (a, b) \<Rightarrow> (TrimSpace a, TrimSpace (CHR ''#'' # b)))"

definition parseHostLine :: "string \<Rightarrow> HostEntry" where
  "parseHostLine line =
     (let trimmed0 = TrimSpace line in
      if trimmed0 = [] then emptyHost\<lparr>he_IsBlank := True, he_Raw := line\<rparr>
      else if HasPrefix trimmed0 ''#'' then emptyHost\<lparr>he_Comment := trimmed0, he_Raw := line\<rparr>
      else
        (let (trimmed0, comment) = cutComment trimmed0 in
         case Fields trimmed0 of
           ip # hostname # aliases \<Rightarrow>
             emptyHost\<lparr>he_IP := ip, he_Hostname := hostname, he_Aliases := aliases, he_Comment := comment\<rparr>
         | _ \<Rightarrow> emptyHost\<lparr>he_Raw := line\<rparr>))"

definition parseHosts :: "string \<Rightarrow> HostEntry list" where
  "parseHosts content = map parseHostLine (Split (CHR 0x0A) content)"

definition hostLine :: "HostEntry \<Rightarrow> string" where
  "hostLine entry =
     (if he_IsBlank entry then he_Raw entry
      else if he_IP entry = [] \<and> he_Raw entry \<noteq> [] then he_Raw entry
      else if he_IP entry = [] \<and> he_Comment entry \<noteq> [] then he_Comment entry
      else he_IP entry @ CHR 0x09 # he_Hostname entry @ concat (map ((#) (CHR '' '')) (he_Aliases entry)) @
        (if he_Comment entry \<noteq> [] then CHR '' '' # he_Comment entry else []))"

definition serializeHosts :: "HostEntry list \<Rightarrow> string" where
  "serializeHosts es = joinWith [CHR 0x0A] (map hostLine es)"

subsection \<open>Words\<close>

text \<open>A string is solid when no white space rune starts in it.\<close>

fun solid :: "string \<Rightarrow> bool" where
  "solid [] = True"
| "solid (c # s) = (space_at_start (c # s) = 0 \<and> solid s)"

lemma solid_suffix: "solid (u @ v) \<Longrightarrow> solid v"
  by (induction u) auto

lemma isSpace_cases: "isSpace c \<Longrightarrow> c = CHR 0x20 \<or> c = CHR 0x09"
  by (simp add: isSpace_def)

lemma start_sep: "v \<noteq> [] \<Longrightarrow> space_at_start v = 0 \<Longrightarrow> isSpace c \<Longrightarrow> space_at_start (v @ c # s) = 0"
  by (auto dest!: isSpace_cases simp: neq_Nil_conv space2_def space3_def split: list.splits if_splits)

lemma wordPrefix_sep: "solid w \<Longrightarrow> isSpace c \<Longrightarrow> wordPrefix (w @ c # s) = w"
proof (induction w)
  case Nil
  then show ?case by (simp add: isSpace_start del: space_at_start.simps)
next
  case (Cons a w)
  then have "space_at_start ((a # w) @ c # s) = 0" by (intro start_sep) auto
  with Cons show ?case by simp
qed

lemma wordPrefix_all: "solid w \<Longrightarrow> wordPrefix w = w"
  by (induction w) (auto simp del: space_at_start.simps)

lemma solid_wordPrefix: "solid (wordPrefix s)"
proof (induction s)
  case (Cons c s)
  show ?case
  proof (cases "space_at_start (c # s) = 0")
    case True
    have "\<exists>q. c # s = (c # wordPrefix s) @ q"
    proof -
      have "\<exists>q. t = wordPrefix t @ q" for t by (induction t) auto
      then show ?thesis by auto
    qed
    then obtain q where "c # s = (c # wordPrefix s) @ q" by blast
    with True have "space_at_start (c # wordPrefix s) = 0" by (metis space_at_start_append)
    with Cons show ?thesis using True by (simp del: space_at_start.simps)
  qed (simp del: space_at_start.simps)
qed simp

lemma trim_sep: "isSpace c \<Longrightarrow> trim_by space_at_start (c # s) = trim_by space_at_start s"
  by (subst trim_by.simps) (simp add: isSpace_start del: space_at_start.simps)

lemma trim_solid: "solid w \<Longrightarrow> w \<noteq> [] \<Longrightarrow> isSpace c \<Longrightarrow> trim_by space_at_start (w @ c # s) = w @ c # s"
  by (rule trim_by_keep, rule start_sep) (auto simp: neq_Nil_conv simp del: space_at_start.simps)

lemma Fields_sep: "isSpace c \<Longrightarrow> Fields (c # s) = Fields s"
  by (subst (1 2) Fields.simps) (simp add: trim_sep)

lemma Fields_word: "solid w \<Longrightarrow> w \<noteq> [] \<Longrightarrow> isSpace c \<Longrightarrow> Fields (w @ c # s) = w # Fields s"
  by (subst Fields.simps) (simp add: trim_solid wordPrefix_sep Fields_sep)

lemma Fields_last: "solid w \<Longrightarrow> w \<noteq> [] \<Longrightarrow> Fields w = [w]"
proof -
  assume w: "solid w" "w \<noteq> []"
  then have "trim_by space_at_start w = w" by (intro trim_by_keep) (auto simp: neq_Nil_conv simp del: space_at_start.simps)
  moreover have "Fields [] = []" by (subst Fields.simps) simp
  ultimately show ?thesis using w by (subst Fields.simps) (simp add: wordPrefix_all)
qed

lemma Fields_aliases:
  assumes "solid w" "w \<noteq> []" "\<forall>a \<in> set as. solid a \<and> a \<noteq> []"
  shows "Fields (w @ concat (map ((#) (CHR '' '')) as)) = w # as"
  using assms
proof (induction as arbitrary: w)
  case Nil
  then show ?case by (simp add: Fields_last)
next
  case (Cons a as)
  have "Fields (w @ CHR '' '' # a @ concat (map ((#) (CHR '' '')) as)) = w # Fields (a @ concat (map ((#) (CHR '' '')) as))"
    by (rule Fields_word) (use Cons.prems in \<open>auto simp: isSpace_def\<close>)
  with Cons show ?case by simp
qed

lemma Fields_solid: "f \<in> set (Fields s) \<Longrightarrow> solid f \<and> f \<noteq> [] \<and> set f \<subseteq> set s"
proof (induction s rule: Fields.induct)
  case (1 s)
  let ?t = "trim_by space_at_start s"
  have f: "f \<in> set (if ?t = [] then [] else wordPrefix ?t # Fields (drop (length (wordPrefix ?t)) ?t))"
    using "1.prems" by (subst (asm) Fields.simps) (simp add: Let_def)
  then have ne: "?t \<noteq> []" by (auto split: if_splits)
  have ts: "set ?t \<subseteq> set s" using trim_by_suffix [of s space_at_start] by (metis set_append sup_ge2)
  have "\<exists>q. ?t = wordPrefix ?t @ q"
  proof -
    have "\<exists>q. t = wordPrefix t @ q" for t by (induction t) auto
    then show ?thesis by blast
  qed
  then have ws: "set (wordPrefix ?t) \<subseteq> set ?t" by (metis set_append sup_ge1)
  consider "f = wordPrefix ?t" | "f \<in> set (Fields (drop (length (wordPrefix ?t)) ?t))"
    using f ne by (auto split: if_splits)
  then show ?case
  proof cases
    case 1
    have "space_at_start ?t = 0" using trim_by_fixed [of space_at_start s] ne by auto
    with ne have "wordPrefix ?t \<noteq> []" by (cases ?t) auto
    with 1 show ?thesis using solid_wordPrefix ws ts by auto
  next
    case 2
    from "1.IH" [OF refl ne 2] show ?thesis using ts by (meson set_drop_subset subset_trans)
  qed
qed
subsection \<open>Lines that read back\<close>

lemma sep_no_space:
  "isSpace c \<Longrightarrow> \<not> space2 c a" "isSpace c \<Longrightarrow> \<not> space2 a c" "isSpace c \<Longrightarrow> \<not> space3 c a b"
  "isSpace c \<Longrightarrow> \<not> space3 a c b" "isSpace c \<Longrightarrow> \<not> space3 a b c"
  by (auto simp: isSpace_def space2_def space3_def)

lemma end_sep: "solid w \<Longrightarrow> w \<noteq> [] \<Longrightarrow> isSpace c \<Longrightarrow> space_at_end (rev w @ c # r) = 0"
proof -
  assume w: "solid w" "w \<noteq> []" "isSpace c"
  then obtain v a where wa: "w = v @ [a]" by (metis rev_exhaust)
  show ?thesis
  proof (cases v rule: rev_cases)
    case Nil
    with w wa show ?thesis by (auto simp: sep_no_space split: list.splits)
  next
    case (snoc u b)
    with w(1) wa have "solid [b, a]" using solid_suffix [of u "[b, a]"] by simp
    show ?thesis
    proof (cases u rule: rev_cases)
      case Nil
      with \<open>solid [b, a]\<close> w snoc wa show ?thesis
        by (auto simp: sep_no_space split: list.splits if_splits)
    next
      case (snoc t d)
      have "solid [d, b, a]" using w(1) wa \<open>v = u @ [b]\<close> snoc solid_suffix [of t "[d, b, a]"] by simp
      then show ?thesis using wa \<open>v = u @ [b]\<close> snoc by (auto split: if_splits)
    qed
  qed
qed

lemma space_at_end_append: "space_at_end (u @ q) = 0 \<Longrightarrow> space_at_end u = 0"
proof (cases u)
  case (Cons a v)
  assume "space_at_end (u @ q) = 0"
  with Cons show ?thesis
  proof (cases v)
    case (Cons b x)
    with \<open>u = a # v\<close> \<open>space_at_end (u @ q) = 0\<close> show ?thesis by (cases x) (simp_all split: if_splits)
  qed (simp split: if_splits)
qed simp

lemma solid_Trim: "solid w \<Longrightarrow> TrimSpace w = w"
proof (cases "w = []")
  case False
  assume w: "solid w"
  have "space_at_end (rev w @ [CHR '' '']) = 0" using end_sep [OF w False, of "CHR '' ''" "[]"] by (simp add: isSpace_def)
  then have "space_at_end (rev w) = 0" by (rule space_at_end_append)
  moreover have "space_at_start w = 0" using w False by (cases w) (simp_all del: space_at_start.simps)
  ultimately show ?thesis by (intro TrimSpace_keep)
qed simp

lemma end_any: "u \<noteq> [] \<Longrightarrow> space_at_end u = 0 \<Longrightarrow> isSpace c \<Longrightarrow> space_at_end (u @ c # r) = 0"
proof (cases u)
  case (Cons a q)
  assume u: "space_at_end u = 0" "isSpace c"
  show ?thesis
  proof (cases q)
    case Nil
    with Cons u show ?thesis by (auto simp: sep_no_space split: list.splits if_splits)
  next
    case (Cons b q2)
    with \<open>u = a # q\<close> u show ?thesis by (cases q2) (auto simp: sep_no_space split: list.splits if_splits)
  qed
qed simp

text \<open>A comment as the parser keeps it, and a line of an address and its names.\<close>

definition commentToken :: "string \<Rightarrow> bool" where
  "commentToken s \<longleftrightarrow> s = [] \<or> hd s = CHR ''#'' \<and> TrimSpace s = s \<and> CHR 0x0A \<notin> set s"

definition hostToken :: "string \<Rightarrow> bool" where
  "hostToken s \<longleftrightarrow> s \<noteq> [] \<and> solid s \<and> CHR ''#'' \<notin> set s"

definition hostEntry :: "HostEntry \<Rightarrow> bool" where
  "hostEntry e \<longleftrightarrow>
     hostToken (he_IP e) \<and> hostToken (he_Hostname e) \<and> (\<forall>a \<in> set (he_Aliases e). hostToken a) \<and>
     commentToken (he_Comment e) \<and> he_Raw e = [] \<and> \<not> he_IsBlank e"

lemma solid_newline: "solid s \<Longrightarrow> CHR 0x0A \<notin> set s"
  by (induction s) (auto simp: ascii_space_def)

lemma Trim_end: "s \<noteq> [] \<Longrightarrow> TrimSpace s = s \<Longrightarrow> space_at_end (rev s) = 0"
proof -
  assume s: "s \<noteq> []" "TrimSpace s = s"
  let ?t = "trim_by space_at_end (rev (trim_by space_at_start s))"
  have "?t = rev s" using s(2) by (metis TrimSpace_def rev_rev_ident)
  with trim_by_fixed [of space_at_end "rev (trim_by space_at_start s)"] s(1) show ?thesis by auto
qed

text \<open>The names of an entry: the address, the host name and the aliases.\<close>

definition namesText :: "HostEntry \<Rightarrow> string" where
  "namesText e = he_IP e @ CHR 0x09 # he_Hostname e @ concat (map ((#) (CHR '' '')) (he_Aliases e))"

lemma hostLine_entry:
  "hostEntry e \<Longrightarrow> hostLine e = namesText e @ (if he_Comment e \<noteq> [] then CHR '' '' # he_Comment e else [])"
  by (simp add: hostLine_def namesText_def hostEntry_def hostToken_def)

lemma names_end:
  assumes "hostEntry e"
  shows "space_at_end (rev (namesText e)) = 0"
proof -
  have *: "\<exists>v w c. hostToken w \<and> isSpace c \<and> namesText e = v @ c # w"
  proof (cases "he_Aliases e" rule: rev_cases)
    case Nil
    then have "namesText e = he_IP e @ CHR 0x09 # he_Hostname e" by (simp add: namesText_def)
    moreover have "hostToken (he_Hostname e)" using assms by (simp add: hostEntry_def)
    ultimately show ?thesis by (metis isSpace_def)
  next
    case (snoc as a)
    then have "namesText e = (he_IP e @ CHR 0x09 # he_Hostname e @ concat (map ((#) (CHR '' '')) as)) @ CHR '' '' # a"
      by (simp add: namesText_def)
    moreover have "hostToken a" using assms snoc by (simp add: hostEntry_def)
    ultimately show ?thesis by (metis isSpace_def)
  qed
  then obtain v w c where "hostToken w" "isSpace c" "namesText e = v @ c # w" by blast
  then show ?thesis using end_sep [of w c "rev v"] by (simp add: hostToken_def del: space_at_end.simps)
qed

lemma names_start: "hostEntry e \<Longrightarrow> space_at_start (namesText e @ r) = 0"
proof -
  assume e: "hostEntry e"
  then have "space_at_start (he_IP e) = 0" by (auto simp: hostEntry_def hostToken_def neq_Nil_conv simp del: space_at_start.simps)
  with e start_sep [of "he_IP e" "CHR 0x09"] show ?thesis by (simp add: namesText_def hostEntry_def hostToken_def isSpace_def)
qed

lemma names_fields: "hostEntry e \<Longrightarrow> Fields (namesText e) = he_IP e # he_Hostname e # he_Aliases e"
  by (auto simp: namesText_def hostEntry_def hostToken_def isSpace_def Fields_word intro!: Fields_aliases)

lemma names_no_hash: "hostEntry e \<Longrightarrow> CHR ''#'' \<notin> set (namesText e)"
  by (auto simp: namesText_def hostEntry_def hostToken_def)

lemma names_newline: "hostEntry e \<Longrightarrow> CHR 0x0A \<notin> set (namesText e)"
  by (auto simp: namesText_def hostEntry_def hostToken_def dest: solid_newline)

lemma names_Trim: "hostEntry e \<Longrightarrow> TrimSpace (namesText e) = namesText e"
  using names_start [of e "[]"] names_end [of e] by (intro TrimSpace_keep) simp_all

lemma Trim_trailing: "space_at_start (s @ [c]) = 0 \<Longrightarrow> isSpace c \<Longrightarrow> space_at_end (rev s) = 0 \<Longrightarrow> TrimSpace (s @ [c]) = s"
  by (simp add: TrimSpace_def trim_by_keep)
     (subst trim_by.simps, auto simp: isSpace_def ascii_space_def trim_by_keep)

lemma parse_hostEntry:
  assumes e: "hostEntry e"
  shows "parseHostLine (hostLine e) = e" "CHR 0x0A \<notin> set (hostLine e)"
proof -
  let ?n = "namesText e" and ?c = "he_Comment e"
  have n: "?n \<noteq> []" "hd (?n @ r) \<noteq> CHR ''#''" for r
    using e by (auto simp: namesText_def hostEntry_def hostToken_def neq_Nil_conv)
  have cut: "cutComment (hostLine e) = (?n, ?c)" and trim: "TrimSpace (hostLine e) = hostLine e"
  proof -
    show "cutComment (hostLine e) = (?n, ?c)"
    proof (cases "?c = []")
      case True
      with e names_no_hash [OF e] show ?thesis by (simp add: hostLine_entry cutComment_def Cut_None [THEN iffD2])
    next
      case False
      with e obtain r where c: "?c = CHR ''#'' # r" "TrimSpace ?c = ?c"
        by (auto simp: hostEntry_def commentToken_def neq_Nil_conv)
      have "Cut (CHR ''#'') (?n @ CHR '' '' # CHR ''#'' # r) = Some (?n @ '' '', r)"
        using Cut_append [of "CHR ''#''" "?n @ '' ''" r] names_no_hash [OF e] by simp
      moreover have "TrimSpace (?n @ '' '') = ?n"
        using names_start [OF e] names_end [OF e] by (intro Trim_trailing) (auto simp: isSpace_def)
      ultimately show ?thesis using e c by (simp add: hostLine_entry cutComment_def)
    qed
    show "TrimSpace (hostLine e) = hostLine e"
    proof (cases "?c = []")
      case True
      with e show ?thesis by (simp add: hostLine_entry names_Trim)
    next
      case False
      have "space_at_end (rev ?c @ CHR '' '' # rev ?n) = 0"
        using e False by (intro end_any Trim_end) (auto simp: hostEntry_def commentToken_def isSpace_def)
      with False e names_start [OF e] show ?thesis by (intro TrimSpace_keep) (simp_all add: hostLine_entry)
    qed
  qed
  have "hostLine e \<noteq> []" "\<not> HasPrefix (hostLine e) ''#''"
    using n by (auto simp: hostLine_entry [OF e] HasPrefix_hd)
  with e cut trim show "parseHostLine (hostLine e) = e"
    by (simp add: parseHostLine_def names_fields emptyHost_def hostEntry_def)
  show "CHR 0x0A \<notin> set (hostLine e)"
    using names_newline [OF e] e by (auto simp: hostLine_entry hostEntry_def commentToken_def)
qed

lemma Trim_hash: "TrimSpace (CHR ''#'' # b) \<noteq> [] \<and> hd (TrimSpace (CHR ''#'' # b)) = CHR ''#''"
proof -
  have "space_at_start (CHR ''#'' # b) = 0" by (simp add: ascii_space_def space2_def space3_def split: list.split)
  then have t: "TrimSpace (CHR ''#'' # b) = rev (trim_by space_at_end (rev b @ ''#''))"
    by (simp add: TrimSpace_def trim_by_keep del: space_at_start.simps)
  obtain p where p: "rev b @ ''#'' = p @ trim_by space_at_end (rev b @ ''#'')" using trim_by_suffix by blast
  have "CHR ''#'' \<in> set (TrimSpace (CHR ''#'' # b))" by (rule TrimSpace_solid) simp_all
  then have "trim_by space_at_end (rev b @ ''#'') \<noteq> []" using t by auto
  with p have "last (trim_by space_at_end (rev b @ ''#'')) = CHR ''#''" by (metis last_appendR last_snoc)
  with t \<open>trim_by space_at_end (rev b @ ''#'') \<noteq> []\<close> show ?thesis by (simp add: hd_rev)
qed

lemma commentToken_Trim: "CHR 0x0A \<notin> set b \<Longrightarrow> commentToken (TrimSpace (CHR ''#'' # b))"
  using Trim_hash [of b] set_TrimSpace [of "CHR ''#'' # b"] by (auto simp: commentToken_def TrimSpace_idem)

text \<open>Every line the parser reads is printed as a line it reads alike.\<close>

definition hostRereads :: "HostEntry \<Rightarrow> bool" where
  "hostRereads e \<longleftrightarrow> parseHostLine (hostLine e) = e \<and> CHR 0x0A \<notin> set (hostLine e)"

lemma cutComment_parts:
  assumes "cutComment t = (a, c)" "CHR 0x0A \<notin> set t"
  shows "CHR ''#'' \<notin> set a" "commentToken c"
proof -
  show "CHR ''#'' \<notin> set a"
    using assms set_TrimSpace by (fastforce simp: cutComment_def Cut_None dest: Cut_Some split: option.splits)
  show "commentToken c"
  proof (cases "Cut (CHR ''#'') t")
    case (Some p)
    then obtain x b where "Cut (CHR ''#'') t = Some (x, b)" by (cases p) auto
    with assms show ?thesis by (auto simp: cutComment_def dest!: Cut_Some intro: commentToken_Trim)
  qed (use assms in \<open>simp add: cutComment_def commentToken_def\<close>)
qed

lemma parsed_line:
  assumes nl: "CHR 0x0A \<notin> set line"
  shows "hostEntry (parseHostLine line) \<or> he_IP (parseHostLine line) = [] \<and> hostLine (parseHostLine line) = line"
proof -
  let ?t = "TrimSpace line"
  obtain a c where ac: "cutComment ?t = (a, c)" by fastforce
  have nt: "CHR 0x0A \<notin> set ?t" using nl set_TrimSpace by auto
  have line: "line \<noteq> []" if "?t \<noteq> []" using that by auto
  show ?thesis
  proof (cases "?t = [] \<or> HasPrefix ?t ''#'' \<or> length (Fields a) < 2")
    case True
    then have "parseHostLine line \<in> {emptyHost\<lparr>he_IsBlank := True, he_Raw := line\<rparr>, emptyHost\<lparr>he_Comment := ?t, he_Raw := line\<rparr>, emptyHost\<lparr>he_Raw := line\<rparr>}
        \<and> (?t \<noteq> [] \<or> he_IsBlank (parseHostLine line))"
      using ac by (auto simp: parseHostLine_def Let_def split: list.splits)
    then show ?thesis using line by (auto simp: hostLine_def emptyHost_def)
  next
    case False
    then obtain ip hn as where f: "Fields a = ip # hn # as" by (cases "Fields a"; cases "tl (Fields a)") auto
    have tok: "\<forall>w \<in> set (Fields a). hostToken w"
      using Fields_solid [of _ a] cutComment_parts(1) [OF ac nt] by (auto simp: hostToken_def)
    have e: "parseHostLine line = emptyHost\<lparr>he_IP := ip, he_Hostname := hn, he_Aliases := as, he_Comment := c\<rparr>"
      using False ac f by (simp add: parseHostLine_def Let_def)
    show ?thesis using tok f cutComment_parts(2) [OF ac nt] by (simp add: e hostEntry_def emptyHost_def)
  qed
qed

lemma parsed_rereads: "CHR 0x0A \<notin> set line \<Longrightarrow> hostRereads (parseHostLine line)"
  using parsed_line [of line] parse_hostEntry by (auto simp: hostRereads_def)

lemma entry_rereads: "hostEntry e \<Longrightarrow> hostRereads e"
  using parse_hostEntry by (simp add: hostRereads_def)

lemma serialize_rereads:
  assumes "es \<noteq> []" "\<forall>e \<in> set es. hostRereads e"
  shows "parseHosts (serializeHosts es) = es"
proof -
  have "Split (CHR 0x0A) (serializeHosts es) = map hostLine es"
    unfolding serializeHosts_def by (rule Split_joinWith) (use assms in \<open>auto simp: hostRereads_def\<close>)
  with assms(2) show ?thesis by (simp add: parseHosts_def hostRereads_def comp_def list.map_ident_strong)
qed

lemma parsed_lines: "e \<in> set (parseHosts content) \<Longrightarrow> hostRereads e"
  using Split_no_sep [of _ "CHR 0x0A" content] parsed_rereads by (auto simp: parseHosts_def)

lemma parsed_entry: "e \<in> set (parseHosts content) \<Longrightarrow> he_IP e \<noteq> [] \<Longrightarrow> hostEntry e"
  using Split_no_sep [of _ "CHR 0x0A" content] parsed_line by (fastforce simp: parseHosts_def)

lemma parseHosts_ne: "parseHosts content \<noteq> []"
  by (cases content) (auto simp: parseHosts_def split: list.splits)

text \<open>C11: Reading \<open>/etc/hosts\<close>, printing what was read and reading it again gives the same entries, for
  every content of the file: comments, blank lines and lines that are no entry are kept as they are,
  and an entry keeps its address, its names and its comment.\<close>

theorem hosts_parse_serialize: "parseHosts (serializeHosts (parseHosts content)) = parseHosts content"
  by (rule serialize_rereads) (auto simp: parseHosts_ne parsed_lines)

end
