(* ===== verification/PackHost.thy ===== *)
theory PackHost
  imports CrontabEntries
begin

text \<open>
  What a resource of guest/packs/linux/files_config asks of the host through the guest SDK: a lock on a
  path, the contents of a file, a whole new contents, and to run a command. The resources rely on the
  locale \<open>text_files\<close>; executor/capabilities/api.go's \<open>HostAPI\<close> over a file system without faults is
  its instance.
\<close>

record 's packHost =
  ph_lock :: "string \<Rightarrow> 's \<Rightarrow> error option \<times> 's"
  ph_unlock :: "string \<Rightarrow> 's \<Rightarrow> 's"
  ph_read :: "string \<Rightarrow> 's \<Rightarrow> string res"
  ph_write :: "string \<Rightarrow> string \<Rightarrow> 's \<Rightarrow> error option \<times> 's"
  ph_exec :: "string \<Rightarrow> string list \<Rightarrow> 's \<Rightarrow> CmdResult res \<times> 's"

text \<open>\<open>pluginsdk.FileLock\<close>, a body and the deferred \<open>pluginsdk.FileUnlock\<close>, whose error is dropped.\<close>

definition withLock :: "'s packHost \<Rightarrow> string \<Rightarrow> ('s \<Rightarrow> 'a res \<times> 's) \<Rightarrow> 's \<Rightarrow> 'a res \<times> 's" where
  "withLock H path body s =
     (case ph_lock H path s of
        (Some e, s) \<Rightarrow> (Inl (Wrapf (''lock '' @ path @ '': '') e []), s)
      | (None, s) \<Rightarrow> (let (r, s) = body s in (r, ph_unlock H path s)))"

definition readText :: "'s packHost \<Rightarrow> string \<Rightarrow> 's \<Rightarrow> string res" where
  "readText H path s =
     (case ph_read H path s of Inl e \<Rightarrow> Inl (Wrapf (''read '' @ path @ '': '') e []) | Inr c \<Rightarrow> Inr c)"

definition writeText :: "'s packHost \<Rightarrow> string \<Rightarrow> string \<Rightarrow> 's \<Rightarrow> unit res \<times> 's" where
  "writeText H path data s =
     (case ph_write H path data s of
        (Some e, s) \<Rightarrow> (Inl (Wrapf (''write '' @ path @ '': '') e []), s)
      | (None, s) \<Rightarrow> (Inr (), s))"

subsection \<open>The interface\<close>

locale text_files =
  fixes H :: "'s packHost"
    and content :: "'s \<Rightarrow> string \<Rightarrow> string option"
    and held :: "'s \<Rightarrow> string set"
  assumes lock_free: "p \<notin> held s \<Longrightarrow> ph_lock H p s = (None, t) \<Longrightarrow> content t = content s \<and> held t = insert p (held s)"
    and lock_ok: "p \<notin> held s \<Longrightarrow> fst (ph_lock H p s) = None"
    and unlock: "content (ph_unlock H p s) = content s" "held (ph_unlock H p s) = held s - {p}"
    and read: "ph_read H p s = Inr c \<longleftrightarrow> content s p = Some c"
    and write_ok: "content s p \<noteq> None \<Longrightarrow> fst (ph_write H p c s) = None"
    and write_new: "ph_write H p c s = (None, t) \<Longrightarrow> content t = (content s)(p \<mapsto> c) \<and> held t = held s"
    and write_failed: "ph_write H p c s = (Some e, t) \<Longrightarrow> content t = content s \<and> held t = held s"
begin

lemma read_text: "content s p = Some c \<Longrightarrow> readText H p s = Inr c"
  by (simp add: readText_def read [THEN iffD2])

lemma read_text_conv: "readText H p s = Inr c \<longleftrightarrow> content s p = Some c"
  by (cases "ph_read H p s") (use read [of p s c] in \<open>auto simp: readText_def\<close>)

lemma write_text: "writeText H p c s = (Inr (), t) \<Longrightarrow> content t = (content s)(p \<mapsto> c) \<and> held t = held s"
  using write_new by (auto simp: writeText_def split: prod.splits option.splits)

lemma write_text_ok: "content s p \<noteq> None \<Longrightarrow> \<exists>t. writeText H p c s = (Inr (), t) \<and> content t = (content s)(p \<mapsto> c) \<and> held t = held s"
  using write_ok [of s p c] write_new [of p c s] by (cases "ph_write H p c s") (auto simp: writeText_def)

text \<open>A body runs under the lock with the contents its caller saw, and the lock is free again after it.\<close>

lemma under_lock:
  assumes "p \<notin> held s"
  obtains u where "content u = content s" "held u = insert p (held s)"
    "withLock H p body s = (fst (body u), ph_unlock H p (snd (body u)))"
proof -
  obtain u where u: "ph_lock H p s = (None, u)" using lock_ok [OF assms] by (metis prod.collapse)
  with lock_free [OF assms u] have "content u = content s" "held u = insert p (held s)"
    "withLock H p body s = (fst (body u), ph_unlock H p (snd (body u)))"
    by (auto simp: withLock_def split: prod.split)
  then show ?thesis by (rule that)
qed

text \<open>A locked edit of a file: \<open>edit\<close> decides from the contents what is written and returned.\<close>

lemma locked_edit:
  assumes "p \<notin> held s" "content s p = Some c"
    and "withLock H p (\<lambda>s. case readText H p s of Inl e \<Rightarrow> (Inl e, s) | Inr c \<Rightarrow> body c s) s = (Inr r, t)"
  obtains u v where "body c u = (Inr r, v)" "content u = content s" "held u = insert p (held s)"
    "content t = content v" "held t = held v - {p}"
proof -
  let ?body = "\<lambda>s. case readText H p s of Inl e \<Rightarrow> (Inl e, s) | Inr c \<Rightarrow> body c s"
  obtain u where u: "content u = content s" "held u = insert p (held s)"
    "withLock H p ?body s = (fst (?body u), ph_unlock H p (snd (?body u)))" by (rule under_lock [OF assms(1)])
  have "readText H p u = Inr c" using u(1) assms(2) by (intro read_text) simp
  with u(3) assms(3) have "body c u = (Inr r, snd (body c u))" "t = ph_unlock H p (snd (body c u))"
    by (auto simp: prod_eq_iff)
  with u(1,2) unlock show ?thesis by (auto intro: that)
qed

end

subsection \<open>The executor's side\<close>

record 'x apiState =
  as_files :: "string \<Rightarrow> string option"
  as_locks :: "string set"
  as_rest :: 'x

definition apiFileLock :: "string \<Rightarrow> 'x apiState \<Rightarrow> error option \<times> 'x apiState" where
  "apiFileLock path s =
     (if path \<in> as_locks s then (Some (Errorf (''already locked: '' @ path)), s)
      else (None, s\<lparr>as_locks := insert path (as_locks s)\<rparr>))"

definition apiFileUnlock :: "string \<Rightarrow> 'x apiState \<Rightarrow> error option \<times> 'x apiState" where
  "apiFileUnlock path s =
     (if path \<notin> as_locks s then (Some (Errorf (''not locked: '' @ path)), s)
      else (None, s\<lparr>as_locks := as_locks s - {path}\<rparr>))"

definition apiFileRead :: "string \<Rightarrow> 'x apiState \<Rightarrow> string res" where
  "apiFileRead path s =
     (case as_files s path of
        None \<Rightarrow> Inl (Wrapf (''read '' @ path @ '': '') (NotExist (''open '' @ path)) [])
      | Some data \<Rightarrow> Inr data)"

definition apiFileWrite :: "string \<Rightarrow> string \<Rightarrow> 'x apiState \<Rightarrow> error option \<times> 'x apiState" where
  "apiFileWrite path data s = (None, s\<lparr>as_files := (as_files s)(path \<mapsto> data)\<rparr>)"

text \<open>The commands are external: \<open>run\<close> says what one does to the rest of the host.\<close>

definition apiHost :: "(string \<Rightarrow> string list \<Rightarrow> 'x \<Rightarrow> CmdResult res \<times> 'x) \<Rightarrow> 'x apiState packHost" where
  "apiHost run =
     \<lparr>ph_lock = apiFileLock, ph_unlock = (\<lambda>path s. snd (apiFileUnlock path s)), ph_read = apiFileRead,
      ph_write = apiFileWrite,
      ph_exec = (\<lambda>cmd args s. let (r, x) = run cmd args (as_rest s) in (r, s\<lparr>as_rest := x\<rparr>))\<rparr>"

interpretation api: text_files "apiHost run" as_files as_locks for run
  by unfold_locales
     (auto simp: apiHost_def apiFileLock_def apiFileUnlock_def apiFileRead_def apiFileWrite_def split: option.splits if_splits)

end
