(* ===== verification/HostsEntry.thy ===== *)
theory HostsEntry
  imports HostsFile PackHost
begin

text \<open>
  The \<open>hosts_entry\<close> resource of guest/packs/linux/files_config/main.go: its validation, with the part of
  \<open>net.ParseIP\<close> it uses, and its operations on \<open>/etc/hosts\<close>. The lemmas show that the operations do on
  the map from addresses and host names to aliases and comments what they say, and when a created
  entry is found again.
\<close>

subsection \<open>Addresses\<close>

text \<open>\<open>netip.parseIPv4Fields\<close>: the rest of the text, the character before it, the octets read, the value
  and the number of digits of the present one.\<close>

fun ipv4Fields :: "string \<Rightarrow> char option \<Rightarrow> nat \<Rightarrow> nat \<Rightarrow> nat \<Rightarrow> bool" where
  "ipv4Fields [] prev pos val digLen = (3 \<le> pos)"
| "ipv4Fields (c # s) prev pos val digLen =
     (if is_digit c then
        (if digLen = 1 \<and> val = 0 then False
         else (let val = val * 10 + ((of_char c :: nat) - 48) in
               if 255 < val then False else ipv4Fields s (Some c) pos val (Suc digLen)))
      else if c = CHR ''.'' then
        (if prev = None \<or> s = [] \<or> prev = Some (CHR ''.'') then False
         else if pos = 3 then False
         else ipv4Fields s (Some c) (Suc pos) 0 0)
      else False)"

definition hexval :: "char \<Rightarrow> nat option" where
  "hexval c =
     (let n = (of_char c :: nat) in
      if 48 \<le> n \<and> n \<le> 57 then Some (n - 48)
      else if 97 \<le> n \<and> n \<le> 102 then Some (n - 87)
      else if 65 \<le> n \<and> n \<le> 70 then Some (n - 55)
      else None)"

text \<open>One group of \<open>netip.parseIPv6\<close>: how many digits it has and what follows them.\<close>

fun hexGroup :: "nat \<Rightarrow> nat \<Rightarrow> string \<Rightarrow> (nat \<times> string) option" where
  "hexGroup off acc [] = Some (off, [])"
| "hexGroup off acc (c # s) =
     (case hexval c of
        None \<Rightarrow> Some (off, c # s)
      | Some v \<Rightarrow>
          (let acc = acc * 16 + v in
           if 3 < off then None else if 65535 < acc then None else hexGroup (Suc off) acc s))"

text \<open>The loop of \<open>netip.parseIPv6\<close>: \<open>i\<close> bytes are read, \<open>e\<close> says whether there was an ellipsis.\<close>

function ipv6Loop :: "nat \<Rightarrow> bool \<Rightarrow> string \<Rightarrow> (nat \<times> bool \<times> string) option" where
  "ipv6Loop i e s =
     (if 16 \<le> i then Some (i, e, s)
      else case hexGroup 0 0 s of
        None \<Rightarrow> None
      | Some (off, r) \<Rightarrow>
          if off = 0 then None
          else if r \<noteq> [] \<and> hd r = CHR ''.'' then
            (if \<not> e \<and> i \<noteq> 12 then None
             else if 16 < i + 4 then None
             else if ipv4Fields s None 0 0 0 then Some (i + 4, e, []) else None)
          else if r = [] then Some (i + 2, e, [])
          else if hd r \<noteq> CHR '':'' then None
          else if tl r = [] then None
          else if hd (tl r) = CHR '':'' then
            (if e then None
             else if tl (tl r) = [] then Some (i + 2, True, [])
             else ipv6Loop (i + 2) True (tl (tl r)))
          else ipv6Loop (i + 2) e (tl r))"
  by pat_completeness auto
termination
  by (relation "measure (\<lambda>(i, e, s). 16 - i)") auto

declare ipv6Loop.simps [simp del]

text \<open>A zone makes \<open>net.ParseIP\<close> fail, with or without a name.\<close>

definition validIPv6 :: "string \<Rightarrow> bool" where
  "validIPv6 s =
     (if CHR ''%'' \<in> set s then False
      else if s = ''::'' then True
      else
        (case (if HasPrefix s ''::'' then ipv6Loop 0 True (drop 2 s) else ipv6Loop 0 False s) of
           None \<Rightarrow> False
         | Some (i, e, r) \<Rightarrow> r = [] \<and> (if i < 16 then e else \<not> e)))"

text \<open>\<open>net.ParseIP(s) != nil\<close>.\<close>

definition validIP :: "string \<Rightarrow> bool" where
  "validIP s =
     (case find (\<lambda>c. c \<in> {CHR ''.'', CHR '':'', CHR ''%''}) s of
        None \<Rightarrow> False
      | Some c \<Rightarrow>
          if c = CHR ''.'' then ipv4Fields s None 0 0 0
          else if c = CHR '':'' then validIPv6 s
          else False)"

lemma demo_ipv6: "validIP ''fe80::1''" "validIP ''::''" "validIP ''::ffff:1.2.3.4''" "\<not> validIP ''1:2''" "\<not> validIP ''fe80::1%e0''"
    "\<not> validIP ''1.2.3''" "\<not> validIP ''1.2.3.04''" "\<not> validIP ''1::2::3''"
  by (simp_all add: validIP_def validIPv6_def HasPrefix_def hexval_def is_digit_def
        ipv6Loop.simps [of 0] ipv6Loop.simps [of "Suc (Suc 0)"] ipv6Loop.simps [of "Suc (Suc (Suc (Suc 0)))"])

subsection \<open>Host names, aliases and comments\<close>

definition isValidHostToken :: "string \<Rightarrow> bool" where
  "isValidHostToken value0 =
     (let value = TrimSpace value0 in
      if value = [] \<or> ContainsAny value [CHR '' '', CHR 0x09, CHR ''#''] then False else True)"

fun newAliases :: "string set \<Rightarrow> string list \<Rightarrow> string list" where
  "newAliases seen [] = []"
| "newAliases seen (alias # aliases) =
     (let alias = TrimSpace alias in
      if alias = [] \<or> alias \<in> seen then newAliases seen aliases
      else alias # newAliases (insert alias seen) aliases)"

definition normalizeHostAliases :: "string \<Rightarrow> string list \<Rightarrow> string list" where
  "normalizeHostAliases hostname aliases = newAliases {hostname} aliases"

definition serializeHostsComment :: "string \<Rightarrow> string" where
  "serializeHostsComment comment0 =
     (let comment = TrimSpace comment0 in
      if comment = [] then []
      else
        (let comment = TrimSpace (TrimPrefix comment ''#'') in
         if comment = [] then [] else ''# '' @ comment))"

definition hostsCommentState :: "string \<Rightarrow> string" where
  "hostsCommentState comment = TrimSpace (TrimPrefix (TrimSpace comment) ''#'')"

definition hostsEntryID :: "string \<Rightarrow> string \<Rightarrow> string" where
  "hostsEntryID ip hostname = ip @ ''/'' @ hostname"

subsection \<open>The operations\<close>

definition hostsPath :: string where
  "hostsPath = ''/etc/hosts''"

definition aliasList :: "StateData \<Rightarrow> string list" where
  "aliasList values = (case GetStringList values ''aliases'' of None \<Rightarrow> [] | Some l \<Rightarrow> l)"

definition hostsValidate :: "StateData \<Rightarrow> error option" where
  "hostsValidate config =
     (let ip = GetString config ''ip''; hostname = GetString config ''hostname'' in
      if \<not> validIP ip then Some (Errorf (''invalid IP address: '' @ go_quote ip))
      else if TrimSpace hostname = [] then Some (Errorf ''hostname must not be empty'')
      else if \<not> isValidHostToken hostname then Some (Errorf (''invalid hostname '' @ go_quote hostname))
      else (case find (\<lambda>a. \<not> isValidHostToken a) (aliasList config) of
              Some alias \<Rightarrow> Some (Errorf (''invalid alias '' @ go_quote alias))
            | None \<Rightarrow> None))"

definition sameHost :: "string \<Rightarrow> string \<Rightarrow> HostEntry \<Rightarrow> bool" where
  "sameHost ip hostname e \<longleftrightarrow> he_IP e = ip \<and> he_Hostname e = hostname"

definition findEntry :: "'s packHost \<Rightarrow> string \<Rightarrow> string \<Rightarrow> 's \<Rightarrow> HostEntry option res" where
  "findEntry H ip hostname s =
     (case readText H hostsPath s of
        Inl e \<Rightarrow> Inl e
      | Inr content \<Rightarrow> Inr (find (sameHost ip hostname) (parseHosts content)))"

definition writeHosts :: "'s packHost \<Rightarrow> HostEntry list \<Rightarrow> 's \<Rightarrow> unit res \<times> 's" where
  "writeHosts H es s = writeText H hostsPath (serializeHosts es) s"

text \<open>The state an operation or a read returns.\<close>

definition hostsState :: "string \<Rightarrow> string \<Rightarrow> string list \<Rightarrow> string \<Rightarrow> StateData" where
  "hostsState ip hostname aliases comment =
     [(''id'', VStr (hostsEntryID ip hostname)), (''ip'', VStr ip), (''hostname'', VStr hostname)] @
     (if aliases \<noteq> [] then [(''aliases'', VStrs (Some aliases))] else []) @
     (if comment \<noteq> [] then [(''comment'', VStr comment)] else [])"

definition hostsRead :: "'s packHost \<Rightarrow> StateData \<Rightarrow> 's \<Rightarrow> StateData option res" where
  "hostsRead H state s =
     (case findEntry H (GetString state ''ip'') (GetString state ''hostname'') s of
        Inl e \<Rightarrow> Inl e
      | Inr None \<Rightarrow> Inr None
      | Inr (Some entry) \<Rightarrow>
          Inr (Some (hostsState (he_IP entry) (he_Hostname entry) (he_Aliases entry) (hostsCommentState (he_Comment entry)))))"

fun upsertFrom :: "bool \<Rightarrow> HostEntry list \<Rightarrow> HostEntry \<Rightarrow> HostEntry list" where
  "upsertFrom matched [] desired = (if matched then [] else [desired])"
| "upsertFrom matched (e # es) desired =
     (if sameHost (he_IP desired) (he_Hostname desired) e then
        (if matched then upsertFrom matched es desired else desired # upsertFrom True es desired)
      else e # upsertFrom matched es desired)"

definition upsertHostsEntry :: "HostEntry list \<Rightarrow> HostEntry \<Rightarrow> HostEntry list" where
  "upsertHostsEntry es desired = upsertFrom False es desired"

definition desiredHost :: "string \<Rightarrow> string \<Rightarrow> string list \<Rightarrow> string \<Rightarrow> HostEntry" where
  "desiredHost ip hostname aliases comment =
     emptyHost\<lparr>he_IP := ip, he_Hostname := hostname, he_Aliases := normalizeHostAliases hostname aliases,
       he_Comment := serializeHostsComment comment\<rparr>"

definition hostsCreate :: "'s packHost \<Rightarrow> StateData \<Rightarrow> 's \<Rightarrow> StateData res \<times> 's" where
  "hostsCreate H plan s =
     (let ip = GetString plan ''ip''; hostname = GetString plan ''hostname'';
          aliases = aliasList plan; comment = GetString plan ''comment'' in
      withLock H hostsPath (\<lambda>s.
        (case readText H hostsPath s of
           Inl e \<Rightarrow> (Inl e, s)
         | Inr content \<Rightarrow>
             let es = parseHosts content; desired = desiredHost ip hostname aliases comment in
             if list_ex (sameHost ip hostname) es then
               (Inl (importRequiredError ''hosts entry'' (hostsEntryID ip hostname)), s)
             else
               (case writeHosts H (upsertHostsEntry es desired) s of
                  (Inl e, s) \<Rightarrow> (Inl e, s)
                | (Inr _, s) \<Rightarrow> (Inr (hostsState ip hostname (he_Aliases desired) comment), s)))) s)"

text \<open>An update changes the first entry of the address and the name.\<close>

fun setFirst :: "string \<Rightarrow> string \<Rightarrow> string list \<Rightarrow> string \<Rightarrow> HostEntry list \<Rightarrow> HostEntry list option" where
  "setFirst ip hostname aliases comment [] = None"
| "setFirst ip hostname aliases comment (e # es) =
     (if sameHost ip hostname e then Some (e\<lparr>he_Aliases := aliases, he_Comment := comment\<rparr> # es)
      else map_option ((#) e) (setFirst ip hostname aliases comment es))"

definition hostsUpdate :: "'s packHost \<Rightarrow> StateData \<Rightarrow> StateData \<Rightarrow> 's \<Rightarrow> StateData res \<times> 's" where
  "hostsUpdate H prior plan s =
     (let ip = GetString prior ''ip''; hostname = GetString prior ''hostname'';
          aliases = aliasList plan; comment = GetString plan ''comment'' in
      withLock H hostsPath (\<lambda>s.
        (case readText H hostsPath s of
           Inl e \<Rightarrow> (Inl e, s)
         | Inr content \<Rightarrow>
             let normalizedAliases = normalizeHostAliases hostname aliases in
             (case setFirst ip hostname normalizedAliases (serializeHostsComment comment) (parseHosts content) of
                None \<Rightarrow> (Inl (Errorf (''hosts entry '' @ ip @ '' '' @ hostname @ '' not found during update'')), s)
              | Some es \<Rightarrow>
                  (case writeHosts H es s of
                     (Inl e, s) \<Rightarrow> (Inl e, s)
                   | (Inr _, s) \<Rightarrow> (Inr (hostsState ip hostname normalizedAliases comment), s))))) s)"

definition hostsDelete :: "'s packHost \<Rightarrow> StateData \<Rightarrow> 's \<Rightarrow> unit res \<times> 's" where
  "hostsDelete H state s =
     (let ip = GetString state ''ip''; hostname = GetString state ''hostname'' in
      withLock H hostsPath (\<lambda>s.
        (case readText H hostsPath s of
           Inl e \<Rightarrow> (Inl e, s)
         | Inr content \<Rightarrow> writeHosts H (filter (\<lambda>e. \<not> sameHost ip hostname e) (parseHosts content)) s)) s)"

definition hostsImportState :: "'s packHost \<Rightarrow> string \<Rightarrow> 's \<Rightarrow> StateData option res" where
  "hostsImportState H entryId s =
     (case Cut (CHR ''/'') entryId of
        None \<Rightarrow> Inl (Errorf (''import ID must be in the format \"ip/hostname\", got '' @ go_quote entryId))
      | Some (ip, hostname) \<Rightarrow>
          if ip = [] \<or> hostname = [] then
            Inl (Errorf (''import ID must be in the format \"ip/hostname\", got '' @ go_quote entryId))
          else hostsRead H [(''ip'', VStr ip), (''hostname'', VStr hostname)] s)"

subsection \<open>What validation gives\<close>

definition ipChar :: "char \<Rightarrow> bool" where
  "ipChar c \<longleftrightarrow> hexval c \<noteq> None \<or> c = CHR ''.'' \<or> c = CHR '':''"

lemma digit_ipChar: "is_digit c \<Longrightarrow> ipChar c"
  by (simp add: is_digit_def ipChar_def hexval_def)

lemma ipv4_chars: "ipv4Fields s prev pos val digLen \<Longrightarrow> list_all ipChar s"
  by (induction s prev pos val digLen rule: ipv4Fields.induct)
     (auto simp: Let_def digit_ipChar split: if_splits, auto simp: ipChar_def)

lemma hexGroup_chars: "hexGroup off acc s = Some (n, r) \<Longrightarrow> list_all ipChar r \<Longrightarrow> list_all ipChar s"
  by (induction off acc s rule: hexGroup.induct) (auto simp: Let_def ipChar_def split: option.splits if_splits)

lemma hd_tl_chars: "r \<noteq> [] \<Longrightarrow> ipChar (hd r) \<Longrightarrow> list_all ipChar (tl r) \<Longrightarrow> list_all ipChar r"
  by (cases r) auto

lemma ipv6_chars: "ipv6Loop i e s = Some (j, f, []) \<Longrightarrow> list_all ipChar s"
proof (induction i e s rule: ipv6Loop.induct)
  case (1 i e s)
  have col: "ipChar (CHR '':'')" by (simp add: ipChar_def)
  show ?case
  proof (cases "16 \<le> i")
    case True
    with "1.prems" show ?thesis by (subst (asm) ipv6Loop.simps) simp
  next
    case i: False
    then obtain off r where g: "hexGroup 0 0 s = Some (off, r)"
      using "1.prems" by (subst (asm) ipv6Loop.simps) (auto split: option.splits)
    show ?thesis
    proof (cases "r \<noteq> [] \<and> hd r = CHR ''.''")
      case True
      with "1.prems" g i have "ipv4Fields s None 0 0 0"
        by (subst (asm) ipv6Loop.simps) (auto split: if_splits)
      then show ?thesis by (rule ipv4_chars)
    next
      case dot: False
      have "list_all ipChar r"
      proof (cases "r = []")
        case r: False
        with "1.prems" g i dot have c: "off \<noteq> 0" "hd r = CHR '':''" "tl r \<noteq> []"
          by (subst (asm) ipv6Loop.simps, auto split: if_splits)+
        have "list_all ipChar (tl r)"
        proof (cases "hd (tl r) = CHR '':''")
          case True
          with "1.prems" g i dot c r have "\<not> e" "tl (tl r) = [] \<or> ipv6Loop (i + 2) True (tl (tl r)) = Some (j, f, [])"
            by (subst (asm) ipv6Loop.simps, auto split: if_splits)+
          then have "list_all ipChar (tl (tl r))"
            using "1.IH"(1) [OF i g refl c(1) dot r _ c(3) True] c(2)
            by (cases "tl (tl r) = []") simp_all
          then show ?thesis using True col c(3) by (intro hd_tl_chars [of "tl r"]) simp_all
        next
          case False
          with "1.prems" g i dot c r have "ipv6Loop (i + 2) e (tl r) = Some (j, f, [])"
            by (subst (asm) ipv6Loop.simps) (auto split: if_splits)
          with "1.IH"(2) [OF i g refl c(1) dot r _ c(3) False] c(2) show ?thesis by simp
        qed
        then show ?thesis using c(2) col r by (intro hd_tl_chars [of r]) simp_all
      qed simp
      with g show ?thesis by (rule hexGroup_chars)
    qed
  qed
qed

lemma ipChar_solid: "list_all ipChar s \<Longrightarrow> solid s \<and> CHR ''#'' \<notin> set s"
proof (induction s)
  case (Cons c s)
  then have c: "ipChar c" by simp
  then have n: "46 \<le> (of_char c :: nat) \<and> (of_char c :: nat) < 128"
    by (auto simp: ipChar_def hexval_def Let_def split: if_splits)
  then have "\<not> ascii_space c" "\<not> space2 c a" "\<not> space3 c a b" "c \<noteq> CHR ''#''" for a b
    by (auto simp: ascii_space_def space2_def space3_def)
  with Cons show ?case by (auto split: list.split)
qed simp

lemma validIP_token: "validIP ip \<Longrightarrow> hostToken ip"
proof -
  assume v: "validIP ip"
  have "list_all ipChar ip"
  proof -
    have "list_all ipChar ip" if six: "validIPv6 ip"
    proof (cases "HasPrefix ip ''::''")
      case True
      then have "ip = ''::'' @ drop 2 ip" by (metis HasPrefix_def append_take_drop_id length_Cons list.size(3) numeral_2_eq_2)
      moreover have "list_all ipChar (drop 2 ip)"
        using six True by (auto simp: validIPv6_def split: if_splits option.splits intro: ipv6_chars)
      ultimately show ?thesis by (metis list_all_append list.pred_inject(2) list.pred_inject(1) ipChar_def)
    next
      case False
      with six show ?thesis by (auto simp: validIPv6_def HasPrefix_def split: if_splits option.splits intro: ipv6_chars)
    qed
    with v show ?thesis by (auto simp: validIP_def split: option.splits if_splits intro: ipv4_chars)
  qed
  moreover have "ip \<noteq> []" using v by (auto simp: validIP_def)
  ultimately show ?thesis using ipChar_solid by (simp add: hostToken_def)
qed

lemma valid_token: "isValidHostToken w \<Longrightarrow> solid (TrimSpace w) \<Longrightarrow> hostToken (TrimSpace w)"
  by (auto simp: isValidHostToken_def hostToken_def ContainsAny_def list_ex_iff Let_def split: if_splits)

lemma newAliases_valid:
  "\<forall>a \<in> set as. isValidHostToken a \<and> solid (TrimSpace a) \<Longrightarrow> \<forall>a \<in> set (newAliases seen as). hostToken a"
  by (induction seen as rule: newAliases.induct) (auto simp: Let_def valid_token)

text \<open>A comment is written as one the parser keeps, and read back without its sign.\<close>

lemma comment_text:
  assumes "c \<noteq> []" "TrimSpace c = c"
  shows "TrimSpace (''# '' @ c) = ''# '' @ c"
proof (rule TrimSpace_keep)
  show "space_at_start (''# '' @ c) = 0" by (simp add: ascii_space_def space2_def space3_def split: list.split)
  show "space_at_end (rev (''# '' @ c)) = 0"
    using end_any [of "rev c" "CHR '' ''" "''#''"] Trim_end [OF assms] assms(1) by (simp add: isSpace_def)
qed

lemma comment_cases:
  "serializeHostsComment comment = (if hostsCommentState comment = [] then [] else ''# '' @ hostsCommentState comment)"
  by (auto simp: serializeHostsComment_def hostsCommentState_def Let_def TrimPrefix_def)

lemma comment_state_Trim: "TrimSpace (hostsCommentState comment) = hostsCommentState comment"
  by (simp add: hostsCommentState_def TrimSpace_idem)

lemma comment_written: "CHR 0x0A \<notin> set comment \<Longrightarrow> commentToken (serializeHostsComment comment)"
proof -
  assume nl: "CHR 0x0A \<notin> set comment"
  have "set (hostsCommentState comment) \<subseteq> set comment"
    using set_TrimSpace [of "TrimPrefix (TrimSpace comment) ''#''"] set_TrimSpace [of comment] set_drop_subset [of 1 "TrimSpace comment"]
    by (auto simp: hostsCommentState_def TrimPrefix_def split: if_splits)
  with nl show ?thesis
    using comment_text [OF _ comment_state_Trim] by (auto simp: comment_cases commentToken_def)
qed

lemma comment_read: "hostsCommentState (serializeHostsComment comment) = hostsCommentState comment"
proof (cases "hostsCommentState comment = []")
  case False
  let ?c = "hostsCommentState comment"
  have "TrimSpace (CHR '' '' # ?c) = ?c"
    using trim_sep [of "CHR '' ''" ?c] comment_state_Trim [of comment] by (simp add: isSpace_def TrimSpace_def)
  moreover have "TrimPrefix (''# '' @ ?c) ''#'' = CHR '' '' # ?c" by (simp add: TrimPrefix_def HasPrefix_def)
  ultimately show ?thesis
    using False comment_text [OF False comment_state_Trim] by (simp add: comment_cases) (simp add: hostsCommentState_def)
qed (simp add: comment_cases, simp add: hostsCommentState_def TrimPrefix_def)

subsection \<open>The entries as a map\<close>

definition hostsOf :: "HostEntry list \<Rightarrow> string \<times> string \<Rightarrow> (string list \<times> string) option" where
  "hostsOf es = (\<lambda>(ip, hostname).
     if ip = [] then None
     else map_option (\<lambda>e. (he_Aliases e, hostsCommentState (he_Comment e))) (find (sameHost ip hostname) es))"

definition hostsMap :: "string \<Rightarrow> string \<times> string \<Rightarrow> (string list \<times> string) option" where
  "hostsMap content = hostsOf (parseHosts content)"

lemma hostsOf_Nil [simp]: "hostsOf [] k = None"
  by (cases k) (simp add: hostsOf_def)

lemma hostsOf_Cons:
  "hostsOf (e # es) k =
     (if sameHost (fst k) (snd k) e \<and> fst k \<noteq> [] then Some (he_Aliases e, hostsCommentState (he_Comment e)) else hostsOf es k)"
  by (cases k) (auto simp: hostsOf_def)

lemma sameHost_key: "sameHost (fst k) (snd k) e \<longleftrightarrow> k = (he_IP e, he_Hostname e)"
  by (cases k) (auto simp: sameHost_def)

lemma hostsOf_new:
  "\<not> list_ex (sameHost (he_IP d) (he_Hostname d)) es \<Longrightarrow> he_IP d \<noteq> [] \<Longrightarrow>
   hostsOf (es @ [d]) k = ((hostsOf es)((he_IP d, he_Hostname d) \<mapsto> (he_Aliases d, hostsCommentState (he_Comment d)))) k \<and>
   hostsOf es (he_IP d, he_Hostname d) = None"
  by (induction es) (auto simp: hostsOf_Cons sameHost_key, auto simp: sameHost_def)

lemma hostsOf_set:
  "setFirst ip hn al co es = Some out \<Longrightarrow> ip \<noteq> [] \<Longrightarrow>
   hostsOf out = (hostsOf es)((ip, hn) \<mapsto> (al, hostsCommentState co)) \<and> hostsOf es (ip, hn) \<noteq> None"
proof (induction es arbitrary: out)
  case (Cons e es)
  show ?case
  proof (cases "sameHost ip hn e")
    case True
    with Cons.prems show ?thesis by (auto simp: hostsOf_def fun_eq_iff sameHost_def)
  next
    case False
    with Cons.prems obtain os where o: "setFirst ip hn al co es = Some os" "out = e # os" by auto
    from Cons.IH [OF o(1) Cons.prems(2)] False show ?thesis
      by (auto simp: o(2) hostsOf_Cons sameHost_key fun_eq_iff) (auto simp: sameHost_def)
  qed
qed simp

lemma hostsOf_remove:
  "ip \<noteq> [] \<Longrightarrow> hostsOf (filter (\<lambda>e. \<not> sameHost ip hn e) es) k = ((hostsOf es)((ip, hn) := None)) k"
  by (induction es) (auto simp: hostsOf_Cons sameHost_key, auto simp: sameHost_def)

lemma upsert_new: "\<not> list_ex (sameHost (he_IP d) (he_Hostname d)) es \<Longrightarrow> upsertHostsEntry es d = es @ [d]"
  unfolding upsertHostsEntry_def by (induction es) auto

lemma setFirst_rereads:
  "setFirst ip hn al co es = Some out \<Longrightarrow> \<forall>e \<in> set es. hostRereads e \<and> (he_IP e \<noteq> [] \<longrightarrow> hostEntry e) \<Longrightarrow> ip \<noteq> [] \<Longrightarrow>
   \<forall>a \<in> set al. hostToken a \<Longrightarrow> commentToken co \<Longrightarrow> out \<noteq> [] \<and> (\<forall>e \<in> set out. hostRereads e)"
proof (induction es arbitrary: out)
  case (Cons e es)
  show ?case
  proof (cases "sameHost ip hn e")
    case True
    with Cons.prems have "hostEntry (e\<lparr>he_Aliases := al, he_Comment := co\<rparr>)"
      by (auto simp: sameHost_def hostEntry_def)
    from entry_rereads [OF this] True Cons.prems show ?thesis by auto
  qed (use Cons in auto)
qed simp

text \<open>What the map of a file is once edited entries are written to it.\<close>

lemma written_map:
  assumes "\<forall>e \<in> set es. hostRereads e"
  shows "hostsMap (serializeHosts es) = hostsOf es"
proof (cases "es = []")
  case True
  have "TrimSpace [] = []" by simp
  with True show ?thesis
    by (auto simp: hostsMap_def hostsOf_def serializeHosts_def parseHosts_def parseHostLine_def emptyHost_def sameHost_def fun_eq_iff)
next
  case False
  with assms show ?thesis by (simp add: hostsMap_def serialize_rereads)
qed

subsection \<open>The operations on the map\<close>

datatype hostsCall =
    HCreate StateData
  | HUpdate StateData StateData
  | HDelete StateData

primrec hostsRun :: "'s packHost \<Rightarrow> hostsCall \<Rightarrow> 's \<Rightarrow> 's option" where
  "hostsRun H (HCreate plan) s = (case hostsCreate H plan s of (Inl e, t) \<Rightarrow> None | (Inr st, t) \<Rightarrow> Some t)"
| "hostsRun H (HUpdate prior plan) s = (case hostsUpdate H prior plan s of (Inl e, t) \<Rightarrow> None | (Inr st, t) \<Rightarrow> Some t)"
| "hostsRun H (HDelete state) s = (case hostsDelete H state s of (Inl e, t) \<Rightarrow> None | (Inr st, t) \<Rightarrow> Some t)"

definition hostsKey :: "StateData \<Rightarrow> string \<times> string" where
  "hostsKey state = (GetString state ''ip'', GetString state ''hostname'')"

definition hostsValue :: "string \<Rightarrow> StateData \<Rightarrow> string list \<times> string" where
  "hostsValue hostname plan =
     (normalizeHostAliases hostname (aliasList plan), hostsCommentState (GetString plan ''comment''))"

primrec hostsSpec ::
    "hostsCall \<Rightarrow> (string \<times> string \<Rightarrow> (string list \<times> string) option) \<Rightarrow> (string \<times> string \<Rightarrow> (string list \<times> string) option) option" where
  "hostsSpec (HCreate plan) m =
     (if m (hostsKey plan) = None then Some (m(hostsKey plan \<mapsto> hostsValue (snd (hostsKey plan)) plan)) else None)"
| "hostsSpec (HUpdate prior plan) m =
     (if m (hostsKey prior) = None then None else Some (m(hostsKey prior \<mapsto> hostsValue (snd (hostsKey prior)) plan)))"
| "hostsSpec (HDelete state) m = Some (m(hostsKey state := None))"

text \<open>A plan that passes validation, without white space inside its names and without a line break in its
  comment; validation asks for less (\<open>hosts_created_reads_back\<close>).\<close>

definition plainNames :: "StateData \<Rightarrow> bool" where
  "plainNames plan \<longleftrightarrow>
     hostsValidate plan = None \<and> (\<forall>a \<in> set (aliasList plan). solid (TrimSpace a)) \<and>
     CHR 0x0A \<notin> set (GetString plan ''comment'')"

primrec legalCall :: "hostsCall \<Rightarrow> bool" where
  "legalCall (HCreate plan) \<longleftrightarrow> plainNames plan \<and> solid (GetString plan ''hostname'')"
| "legalCall (HUpdate prior plan) \<longleftrightarrow> plainNames plan \<and> GetString prior ''ip'' \<noteq> []"
| "legalCall (HDelete state) \<longleftrightarrow> GetString state ''ip'' \<noteq> []"

lemma plainNames_parts:
  assumes "plainNames plan"
  shows "hostToken (GetString plan ''ip'')" "isValidHostToken (GetString plan ''hostname'')"
    "\<forall>a \<in> set (normalizeHostAliases hn (aliasList plan)). hostToken a"
    "commentToken (serializeHostsComment (GetString plan ''comment''))"
proof -
  have v: "validIP (GetString plan ''ip'')" "isValidHostToken (GetString plan ''hostname'')"
    "\<forall>a \<in> set (aliasList plan). isValidHostToken a"
    using assms by (auto simp: plainNames_def hostsValidate_def Let_def find_None_iff split: if_splits option.splits)
  then show "hostToken (GetString plan ''ip'')" "isValidHostToken (GetString plan ''hostname'')"
    by (simp_all add: validIP_token)
  show "\<forall>a \<in> set (normalizeHostAliases hn (aliasList plan)). hostToken a"
    unfolding normalizeHostAliases_def using v(3) assms by (intro newAliases_valid) (auto simp: plainNames_def)
  show "commentToken (serializeHostsComment (GetString plan ''comment''))"
    using assms by (intro comment_written) (simp add: plainNames_def)
qed

definition planHost :: "StateData \<Rightarrow> HostEntry" where
  "planHost plan = desiredHost (GetString plan ''ip'') (GetString plan ''hostname'') (aliasList plan) (GetString plan ''comment'')"

lemma planHost_entry:
  assumes "plainNames plan" "solid (GetString plan ''hostname'')"
  shows "hostEntry (planHost plan)"
  using plainNames_parts [OF assms(1)] valid_token [of "GetString plan ''hostname''"] assms(2)
  by (simp add: hostEntry_def planHost_def desiredHost_def emptyHost_def solid_Trim)

text \<open>A host with a hosts file that nobody has locked, and the entries of that file.\<close>

definition hostsReady :: "('s \<Rightarrow> string \<Rightarrow> string option) \<Rightarrow> ('s \<Rightarrow> string set) \<Rightarrow> 's \<Rightarrow> bool" where
  "hostsReady content held s \<longleftrightarrow> hostsPath \<notin> held s \<and> content s hostsPath \<noteq> None"

definition hostsAbs :: "('s \<Rightarrow> string \<Rightarrow> string option) \<Rightarrow> 's \<Rightarrow> string \<times> string \<Rightarrow> (string list \<times> string) option" where
  "hostsAbs content s = hostsMap (the (content s hostsPath))"

context text_files
begin

lemma create_effect:
  assumes "hostsPath \<notin> held s" "content s hostsPath = Some c" "hostsCreate H plan s = (Inr st, t)"
  shows "\<not> list_ex (sameHost (GetString plan ''ip'') (GetString plan ''hostname'')) (parseHosts c)"
    "content t = (content s)(hostsPath \<mapsto> serializeHosts (parseHosts c @ [planHost plan]))" "held t = held s"
    "st = hostsState (GetString plan ''ip'') (GetString plan ''hostname'') (he_Aliases (planHost plan)) (GetString plan ''comment'')"
proof -
  note lock = assms(3) [unfolded hostsCreate_def Let_def]
  show "\<not> list_ex (sameHost (GetString plan ''ip'') (GetString plan ''hostname'')) (parseHosts c)"
    by (rule locked_edit [OF assms(1,2) lock]) (auto split: if_splits)
  have up: "upsertHostsEntry (parseHosts c) (planHost plan) = parseHosts c @ [planHost plan]"
    using \<open>\<not> list_ex _ _\<close> by (intro upsert_new) (simp add: planHost_def desiredHost_def emptyHost_def)
  show "content t = (content s)(hostsPath \<mapsto> serializeHosts (parseHosts c @ [planHost plan]))" "held t = held s"
    "st = hostsState (GetString plan ''ip'') (GetString plan ''hostname'') (he_Aliases (planHost plan)) (GetString plan ''comment'')"
    by (rule locked_edit [OF assms(1,2) lock];
        use assms(1) up in \<open>auto simp: writeHosts_def planHost_def [symmetric] dest!: write_text split: if_splits prod.splits sum.splits\<close>)+
qed

lemma update_effect:
  assumes "hostsPath \<notin> held s" "content s hostsPath = Some c" "hostsUpdate H prior plan s = (Inr st, t)"
  obtains es where
    "setFirst (GetString prior ''ip'') (GetString prior ''hostname'') (fst (hostsValue (GetString prior ''hostname'') plan))
       (serializeHostsComment (GetString plan ''comment'')) (parseHosts c) = Some es"
    "content t = (content s)(hostsPath \<mapsto> serializeHosts es)" "held t = held s"
proof -
  note lock = assms(3) [unfolded hostsUpdate_def Let_def]
  show ?thesis
  proof (rule locked_edit [OF assms(1,2) lock], goal_cases)
    case (1 u v)
    from 1(1) obtain es where es: "setFirst (GetString prior ''ip'') (GetString prior ''hostname'')
        (normalizeHostAliases (GetString prior ''hostname'') (aliasList plan)) (serializeHostsComment (GetString plan ''comment'')) (parseHosts c) = Some es"
      by (auto split: option.splits)
    with 1(1) have "writeText H hostsPath (serializeHosts es) u = (Inr (), v)"
      by (auto simp: writeHosts_def split: prod.splits sum.splits)
    from write_text [OF this] 1 assms(1) have "content t = (content s)(hostsPath \<mapsto> serializeHosts es)" "held t = held s" by auto
    with es show ?case by (intro that) (simp_all add: hostsValue_def)
  qed
qed

lemma delete_effect:
  assumes "hostsPath \<notin> held s" "content s hostsPath = Some c" "hostsDelete H state s = (Inr r, t)"
  shows "content t = (content s)(hostsPath \<mapsto>
      serializeHosts (filter (\<lambda>e. \<not> sameHost (GetString state ''ip'') (GetString state ''hostname'') e) (parseHosts c)))"
    "held t = held s"
proof -
  note lock = assms(3) [unfolded hostsDelete_def Let_def]
  show "content t = (content s)(hostsPath \<mapsto>
      serializeHosts (filter (\<lambda>e. \<not> sameHost (GetString state ''ip'') (GetString state ''hostname'') e) (parseHosts c)))"
    "held t = held s"
    by (rule locked_edit [OF assms(1,2) lock]; use assms(1) in \<open>auto simp: writeHosts_def dest!: write_text\<close>)+
qed

lemma call_refines:
  assumes r: "hostsReady content held s" and l: "legalCall x" and x: "hostsRun H x s = Some t"
  shows "hostsReady content held t \<and> hostsSpec x (hostsAbs content s) = Some (hostsAbs content t) \<and> (\<forall>p. p \<noteq> hostsPath \<longrightarrow> content t p = content s p)"
proof -
  obtain c where c: "hostsPath \<notin> held s" "content s hostsPath = Some c" using r by (auto simp: hostsReady_def)
  have all: "\<forall>e \<in> set (parseHosts c). hostRereads e \<and> (he_IP e \<noteq> [] \<longrightarrow> hostEntry e)"
    using parsed_lines parsed_entry by auto
  show ?thesis
  proof (cases x)
    case (HCreate plan)
    with x obtain st where st: "hostsCreate H plan s = (Inr st, t)" by (auto split: prod.splits sum.splits)
    note e = create_effect [OF c st]
    let ?d = "planHost plan"
    have d: "hostEntry ?d" using l HCreate by (intro planHost_entry) simp_all
    have k: "he_IP ?d = GetString plan ''ip''" "he_Hostname ?d = GetString plan ''hostname''"
      "(he_Aliases ?d, hostsCommentState (he_Comment ?d)) = hostsValue (GetString plan ''hostname'') plan"
      by (simp_all add: planHost_def desiredHost_def emptyHost_def hostsValue_def comment_read)
    have "hostsMap (serializeHosts (parseHosts c @ [?d])) = hostsOf (parseHosts c @ [?d])"
      using all entry_rereads [OF d] by (intro written_map) auto
    with hostsOf_new [of ?d "parseHosts c"] e(1) k d show ?thesis
      using HCreate c e(2,3) by (auto simp: hostsReady_def hostsAbs_def hostsMap_def hostsKey_def fun_eq_iff hostEntry_def hostToken_def)
  next
    case (HUpdate prior plan)
    with x obtain st where st: "hostsUpdate H prior plan s = (Inr st, t)" by (auto split: prod.splits sum.splits)
    from update_effect [OF c st] obtain es where
      f: "setFirst (GetString prior ''ip'') (GetString prior ''hostname'') (fst (hostsValue (GetString prior ''hostname'') plan))
            (serializeHostsComment (GetString plan ''comment'')) (parseHosts c) = Some es"
      and t: "content t = (content s)(hostsPath \<mapsto> serializeHosts es)" "held t = held s" by metis
    have ip: "GetString prior ''ip'' \<noteq> []" and p: "plainNames plan" using l HUpdate by auto
    have "es \<noteq> [] \<and> (\<forall>e \<in> set es. hostRereads e)"
      by (rule setFirst_rereads [OF f all ip]) (use plainNames_parts [OF p] in \<open>auto simp: hostsValue_def\<close>)
    then have "hostsMap (serializeHosts es) = hostsOf es" by (intro written_map) simp
    with hostsOf_set [OF f ip] show ?thesis
      using HUpdate c t by (auto simp: hostsReady_def hostsAbs_def hostsMap_def hostsKey_def hostsValue_def comment_read)
  next
    case (HDelete state)
    with x have st: "hostsDelete H state s = (Inr (), t)" by (auto split: prod.splits sum.splits)
    note e = delete_effect [OF c st]
    let ?es = "filter (\<lambda>e. \<not> sameHost (GetString state ''ip'') (GetString state ''hostname'') e) (parseHosts c)"
    have "hostsMap (serializeHosts ?es) = hostsOf ?es" using all by (intro written_map) auto
    with hostsOf_remove [of "GetString state ''ip''" "GetString state ''hostname''" "parseHosts c"] l HDelete c e show ?thesis
      by (auto simp: hostsReady_def hostsAbs_def hostsMap_def hostsKey_def fun_eq_iff)
  qed
qed

end

sublocale text_files \<subseteq> hosts_map: refined_ops "hostsAbs content" "hostsReady content held" legalCall "hostsRun H" hostsSpec
  by unfold_locales (use call_refines in auto)

subsection \<open>Results\<close>

lemma found_solid: "find (sameHost ip hn) (parseHosts c) = Some e \<Longrightarrow> ip \<noteq> [] \<Longrightarrow> solid hn"
  using parsed_entry [of e c] by (auto simp: find_Some_iff sameHost_def hostEntry_def hostToken_def)

lemma find_snoc: "find P xs = None \<Longrightarrow> P d \<Longrightarrow> find P (xs @ [d]) = Some d"
  by (induction xs) (auto split: if_splits)

context text_files
begin

lemma created_read:
  assumes r: "hostsReady content held s" and p: "plainNames plan"
    and cm: "hostsCommentState (GetString plan ''comment'') = GetString plan ''comment''"
    and run: "hostsCreate H plan s = (Inr st, t)"
  shows "hostsRead H st t = Inr (if solid (GetString plan ''hostname'') then Some st else None)"
proof -
  obtain c where c: "hostsPath \<notin> held s" "content s hostsPath = Some c" using r by (auto simp: hostsReady_def)
  note e = create_effect [OF c run]
  let ?d = "planHost plan" and ?ip = "GetString plan ''ip''" and ?hn = "GetString plan ''hostname''"
  have st: "GetString st ''ip'' = ?ip" "GetString st ''hostname'' = ?hn" by (simp_all add: e(4) hostsState_def GetString_def)
  have f: "findEntry H ?ip ?hn t = Inr (find (sameHost ?ip ?hn) (parseHosts (serializeHosts (parseHosts c @ [?d]))))"
    using read_text [of t hostsPath] e(2) by (simp add: findEntry_def)
  show ?thesis
  proof (cases "solid ?hn")
    case True
    have d: "hostEntry ?d" using p True by (rule planHost_entry)
    have "parseHosts (serializeHosts (parseHosts c @ [?d])) = parseHosts c @ [?d]"
      using parsed_lines entry_rereads [OF d] by (intro serialize_rereads) auto
    moreover have "find (sameHost ?ip ?hn) (parseHosts c) = None" using e(1) by (auto simp: find_None_iff list_ex_iff)
    moreover have "sameHost ?ip ?hn ?d" "hostsCommentState (he_Comment ?d) = GetString plan ''comment''"
      "he_IP ?d = ?ip" "he_Hostname ?d = ?hn"
      by (simp_all add: planHost_def desiredHost_def emptyHost_def sameHost_def comment_read cm)
    ultimately show ?thesis using True f st by (simp add: hostsRead_def e(4) find_snoc)
  next
    case False
    have "?ip \<noteq> []" using plainNames_parts(1) [OF p] by (simp add: hostToken_def)
    then have "find (sameHost ?ip ?hn) (parseHosts x) = None" for x
      using found_solid False by (metis option.exhaust)
    with False f st show ?thesis by (simp add: hostsRead_def)
  qed
qed

lemma calls_refine:
  "hostsReady content held s \<Longrightarrow> list_all legalCall calls \<Longrightarrow> run_ops (hostsRun H) calls s = Some t \<Longrightarrow>
     hostsReady content held t \<and> run_ops hostsSpec calls (hostsAbs content s) = Some (hostsAbs content t)"
  by (rule hosts_map.run_refines)

end

definition demo_hosts_plan :: StateData where
  "demo_hosts_plan = [(''ip'', VStr ''1.1.1.1''), (''hostname'', VStr ''db''), (''aliases'', VStrs (Some [''d''])), (''comment'', VStr ''x'')]"

definition demo_hosts :: "unit apiState" where
  "demo_hosts = \<lparr>as_files = (\<lambda>p. if p = hostsPath then Some ''1.1.1.1 a'' else None), as_locks = {}, as_rest = ()\<rparr>"

definition demo_pack :: "unit apiState packHost" where
  "demo_pack = apiHost (\<lambda>cmd args x. (Inl (Errorf ''no command''), x))"

lemma demo_text_files: "text_files demo_pack as_files as_locks"
  unfolding demo_pack_def by (rule api.text_files_axioms)

lemma demo_hosts_ready: "hostsReady as_files as_locks demo_hosts"
  by (simp add: hostsReady_def demo_hosts_def)

lemma demo_plain: "plainNames demo_hosts_plan" "solid (GetString demo_hosts_plan ''hostname'')"
  "hostsCommentState (GetString demo_hosts_plan ''comment'') = GetString demo_hosts_plan ''comment''"
  by code_simp+

lemma demo_created:
  "fst (hostsCreate demo_pack demo_hosts_plan demo_hosts) = Inr (hostsState ''1.1.1.1'' ''db'' [''d''] ''x'')"
  by code_simp

text \<open>C13: The entry a successful creation reports is what the next read returns, exactly when its host name
  has no white space inside or around it; a name that validation accepts although it is surrounded
  by spaces, or has a line break in it, is written and never found again, so that Terraform takes the entry for
  gone. The plan's aliases are free of inner white space and its comment is one line that does not start with
  the sign.\<close>

theorem hosts_created_reads_back:
  assumes "text_files H content held" and "hostsReady content held s" and "plainNames plan"
    and "hostsCommentState (GetString plan ''comment'') = GetString plan ''comment''"
    and "hostsCreate H plan s = (Inr st, t)"
  shows "hostsRead H st t = Inr (if solid (GetString plan ''hostname'') then Some st else None)"
  using assms by (rule text_files.created_read)

theorem hosts_created_reads_back_witness:
  "hostsRead demo_pack (hostsState ''1.1.1.1'' ''db'' [''d''] ''x'') (snd (hostsCreate demo_pack demo_hosts_plan demo_hosts)) =
     Inr (Some (hostsState ''1.1.1.1'' ''db'' [''d''] ''x''))"
  using hosts_created_reads_back [OF demo_text_files demo_hosts_ready demo_plain(1,3), of _ "snd (hostsCreate demo_pack demo_hosts_plan demo_hosts)"]
    demo_created demo_plain(2) by (simp add: prod_eq_iff)

text \<open>C12: Creating, updating and deleting host entries, in any order and however often, does to the map from
  addresses and names to aliases and comments exactly what each call says, whatever the file held before, and
  leaves the file unlocked.\<close>

theorem hosts_calls_refine_map:
  assumes "text_files H content held" and "hostsReady content held s" and "list_all legalCall calls"
    and "run_ops (hostsRun H) calls s = Some t"
  shows "hostsReady content held t \<and> run_ops hostsSpec calls (hostsAbs content s) = Some (hostsAbs content t)"
  using assms by (rule text_files.calls_refine)

definition demo_calls :: "hostsCall list" where
  "demo_calls = [HCreate demo_hosts_plan, HDelete [(''ip'', VStr ''1.1.1.1''), (''hostname'', VStr ''a'')]]"

lemma demo_calls_run: "list_all legalCall demo_calls"
  "(case run_ops (hostsRun demo_pack) demo_calls demo_hosts of None \<Rightarrow> None | Some t \<Rightarrow> as_files t hostsPath) =
     Some (''1.1.1.1'' @ CHR 0x09 # ''db d # x'')"
  by code_simp+

theorem hosts_calls_refine_map_witness:
  "\<exists>t. run_ops (hostsRun demo_pack) demo_calls demo_hosts = Some t \<and> hostsReady as_files as_locks t \<and>
     run_ops hostsSpec demo_calls (hostsAbs as_files demo_hosts) = Some (hostsAbs as_files t)"
proof -
  obtain t where t: "run_ops (hostsRun demo_pack) demo_calls demo_hosts = Some t"
    using demo_calls_run(2) by (auto split: option.splits)
  from hosts_calls_refine_map [OF demo_text_files demo_hosts_ready demo_calls_run(1) t] t show ?thesis by blast
qed

end
