(* ===== verification/Fstab.thy ===== *)
theory Fstab
  imports HostsFile PackHost
begin

text \<open>
  The \<open>fstab_entry\<close> and \<open>swap\<close> resources of guest/packs/linux/files_config/main.go: \<open>/etc/fstab\<close> as a list of
  lines, its reader and writer, the operations on the entry of a mount point, and how swap is switched
  off and on by turning swap lines into marked comments and back.
\<close>

record fstabEntry =
  fe_Device :: string
  fe_Mount :: string
  fe_FSType :: string
  fe_Options :: "string list"
  fe_Dump :: int
  fe_PassNo :: int
  fe_Raw :: string
  fe_Comment :: bool
  fe_Blank :: bool

definition emptyFstab :: fstabEntry where
  "emptyFstab = \<lparr>fe_Device = [], fe_Mount = [], fe_FSType = [], fe_Options = [], fe_Dump = 0, fe_PassNo = 0,
     fe_Raw = [], fe_Comment = False, fe_Blank = False\<rparr>"

definition fstabConfigPath :: string where
  "fstabConfigPath = ''/etc/fstab''"

definition swapInfoPath :: string where
  "swapInfoPath = ''/proc/swaps''"

definition swapDisabledCommentPrefix :: string where
  "swapDisabledCommentPrefix = ''# tf-linux-provider swap disabled: ''"

subsection \<open>Lines\<close>

text \<open>The error of \<open>strconv.Atoi\<close> on a text it does not take.\<close>

definition atoiError :: "string \<Rightarrow> error" where
  "atoiError s =
     (let ds = (if s \<noteq> [] \<and> (hd s = CHR ''-'' \<or> hd s = CHR ''+'') then tl s else s) in
      Errorf (''strconv.Atoi: parsing '' @ go_quote s @
        (if ds = [] \<or> \<not> list_all is_digit ds then '': invalid syntax'' else '': value out of range'')))"

definition dataFstab :: "string list \<Rightarrow> int \<Rightarrow> int \<Rightarrow> fstabEntry" where
  "dataFstab flds dump passNo =
     emptyFstab\<lparr>fe_Device := flds ! 0, fe_Mount := flds ! 1, fe_FSType := flds ! 2,
       fe_Options := Split (CHR '','') (flds ! 3), fe_Dump := dump, fe_PassNo := passNo\<rparr>"

definition readFstabLine :: "string \<Rightarrow> fstabEntry res" where
  "readFstabLine line =
     (let trimmed0 = TrimSpace line; flds = Fields line in
      if trimmed0 = [] then Inr (emptyFstab\<lparr>fe_Blank := True, fe_Raw := line\<rparr>)
      else if HasPrefix trimmed0 ''#'' then Inr (emptyFstab\<lparr>fe_Comment := True, fe_Raw := line\<rparr>)
      else if length flds < 6 then Inr (emptyFstab\<lparr>fe_Comment := True, fe_Raw := line\<rparr>)
      else
        (case Atoi (flds ! 4) of
           None \<Rightarrow> Inl (Wrapf (''parse dump value in '' @ fstabConfigPath @ '': '') (atoiError (flds ! 4)) [])
         | Some dump \<Rightarrow>
             (case Atoi (flds ! 5) of
                None \<Rightarrow> Inl (Wrapf (''parse passno value in '' @ fstabConfigPath @ '': '') (atoiError (flds ! 5)) [])
              | Some passNo \<Rightarrow> Inr (dataFstab flds dump passNo))))"

text \<open>The first line that cannot be read fails the file.\<close>

fun sequenceRes :: "'a res list \<Rightarrow> 'a list res" where
  "sequenceRes [] = Inr []"
| "sequenceRes (Inl e # rs) = Inl e"
| "sequenceRes (Inr x # rs) = (case sequenceRes rs of Inl e \<Rightarrow> Inl e | Inr xs \<Rightarrow> Inr (x # xs))"

definition parseFstab :: "string \<Rightarrow> fstabEntry list res" where
  "parseFstab content = sequenceRes (map readFstabLine (Split (CHR 0x0A) content))"

definition readFstabEntries :: "'s packHost \<Rightarrow> 's \<Rightarrow> fstabEntry list res" where
  "readFstabEntries H s =
     (case readText H fstabConfigPath s of Inl e \<Rightarrow> Inl e | Inr content \<Rightarrow> parseFstab content)"

definition serializeFstabDataEntry :: "fstabEntry \<Rightarrow> string" where
  "serializeFstabDataEntry entry =
     joinWith [CHR 0x09]
       [fe_Device entry, fe_Mount entry, fe_FSType entry, joinWith '','' (fe_Options entry),
        show_int (fe_Dump entry), show_int (fe_PassNo entry)]"

definition fstabLine :: "fstabEntry \<Rightarrow> string" where
  "fstabLine entry = (if fe_Blank entry \<or> fe_Comment entry then fe_Raw entry else serializeFstabDataEntry entry)"

definition endLine :: "string \<Rightarrow> string" where
  "endLine data = (if data \<noteq> [] \<and> last data \<noteq> CHR 0x0A then data @ [CHR 0x0A] else data)"

definition fstabText :: "fstabEntry list \<Rightarrow> string" where
  "fstabText es = endLine (joinWith [CHR 0x0A] (map fstabLine es))"

definition writeFstabEntries :: "'s packHost \<Rightarrow> fstabEntry list \<Rightarrow> 's \<Rightarrow> unit res \<times> 's" where
  "writeFstabEntries H es s = writeText H fstabConfigPath (fstabText es) s"

subsection \<open>The entry of a mount point\<close>

definition findFstabEntry :: "'s packHost \<Rightarrow> string \<Rightarrow> 's \<Rightarrow> fstabEntry option res" where
  "findFstabEntry H mount s =
     (case readFstabEntries H s of
        Inl e \<Rightarrow> Inl e
      | Inr es \<Rightarrow> Inr (find (\<lambda>e. fe_Mount e = mount) es))"

definition putFstab :: "fstabEntry \<Rightarrow> fstabEntry list \<Rightarrow> fstabEntry list" where
  "putFstab entry es =
     (if list_ex (\<lambda>e. fe_Mount e = fe_Mount entry) es
      then map (\<lambda>e. if fe_Mount e = fe_Mount entry then entry else e) es
      else es @ [entry])"

definition upsertFstabEntry :: "'s packHost \<Rightarrow> fstabEntry \<Rightarrow> 's \<Rightarrow> unit res \<times> 's" where
  "upsertFstabEntry H entry s =
     withLock H fstabConfigPath (\<lambda>s.
       (case readFstabEntries H s of
          Inl e \<Rightarrow> (Inl e, s)
        | Inr es \<Rightarrow> writeFstabEntries H (putFstab entry es) s)) s"

definition deleteFstabEntry :: "'s packHost \<Rightarrow> string \<Rightarrow> 's \<Rightarrow> unit res \<times> 's" where
  "deleteFstabEntry H mount s =
     withLock H fstabConfigPath (\<lambda>s.
       (case readFstabEntries H s of
          Inl e \<Rightarrow> (Inl e, s)
        | Inr es \<Rightarrow> writeFstabEntries H (filter (\<lambda>e. fe_Mount e \<noteq> mount) es) s)) s"

definition fstabValidate :: "StateData \<Rightarrow> error option" where
  "fstabValidate config =
     (case find (\<lambda>key. TrimSpace (GetString config key) = []) [''device'', ''mount'', ''fstype''] of
        Some key \<Rightarrow> Some (Errorf (key @ '' must not be empty''))
      | None \<Rightarrow>
          if \<not> HasPrefix (GetString config ''mount'') ''/'' then Some (Errorf ''mount must be an absolute path'')
          else if GetInt config ''dump'' < 0 then Some (Errorf ''dump must be >= 0'')
          else if GetInt config ''passno'' < 0 then Some (Errorf ''passno must be >= 0'')
          else None)"

definition fstabState :: "fstabEntry \<Rightarrow> StateData" where
  "fstabState entry =
     [(''id'', VStr (fe_Mount entry)), (''device'', VStr (fe_Device entry)), (''mount'', VStr (fe_Mount entry)),
      (''fstype'', VStr (fe_FSType entry)), (''dump'', VInt (fe_Dump entry)), (''passno'', VInt (fe_PassNo entry))] @
     (if fe_Options entry \<noteq> [] then [(''options'', VStrs (Some (fe_Options entry)))] else [])"

definition fstabRead :: "'s packHost \<Rightarrow> StateData \<Rightarrow> 's \<Rightarrow> StateData option res" where
  "fstabRead H state s =
     (case findFstabEntry H (GetString state ''mount'') s of
        Inl e \<Rightarrow> Inl e
      | Inr None \<Rightarrow> Inr None
      | Inr (Some entry) \<Rightarrow> Inr (Some (fstabState entry)))"

definition withDefaultList :: "string list option \<Rightarrow> string list \<Rightarrow> string list" where
  "withDefaultList values def = (case values of None \<Rightarrow> def | Some l \<Rightarrow> if l = [] then def else l)"

definition planFstab :: "StateData \<Rightarrow> fstabEntry" where
  "planFstab plan =
     emptyFstab\<lparr>fe_Device := GetString plan ''device'', fe_Mount := GetString plan ''mount'',
       fe_FSType := GetString plan ''fstype'', fe_Options := withDefaultList (GetStringList plan ''options'') [''defaults''],
       fe_Dump := GetInt plan ''dump'', fe_PassNo := GetInt plan ''passno''\<rparr>"

definition applyFstabEntry :: "'s packHost \<Rightarrow> StateData \<Rightarrow> 's \<Rightarrow> StateData option res \<times> 's" where
  "applyFstabEntry H plan s =
     (case upsertFstabEntry H (planFstab plan) s of
        (Inl e, s) \<Rightarrow> (Inl e, s)
      | (Inr _, s) \<Rightarrow> (fstabRead H [(''mount'', VStr (fe_Mount (planFstab plan)))] s, s))"

definition fstabCreate :: "'s packHost \<Rightarrow> StateData \<Rightarrow> 's \<Rightarrow> StateData option res \<times> 's" where
  "fstabCreate H plan s =
     (case findFstabEntry H (GetString plan ''mount'') s of
        Inl e \<Rightarrow> (Inl e, s)
      | Inr (Some existing) \<Rightarrow> (Inl (importRequiredError ''fstab entry'' (fe_Mount existing)), s)
      | Inr None \<Rightarrow> applyFstabEntry H plan s)"

definition fstabUpdate :: "'s packHost \<Rightarrow> StateData \<Rightarrow> StateData \<Rightarrow> 's \<Rightarrow> StateData option res \<times> 's" where
  "fstabUpdate H prior plan s = applyFstabEntry H plan s"

definition fstabDelete :: "'s packHost \<Rightarrow> StateData \<Rightarrow> 's \<Rightarrow> unit res \<times> 's" where
  "fstabDelete H state s = deleteFstabEntry H (GetString state ''mount'') s"

definition fstabImportState :: "'s packHost \<Rightarrow> string \<Rightarrow> 's \<Rightarrow> StateData option res" where
  "fstabImportState H entryId s =
     (if TrimSpace entryId = [] \<or> \<not> HasPrefix entryId ''/'' then
        Inl (Errorf ''import ID must be an absolute mount path'')
      else fstabRead H [(''mount'', VStr entryId)] s)"

subsection \<open>Swap\<close>

text \<open>\<open>strings.EqualFold\<close> with \<open>swap\<close>: U+017F folds to \<open>s\<close> too; the other letters have no folding outside
  ASCII.\<close>

fun foldLongS :: "string \<Rightarrow> string" where
  "foldLongS (a # b # s) =
     (if a = CHR 0xC5 \<and> b = CHR 0xBF then CHR ''s'' # foldLongS s else a # foldLongS (b # s))"
| "foldLongS s = s"

definition isSwap :: "fstabEntry \<Rightarrow> bool" where
  "isSwap entry \<longleftrightarrow> EqualFold (foldLongS (TrimSpace (fe_FSType entry))) ''swap''"

definition isData :: "fstabEntry \<Rightarrow> bool" where
  "isData entry \<longleftrightarrow> \<not> (fe_Blank entry \<or> fe_Comment entry)"

definition activeSwapPresent :: "'s packHost \<Rightarrow> 's \<Rightarrow> bool res" where
  "activeSwapPresent H s =
     (case readText H swapInfoPath s of
        Inl e \<Rightarrow> Inl e
      | Inr content \<Rightarrow>
          let lines = Split (CHR 0x0A) (TrimSpace content) in
          Inr (if length lines \<le> 1 then False else list_ex (\<lambda>line. TrimSpace line \<noteq> []) (tl lines)))"

definition disabledSwap :: "fstabEntry \<Rightarrow> fstabEntry" where
  "disabledSwap entry =
     (if isData entry \<and> isSwap entry
      then emptyFstab\<lparr>fe_Comment := True, fe_Raw := swapDisabledCommentPrefix @ serializeFstabDataEntry entry\<rparr>
      else entry)"

definition disableSwapEntries :: "fstabEntry list \<Rightarrow> fstabEntry list \<times> bool" where
  "disableSwapEntries es = (map disabledSwap es, list_ex (\<lambda>e. isData e \<and> isSwap e) es)"

definition parseFstabDataLine :: "string \<Rightarrow> fstabEntry res" where
  "parseFstabDataLine line =
     (let flds = Fields line in
      if length flds < 6 then Inl (Errorf (''invalid fstab entry '' @ go_quote line))
      else
        (case Atoi (flds ! 4) of
           None \<Rightarrow> Inl (Wrapf (''parse dump value in '' @ go_quote line @ '': '') (atoiError (flds ! 4)) [])
         | Some dump \<Rightarrow>
             (case Atoi (flds ! 5) of
                None \<Rightarrow> Inl (Wrapf (''parse passno value in '' @ go_quote line @ '': '') (atoiError (flds ! 5)) [])
              | Some passNo \<Rightarrow> Inr (dataFstab flds dump passNo))))"

definition parseManagedDisabledSwapEntry :: "fstabEntry \<Rightarrow> fstabEntry option res" where
  "parseManagedDisabledSwapEntry entry =
     (if \<not> fe_Comment entry then Inr None
      else
        (let trimmed0 = TrimSpace (fe_Raw entry) in
         if \<not> HasPrefix trimmed0 swapDisabledCommentPrefix then Inr None
         else
           (case parseFstabDataLine (TrimSpace (TrimPrefix trimmed0 swapDisabledCommentPrefix)) of
              Inl e \<Rightarrow> Inl (Wrapf ''parse managed disabled swap entry: '' e [])
            | Inr restored \<Rightarrow>
                if \<not> isSwap restored then
                  Inl (Errorf (''managed disabled swap entry is not a swap line: '' @ go_quote (fe_Raw entry)))
                else Inr (Some restored))))"

fun restoreManagedSwapEntries :: "fstabEntry list \<Rightarrow> (fstabEntry list \<times> bool \<times> bool) res" where
  "restoreManagedSwapEntries [] = Inr ([], False, False)"
| "restoreManagedSwapEntries (e # es) =
     (case parseManagedDisabledSwapEntry e of
        Inl err \<Rightarrow> Inl err
      | Inr r \<Rightarrow>
          (case restoreManagedSwapEntries es of
             Inl err \<Rightarrow> Inl err
           | Inr (updated, changed, restoredAny) \<Rightarrow>
               (case r of
                  Some restored \<Rightarrow> Inr (restored # updated, True, True)
                | None \<Rightarrow> Inr (e # updated, changed, restoredAny))))"

definition hasEnabledSwapEntries :: "fstabEntry list \<Rightarrow> bool" where
  "hasEnabledSwapEntries es = list_ex (\<lambda>e. isData e \<and> isSwap e) es"

definition readSwapEnabledState :: "'s packHost \<Rightarrow> 's \<Rightarrow> bool res" where
  "readSwapEnabledState H s =
     (case activeSwapPresent H s of
        Inl e \<Rightarrow> Inl e
      | Inr active \<Rightarrow>
          (case readFstabEntries H s of
             Inl e \<Rightarrow> Inl e
           | Inr es \<Rightarrow> Inr (active \<or> hasEnabledSwapEntries es)))"

definition commandFailureDetail :: "CmdResult \<Rightarrow> string" where
  "commandFailureDetail result =
     (let detail = TrimSpace (cr_Stderr result);
          detail = (if detail = [] then TrimSpace (cr_Stdout result) else detail) in
      if detail = [] then ''exit '' @ show_int (cr_ExitCode result)
      else ''exit '' @ show_int (cr_ExitCode result) @ '': '' @ detail)"

definition runSwapCommand :: "'s packHost \<Rightarrow> string \<Rightarrow> string list \<Rightarrow> 's \<Rightarrow> unit res \<times> 's" where
  "runSwapCommand H cmd args s =
     (case ph_exec H cmd args s of
        (Inl e, s) \<Rightarrow> (Inl (Wrapf (''run '' @ cmd @ '' '' @ joinWith '' '' args @ '': '') e []), s)
      | (Inr result, s) \<Rightarrow>
          (if cr_ExitCode result \<noteq> 0 then
             Inl (Errorf (''run '' @ cmd @ '' '' @ joinWith '' '' args @ '' failed ('' @ commandFailureDetail result @ '')''))
           else Inr (), s))"

definition disableManagedSwap :: "'s packHost \<Rightarrow> 's \<Rightarrow> unit res \<times> 's" where
  "disableManagedSwap H s =
     (case activeSwapPresent H s of
        Inl e \<Rightarrow> (Inl e, s)
      | Inr active \<Rightarrow>
          withLock H fstabConfigPath (\<lambda>s.
            (case readFstabEntries H s of
               Inl e \<Rightarrow> (Inl e, s)
             | Inr es \<Rightarrow>
                 let (updated, changed) = disableSwapEntries es in
                 (case (if changed then writeFstabEntries H updated s else (Inr (), s)) of
                    (Inl e, s) \<Rightarrow> (Inl e, s)
                  | (Inr _, s) \<Rightarrow> if active then runSwapCommand H ''swapoff'' [''-a''] s else (Inr (), s)))) s)"

definition enableManagedSwap :: "'s packHost \<Rightarrow> bool \<Rightarrow> 's \<Rightarrow> unit res \<times> 's" where
  "enableManagedSwap H strict s =
     (case activeSwapPresent H s of
        Inl e \<Rightarrow> (Inl e, s)
      | Inr activeBefore \<Rightarrow>
          withLock H fstabConfigPath (\<lambda>s.
            (case readFstabEntries H s of
               Inl e \<Rightarrow> (Inl e, s)
             | Inr es \<Rightarrow>
                 (case restoreManagedSwapEntries es of
                    Inl e \<Rightarrow> (Inl e, s)
                  | Inr (updated, changed, restoredAny) \<Rightarrow>
                      let persistentEnabled = hasEnabledSwapEntries updated in
                      (case (if changed then writeFstabEntries H updated s else (Inr (), s)) of
                         (Inl e, s) \<Rightarrow> (Inl e, s)
                       | (Inr _, s) \<Rightarrow>
                           if \<not> activeBefore \<and> \<not> persistentEnabled \<and> \<not> restoredAny then
                             (if strict then
                                Inl (Errorf ''cannot enable swap: no active or managed swap entries were found'')
                              else Inr (), s)
                           else if changed \<or> (\<not> activeBefore \<and> persistentEnabled) then
                             runSwapCommand H ''swapon'' [''-a''] s
                           else (Inr (), s))))) s)"

definition buildSwapState :: "bool \<Rightarrow> StateData" where
  "buildSwapState enabled = [(''id'', VStr ''system''), (''enabled'', VBool enabled)]"

definition swapValidate :: "StateData \<Rightarrow> error option" where
  "swapValidate config = (if map_of config ''enabled'' = None then Some (Errorf ''enabled must be set'') else None)"

definition swapRead :: "'s packHost \<Rightarrow> 's \<Rightarrow> StateData res" where
  "swapRead H s = (case readSwapEnabledState H s of Inl e \<Rightarrow> Inl e | Inr enabled \<Rightarrow> Inr (buildSwapState enabled))"

definition applySwap :: "'s packHost \<Rightarrow> StateData \<Rightarrow> 's \<Rightarrow> StateData res \<times> 's" where
  "applySwap H plan s =
     (case (if GetBool plan ''enabled'' then enableManagedSwap H True s else disableManagedSwap H s) of
        (Inl e, s) \<Rightarrow> (Inl e, s)
      | (Inr _, s) \<Rightarrow> (Inr (buildSwapState (GetBool plan ''enabled'')), s))"

definition swapDelete :: "'s packHost \<Rightarrow> StateData option \<Rightarrow> 's \<Rightarrow> unit res \<times> 's" where
  "swapDelete H state s =
     (case state of
        None \<Rightarrow> (Inr (), s)
      | Some values \<Rightarrow> if GetBool values ''enabled'' then (Inr (), s) else enableManagedSwap H False s)"

definition swapImportState :: "'s packHost \<Rightarrow> string \<Rightarrow> 's \<Rightarrow> StateData res" where
  "swapImportState H entryId s =
     (let trimmed0 = TrimSpace entryId in
      if trimmed0 \<noteq> [] \<and> trimmed0 \<noteq> ''system'' \<and> trimmed0 \<noteq> ''swap'' then
        Inl (Errorf (''import ID must be empty, \"system\", or \"swap\", got '' @ go_quote entryId))
      else swapRead H s)"

subsection \<open>Lines that read back\<close>

definition fstabWord :: "string \<Rightarrow> bool" where
  "fstabWord w \<longleftrightarrow> w \<noteq> [] \<and> solid w"

lemma Fields_joined: "ws \<noteq> [] \<Longrightarrow> list_all fstabWord ws \<Longrightarrow> isSpace c \<Longrightarrow> Fields (joinWith [c] ws) = ws"
  by (induction ws rule: induct_list012) (auto simp: fstabWord_def Fields_last Fields_word)

lemma Trim_joined: "ws \<noteq> [] \<Longrightarrow> list_all fstabWord ws \<Longrightarrow> isSpace c \<Longrightarrow> TrimSpace (joinWith [c] ws) = joinWith [c] ws"
proof (cases ws rule: rev_cases)
  case (snoc vs v)
  assume w: "list_all fstabWord ws" "isSpace c"
  show ?thesis
  proof (cases vs)
    case Nil
    with w snoc show ?thesis by (simp add: solid_Trim fstabWord_def)
  next
    case (Cons u us)
    have "space_at_end (rev (joinWith [c] ws)) = 0"
    proof -
      have "joinWith [c] ws = joinWith [c] vs @ c # v" using snoc Cons joinWith_snoc [of "[c]" vs v] by simp
      with w snoc end_sep [of v c] show ?thesis by (simp add: fstabWord_def)
    qed
    moreover have "space_at_start (joinWith [c] ws) = 0"
    proof -
      obtain q where "joinWith [c] ws = u @ c # q" using snoc Cons by (cases us) auto
      moreover have "space_at_start u = 0" "u \<noteq> []"
        using w snoc Cons by (auto simp: fstabWord_def neq_Nil_conv simp del: space_at_start.simps)
      ultimately show ?thesis using start_sep w(2) by simp
    qed
    ultimately show ?thesis by (intro TrimSpace_keep)
  qed
qed simp

lemma digits_solid: "list_all is_digit s \<Longrightarrow> solid s \<and> CHR '','' \<notin> set s"
proof (induction s)
  case (Cons c s)
  then have "48 \<le> (of_char c :: nat) \<and> (of_char c :: nat) \<le> 57" by (simp add: is_digit_def)
  then have "\<not> ascii_space c" "\<not> space2 c a" "\<not> space3 c a b" "c \<noteq> CHR '',''" for a b
    by (auto simp: ascii_space_def space2_def space3_def)
  with Cons show ?case by (auto split: list.split)
qed simp

lemma show_int_word: "fstabWord (show_int i)"
proof -
  have d: "list_all is_digit (show_nat n)" "show_nat n \<noteq> []" for n using show_nat_digits by auto
  have "solid (CHR ''-'' # show_nat n)" for n
    using digits_solid [OF d(1) [of n]] by (auto simp: ascii_space_def space2_def space3_def split: list.split)
  with d digits_solid show ?thesis by (simp add: fstabWord_def show_int_def)
qed

definition int64 :: "int \<Rightarrow> bool" where
  "int64 i \<longleftrightarrow> - (2 ^ 63) \<le> i \<and> i < 2 ^ 63"

lemma Atoi_range: "Atoi s = Some i \<Longrightarrow> int64 i"
  by (auto simp: Atoi_def int64_def Let_def split: if_splits)

lemma Atoi_show_int: "int64 i \<Longrightarrow> Atoi (show_int i) = Some i"
proof (cases "i < 0")
  case True
  assume "int64 i"
  with True have "nat (- i) \<le> 2 ^ 63" by (simp add: int64_def)
  with True show ?thesis using show_nat_digits [of "nat (- i)"] by (simp add: show_int_def Atoi_def Let_def)
next
  case False
  assume "int64 i"
  with False have "nat i < 2 ^ 63" by (simp add: int64_def)
  with False Atoi_show_nat [of "nat i"] show ?thesis by (simp add: show_int_def)
qed

text \<open>An entry as it is read from a line.\<close>

definition goodData :: "fstabEntry \<Rightarrow> bool" where
  "goodData e \<longleftrightarrow>
     fstabWord (fe_Device e) \<and> hd (fe_Device e) \<noteq> CHR ''#'' \<and> fstabWord (fe_Mount e) \<and> fstabWord (fe_FSType e) \<and>
     fstabWord (joinWith '','' (fe_Options e)) \<and> Split (CHR '','') (joinWith '','' (fe_Options e)) = fe_Options e \<and>
     int64 (fe_Dump e) \<and> int64 (fe_PassNo e) \<and> fe_Raw e = [] \<and> \<not> fe_Comment e \<and> \<not> fe_Blank e"

lemma Split_ne: "Split c s \<noteq> []"
  by (cases s) (auto split: list.splits)

lemma joinWith_Split: "joinWith [c] (Split c s) = s"
proof (induction s)
  case (Cons x s)
  obtain y ys where y: "Split c s = y # ys" using Split_ne by (metis list.exhaust)
  with Cons show ?case by (cases ys) auto
qed simp

definition fstabWords :: "fstabEntry \<Rightarrow> string list" where
  "fstabWords e = [fe_Device e, fe_Mount e, fe_FSType e, joinWith '','' (fe_Options e), show_int (fe_Dump e), show_int (fe_PassNo e)]"

lemma data_words: "goodData e \<Longrightarrow> list_all fstabWord (fstabWords e)"
  by (simp add: goodData_def fstabWords_def show_int_word)

lemma data_text: "serializeFstabDataEntry e = joinWith [CHR 0x09] (fstabWords e)"
  by (simp add: serializeFstabDataEntry_def fstabWords_def)

lemma data_fields: "goodData e \<Longrightarrow> Fields (serializeFstabDataEntry e) = fstabWords e"
  unfolding data_text by (rule Fields_joined) (simp_all add: data_words, simp_all add: fstabWords_def isSpace_def)

lemma data_Trim: "goodData e \<Longrightarrow> TrimSpace (serializeFstabDataEntry e) = serializeFstabDataEntry e"
  unfolding data_text by (rule Trim_joined) (simp_all add: data_words, simp_all add: fstabWords_def isSpace_def)

lemma data_head: "goodData e \<Longrightarrow> \<exists>q. serializeFstabDataEntry e = fe_Device e @ CHR 0x09 # q"
  by (simp add: serializeFstabDataEntry_def)

lemma data_same: "goodData e \<Longrightarrow> dataFstab (fstabWords e) (fe_Dump e) (fe_PassNo e) = e"
  by (simp add: dataFstab_def fstabWords_def goodData_def emptyFstab_def)

lemma data_read: "goodData e \<Longrightarrow> readFstabLine (serializeFstabDataEntry e) = Inr e"
proof -
  assume e: "goodData e"
  have d: "fe_Device e \<noteq> []" "hd (fe_Device e) \<noteq> CHR ''#''" using e by (auto simp: goodData_def fstabWord_def)
  obtain q where q: "serializeFstabDataEntry e = fe_Device e @ CHR 0x09 # q" using data_head [OF e] by blast
  then have "serializeFstabDataEntry e \<noteq> []" "\<not> HasPrefix (serializeFstabDataEntry e) ''#''" using d by (auto simp: HasPrefix_hd)
  moreover have "fstabWords e ! 4 = show_int (fe_Dump e)" "fstabWords e ! 5 = show_int (fe_PassNo e)" "length (fstabWords e) = 6"
    by (simp_all add: fstabWords_def)
  moreover have "int64 (fe_Dump e)" "int64 (fe_PassNo e)" using e by (simp_all add: goodData_def)
  ultimately show ?thesis
    using e by (simp add: readFstabLine_def data_Trim data_fields data_same Atoi_show_int Let_def)
qed

lemma words_newline: "list_all fstabWord ws \<Longrightarrow> CHR 0x0A \<notin> set (joinWith [CHR 0x09] ws)"
  by (induction ws rule: induct_list012) (auto simp: fstabWord_def dest: solid_newline)

lemma data_newline: "goodData e \<Longrightarrow> CHR 0x0A \<notin> set (serializeFstabDataEntry e)"
  unfolding data_text by (rule words_newline) (rule data_words)

definition fstabRereads :: "fstabEntry \<Rightarrow> bool" where
  "fstabRereads e \<longleftrightarrow> readFstabLine (fstabLine e) = Inr e \<and> CHR 0x0A \<notin> set (fstabLine e)"

lemma data_rereads: "goodData e \<Longrightarrow> fstabRereads e"
  using data_read data_newline by (auto simp: fstabRereads_def fstabLine_def goodData_def)

lemma Trim_hd: "TrimSpace s \<noteq> [] \<Longrightarrow> hd (TrimSpace s) = hd (trim_by space_at_start s)"
proof -
  assume ne: "TrimSpace s \<noteq> []"
  obtain p where "rev (trim_by space_at_start s) = p @ trim_by space_at_end (rev (trim_by space_at_start s))"
    using trim_by_suffix by blast
  then have "trim_by space_at_start s = TrimSpace s @ rev p" by (metis TrimSpace_def rev_append rev_rev_ident)
  with ne show ?thesis by simp
qed

lemma Fields_hd: "Fields s = w # ws \<Longrightarrow> hd w = hd (trim_by space_at_start s)"
proof -
  assume f: "Fields s = w # ws"
  let ?t = "trim_by space_at_start s"
  have t: "?t \<noteq> []" "w = wordPrefix ?t" using f by (subst (asm) Fields.simps, auto simp: Let_def split: if_splits)+
  then have "space_at_start ?t = 0" using trim_by_fixed [of space_at_start s] by auto
  with t show ?thesis by (cases ?t) auto
qed

lemma read_line:
  assumes r: "readFstabLine line = Inr e" and nl: "CHR 0x0A \<notin> set line"
  shows "goodData e \<or> \<not> isData e \<and> fe_Raw e = line"
proof -
  consider "\<not> isData e" "fe_Raw e = line"
    | dump pass where "TrimSpace line \<noteq> []" "\<not> HasPrefix (TrimSpace line) ''#''" "6 \<le> length (Fields line)"
        "Atoi (Fields line ! 4) = Some dump" "Atoi (Fields line ! 5) = Some pass" "e = dataFstab (Fields line) dump pass"
    using r by (auto simp: readFstabLine_def Let_def isData_def emptyFstab_def not_less split: if_splits option.splits)
  then show ?thesis
  proof cases
    case 2
    then obtain a b c d x y rest where f: "Fields line = a # b # c # d # x # y # rest"
      by (auto simp: numeral_eq_Suc Suc_le_length_iff)
    then have w: "fstabWord a" "fstabWord b" "fstabWord c" "fstabWord d"
      using Fields_solid [of _ line] by (auto simp: fstabWord_def)
    have "hd a \<noteq> CHR ''#''" using 2(1,2) Trim_hd [of line] Fields_hd [OF f] by (simp add: HasPrefix_hd)
    moreover have "int64 dump" "int64 pass" using 2(4,5) Atoi_range by blast+
    ultimately show ?thesis using w by (simp add: 2(6) f goodData_def dataFstab_def emptyFstab_def joinWith_Split)
  qed simp
qed

lemma line_rereads: "readFstabLine line = Inr e \<Longrightarrow> CHR 0x0A \<notin> set line \<Longrightarrow> fstabRereads e"
proof -
  assume r: "readFstabLine line = Inr e" "CHR 0x0A \<notin> set line"
  from read_line [OF this] show ?thesis
  proof
    assume "\<not> isData e \<and> fe_Raw e = line"
    with r show ?thesis by (auto simp: fstabRereads_def fstabLine_def isData_def)
  qed (rule data_rereads)
qed

subsection \<open>The file\<close>

definition blankFstab :: fstabEntry where
  "blankFstab = emptyFstab\<lparr>fe_Blank := True\<rparr>"

lemma sequenceRes_map: "sequenceRes (map Inr xs) = Inr xs"
  by (induction xs) auto

lemma sequenceRes_Inr: "sequenceRes rs = Inr xs \<longleftrightarrow> rs = map Inr xs"
proof
  show "sequenceRes rs = Inr xs \<Longrightarrow> rs = map Inr xs"
    by (induction rs arbitrary: xs rule: sequenceRes.induct) (auto split: sum.splits)
qed (simp add: sequenceRes_map)

lemma parsed_fstab: "parseFstab c = Inr es \<Longrightarrow> es \<noteq> [] \<and> (\<forall>e \<in> set es. fstabRereads e \<and> (isData e \<longrightarrow> goodData e))"
proof -
  assume "parseFstab c = Inr es"
  then have m: "map readFstabLine (Split (CHR 0x0A) c) = map Inr es" by (simp add: parseFstab_def sequenceRes_Inr)
  then have "es \<noteq> []" using Split_ne by (metis list.map_disc_iff)
  moreover have "fstabRereads e \<and> (isData e \<longrightarrow> goodData e)" if "e \<in> set es" for e
  proof -
    have "Inr e \<in> readFstabLine ` set (Split (CHR 0x0A) c)" using that m by (metis image_eqI list.set_map)
    then obtain l where "l \<in> set (Split (CHR 0x0A) c)" "readFstabLine l = Inr e" by force
    with line_rereads [of l e] read_line [of l e] Split_no_sep [of l] show ?thesis by blast
  qed
  ultimately show ?thesis by blast
qed

text \<open>A written file reads as what was written, but for the blank line that ends the last line.\<close>

lemma written_fstab:
  assumes "es \<noteq> []" "\<forall>e \<in> set es. fstabRereads e"
  shows "Split (CHR 0x0A) (fstabText es) = map fstabLine es @ (if fstabLine (last es) = [] then [] else [[]])"
    "parseFstab (fstabText es) = Inr (if fstabLine (last es) = [] then es else es @ [blankFstab])"
proof -
  let ?ls = "map fstabLine es" and ?data = "joinWith [CHR 0x0A] (map fstabLine es)"
  have nl: "\<forall>l \<in> set ?ls. CHR 0x0A \<notin> set l" using assms(2) by (auto simp: fstabRereads_def)
  obtain vs v where vs: "?ls = vs @ [v]" using assms(1) by (metis Nil_is_map_conv rev_exhaust)
  then have v: "v = fstabLine (last es)" using assms(1) by (metis last_map last_snoc)
  have data: "?data = (if vs = [] then v else joinWith [CHR 0x0A] vs @ CHR 0x0A # v)"
    using vs joinWith_snoc [of "[CHR 0x0A]" vs v] by simp
  have written: "fstabText es = joinWith [CHR 0x0A] (?ls @ (if v = [] then [] else [[]]))"
  proof (cases "v = []")
    case True
    then show ?thesis using data vs by (auto simp: fstabText_def endLine_def)
  next
    case False
    then have "?data \<noteq> []" "last ?data = last v" using data by auto
    moreover have "last v \<noteq> CHR 0x0A" using False nl vs by (metis in_set_conv_decomp last_in_set)
    ultimately show ?thesis using False assms(1) joinWith_snoc [of "[CHR 0x0A]" ?ls "[]"] by (simp add: fstabText_def endLine_def)
  qed
  show s: "Split (CHR 0x0A) (fstabText es) = map fstabLine es @ (if fstabLine (last es) = [] then [] else [[]])"
    unfolding written v [symmetric] by (rule Split_joinWith) (use nl assms(1) in auto)
  have "map (\<lambda>e. readFstabLine (fstabLine e)) es = map Inr es" using assms(2) by (auto simp: fstabRereads_def)
  moreover have "readFstabLine [] = Inr blankFstab" by (simp add: readFstabLine_def blankFstab_def emptyFstab_def)
  ultimately have "map readFstabLine (Split (CHR 0x0A) (fstabText es)) = map Inr (if fstabLine (last es) = [] then es else es @ [blankFstab])"
    by (simp add: s comp_def)
  then show "parseFstab (fstabText es) = Inr (if fstabLine (last es) = [] then es else es @ [blankFstab])"
    by (simp add: parseFstab_def sequenceRes_Inr)
qed

subsection \<open>Disabling and restoring\<close>

lemma disabled_shape:
  assumes "goodData e"
  shows "TrimSpace (swapDisabledCommentPrefix @ serializeFstabDataEntry e) = swapDisabledCommentPrefix @ serializeFstabDataEntry e"
proof (rule TrimSpace_keep)
  let ?t = "serializeFstabDataEntry e"
  show "space_at_start (swapDisabledCommentPrefix @ ?t) = 0"
    by (simp add: swapDisabledCommentPrefix_def ascii_space_def space2_def space3_def split: list.split)
  obtain q where q: "?t = fe_Device e @ CHR 0x09 # q" using data_head [OF assms] by blast
  have ne: "?t \<noteq> []" using q by simp
  have "space_at_end (rev ?t @ CHR '' '' # r) = 0" for r
    using Trim_end [OF ne data_Trim [OF assms]] ne by (intro end_any) (auto simp: isSpace_def)
  then show "space_at_end (rev (swapDisabledCommentPrefix @ ?t)) = 0" by (simp add: swapDisabledCommentPrefix_def)
qed

lemma disabled_rereads:
  assumes "fstabRereads e" "isData e \<longrightarrow> goodData e"
  shows "fstabRereads (disabledSwap e)" "fstabLine (disabledSwap e) = [] \<longleftrightarrow> fstabLine e = []" "\<not> (isData (disabledSwap e) \<and> isSwap (disabledSwap e))"
proof -
  let ?raw = "swapDisabledCommentPrefix @ serializeFstabDataEntry e"
  show "\<not> (isData (disabledSwap e) \<and> isSwap (disabledSwap e))" by (auto simp: disabledSwap_def isData_def)
  show "fstabRereads (disabledSwap e)"
  proof (cases "isData e \<and> isSwap e")
    case True
    then have g: "goodData e" using assms(2) by simp
    have pre: "CHR 0x0A \<notin> set swapDisabledCommentPrefix" "swapDisabledCommentPrefix \<noteq> []" "hd swapDisabledCommentPrefix = CHR ''#''"
      by (simp_all add: swapDisabledCommentPrefix_def)
    then have "HasPrefix ?raw ''#''" by (simp add: HasPrefix_hd)
    with True pre disabled_shape [OF g] data_newline [OF g] show ?thesis
      by (simp add: disabledSwap_def fstabRereads_def fstabLine_def readFstabLine_def emptyFstab_def Let_def)
  qed (use assms(1) in \<open>auto simp: disabledSwap_def\<close>)
  show "fstabLine (disabledSwap e) = [] \<longleftrightarrow> fstabLine e = []"
    by (auto simp: disabledSwap_def fstabLine_def isData_def emptyFstab_def swapDisabledCommentPrefix_def serializeFstabDataEntry_def)
qed

lemma disabled_restores:
  assumes g: "goodData e" and sw: "isSwap e" and d: "isData e"
  shows "parseManagedDisabledSwapEntry (disabledSwap e) = Inr (Some e)"
proof -
  let ?t = "serializeFstabDataEntry e"
  have "HasPrefix (swapDisabledCommentPrefix @ ?t) swapDisabledCommentPrefix"
    "TrimPrefix (swapDisabledCommentPrefix @ ?t) swapDisabledCommentPrefix = ?t"
    by (simp_all add: HasPrefix_def TrimPrefix_def)
  moreover have "parseFstabDataLine ?t = Inr e"
  proof -
    have "fstabWords e ! 4 = show_int (fe_Dump e)" "fstabWords e ! 5 = show_int (fe_PassNo e)" "length (fstabWords e) = 6"
      by (simp_all add: fstabWords_def)
    moreover have "int64 (fe_Dump e)" "int64 (fe_PassNo e)" using g by (simp_all add: goodData_def)
    ultimately show ?thesis using g by (simp add: parseFstabDataLine_def data_fields data_same Atoi_show_int Let_def)
  qed
  ultimately show ?thesis
    using d sw disabled_shape [OF g] data_Trim [OF g]
    by (simp add: parseManagedDisabledSwapEntry_def disabledSwap_def emptyFstab_def Let_def)
qed

definition unmanaged :: "fstabEntry \<Rightarrow> bool" where
  "unmanaged e \<longleftrightarrow> parseManagedDisabledSwapEntry e = Inr None"

lemma restore_disabled:
  assumes "\<forall>e \<in> set es. unmanaged e \<and> (isData e \<longrightarrow> goodData e)"
  shows "restoreManagedSwapEntries (map disabledSwap es) = Inr (es, hasEnabledSwapEntries es, hasEnabledSwapEntries es)"
  using assms
proof (induction es)
  case (Cons e es)
  show ?case
  proof (cases "isData e \<and> isSwap e")
    case True
    with Cons disabled_restores [of e] show ?thesis by (simp add: hasEnabledSwapEntries_def)
  next
    case False
    then have "disabledSwap e = e" "unmanaged e" using Cons.prems by (auto simp: disabledSwap_def)
    with False Cons show ?thesis by (auto simp: hasEnabledSwapEntries_def unmanaged_def)
  qed
qed (simp add: hasEnabledSwapEntries_def)

lemma restore_append:
  "restoreManagedSwapEntries es = Inr (us, ch, an) \<Longrightarrow> unmanaged b \<Longrightarrow> restoreManagedSwapEntries (es @ [b]) = Inr (us @ [b], ch, an)"
proof (induction es arbitrary: us ch an)
  case (Cons e es)
  obtain r where r: "parseManagedDisabledSwapEntry e = Inr r" using Cons.prems(1) by (cases "parseManagedDisabledSwapEntry e") auto
  obtain vs c n where v: "restoreManagedSwapEntries es = Inr (vs, c, n)"
    using Cons.prems(1) r by (cases "restoreManagedSwapEntries es") auto
  from Cons.IH [OF v Cons.prems(2)] Cons.prems(1) r v show ?case by (cases r) auto
qed (simp add: unmanaged_def)

lemma unmanaged_blank: "unmanaged blankFstab"
  by (simp add: unmanaged_def blankFstab_def emptyFstab_def parseManagedDisabledSwapEntry_def)

lemma none_enabled: "\<not> hasEnabledSwapEntries (map disabledSwap es)"
  by (auto simp: hasEnabledSwapEntries_def list_ex_iff disabledSwap_def isData_def)

subsection \<open>On the host\<close>

text \<open>Commands leave the configuration files and the locks alone.\<close>

locale swap_host = text_files H content held
  for H :: "'s packHost" and content :: "'s \<Rightarrow> string \<Rightarrow> string option" and held :: "'s \<Rightarrow> string set" +
  assumes exec_files: "ph_exec H cmd args s = (r, t) \<Longrightarrow> content t fstabConfigPath = content s fstabConfigPath \<and> held t = held s"
begin

lemma run_swap: "runSwapCommand H cmd args s = (r, t) \<Longrightarrow> content t fstabConfigPath = content s fstabConfigPath \<and> held t = held s"
  by (cases "ph_exec H cmd args s") (auto simp: runSwapCommand_def dest: exec_files split: sum.splits)

lemma run_swap_snd:
  "content (snd (runSwapCommand H cmd args s)) fstabConfigPath = content s fstabConfigPath"
  "held (snd (runSwapCommand H cmd args s)) = held s"
  using run_swap [of cmd args s "fst (runSwapCommand H cmd args s)" "snd (runSwapCommand H cmd args s)"] by simp_all

lemma read_fstab: "content s fstabConfigPath = Some c \<Longrightarrow> readFstabEntries H s = parseFstab c"
  using read_text by (simp add: readFstabEntries_def)

text \<open>What a successful run leaves in the file: the disabled entries when there was a swap line.\<close>

lemma disable_effect:
  assumes free: "fstabConfigPath \<notin> held s" and c: "content s fstabConfigPath = Some c"
    and run: "disableManagedSwap H s = (Inr (), t)"
  obtains es where "parseFstab c = Inr es"
    "content t fstabConfigPath = Some (if hasEnabledSwapEntries es then fstabText (map disabledSwap es) else c)" "held t = held s"
proof -
  obtain active where a: "activeSwapPresent H s = Inr active"
    using run by (auto simp: disableManagedSwap_def split: sum.splits)
  let ?body = "\<lambda>s. case readFstabEntries H s of Inl e \<Rightarrow> (Inl e, s)
    | Inr es \<Rightarrow> let (updated, changed) = disableSwapEntries es in
        (case (if changed then writeFstabEntries H updated s else (Inr (), s)) of
           (Inl e, s) \<Rightarrow> (Inl e, s)
         | (Inr _, s) \<Rightarrow> if active then runSwapCommand H ''swapoff'' [''-a''] s else (Inr (), s))"
  obtain u where u: "content u = content s" "held u = insert fstabConfigPath (held s)"
    "withLock H fstabConfigPath ?body s = (fst (?body u), ph_unlock H fstabConfigPath (snd (?body u)))"
    by (rule under_lock [OF free])
  have b: "fst (?body u) = Inr ()" "t = ph_unlock H fstabConfigPath (snd (?body u))"
    using run u(3) by (simp_all add: disableManagedSwap_def a)
  have cu: "readFstabEntries H u = parseFstab c" using u(1) c by (intro read_fstab) simp
  then obtain es where es: "parseFstab c = Inr es" using b(1) by (cases "parseFstab c") auto
  have en: "disableSwapEntries es = (map disabledSwap es, hasEnabledSwapEntries es)"
    by (simp add: disableSwapEntries_def hasEnabledSwapEntries_def)
  obtain x v where w: "(if hasEnabledSwapEntries es then writeFstabEntries H (map disabledSwap es) u else (Inr (), u)) = (Inr x, v)"
    using b(1) cu es en by (auto split: sum.splits prod.splits if_splits)
  then have v: "content v fstabConfigPath = Some (if hasEnabledSwapEntries es then fstabText (map disabledSwap es) else c)" "held v = held u"
    using u(1) c by (auto simp: writeFstabEntries_def dest!: write_text split: if_splits)
  have "snd (?body u) = snd (if active then runSwapCommand H ''swapoff'' [''-a''] v else (Inr (), v))"
    using cu es en w by simp
  then have "content (snd (?body u)) fstabConfigPath = content v fstabConfigPath" "held (snd (?body u)) = held v"
    by (simp_all add: run_swap_snd)
  with v b(2) unlock u(2) free es show ?thesis by (intro that) auto
qed

lemma enable_effect:
  assumes free: "fstabConfigPath \<notin> held s" and c: "content s fstabConfigPath = Some c"
    and run: "enableManagedSwap H strict s = (Inr (), t)"
  obtains es us ch an where "parseFstab c = Inr es" "restoreManagedSwapEntries es = Inr (us, ch, an)"
    "content t fstabConfigPath = Some (if ch then fstabText us else c)" "held t = held s"
proof -
  obtain active where a: "activeSwapPresent H s = Inr active"
    using run by (auto simp: enableManagedSwap_def split: sum.splits)
  let ?last = "\<lambda>us ch an s. if \<not> active \<and> \<not> hasEnabledSwapEntries us \<and> \<not> an then
      (if strict then Inl (Errorf ''cannot enable swap: no active or managed swap entries were found'') else Inr (), s)
    else if ch \<or> (\<not> active \<and> hasEnabledSwapEntries us) then runSwapCommand H ''swapon'' [''-a''] s else (Inr (), s)"
  let ?body = "\<lambda>s. case readFstabEntries H s of Inl e \<Rightarrow> (Inl e, s)
    | Inr es \<Rightarrow> (case restoreManagedSwapEntries es of Inl e \<Rightarrow> (Inl e, s)
        | Inr (us, ch, an) \<Rightarrow>
            let persistentEnabled = hasEnabledSwapEntries us in
            (case (if ch then writeFstabEntries H us s else (Inr (), s)) of
               (Inl e, s) \<Rightarrow> (Inl e, s)
             | (Inr _, s) \<Rightarrow>
                 if \<not> active \<and> \<not> persistentEnabled \<and> \<not> an then
                   (if strict then Inl (Errorf ''cannot enable swap: no active or managed swap entries were found'') else Inr (), s)
                 else if ch \<or> (\<not> active \<and> persistentEnabled) then runSwapCommand H ''swapon'' [''-a''] s
                 else (Inr (), s)))"
  obtain u where u: "content u = content s" "held u = insert fstabConfigPath (held s)"
    "withLock H fstabConfigPath ?body s = (fst (?body u), ph_unlock H fstabConfigPath (snd (?body u)))"
    by (rule under_lock [OF free])
  have b: "fst (?body u) = Inr ()" "t = ph_unlock H fstabConfigPath (snd (?body u))"
    using run u(3) by (simp_all add: enableManagedSwap_def a)
  have cu: "readFstabEntries H u = parseFstab c" using u(1) c by (intro read_fstab) simp
  then obtain es where es: "parseFstab c = Inr es" using b(1) by (cases "parseFstab c") auto
  obtain us ch an where r: "restoreManagedSwapEntries es = Inr (us, ch, an)"
    using b(1) cu es by (cases "restoreManagedSwapEntries es") auto
  obtain x v where w: "(if ch then writeFstabEntries H us u else (Inr (), u)) = (Inr x, v)"
    using b(1) cu es r by (cases "if ch then writeFstabEntries H us u else (Inr (), u)"; cases "fst (if ch then writeFstabEntries H us u else (Inr (), u))") auto
  then have v: "content v fstabConfigPath = Some (if ch then fstabText us else c)" "held v = held u"
    using u(1) c by (auto simp: writeFstabEntries_def dest!: write_text split: if_splits)
  have "snd (?body u) = snd (?last us ch an v)" using cu es r w by simp
  then have "content (snd (?body u)) fstabConfigPath = content v fstabConfigPath" "held (snd (?body u)) = held v"
    by (simp_all add: run_swap_snd)
  with v b(2) unlock u(2) free es r show ?thesis by (intro that) auto
qed

end

interpretation api_swap: swap_host "apiHost run" as_files as_locks for run
  by unfold_locales (auto simp: apiHost_def split: prod.splits)

lemma disabled_same: "\<not> hasEnabledSwapEntries es \<Longrightarrow> map disabledSwap es = es"
  by (rule map_idI) (auto simp: hasEnabledSwapEntries_def disabledSwap_def list_ex_iff)

lemma disabled_file:
  assumes "parseFstab c = Inr es"
  shows "\<forall>e \<in> set (map disabledSwap es). fstabRereads e" "map disabledSwap es \<noteq> []"
    "fstabLine (last (map disabledSwap es)) = [] \<longleftrightarrow> fstabLine (last es) = []"
proof -
  note p = parsed_fstab [OF assms]
  then show "\<forall>e \<in> set (map disabledSwap es). fstabRereads e" "map disabledSwap es \<noteq> []"
    using disabled_rereads(1) by auto
  show "fstabLine (last (map disabledSwap es)) = [] \<longleftrightarrow> fstabLine (last es) = []"
    using p disabled_rereads(2) [of "last es"] by (simp add: last_map)
qed

text \<open>Restoring what was disabled, as it is read from the file and written to it again.\<close>

lemma restored_file:
  assumes es: "parseFstab c = Inr es" "\<forall>e \<in> set es. unmanaged e"
    and ds: "parseFstab (fstabText (map disabledSwap es)) = Inr ds"
  obtains B where "B \<in> {[], [blankFstab]}"
    "restoreManagedSwapEntries ds = Inr (es @ B, hasEnabledSwapEntries es, hasEnabledSwapEntries es)"
    "\<not> hasEnabledSwapEntries ds" "parseFstab (fstabText (es @ B)) = Inr (es @ B)"
proof -
  note p = parsed_fstab [OF es(1)] and d = disabled_file [OF es(1)]
  let ?B = "if fstabLine (last es) = [] then [] else [blankFstab]"
  have ds': "ds = map disabledSwap es @ ?B" using written_fstab(2) [OF d(2,1)] d(3) ds by (simp split: if_splits)
  have r: "restoreManagedSwapEntries (map disabledSwap es) = Inr (es, hasEnabledSwapEntries es, hasEnabledSwapEntries es)"
    using p es(2) by (intro restore_disabled) blast
  have "restoreManagedSwapEntries ds = Inr (es @ ?B, hasEnabledSwapEntries es, hasEnabledSwapEntries es)"
    using r restore_append [OF r unmanaged_blank] by (simp add: ds')
  moreover have "\<not> hasEnabledSwapEntries ds"
    using none_enabled [of es] by (simp add: ds' hasEnabledSwapEntries_def blankFstab_def emptyFstab_def isData_def)
  moreover have blank: "fstabRereads blankFstab" "fstabLine blankFstab = []"
    by (simp_all add: fstabRereads_def fstabLine_def blankFstab_def emptyFstab_def readFstabLine_def)
  then have "parseFstab (fstabText (es @ ?B)) = Inr (es @ ?B)"
    using p written_fstab(2) [of "es @ ?B"] by (auto split: if_splits)
  ultimately show ?thesis by (intro that [of ?B]) auto
qed

context swap_host
begin

lemma disable_enable:
  assumes free: "fstabConfigPath \<notin> held s" and c: "content s fstabConfigPath = Some c"
    and es: "parseFstab c = Inr es" "\<forall>e \<in> set es. unmanaged e"
    and dis: "disableManagedSwap H s = (Inr (), t)" and en: "enableManagedSwap H strict t = (Inr (), u)"
  shows "\<exists>ds B. parseFstab (the (content t fstabConfigPath)) = Inr ds \<and> \<not> hasEnabledSwapEntries ds \<and>
     B \<in> {[], [blankFstab]} \<and> parseFstab (the (content u fstabConfigPath)) = Inr (es @ B)"
proof -
  from disable_effect [OF free c dis] obtain es' where "parseFstab c = Inr es'"
    "content t fstabConfigPath = Some (if hasEnabledSwapEntries es' then fstabText (map disabledSwap es') else c)" "held t = held s" .
  with es(1) have t: "content t fstabConfigPath = Some (if hasEnabledSwapEntries es then fstabText (map disabledSwap es) else c)" "held t = held s"
    by simp_all
  show ?thesis
  proof (cases "hasEnabledSwapEntries es")
    case True
    then have t': "content t fstabConfigPath = Some (fstabText (map disabledSwap es))" using t by simp
    have free': "fstabConfigPath \<notin> held t" using t(2) free by simp
    from enable_effect [OF free' t' en] obtain ds us ch an where
      ds: "parseFstab (fstabText (map disabledSwap es)) = Inr ds" "restoreManagedSwapEntries ds = Inr (us, ch, an)"
        "content u fstabConfigPath = Some (if ch then fstabText us else fstabText (map disabledSwap es))" .
    from restored_file [OF es ds(1)] obtain B where
      B: "B \<in> {[], [blankFstab]}" "restoreManagedSwapEntries ds = Inr (es @ B, hasEnabledSwapEntries es, hasEnabledSwapEntries es)"
        "\<not> hasEnabledSwapEntries ds" "parseFstab (fstabText (es @ B)) = Inr (es @ B)" by metis
    then have "content u fstabConfigPath = Some (fstabText (es @ B))" using ds(2,3) True by simp
    with ds(1) B t' show ?thesis by auto
  next
    case False
    then have t': "content t fstabConfigPath = Some c" using t by simp
    have "restoreManagedSwapEntries es = Inr (es, False, False)"
      using restore_disabled [of es] disabled_same [OF False] parsed_fstab [OF es(1)] es(2) False by auto
    moreover have "fstabConfigPath \<notin> held t" using t(2) free by simp
    from enable_effect [OF this t' en] obtain es2 us ch an where
      "parseFstab c = Inr es2" "restoreManagedSwapEntries es2 = Inr (us, ch, an)"
      "content u fstabConfigPath = Some (if ch then fstabText us else c)" .
    ultimately have "content u fstabConfigPath = Some c" using es(1) by simp
    with t' es(1) False show ?thesis by auto
  qed
qed

lemma short_line_stays:
  assumes free: "fstabConfigPath \<notin> held s" and c: "content s fstabConfigPath = Some c"
    and l: "l \<in> set (Split (CHR 0x0A) c)" "length (Fields l) < 6"
    and dis: "disableManagedSwap H s = (Inr (), t)"
  shows "\<exists>c'. content t fstabConfigPath = Some c' \<and> l \<in> set (Split (CHR 0x0A) c') \<and>
     (\<exists>ds. parseFstab c' = Inr ds \<and> \<not> hasEnabledSwapEntries ds)"
proof -
  from disable_effect [OF free c dis] obtain es where es: "parseFstab c = Inr es"
    and t: "content t fstabConfigPath = Some (if hasEnabledSwapEntries es then fstabText (map disabledSwap es) else c)" by metis
  show ?thesis
  proof (cases "hasEnabledSwapEntries es")
    case True
    have "map readFstabLine (Split (CHR 0x0A) c) = map Inr es" using es by (simp add: parseFstab_def sequenceRes_Inr)
    then have "readFstabLine l \<in> Inr ` set es" using l(1) by (metis image_eqI list.set_map)
    then obtain e where e: "e \<in> set es" "readFstabLine l = Inr e" by auto
    have "\<not> isData e \<and> fe_Raw e = l"
      using e(2) l(2) by (auto simp: readFstabLine_def Let_def isData_def emptyFstab_def split: if_splits)
    then have "fstabLine (disabledSwap e) = l" by (auto simp: disabledSwap_def fstabLine_def isData_def)
    then have "l \<in> set (map fstabLine (map disabledSwap es))" using e(1) by force
    moreover note d = disabled_file [OF es]
    ultimately have "l \<in> set (Split (CHR 0x0A) (fstabText (map disabledSwap es)))"
      using written_fstab(1) [OF d(2,1)] by simp
    moreover have "\<exists>ds. parseFstab (fstabText (map disabledSwap es)) = Inr ds \<and> \<not> hasEnabledSwapEntries ds"
      using written_fstab(2) [OF d(2,1)] none_enabled [of es]
      by (auto simp: hasEnabledSwapEntries_def blankFstab_def emptyFstab_def isData_def)
    ultimately show ?thesis using t True by simp
  qed (use t l(1) es in auto)
qed

end

context text_files
begin

lemma upsert_effect:
  assumes free: "fstabConfigPath \<notin> held s" and c: "content s fstabConfigPath = Some c"
    and es: "parseFstab c = Inr es" and run: "upsertFstabEntry H entry s = (Inr r, t)"
  shows "content t = (content s)(fstabConfigPath \<mapsto> fstabText (putFstab entry es))"
proof -
  let ?body = "\<lambda>s. case readFstabEntries H s of Inl e \<Rightarrow> (Inl e, s) | Inr es \<Rightarrow> writeFstabEntries H (putFstab entry es) s"
  obtain u where u: "content u = content s" "held u = insert fstabConfigPath (held s)"
    "withLock H fstabConfigPath ?body s = (fst (?body u), ph_unlock H fstabConfigPath (snd (?body u)))"
    by (rule under_lock [OF free])
  have "readFstabEntries H u = Inr es" using read_text [of u fstabConfigPath c] u(1) c es by (simp add: readFstabEntries_def)
  with run u(3) obtain v where "writeFstabEntries H (putFstab entry es) u = (Inr r, v)" "t = ph_unlock H fstabConfigPath v"
    by (auto simp: upsertFstabEntry_def prod_eq_iff)
  with u(1) unlock(1) show ?thesis by (auto simp: writeFstabEntries_def dest!: write_text)
qed

lemma created_fstab:
  assumes free: "fstabConfigPath \<notin> held s" and g: "goodData (planFstab plan)"
    and run: "fstabCreate H plan s = (Inr st, t)"
  shows "st = Some (fstabState (planFstab plan))"
proof -
  let ?d = "planFstab plan"
  have m: "fe_Mount ?d = GetString plan ''mount''" by (simp add: planFstab_def emptyFstab_def)
  have none: "findFstabEntry H (GetString plan ''mount'') s = Inr None" and ap: "applyFstabEntry H plan s = (Inr st, t)"
    using run by (auto simp: fstabCreate_def split: sum.splits option.splits)
  obtain c es where c: "content s fstabConfigPath = Some c" "parseFstab c = Inr es"
    and f: "find (\<lambda>e. fe_Mount e = fe_Mount ?d) es = None"
    using none read_text_conv m by (auto simp: findFstabEntry_def readFstabEntries_def split: sum.splits)
  obtain r v where up: "upsertFstabEntry H ?d s = (Inr r, v)" and st: "fstabRead H [(''mount'', VStr (fe_Mount ?d))] v = Inr st"
    using ap by (auto simp: applyFstabEntry_def split: sum.splits prod.splits)
  have put: "putFstab ?d es = es @ [?d]" using f by (auto simp: putFstab_def list_ex_iff find_None_iff)
  have "content v fstabConfigPath = Some (fstabText (es @ [?d]))" using upsert_effect [OF free c up] put by simp
  moreover have "\<forall>e \<in> set (es @ [?d]). fstabRereads e" using parsed_fstab [OF c(2)] data_rereads [OF g] by auto
  then obtain B where "parseFstab (fstabText (es @ [?d])) = Inr (es @ ?d # B)"
    using written_fstab(2) [of "es @ [?d]"] by (auto split: if_splits)
  ultimately have "readFstabEntries H v = Inr (es @ ?d # B)" using read_text by (simp add: readFstabEntries_def)
  moreover have "find (\<lambda>e. fe_Mount e = fe_Mount ?d) (es @ ?d # B) = Some ?d" using f by (induction es) (auto split: if_splits)
  ultimately show ?thesis using st by (simp add: fstabRead_def findFstabEntry_def GetString_def)
qed

end

subsection \<open>Results\<close>

definition demo_fstab :: string where
  "demo_fstab = ''b n swap w 0 0'' @ CHR 0x0A # ''c n swap w''"

definition demo_swap :: "unit apiState" where
  "demo_swap = \<lparr>as_files = (\<lambda>p. if p = fstabConfigPath then Some demo_fstab else if p = swapInfoPath then Some ''F'' else None),
     as_locks = {}, as_rest = ()\<rparr>"

definition demo_swap_host :: "unit apiState packHost" where
  "demo_swap_host = apiHost (\<lambda>cmd args x. (Inr \<lparr>cr_Stdout = [], cr_Stderr = [], cr_ExitCode = 0\<rparr>, x))"

lemma demo_swap_host: "swap_host demo_swap_host as_files as_locks"
  unfolding demo_swap_host_def by (rule api_swap.swap_host_axioms)

definition demo_off :: "unit apiState" where
  "demo_off = snd (disableManagedSwap demo_swap_host demo_swap)"

lemma demo_free: "fstabConfigPath \<notin> as_locks demo_swap" "as_files demo_swap fstabConfigPath = Some demo_fstab"
  by (simp_all add: demo_swap_def)

lemma demo_entries:
  "parseFstab demo_fstab = Inr
     [emptyFstab\<lparr>fe_Device := ''b'', fe_Mount := ''n'', fe_FSType := ''swap'', fe_Options := [''w'']\<rparr>,
      emptyFstab\<lparr>fe_Comment := True, fe_Raw := ''c n swap w''\<rparr>]"
  by code_simp

lemma demo_short: "''c n swap w'' \<in> set (Split (CHR 0x0A) demo_fstab)" "length (Fields ''c n swap w'') < 6"
  by code_simp+

lemma demo_disabled: "fst (disableManagedSwap demo_swap_host demo_swap) = Inr ()"
  by code_simp

lemma demo_enabled: "fst (enableManagedSwap demo_swap_host True demo_off) = Inr ()"
  by code_simp

text \<open>A created fstab entry is reported as it was planned, if its fields are words and its options, joined
  by commas, are read as the same options.\<close>

lemma fstab_created_as_planned:
  assumes "text_files H content held" and "fstabConfigPath \<notin> held s" and "goodData (planFstab plan)"
    and "fstabCreate H plan s = (Inr st, t)"
  shows "st = Some (fstabState (planFstab plan))"
  using assms by (rule text_files.created_fstab)

text \<open>C14: Switching swap off leaves no enabled swap entry in the file, and switching it on again brings back
  every entry of the file as it was, in its place, whatever the file holds besides: at most a line break
  at the end is new. The file is one that reads and has no swap line that was disabled before.\<close>

theorem swap_off_and_on:
  assumes "swap_host H content held" and "fstabConfigPath \<notin> held s" and "content s fstabConfigPath = Some c"
    and "parseFstab c = Inr es" and "\<forall>e \<in> set es. unmanaged e"
    and "disableManagedSwap H s = (Inr (), t)" and "enableManagedSwap H strict t = (Inr (), u)"
  shows "\<exists>ds B. parseFstab (the (content t fstabConfigPath)) = Inr ds \<and> \<not> hasEnabledSwapEntries ds \<and>
     B \<in> {[], [blankFstab]} \<and> parseFstab (the (content u fstabConfigPath)) = Inr (es @ B)"
  using assms by (rule swap_host.disable_enable)

theorem swap_off_and_on_witness:
  "\<exists>ds B. parseFstab (the (as_files demo_off fstabConfigPath)) = Inr ds \<and> \<not> hasEnabledSwapEntries ds \<and>
     B \<in> {[], [blankFstab]} \<and>
     parseFstab (the (as_files (snd (enableManagedSwap demo_swap_host True demo_off)) fstabConfigPath)) = Inr
       ([emptyFstab\<lparr>fe_Device := ''b'', fe_Mount := ''n'', fe_FSType := ''swap'', fe_Options := [''w'']\<rparr>,
         emptyFstab\<lparr>fe_Comment := True, fe_Raw := ''c n swap w''\<rparr>] @ B)"
proof (rule swap_off_and_on [OF demo_swap_host demo_free demo_entries])
  show "\<forall>e \<in> set [emptyFstab\<lparr>fe_Device := ''b'', fe_Mount := ''n'', fe_FSType := ''swap'', fe_Options := [''w'']\<rparr>,
      emptyFstab\<lparr>fe_Comment := True, fe_Raw := ''c n swap w''\<rparr>]. unmanaged e"
    unfolding unmanaged_def by code_simp
  show "disableManagedSwap demo_swap_host demo_swap = (Inr (), demo_off)"
    using demo_disabled by (simp add: demo_off_def prod_eq_iff)
  show "enableManagedSwap demo_swap_host True demo_off = (Inr (), snd (enableManagedSwap demo_swap_host True demo_off))"
    using demo_enabled by (simp add: prod_eq_iff)
qed

text \<open>C40: A line of fewer than six fields, as \<open>fstab(5)\<close> allows because the last two are optional, is taken for a comment:
  switching swap off succeeds and leaves it as it is, also when it is a swap line, and the file then reads as
  one without enabled swap.\<close>

theorem short_swap_line_stays:
  assumes "swap_host H content held" and "fstabConfigPath \<notin> held s" and "content s fstabConfigPath = Some c"
    and "l \<in> set (Split (CHR 0x0A) c)" and "length (Fields l) < 6"
    and "disableManagedSwap H s = (Inr (), t)"
  shows "\<exists>c'. content t fstabConfigPath = Some c' \<and> l \<in> set (Split (CHR 0x0A) c') \<and>
     (\<exists>ds. parseFstab c' = Inr ds \<and> \<not> hasEnabledSwapEntries ds)"
  using assms by (rule swap_host.short_line_stays)

theorem short_swap_line_stays_witness:
  "\<exists>c'. as_files demo_off fstabConfigPath = Some c' \<and> ''c n swap w'' \<in> set (Split (CHR 0x0A) c') \<and>
     (\<exists>ds. parseFstab c' = Inr ds \<and> \<not> hasEnabledSwapEntries ds)"
  by (rule short_swap_line_stays [OF demo_swap_host demo_free demo_short])
     (use demo_disabled in \<open>simp add: demo_off_def prod_eq_iff\<close>)

end
