(* ===== verification/Spec2Isabelle.thy ===== *)
theory Spec2Isabelle
  imports LeaseProperties JournalScenarios Locks RebootJournal ConnPool OperationLease RebootProof RebootWait
    SessionRuntime SupportPolicy CrontabHost EngineRoundtrip EntryLifecycle RestartJournal HostActions DigestedString
    HostsEntry Fstab
begin

text \<open>
  A verification library of the Ubuntu provider for Terraform (Go, under src/).

  \<^bold>\<open>The program.\<close> A provider process (src/providers) turns Terraform's requests into operations on a
  target host. It keeps a pool of transports to the hosts, starts an executor process on each
  (src/executor), and calls it over JSON-RPC (src/shared/hostrpc). The executor runs a guest plugin
  (src/guest, compiled to WASM) for a resource. Several provider processes may work on one host: the
  executors share a journal on its disk, through which an operation gets a lease on its locks before
  it runs. A host reboot is an operation of its own with a journal that survives it.

  \<^bold>\<open>Conventions.\<close> A Go string is a list of 8-bit characters; strings, paths and errors are those of the
  theories Prelude, GoText and GoPath. State is passed explicitly: an operation takes the state it works on
  and returns it with its result. A fallible call returns a sum whose left side is the error. What
  is outside src/ (the file system's failures, clocks, gzip, hash functions, the SSH library, the
  plugin framework, the crontab program) is a parameter: a function of a record, or a list of the
  coming outcomes. Go's iteration over a map has no order: a map is a list of entries and the
  results hold for every order, except where a definition says so. Times are clock readings.

  \<^bold>\<open>The theories\<close> and what they model, in the order of the imports.

  \<^item> Prelude, GoText, GoPath: \<open>strings\<close>, \<open>unicode/utf8\<close>, \<open>strconv\<close> and \<open>path/filepath\<close> as far as the
    source uses them; error values; the locales \<open>transition_system\<close> (an inductive invariant) and
    \<open>refined_ops\<close> (operations that implement a specification). Store: the locale \<open>keyed_store\<close> and the
    journal directories, its instance.
  \<^item> Digest (guest/sdk/digest) and HostRpc (shared/hostrpc/rpc.go and channel.go), with DemoHost for the
    witnesses.
  \<^item> OperationJournal (executor/runtime/operation_journal.go, journal_key.go): every function of the
    journal over a record of its directories. JournalFacts: what each operation changes. Admission and
    AdmissionSafety: the critical sections of any number of executor processes interleaved, with process death
    and reboot, and the inductive invariant. LeaseProperties: mutual exclusion, claims on disk, the
    decision of an activation, the effect of a release. JournalScenarios: runs in which a lease is lost.
  \<^item> Locks (providers/shared/engine/locks.go, catalog/locks.go): which locks an operation asks for.
  \<^item> RebootJournal (executor/runtime/reboot_journal.go), ExecPaths, RpcRetry, OperationLease, HostCommands,
    RestartHost (providers/shared/hostsession): a remote command and its exit status, an RPC with
    retries, the polling of a lease, readiness checks, and the reboot of a host as a state machine
    over the journal's phases. RebootOnce: at most one run sends the reboot command of an operation.
    RebootProof: a reported success has been proven. RebootWait: the wait ends.
  \<^item> RebootBarrier (engine/reboot_barrier_resource.go and the leased restart of hostsession/restart_host.go):
    the barrier resource, and that what Terraform stores of one is a proven reboot. HostActions
    (engine/entry_datasource.go, entry_action.go, providers/shared/actions): data sources and actions.
  \<^item> RestartJournal (executor/runtime/restart_journal.go): the restarts of processes, with every interleaving
    of calls and helper processes: a command runs at most once, and the schedules on which a call
    waits for ever.
  \<^item> ConnPool (providers/shared/transport/pool.go, transport.go): the sessions of a pool, single-flight
    connecting, eviction, retries and their backoff.
  \<^item> SessionRuntime (hostsession/session_runtime.go): calls, resets and checks of one session as a step
    relation of its threads. SupportPolicy (supportpolicy/policy.go): which hosts are accepted.
  \<^item> StateValues (guest/sdk/types.go), EngineState and EngineRoundtrip (engine/state_helpers.go): values
    between Terraform and a guest, their types, and that a stored reply reads back. DigestedString (engine/hashed_string.go): values a state holds as digests.
  \<^item> DestroySafety (engine/destroy_safety.go, catalog/resource_policies.go): what must not be destroyed.
    HostTarget (engine/adapter_helpers.go, resource_identity.go): the host a resource is on. EntryResource
    (engine/entry_resource.go): the handlers Terraform calls for a resource. ResourceCatalog
    (providers/shared/catalog): the resources. EntryLifecycle: what the handlers guarantee together.
  \<^item> Crontab (guest/sdk/crontab), CrontabEntries and CrontabHost
    (guest/packs/linux/files_config/crontab.go): the crontab format, the managed entries of a crontab as
    an implementation of a map, and the resource over the crontab program.
  \<^item> PackHost (executor/capabilities/api.go's locks, fileops.go's read): what the resources of a guest pack ask
    of the host. HostsFile (guest/sdk/hostsfile): the parser and printer of \<open>/etc/hosts\<close>, inverse to each
    other on everything that is read. HostsEntry and Fstab (guest/packs/linux/files_config/main.go): the resources
    \<open>hosts_entry\<close>, \<open>fstab_entry\<close> and \<open>swap\<close>: the host entries as a map, when a created
    entry reads back, and that switching swap off and on restores the file.

  \<^bold>\<open>Interfaces.\<close> \<open>keyed_store\<close> is interpreted on the journal directories; \<open>transition_system\<close> on
  admission control, the connection pool, the reboot journal, the session's threads, the runs of reboots and the
  calls and helpers of a process restart;
  \<open>host_invariant\<close> and \<open>run_invariant\<close> (theory RebootOnce) on the count of reboot commands, the journal's
  well-formedness and the order of a host's history; \<open>refined_ops\<close> on the managed crontab and, as a
  sublocale of \<open>text_files\<close>, on the hosts file; \<open>text_files\<close> and its extension \<open>swap_host\<close> (theories PackHost and
  Fstab) on the executor's file operations; \<open>name_set\<close>
  (theory DestroySafety) on the four sets of protected names.

  \<^bold>\<open>Bounds and fuel.\<close> The loops over finite data are structural. The connection and RPC loops run at
  most the policy's number of attempts, which is their argument. \<open>pollLease\<close> consumes the coming rounds and
  \<open>waitForHost\<close> the coming clock readings: both start with as many as there are, so running out of
  them is the end of the observed run, not a bound of the code (RebootWait shows that the deadline is reached
  before). \<open>int64\<close> durations wrap (\<open>wrap64\<close>).

  \<^bold>\<open>Not modelled.\<close> The SSH client, known-hosts files, process and file I/O (transport/ssh.go,
  executor/capabilities, executor/daemon) are system calls; the WASM host and JSON-RPC dispatch
  (executor/runtime/wasm.go, dispatch.go) are calls into third-party runtimes; the encrypted tunnel is built on
  third-party cryptography. The other resources of files_config (files, symlinks,
  sysctl entries, kernel modules, sshd) and the other guest packs are left out. Contracts, catalog tables, embedded assets and
  build tools are static data or build-time programs. \<open>ToLower\<close>, \<open>ToUpper\<close> and \<open>EqualFold\<close> act on ASCII letters
  only, except that a swap line's type may be spelt with U+017F. The text of \<open>encoding/json\<close> for an attribute without a type of its own is a parameter.
\<close>

end
